(* ===== verification/Marmotte_Prelude.thy ===== *)
theory Marmotte_Prelude
  imports Main "HOL-Library.Word" "HOL-Library.Multiset" "HOL-Library.Char_ord" "HOL-Library.List_Lexorder"
begin

text \<open>
  What every component shares: the collections of rewrite rules, the integer types of the
  code (\<open>i64\<close> columns as \<open>int\<close> with their range written out, \<open>u64\<close> fields as words with
  the code's \<open>as\<close> casts), the decimal rendering that \<open>format!\<close> gives an integer, the
  relational reading of the SQL statements (\<open>sql_update\<close>, \<open>sql_delete\<close>, \<open>sql_limit\<close>,
  \<open>sql_sum\<close>), and lemmas on lists the tables are made of.
\<close>

named_theorems op_simps
  \<open>unfolding of the sequencing operators of database and file operations\<close>
named_theorems keeps_intros
  \<open>rules that an operation keeps an invariant of its state\<close>
named_theorems table_simps
  \<open>what an SQL statement does to the rows of a table\<close>

section \<open>Machine integers\<close>

type_synonym u64 = "64 word"
type_synonym byte = "8 word"
type_synonym bytes = "byte list"

definition i64_min :: int where
  "i64_min = - (2 ^ 63)"

definition i64_max :: int where
  "i64_max = 2 ^ 63 - 1"

definition in_i64 :: "int \<Rightarrow> bool" where
  "in_i64 x \<longleftrightarrow> i64_min \<le> x \<and> x \<le> i64_max"

text \<open>Rust's \<open>x as i64\<close> on a \<open>u64\<close> and \<open>x as u64\<close> on an \<open>i64\<close>: both keep the bits.\<close>

definition as_i64 :: "u64 \<Rightarrow> int" where
  "as_i64 w = sint w"

definition as_u64 :: "int \<Rightarrow> u64" where
  "as_u64 x = word_of_int x"

text \<open>\<open>i64\<close> arithmetic in a release build: the result modulo \<open>2 ^ 64\<close>.\<close>

definition wrap_i64 :: "int \<Rightarrow> int" where
  "wrap_i64 x = as_i64 (as_u64 x)"

lemma wrap_i64_small: "in_i64 x \<Longrightarrow> wrap_i64 x = x"
  by (simp add: wrap_i64_def as_i64_def as_u64_def in_i64_def i64_min_def i64_max_def
      signed_take_bit_int_eq_self sint_sbintrunc')

lemma in_i64_as_i64 [simp]: "in_i64 (as_i64 w)"
  using sint_ge [of w] sint_lt [of w] by (simp add: in_i64_def i64_min_def i64_max_def as_i64_def)

lemma in_i64_wrap [simp]: "in_i64 (wrap_i64 x)"
  by (simp add: wrap_i64_def)

lemma in_i64_nonneg: "0 \<le> x \<Longrightarrow> x < 2 ^ 63 \<Longrightarrow> in_i64 x"
  by (simp add: in_i64_def i64_min_def i64_max_def)

lemma as_i64_small: "unat w < 2 ^ 63 \<Longrightarrow> as_i64 w = int (unat w)"
proof -
  assume small: "unat w < 2 ^ 63"
  have "int (unat w) < int (2 ^ 63)" using small by (simp only: of_nat_less_iff)
  then have "uint w < 2 ^ 63" by simp
  then have "signed_take_bit 63 (uint w) = uint w"
    by (intro signed_take_bit_int_eq_self) (simp_all add: order_trans [OF _ uint_ge_0])
  then show ?thesis by (simp add: as_i64_def sint_uint)
qed

lemma unat_as_u64: "0 \<le> x \<Longrightarrow> x < 2 ^ 64 \<Longrightarrow> unat (as_u64 x) = nat x"
  by (simp add: as_u64_def unat_eq_nat_uint uint_word_of_int)

section \<open>Decimal rendering\<close>

fun dec_nat :: "nat \<Rightarrow> string" where
  "dec_nat n =
     (if n < 10 then [char_of (48 + n)] else dec_nat (n div 10) @ [char_of (48 + n mod 10)])"

declare dec_nat.simps [simp del]

definition dec_int :: "int \<Rightarrow> string" where
  "dec_int i = (if i < 0 then ''-'' @ dec_nat (nat (- i)) else dec_nat (nat i))"

section \<open>SQL statements on a table, read as lists of rows\<close>

text \<open>\<open>UPDATE t SET ... WHERE c\<close>: every matching row is rewritten in place.\<close>

definition sql_update :: "('r \<Rightarrow> bool) \<Rightarrow> ('r \<Rightarrow> 'r) \<Rightarrow> 'r list \<Rightarrow> 'r list" where
  "sql_update c f rs = map (\<lambda>r. if c r then f r else r) rs"

text \<open>\<open>DELETE FROM t WHERE c\<close>.\<close>

definition sql_delete :: "('r \<Rightarrow> bool) \<Rightarrow> 'r list \<Rightarrow> 'r list" where
  "sql_delete c rs = filter (\<lambda>r. \<not> c r) rs"

text \<open>The number of rows a \<open>WHERE c\<close> selects (\<open>rows_affected\<close> of an update or a delete).\<close>

definition sql_count :: "('r \<Rightarrow> bool) \<Rightarrow> 'r list \<Rightarrow> nat" where
  "sql_count c rs = length (filter c rs)"

text \<open>\<open>LIMIT n\<close>: a negative limit is no limit.\<close>

definition sql_limit :: "int \<Rightarrow> 'r list \<Rightarrow> 'r list" where
  "sql_limit n rs = (if n < 0 then rs else take (nat n) rs)"

text \<open>
  \<open>SUM(c)\<close> over integers: SQLite adds in 64 bits and raises \<open>integer overflow\<close>
  (here \<open>None\<close>) when a partial sum leaves the range.
\<close>

fun sql_sum_from :: "int \<Rightarrow> int list \<Rightarrow> int option" where
  "sql_sum_from acc [] = Some acc"
| "sql_sum_from acc (x # xs) = (if in_i64 (acc + x) then sql_sum_from (acc + x) xs else None)"

definition sql_sum :: "int list \<Rightarrow> int option" where
  "sql_sum xs = sql_sum_from 0 xs"

lemma sql_sum_from_fits:
  assumes "\<forall>x\<in>set xs. 0 \<le> x" and "0 \<le> acc" and "acc + sum_list xs < 2 ^ 63"
  shows "sql_sum_from acc xs = Some (acc + sum_list xs)"
  using assms
proof (induction xs arbitrary: acc)
  case Nil
  then show ?case by simp
next
  case (Cons x xs)
  have "0 \<le> sum_list xs" using Cons.prems(1) by (simp add: sum_list_nonneg)
  moreover have "0 \<le> acc + x" using Cons.prems by simp
  ultimately have "in_i64 (acc + x)"
    using Cons.prems(3) by (intro in_i64_nonneg) simp_all
  then show ?case using Cons.IH [of "acc + x"] Cons.prems by (simp add: add.assoc)
qed

lemma sql_sum_fits:
  "\<forall>x\<in>set xs. 0 \<le> x \<Longrightarrow> sum_list xs < 2 ^ 63 \<Longrightarrow> sql_sum xs = Some (sum_list xs)"
  by (simp add: sql_sum_def sql_sum_from_fits)

lemma sql_sum_from_Some: "sql_sum_from acc xs = Some v \<Longrightarrow> v = acc + sum_list xs"
  by (induction xs arbitrary: acc) (fastforce split: if_splits)+

lemma sql_sum_Some: "sql_sum xs = Some v \<Longrightarrow> v = sum_list xs"
  by (auto simp: sql_sum_def dest: sql_sum_from_Some)

lemma set_sql_update [simp]: "set (sql_update c f rs) = (\<lambda>r. if c r then f r else r) ` set rs"
  by (simp add: sql_update_def)

lemma set_sql_delete [simp]: "set (sql_delete c rs) = {r \<in> set rs. \<not> c r}"
  by (auto simp: sql_delete_def)

lemma length_sql_update [simp]: "length (sql_update c f rs) = length rs"
  by (simp add: sql_update_def)

lemma map_sql_update:
  "(\<And>r. c r \<Longrightarrow> k (f r) = k r) \<Longrightarrow> map k (sql_update c f rs) = map k rs"
  by (simp add: sql_update_def)

lemma sql_count_zero: "sql_count c rs = 0 \<longleftrightarrow> (\<forall>r\<in>set rs. \<not> c r)"
  by (simp add: sql_count_def filter_empty_conv)

lemma sql_delete_none: "\<forall>r\<in>set rs. \<not> c r \<Longrightarrow> sql_delete c rs = rs"
  by (simp add: sql_delete_def)

lemma sql_update_none: "\<forall>r\<in>set rs. \<not> c r \<Longrightarrow> sql_update c f rs = rs"
  by (simp add: sql_update_def map_idI)

lemma distinct_map_sql_delete:
  "distinct (map k rs) \<Longrightarrow> distinct (map k (sql_delete c rs))"
  by (simp add: sql_delete_def distinct_map_filter)

lemma length_sql_delete_less: "r \<in> set rs \<Longrightarrow> c r \<Longrightarrow> length (sql_delete c rs) < length rs"
  unfolding sql_delete_def by (rule length_filter_less [of r]) auto

section \<open>Rows with a unique key\<close>

lemma distinct_map_eq:
  "distinct (map k rs) \<Longrightarrow> r \<in> set rs \<Longrightarrow> r' \<in> set rs \<Longrightarrow> k r = k r' \<Longrightarrow> r = r'"
  by (auto simp: distinct_map dest: inj_onD)

lemma find_unique_row:
  assumes "r \<in> set rs" and "P r" and "\<And>x. x \<in> set rs \<Longrightarrow> P x \<Longrightarrow> x = r"
  shows "find P rs = Some r"
proof (cases "find P rs")
  case None
  then show ?thesis using assms(1,2) by (auto simp: find_None_iff)
next
  case (Some y)
  then have "y \<in> set rs" and "P y"
    by (auto simp: find_Some_iff in_set_conv_nth)
  then show ?thesis using Some assms(3) by simp
qed

lemma find_unique: "distinct (map k rs) \<Longrightarrow> r \<in> set rs \<Longrightarrow> find (\<lambda>x. k x = k r) rs = Some r"
  by (rule find_unique_row) (auto dest: distinct_map_eq)

lemma find_SomeD: "find P rs = Some r \<Longrightarrow> r \<in> set rs \<and> P r"
  by (auto simp: find_Some_iff in_set_conv_nth)

lemma find_NoneD: "find P rs = None \<Longrightarrow> r \<in> set rs \<Longrightarrow> \<not> P r"
  by (auto simp: find_None_iff)

lemma distinct_snoc:
  "distinct (map k rs) \<Longrightarrow> k r \<notin> k ` set rs \<Longrightarrow> distinct (map k (rs @ [r]))"
  by simp

lemma sum_list_filter_split:
  "sum_list (map f (filter P xs)) + sum_list (map f (filter (\<lambda>x. \<not> P x) xs)) = sum_list (map f xs)"
  for f :: "'x \<Rightarrow> int"
  by (induction xs) auto

lemma sum_list_filter_le:
  "\<forall>x\<in>set xs. 0 \<le> f x \<Longrightarrow> sum_list (map f (filter P xs)) \<le> sum_list (map f xs)"
  for f :: "'x \<Rightarrow> int"
  by (induction xs) auto

lemma length_filter_split:
  "length (filter P xs) + length (filter (\<lambda>x. \<not> P x) xs) = length xs"
  by (induction xs) auto

end
