(* ===== verification/Core_Error.thy ===== *)
theory Core_Error
  imports Marmotte_Prelude
begin

text \<open>
  The error type of \<open>marmotte-core\<close> (\<open>error.rs\<close>) and the shape of every fallible, stateful
  operation of the model. An operation takes the state and returns an outcome and the state
  it leaves: \<open>Ok\<close> and \<open>Err\<close> are Rust's \<open>Result\<close>, \<open>Panic\<close> is a panic of the code. The
  state is returned in every case, since a function that fails half way keeps what it has
  already written, unless it ran in a transaction (\<open>transaction\<close>), which rolls back when it
  is dropped before \<open>commit\<close>.
\<close>

section \<open>Errors\<close>

datatype io_kind = IoNotFound | IoAlreadyExists | IoInvalidData | IoOther

datatype io_error = IoError (io_error_kind: io_kind) (io_error_msg: string)

text \<open>
  The errors of \<open>sqlx\<close> that the statements of this program can raise by themselves, and the failure
  to open a database.
\<close>

datatype sqlx_error =
    UniqueViolation string
  | ForeignKeyViolation
  | IntegerOverflow
  | ColumnDecode string string
  | CannotOpen string

datatype core_error =
    NotFound string
  | Forbidden string
  | Unauthorized
  | Conflict string
  | InvalidInput string
  | Quota string
  | Database sqlx_error
  | Migration string
  | Io io_error
  | Crypto string
  | Config string
  | Internal string

text \<open>
  \<open>Display\<close> of the error, from the \<open>#[error(...)]\<close> attributes; the texts of the wrapped
  \<open>sqlx\<close> and \<open>std::io\<close> errors are parameters.
\<close>

fun core_error_display :: "(sqlx_error \<Rightarrow> string) \<Rightarrow> (io_error \<Rightarrow> string) \<Rightarrow> core_error \<Rightarrow> string" where
  "core_error_display sq io (NotFound what) = ''not found: '' @ what"
| "core_error_display sq io (Forbidden reason) = ''forbidden: '' @ reason"
| "core_error_display sq io Unauthorized = ''unauthorized''"
| "core_error_display sq io (Conflict what) = ''conflict: '' @ what"
| "core_error_display sq io (InvalidInput m) = ''invalid input: '' @ m"
| "core_error_display sq io (Quota m) = ''quota: '' @ m"
| "core_error_display sq io (Database e) = ''database error: '' @ sq e"
| "core_error_display sq io (Migration m) = ''migration error: '' @ m"
| "core_error_display sq io (Io e) = ''io error: '' @ io e"
| "core_error_display sq io (Crypto m) = ''crypto error: '' @ m"
| "core_error_display sq io (Config m) = ''config error: '' @ m"
| "core_error_display sq io (Internal m) = ''internal error: '' @ m"

section \<open>Operations\<close>

datatype 'a outcome = Ok 'a | Err core_error | Panic

type_synonym ('s, 'a) op = "'s \<Rightarrow> 'a outcome \<times> 's"

definition ret :: "'a \<Rightarrow> ('s, 'a) op" where
  "ret a = (\<lambda>s. (Ok a, s))"

definition fail :: "core_error \<Rightarrow> ('s, 'a) op" where
  "fail e = (\<lambda>s. (Err e, s))"

text \<open>Sequencing with the \<open>?\<close> operator: the first error is returned, with the state it left.\<close>

definition andthen :: "('s, 'a) op \<Rightarrow> ('a \<Rightarrow> ('s, 'b) op) \<Rightarrow> ('s, 'b) op" where
  "andthen m f = (\<lambda>s. case m s of
      (Ok a, s') \<Rightarrow> f a s'
    | (Err e, s') \<Rightarrow> (Err e, s')
    | (Panic, s') \<Rightarrow> (Panic, s'))"

text \<open>A query: reads the state, leaves it unchanged.\<close>

definition query :: "('s \<Rightarrow> 'a outcome) \<Rightarrow> ('s, 'a) op" where
  "query q = (\<lambda>s. (q s, s))"

text \<open>\<open>begin ... commit\<close>: dropped before the commit, the transaction rolls back.\<close>

definition transaction :: "('s, 'a) op \<Rightarrow> ('s, 'a) op" where
  "transaction m = (\<lambda>s. case m s of
      (Ok a, s') \<Rightarrow> (Ok a, s')
    | (Err e, _) \<Rightarrow> (Err e, s)
    | (Panic, _) \<Rightarrow> (Panic, s))"

text \<open>A \<open>for\<close> loop whose body threads an accumulator and may return early with \<open>?\<close>.\<close>

primrec foreach :: "('x \<Rightarrow> 'r \<Rightarrow> ('s, 'r) op) \<Rightarrow> 'x list \<Rightarrow> 'r \<Rightarrow> ('s, 'r) op" where
  "foreach f [] r = ret r"
| "foreach f (x # xs) r = andthen (f x r) (foreach f xs)"

lemma ret_apply [simp, op_simps]: "ret a s = (Ok a, s)"
  by (simp add: ret_def)

lemma fail_apply [simp, op_simps]: "fail e s = (Err e, s)"
  by (simp add: fail_def)

lemma query_apply [simp, op_simps]: "query q s = (q s, s)"
  by (simp add: query_def)

lemma andthen_Ok [simp, op_simps]: "m s = (Ok a, s') \<Longrightarrow> andthen m f s = f a s'"
  by (simp add: andthen_def)

lemma andthen_Err [simp, op_simps]: "m s = (Err e, s') \<Longrightarrow> andthen m f s = (Err e, s')"
  by (simp add: andthen_def)

lemma andthen_Panic [simp, op_simps]: "m s = (Panic, s') \<Longrightarrow> andthen m f s = (Panic, s')"
  by (simp add: andthen_def)

lemma andthen_OkE:
  assumes "andthen m f s = (Ok b, s')"
  obtains a s1 where "m s = (Ok a, s1)" and "f a s1 = (Ok b, s')"
  using assms by (auto simp: andthen_def split: prod.splits outcome.splits)

lemma transaction_Ok_iff [simp]: "transaction m s = (Ok a, s') \<longleftrightarrow> m s = (Ok a, s')"
  by (auto simp: transaction_def split: prod.splits outcome.splits)

lemma transaction_Err_iff: "transaction m s = (Err e, s') \<longleftrightarrow> fst (m s) = Err e \<and> s' = s"
  by (auto simp: transaction_def split: prod.splits outcome.splits)

lemma transaction_atomic: "\<not> (\<exists>a. fst (transaction m s) = Ok a) \<Longrightarrow> snd (transaction m s) = s"
  by (auto simp: transaction_def split: prod.splits outcome.splits)

section \<open>Operations that keep an invariant\<close>

definition keeps :: "('s \<Rightarrow> bool) \<Rightarrow> ('s, 'a) op \<Rightarrow> bool" where
  "keeps I m \<longleftrightarrow> (\<forall>s. I s \<longrightarrow> I (snd (m s)))"

lemma keepsI [intro?]: "(\<And>s. I s \<Longrightarrow> I (snd (m s))) \<Longrightarrow> keeps I m"
  by (simp add: keeps_def)

lemma keepsD: "keeps I m \<Longrightarrow> I s \<Longrightarrow> I (snd (m s))"
  by (simp add: keeps_def)

lemma keepsE: "keeps I m \<Longrightarrow> I s \<Longrightarrow> m s = (r, s') \<Longrightarrow> I s'"
  by (auto simp: keeps_def dest: spec [of _ s])

lemma keeps_ret [keeps_intros]: "keeps I (ret a)"
  by (simp add: keeps_def)

lemma keeps_fail [keeps_intros]: "keeps I (fail e)"
  by (simp add: keeps_def)

lemma keeps_query [keeps_intros]: "keeps I (query q)"
  by (simp add: keeps_def)

lemma keeps_andthen [keeps_intros]:
  assumes "keeps I m" and "\<And>a. keeps I (f a)"
  shows "keeps I (andthen m f)"
proof
  fix s
  assume I: "I s"
  obtain r s1 where m: "m s = (r, s1)" by fastforce
  then have "I s1" using assms(1) I by (auto dest: keepsD)
  then show "I (snd (andthen m f s))"
    using m assms(2) by (cases r) (auto simp: keeps_def)
qed

text \<open>What a query returns may be used: it holds of a state that satisfies the invariant.\<close>

lemma keeps_query_then:
  assumes "\<And>s a. I s \<Longrightarrow> q s = Ok a \<Longrightarrow> keeps I (f a)"
  shows "keeps I (andthen (query q) f)"
proof
  fix s
  assume I: "I s"
  then show "I (snd (andthen (query q) f s))"
    using assms [OF I] by (cases "q s") (auto simp: andthen_def keeps_def)
qed

lemma keeps_transaction [keeps_intros]: "keeps I m \<Longrightarrow> keeps I (transaction m)"
  by (auto simp: keeps_def transaction_def split: prod.splits outcome.splits)

lemma keeps_foreach [keeps_intros]:
  "(\<And>x r. x \<in> set xs \<Longrightarrow> keeps I (f x r)) \<Longrightarrow> keeps I (foreach f xs r)"
  by (induction xs arbitrary: r) (auto intro: keeps_intros)

end
