(* ===== verification/Models.thy ===== *)
theory Models
  imports Core_Error
begin

text \<open>
  The domain types of \<open>models.rs\<close>. Each struct is a record whose fields carry the struct's
  initial as a prefix (the bare names clash with HOL constants such as \<open>id\<close>); \<open>i64\<close> fields
  are \<open>int\<close>, \<open>Option\<close> is \<open>option\<close>.
\<close>

section \<open>Roles and kinds\<close>

datatype role = Read | Write

fun role_as_str :: "role \<Rightarrow> string" where
  "role_as_str Read = ''read''"
| "role_as_str Write = ''write''"

definition role_from_str :: "string \<Rightarrow> role outcome" where
  "role_from_str s =
     (if s = ''read'' then Ok Read
      else if s = ''write'' then Ok Write
      else Err (InvalidInput (''unknown role: '' @ s)))"

fun allows_read :: "role \<Rightarrow> bool" where
  "allows_read Read = True"
| "allows_read Write = True"

fun allows_write :: "role \<Rightarrow> bool" where
  "allows_write Read = False"
| "allows_write Write = True"

datatype kind = Sstate | Downloads

fun kind_as_str :: "kind \<Rightarrow> string" where
  "kind_as_str Sstate = ''sstate''"
| "kind_as_str Downloads = ''downloads''"

definition kind_from_str :: "string \<Rightarrow> kind outcome" where
  "kind_from_str s =
     (if s = ''sstate'' then Ok Sstate
      else if s = ''downloads'' then Ok Downloads
      else Err (InvalidInput (''unknown kind: '' @ s)))"

section \<open>Rows\<close>

record project =
  p_id :: int
  p_name :: string
  p_quota_bytes :: "int option"
  p_ttl_seconds :: "int option"
  p_created_at :: int

record api_key =
  k_id :: int
  k_project_id :: int
  k_key_lookup :: string
  k_key_hash :: string
  k_role :: role
  k_label :: "string option"
  k_created_at :: int
  k_revoked_at :: "int option"

record admin_token =
  t_id :: int
  t_token_lookup :: string
  t_token_hash :: string
  t_label :: "string option"
  t_created_at :: int
  t_revoked_at :: "int option"

record blob =
  b_hash :: string
  b_size_bytes :: int
  b_refcount :: int
  b_created_at :: int

record entry =
  e_id :: int
  e_project_id :: int
  e_kind :: kind
  e_path :: string
  e_blob_hash :: string
  e_size_bytes :: int
  e_created_at :: int
  e_last_accessed :: int
  e_pinned :: bool

section \<open>The textual forms are inverse to the parsers\<close>

lemma role_from_as_str: "role_from_str (role_as_str r) = Ok r"
  by (cases r) (simp_all add: role_from_str_def)

lemma role_from_str_Ok: "role_from_str s = Ok r \<longleftrightarrow> s = role_as_str r"
  by (cases r) (auto simp: role_from_str_def)

lemma kind_from_as_str: "kind_from_str (kind_as_str k) = Ok k"
  by (cases k) (simp_all add: kind_from_str_def)

lemma kind_from_str_Ok: "kind_from_str s = Ok k \<longleftrightarrow> s = kind_as_str k"
  by (cases k) (auto simp: kind_from_str_def)

lemma write_implies_read: "allows_write r \<Longrightarrow> allows_read r"
  by (cases r) auto

end
