(* ===== verification/Db_Schema.thy ===== *)
theory Db_Schema
  imports Models
begin

text \<open>
  The SQLite database (\<open>migrations/0001_init.sql\<close> and \<open>db/mod.rs\<close>): one list of rows per
  table, in insertion order, and for each \<open>AUTOINCREMENT\<close> table the largest id ever used.
  \<open>wf_db\<close> collects what the schema's constraints promise (\<open>UNIQUE\<close>, \<open>REFERENCES\<close>) together
  with what the repositories maintain on top of them: sizes are not negative and a blob's
  \<open>refcount\<close> is never below the number of entries that point to it. \<open>refs_exact\<close> is the
  stronger claim of \<open>db/entries.rs\<close> that the two numbers agree.
\<close>

section \<open>Tables\<close>

record stats_row =
  sc_project_id :: "int option"
  sc_kind :: string
  sc_bucket_day :: int
  sc_count :: int
  sc_bytes :: int

record audit_row =
  au_id :: int
  au_timestamp :: int
  au_actor_token :: "string option"
  au_action :: string
  au_target :: "string option"
  au_detail_json :: "string option"

record db =
  db_projects :: "project list"
  db_project_seq :: int
  db_api_keys :: "api_key list"
  db_api_key_seq :: int
  db_admin_tokens :: "admin_token list"
  db_admin_token_seq :: int
  db_blobs :: "blob list"
  db_entries :: "entry list"
  db_entry_seq :: int
  db_stats_counters :: "stats_row list"
  db_audit_log :: "audit_row list"
  db_audit_seq :: int

text \<open>The database after the migrations have run on a new file.\<close>

definition db_empty :: db where
  "db_empty = \<lparr>
     db_projects = [], db_project_seq = 0,
     db_api_keys = [], db_api_key_seq = 0,
     db_admin_tokens = [], db_admin_token_seq = 0,
     db_blobs = [],
     db_entries = [], db_entry_seq = 0,
     db_stats_counters = [],
     db_audit_log = [], db_audit_seq = 0\<rparr>"

text \<open>The columns of \<open>UNIQUE(project_id, kind, path)\<close>.\<close>

definition entry_key :: "entry \<Rightarrow> int \<times> kind \<times> string" where
  "entry_key e = (e_project_id e, e_kind e, e_path e)"

section \<open>References and their count\<close>

definition refs :: "entry list \<Rightarrow> string \<Rightarrow> int" where
  "refs es h = int (length (filter (\<lambda>e. e_blob_hash e = h) es))"

definition blob_at :: "db \<Rightarrow> string \<Rightarrow> blob option" where
  "blob_at d h = find (\<lambda>b. b_hash b = h) (db_blobs d)"

definition has_blob :: "db \<Rightarrow> string \<Rightarrow> bool" where
  "has_blob d h \<longleftrightarrow> h \<in> b_hash ` set (db_blobs d)"

definition has_project :: "db \<Rightarrow> int \<Rightarrow> bool" where
  "has_project d pid \<longleftrightarrow> pid \<in> p_id ` set (db_projects d)"

definition wf_projects :: "db \<Rightarrow> bool" where
  "wf_projects d \<longleftrightarrow>
     distinct (map p_id (db_projects d)) \<and> distinct (map p_name (db_projects d)) \<and>
     (\<forall>p\<in>set (db_projects d). p_id p \<le> db_project_seq d)"

definition wf_api_keys :: "db \<Rightarrow> bool" where
  "wf_api_keys d \<longleftrightarrow>
     distinct (map k_id (db_api_keys d)) \<and> distinct (map k_key_lookup (db_api_keys d)) \<and>
     (\<forall>k\<in>set (db_api_keys d). k_id k \<le> db_api_key_seq d \<and> has_project d (k_project_id k))"

definition wf_admin_tokens :: "db \<Rightarrow> bool" where
  "wf_admin_tokens d \<longleftrightarrow>
     distinct (map t_id (db_admin_tokens d)) \<and> distinct (map t_token_lookup (db_admin_tokens d)) \<and>
     (\<forall>t\<in>set (db_admin_tokens d). t_id t \<le> db_admin_token_seq d)"

definition wf_blobs :: "db \<Rightarrow> bool" where
  "wf_blobs d \<longleftrightarrow>
     distinct (map b_hash (db_blobs d)) \<and>
     (\<forall>b\<in>set (db_blobs d). 0 \<le> b_size_bytes b \<and> refs (db_entries d) (b_hash b) \<le> b_refcount b)"

definition wf_entries :: "db \<Rightarrow> bool" where
  "wf_entries d \<longleftrightarrow>
     distinct (map e_id (db_entries d)) \<and> distinct (map entry_key (db_entries d)) \<and>
     (\<forall>e\<in>set (db_entries d). e_id e \<le> db_entry_seq d \<and> 0 \<le> e_size_bytes e \<and>
        has_project d (e_project_id e) \<and> has_blob d (e_blob_hash e))"

definition wf_db :: "db \<Rightarrow> bool" where
  "wf_db d \<longleftrightarrow>
     wf_projects d \<and> wf_api_keys d \<and> wf_admin_tokens d \<and> wf_blobs d \<and> wf_entries d"

definition refs_exact :: "db \<Rightarrow> bool" where
  "refs_exact d \<longleftrightarrow> (\<forall>b\<in>set (db_blobs d). b_refcount b = refs (db_entries d) (b_hash b))"

text \<open>
  The \<open>refcount\<close> column of a hash, \<open>0\<close> where there is no row, and by how much it exceeds the
  references that entries hold.
\<close>

definition refcount :: "db \<Rightarrow> string \<Rightarrow> int" where
  "refcount d h = (case blob_at d h of None \<Rightarrow> 0 | Some b \<Rightarrow> b_refcount b)"

definition leak :: "db \<Rightarrow> string \<Rightarrow> int" where
  "leak d h = refcount d h - refs (db_entries d) h"

lemmas wf_db_defs = wf_db_def wf_projects_def wf_api_keys_def wf_admin_tokens_def
  wf_blobs_def wf_entries_def

text \<open>The tables of projects and credentials, which the cache operations leave alone.\<close>

definition accounts ::
  "db \<Rightarrow> project list \<times> int \<times> api_key list \<times> int \<times> admin_token list \<times> int" where
  "accounts d =
     (db_projects d, db_project_seq d, db_api_keys d, db_api_key_seq d,
      db_admin_tokens d, db_admin_token_seq d)"

lemma has_project_accounts: "accounts d' = accounts d \<Longrightarrow> has_project d' pid = has_project d pid"
  by (simp add: accounts_def has_project_def)

lemma wf_dbI:
  assumes "wf_db d" and "accounts d' = accounts d" and "wf_blobs d'" and "wf_entries d'"
  shows "wf_db d'"
  using assms has_project_accounts [OF assms(2)]
  by (simp add: wf_db_def wf_projects_def wf_api_keys_def wf_admin_tokens_def accounts_def)

lemma wf_db_empty: "wf_db db_empty"
  by (simp add: wf_db_defs db_empty_def)

lemma refs_exact_empty: "refs_exact db_empty"
  by (simp add: refs_exact_def db_empty_def)

section \<open>Lemmas on references\<close>

lemma refs_Nil [simp]: "refs [] h = 0"
  by (simp add: refs_def)

lemma refs_Cons [simp]: "refs (e # es) h = (if e_blob_hash e = h then 1 else 0) + refs es h"
  by (simp add: refs_def)

lemma refs_append [simp]: "refs (es @ es') h = refs es h + refs es' h"
  by (simp add: refs_def)

lemma refs_nonneg [simp]: "0 \<le> refs es h"
  by (simp add: refs_def)

lemma refs_zero_iff: "refs es h = 0 \<longleftrightarrow> (\<forall>e\<in>set es. e_blob_hash e \<noteq> h)"
  by (simp add: refs_def filter_empty_conv)

lemma refs_filter_split:
  "refs (filter P es) h + refs (filter (\<lambda>e. \<not> P e) es) h = refs es h"
  by (induction es) auto

lemma refs_filter_le: "refs (filter P es) h \<le> refs es h"
  by (induction es) auto

lemma refs_filter_mono:
  "(\<And>e. e \<in> set es \<Longrightarrow> P e \<Longrightarrow> Q e) \<Longrightarrow> refs (filter P es) h \<le> refs (filter Q es) h"
  by (induction es) auto

lemma refs_update:
  "(\<And>e. e_blob_hash (f e) = e_blob_hash e) \<Longrightarrow> refs (sql_update c f es) h = refs es h"
  by (induction es) (auto simp: sql_update_def)

lemma refs_delete_row:
  assumes "distinct (map e_id es)" and "e \<in> set es"
  shows "refs (sql_delete (\<lambda>x. e_id x = e_id e) es) h =
    refs es h - (if e_blob_hash e = h then 1 else 0)"
  using assms
proof (induction es)
  case Nil
  then show ?case by simp
next
  case (Cons x es)
  show ?case
  proof (cases "x = e")
    case True
    then have "\<forall>y\<in>set es. e_id y \<noteq> e_id e" using Cons.prems(1) by (auto simp: image_iff)
    then have "filter (\<lambda>y. e_id y \<noteq> e_id e) es = es" by (simp add: filter_id_conv)
    then show ?thesis using True by (simp add: sql_delete_def)
  next
    case False
    then have e: "e \<in> set es" using Cons.prems(2) by simp
    then have "e_id x \<noteq> e_id e" using Cons.prems(1) by (auto simp: image_iff)
    then show ?thesis using Cons e by (simp add: sql_delete_def)
  qed
qed

lemma refs_update_row:
  assumes "distinct (map k es)" and "e \<in> set es"
  shows "refs (sql_update (\<lambda>x. k x = k e) f es) h =
    refs es h - (if e_blob_hash e = h then 1 else 0) + (if e_blob_hash (f e) = h then 1 else 0)"
  using assms
proof (induction es)
  case Nil
  then show ?case by simp
next
  case (Cons x es)
  show ?case
  proof (cases "x = e")
    case True
    then have "\<forall>y\<in>set es. k y \<noteq> k e" using Cons.prems(1) by (auto simp: image_iff)
    then have "sql_update (\<lambda>x. k x = k e) f es = es" by (rule sql_update_none)
    then show ?thesis using True by (simp add: sql_update_def)
  next
    case False
    then have e: "e \<in> set es" using Cons.prems(2) by simp
    then have "k x \<noteq> k e" using Cons.prems(1) by (auto simp: image_iff)
    then show ?thesis using Cons e by (simp add: sql_update_def)
  qed
qed

section \<open>Lemmas on blob rows\<close>

lemma blob_at_None_iff: "blob_at d h = None \<longleftrightarrow> \<not> has_blob d h"
  by (auto simp: blob_at_def has_blob_def find_None_iff)

lemma blob_at_Some: "blob_at d h = Some b \<Longrightarrow> b \<in> set (db_blobs d) \<and> b_hash b = h"
  by (auto simp: blob_at_def dest: find_SomeD)

lemma blob_at_has: "blob_at d h = Some b \<Longrightarrow> has_blob d h"
  by (auto simp: has_blob_def dest: blob_at_Some)

lemma has_blobE:
  assumes "has_blob d h"
  obtains b where "blob_at d h = Some b"
  using assms by (cases "blob_at d h") (auto simp: blob_at_None_iff)

lemma has_blob_update:
  assumes "\<And>b. b_hash (f b) = b_hash b"
  shows "has_blob (d\<lparr>db_blobs := sql_update c f (db_blobs d)\<rparr>) h \<longleftrightarrow> has_blob d h"
proof -
  have "set (map b_hash (sql_update c f (db_blobs d))) = set (map b_hash (db_blobs d))"
    by (simp only: map_sql_update [of c b_hash f] assms)
  then show ?thesis by (simp add: has_blob_def del: set_sql_update)
qed

lemma blob_at_row:
  "distinct (map b_hash (db_blobs d)) \<Longrightarrow> b \<in> set (db_blobs d) \<Longrightarrow> blob_at d (b_hash b) = Some b"
  by (simp add: blob_at_def find_unique)

lemma wf_blob_row: "wf_db d \<Longrightarrow> b \<in> set (db_blobs d) \<Longrightarrow> blob_at d (b_hash b) = Some b"
  by (simp add: wf_db_def wf_blobs_def blob_at_row)

lemma refcount_row:
  "distinct (map b_hash (db_blobs d)) \<Longrightarrow> b \<in> set (db_blobs d) \<Longrightarrow> refcount d (b_hash b) = b_refcount b"
  by (simp add: refcount_def blob_at_row)

lemma refcount_no_blob: "\<not> has_blob d h \<Longrightarrow> refcount d h = 0"
  by (simp add: refcount_def blob_at_None_iff [THEN iffD2])

lemma wf_refs_le:
  assumes "wf_db d"
  shows "refs (db_entries d) h \<le> refcount d h"
proof (cases "blob_at d h")
  case None
  then have "refs (db_entries d) h = 0"
    using assms by (auto simp: refs_zero_iff blob_at_None_iff wf_db_def wf_entries_def)
  then show ?thesis using None by (simp add: refcount_def)
next
  case (Some b)
  then show ?thesis
    using assms by (auto simp: refcount_def wf_db_def wf_blobs_def dest!: blob_at_Some)
qed

lemma leak_nonneg: "wf_db d \<Longrightarrow> 0 \<le> leak d h"
  by (simp add: leak_def wf_refs_le)

lemma refs_exact_leak:
  assumes "wf_db d"
  shows "refs_exact d \<longleftrightarrow> (\<forall>h. leak d h = 0)"
proof
  assume ex: "refs_exact d"
  show "\<forall>h. leak d h = 0"
  proof
    fix h
    show "leak d h = 0"
    proof (cases "blob_at d h")
      case None
      then have "refcount d h = 0" by (simp add: refcount_def)
      then show ?thesis
        using wf_refs_le [OF assms, of h] refs_nonneg [of "db_entries d" h]
        by (simp add: leak_def del: refs_nonneg)
    next
      case (Some b)
      then show ?thesis
        using ex by (auto simp: refs_exact_def leak_def refcount_def dest!: blob_at_Some)
    qed
  qed
next
  assume none: "\<forall>h. leak d h = 0"
  show "refs_exact d"
    unfolding refs_exact_def
  proof
    fix b
    assume "b \<in> set (db_blobs d)"
    then have "refcount d (b_hash b) = b_refcount b"
      using assms by (simp add: wf_db_def wf_blobs_def refcount_row)
    moreover have "leak d (b_hash b) = 0" using none by blast
    ultimately show "b_refcount b = refs (db_entries d) (b_hash b)" by (simp add: leak_def)
  qed
qed

lemma wf_entry_blob:
  assumes "wf_db d" and "e \<in> set (db_entries d)"
  obtains b where "blob_at d (e_blob_hash e) = Some b"
  using assms that by (cases "blob_at d (e_blob_hash e)")
    (auto simp: wf_db_def wf_entries_def blob_at_None_iff)

lemma wf_entry_row: "wf_db d \<Longrightarrow> distinct (map e_id (db_entries d))"
  by (simp add: wf_db_def wf_entries_def)

end
