(* ===== verification/Db_Blobs.thy ===== *)
theory Db_Blobs
  imports Db_Schema
begin

text \<open>
  The \<open>blobs\<close> repository (\<open>db/blobs.rs\<close>): the reference-counting primitives that
  \<open>Entries::upsert\<close> and \<open>Entries::delete\<close> call inside their transactions, and the queries
  and the physical delete that the garbage collector uses. The rows of a query without
  \<open>ORDER BY\<close> come in an order SQLite does not promise; the order is a parameter, a rank of the
  rows by which they are sorted.
\<close>

section \<open>Operations\<close>

definition blobs_get :: "string \<Rightarrow> (db, blob option) op" where
  "blobs_get h = query (\<lambda>d. Ok (blob_at d h))"

text \<open>
  \<open>INSERT ... VALUES (h, size_bytes, 1, now) ON CONFLICT(hash) DO UPDATE SET refcount = refcount + 1
  RETURNING (refcount > 1)\<close>.
\<close>

definition upsert_incr :: "int \<Rightarrow> string \<Rightarrow> int \<Rightarrow> (db, bool) op" where
  "upsert_incr now h size_bytes = (\<lambda>d.
     case blob_at d h of
       None \<Rightarrow>
         (Ok False,
          d\<lparr>db_blobs := db_blobs d @
              [\<lparr>b_hash = h, b_size_bytes = size_bytes, b_refcount = 1, b_created_at = now\<rparr>]\<rparr>)
     | Some b \<Rightarrow>
         (Ok (b_refcount b + 1 > 1),
          d\<lparr>db_blobs := sql_update (\<lambda>r. b_hash r = h)
              (\<lambda>r. r\<lparr>b_refcount := b_refcount r + 1\<rparr>) (db_blobs d)\<rparr>))"

definition decr :: "string \<Rightarrow> (db, int) op" where
  "decr h = (\<lambda>d.
     case blob_at d h of
       None \<Rightarrow> (Err (NotFound (''blob '' @ h)), d)
     | Some b \<Rightarrow>
         (Ok (b_refcount b - 1),
          d\<lparr>db_blobs := sql_update (\<lambda>r. b_hash r = h)
              (\<lambda>r. r\<lparr>b_refcount := b_refcount r - 1\<rparr>) (db_blobs d)\<rparr>))"

text \<open>\<open>SELECT hash FROM blobs WHERE refcount = 0 LIMIT ?\<close>, the rows in the order of \<open>rank\<close>.\<close>

definition zero_refcount :: "(string \<Rightarrow> nat) \<Rightarrow> int \<Rightarrow> (db, string list) op" where
  "zero_refcount rank limit = query (\<lambda>d.
     Ok (sql_limit limit
       (sort_key rank (map b_hash (filter (\<lambda>b. b_refcount b = 0) (db_blobs d))))))"

text \<open>\<open>DELETE FROM blobs WHERE hash = ?\<close>; \<open>entries.blob_hash\<close> references the row.\<close>

definition blobs_delete :: "string \<Rightarrow> (db, unit) op" where
  "blobs_delete h = (\<lambda>d.
     if has_blob d h \<and> (\<exists>e\<in>set (db_entries d). e_blob_hash e = h)
     then (Err (Database ForeignKeyViolation), d)
     else (Ok (), d\<lparr>db_blobs := sql_delete (\<lambda>b. b_hash b = h) (db_blobs d)\<rparr>))"

definition total_size :: "(db, int) op" where
  "total_size = query (\<lambda>d.
     case sql_sum (map b_size_bytes (db_blobs d)) of
       None \<Rightarrow> Err (Database IntegerOverflow)
     | Some v \<Rightarrow> Ok v)"

text \<open>Physical bytes: what \<open>total_size\<close> returns where it does not overflow.\<close>

definition blob_bytes :: "db \<Rightarrow> int" where
  "blob_bytes d = sum_list (map b_size_bytes (db_blobs d))"

section \<open>Behaviour\<close>

text \<open>The primitives touch the \<open>blobs\<close> table only.\<close>

lemma upsert_incr_frame [simp]:
  "db_entries (snd (upsert_incr now h sz d)) = db_entries d"
  "db_entry_seq (snd (upsert_incr now h sz d)) = db_entry_seq d"
  "accounts (snd (upsert_incr now h sz d)) = accounts d"
  by (simp_all add: upsert_incr_def accounts_def split: option.split)

lemma decr_frame [simp]:
  "db_entries (snd (decr h d)) = db_entries d"
  "db_entry_seq (snd (decr h d)) = db_entry_seq d"
  "accounts (snd (decr h d)) = accounts d"
  by (simp_all add: decr_def accounts_def split: option.split)

lemma blob_at_update:
  assumes "\<And>b. b_hash (f b) = b_hash b"
  shows "blob_at (d\<lparr>db_blobs := sql_update (\<lambda>r. b_hash r = h) f (db_blobs d)\<rparr>) h' =
    map_option (\<lambda>b. if h' = h then f b else b) (blob_at d h')"
proof -
  have "find (\<lambda>b. b_hash b = h') (sql_update (\<lambda>r. b_hash r = h) f bs) =
    map_option (\<lambda>b. if h' = h then f b else b) (find (\<lambda>b. b_hash b = h') bs)" for bs
    by (induction bs) (auto simp: sql_update_def assms)
  then show ?thesis by (simp add: blob_at_def)
qed

lemma blob_at_snoc:
  "blob_at (d\<lparr>db_blobs := db_blobs d @ [b]\<rparr>) h =
   (case blob_at d h of Some c \<Rightarrow> Some c | None \<Rightarrow> if b_hash b = h then Some b else None)"
proof -
  have "find (\<lambda>b. b_hash b = h) (bs @ [b]) =
    (case find (\<lambda>b. b_hash b = h) bs of Some c \<Rightarrow> Some c
       | None \<Rightarrow> if b_hash b = h then Some b else None)" for bs
    by (induction bs) auto
  then show ?thesis by (simp add: blob_at_def)
qed

lemma upsert_incr_Ok: "\<exists>ex. fst (upsert_incr now h sz d) = Ok ex"
  by (auto simp: upsert_incr_def split: option.splits)

lemma decr_Ok_iff: "(\<exists>n. fst (decr h d) = Ok n) \<longleftrightarrow> has_blob d h"
  by (auto simp: decr_def blob_at_None_iff dest: blob_at_has split: option.splits)

lemma refcount_upsert_incr:
  "refcount (snd (upsert_incr now h sz d)) h' = refcount d h' + (if h' = h then 1 else 0)"
  by (auto simp: upsert_incr_def refcount_def blob_at_update blob_at_snoc split: option.splits)

lemma refcount_decr:
  "has_blob d h \<Longrightarrow>
   refcount (snd (decr h d)) h' = refcount d h' - (if h' = h then 1 else 0)"
  by (erule has_blobE) (auto simp: decr_def refcount_def blob_at_update split: option.splits)

lemma has_blob_upsert_incr:
  "has_blob (snd (upsert_incr now h sz d)) h' \<longleftrightarrow> h' = h \<or> has_blob d h'"
  by (auto simp: upsert_incr_def has_blob_update split: option.splits dest: blob_at_has)
     (auto simp: has_blob_def)

lemma has_blob_decr: "has_blob (snd (decr h d)) h' \<longleftrightarrow> has_blob d h'"
  by (auto simp: decr_def has_blob_update split: option.splits)

lemma sql_limit_set: "set (sql_limit n rs) \<subseteq> set rs"
  by (auto simp: sql_limit_def dest: in_set_takeD)

lemma sql_limit_Nil: "n \<noteq> 0 \<Longrightarrow> sql_limit n rs = [] \<longleftrightarrow> rs = []"
  by (auto simp: sql_limit_def)

lemma distinct_sql_limit: "distinct rs \<Longrightarrow> distinct (sql_limit n rs)"
  by (simp add: sql_limit_def)

definition blob_rows_ok :: "db \<Rightarrow> bool" where
  "blob_rows_ok d \<longleftrightarrow> distinct (map b_hash (db_blobs d)) \<and> (\<forall>b\<in>set (db_blobs d). 0 \<le> b_size_bytes b)"

lemma blob_rows_ok_upsert_incr:
  "blob_rows_ok d \<Longrightarrow> 0 \<le> sz \<Longrightarrow> blob_rows_ok (snd (upsert_incr now h sz d))"
  by (auto simp: blob_rows_ok_def upsert_incr_def map_sql_update blob_at_None_iff has_blob_def
      split: option.split)

lemma blob_rows_ok_decr: "blob_rows_ok d \<Longrightarrow> blob_rows_ok (snd (decr h d))"
  by (auto simp: blob_rows_ok_def decr_def map_sql_update split: option.split)

lemma wf_blobs_iff:
  "wf_blobs d \<longleftrightarrow> blob_rows_ok d \<and> (\<forall>b\<in>set (db_blobs d). 0 \<le> leak d (b_hash b))"
  by (auto simp: wf_blobs_def blob_rows_ok_def leak_def refcount_row)

end
