(* ===== verification/Db_Entries.thy ===== *)
theory Db_Entries
  imports Db_Blobs
begin

text \<open>
  The \<open>entries\<close> repository (\<open>db/entries.rs\<close>, all of it but \<open>list\<close>, which is in
  \<open>Db_Entry_List\<close>): the mapping from \<open>(project, kind, path)\<close> to a blob and the
  reference-count bookkeeping. The clock readings of an operation are its first arguments.
  The lemmas give every branch of every operation, the effect of the writes on rows,
  references and refcounts, and that each of them keeps \<open>wf_db\<close> and every blob's \<open>leak\<close>.
\<close>

section \<open>Operations\<close>

definition entry_at :: "db \<Rightarrow> int \<times> kind \<times> string \<Rightarrow> entry option" where
  "entry_at d key = find (\<lambda>e. entry_key e = key) (db_entries d)"

text \<open>
  The statement \<open>INSERT INTO entries ... ON CONFLICT(project_id, kind, path) DO UPDATE ...
  RETURNING id\<close> with its foreign keys.
\<close>

definition insert_entry :: "int \<Rightarrow> int \<Rightarrow> kind \<Rightarrow> string \<Rightarrow> string \<Rightarrow> int \<Rightarrow> (db, int) op" where
  "insert_entry now project_id kind path blob_hash size_bytes = (\<lambda>d.
     case entry_at d (project_id, kind, path) of
       Some e \<Rightarrow>
         if \<not> has_blob d blob_hash then (Err (Database ForeignKeyViolation), d)
         else
           (Ok (e_id e),
            d\<lparr>db_entries := sql_update (\<lambda>r. entry_key r = (project_id, kind, path))
                (\<lambda>r. r\<lparr>e_blob_hash := blob_hash, e_size_bytes := size_bytes, e_last_accessed := now\<rparr>)
                (db_entries d)\<rparr>)
     | None \<Rightarrow>
         if \<not> has_project d project_id \<or> \<not> has_blob d blob_hash
         then (Err (Database ForeignKeyViolation), d)
         else
           (let new_id = db_entry_seq d + 1 in
            (Ok new_id,
             d\<lparr>db_entries := db_entries d @
                 [\<lparr>e_id = new_id, e_project_id = project_id, e_kind = kind, e_path = path,
                   e_blob_hash = blob_hash, e_size_bytes = size_bytes,
                   e_created_at = now, e_last_accessed = now, e_pinned = False\<rparr>],
               db_entry_seq := new_id\<rparr>)))"

definition upsert ::
  "int \<Rightarrow> int \<Rightarrow> int \<Rightarrow> kind \<Rightarrow> string \<Rightarrow> string \<Rightarrow> int \<Rightarrow> (db, entry) op" where
  "upsert now_blob now project_id kind path new_blob_hash size_bytes =
     transaction
       (andthen (query (\<lambda>d. Ok (entry_at d (project_id, kind, path)))) (\<lambda>prev.
        andthen
          (case prev of
             Some e \<Rightarrow>
               if e_blob_hash e \<noteq> new_blob_hash then
                 andthen (decr (e_blob_hash e)) (\<lambda>_.
                 andthen (upsert_incr now_blob new_blob_hash size_bytes) (\<lambda>_. ret ()))
               else ret ()
           | None \<Rightarrow>
               andthen (upsert_incr now_blob new_blob_hash size_bytes) (\<lambda>_. ret ()))
          (\<lambda>_.
        andthen (insert_entry now project_id kind path new_blob_hash size_bytes) (\<lambda>new_id.
        ret \<lparr>e_id = new_id, e_project_id = project_id, e_kind = kind, e_path = path,
             e_blob_hash = new_blob_hash, e_size_bytes = size_bytes,
             e_created_at = now, e_last_accessed = now, e_pinned = False\<rparr>))))"

definition entries_find :: "int \<Rightarrow> kind \<Rightarrow> string \<Rightarrow> (db, entry option) op" where
  "entries_find project_id kind path = query (\<lambda>d. Ok (entry_at d (project_id, kind, path)))"

definition touch :: "int \<Rightarrow> int \<Rightarrow> (db, unit) op" where
  "touch now entry_id = (\<lambda>d.
     (Ok (), d\<lparr>db_entries := sql_update (\<lambda>r. e_id r = entry_id)
                 (\<lambda>r. r\<lparr>e_last_accessed := now\<rparr>) (db_entries d)\<rparr>))"

definition project_usage :: "int \<Rightarrow> (db, int) op" where
  "project_usage project_id = query (\<lambda>d.
     case sql_sum (map e_size_bytes (filter (\<lambda>e. e_project_id e = project_id) (db_entries d))) of
       None \<Rightarrow> Err (Database IntegerOverflow)
     | Some v \<Rightarrow> Ok v)"

definition entries_delete :: "int \<Rightarrow> int \<Rightarrow> (db, unit) op" where
  "entries_delete project_id entry_id =
     transaction
       (andthen
          (query (\<lambda>d.
             case find (\<lambda>e. e_project_id e = project_id \<and> e_id e = entry_id) (db_entries d) of
               None \<Rightarrow> Err (NotFound (''entry '' @ dec_int entry_id))
             | Some e \<Rightarrow> Ok (e_blob_hash e)))
          (\<lambda>blob_hash.
        andthen
          (\<lambda>d. (Ok (), d\<lparr>db_entries := sql_delete (\<lambda>e. e_id e = entry_id) (db_entries d)\<rparr>))
          (\<lambda>_.
        andthen (decr blob_hash) (\<lambda>_. ret ()))))"

definition set_pinned :: "int \<Rightarrow> int \<Rightarrow> bool \<Rightarrow> (db, unit) op" where
  "set_pinned project_id entry_id pinned = (\<lambda>d.
     let hit = (\<lambda>e. e_project_id e = project_id \<and> e_id e = entry_id) in
     if sql_count hit (db_entries d) = 0
     then (Err (NotFound (''entry '' @ dec_int entry_id)), d)
     else (Ok (), d\<lparr>db_entries := sql_update hit (\<lambda>r. r\<lparr>e_pinned := pinned\<rparr>) (db_entries d)\<rparr>))"

section \<open>Rows by key and by id\<close>

lemma entry_at_Some: "entry_at d key = Some e \<Longrightarrow> e \<in> set (db_entries d) \<and> entry_key e = key"
  by (auto simp: entry_at_def dest: find_SomeD)

lemma entry_at_None: "entry_at d key = None \<longleftrightarrow> key \<notin> entry_key ` set (db_entries d)"
  by (auto simp: entry_at_def find_None_iff)

lemma entry_at_row:
  "wf_db d \<Longrightarrow> e \<in> set (db_entries d) \<Longrightarrow> entry_at d (entry_key e) = Some e"
  by (simp add: entry_at_def find_unique wf_db_def wf_entries_def)

lemma entry_at_cong:
  "db_entries d' = db_entries d \<Longrightarrow> entry_at d' key = entry_at d key"
  by (simp add: entry_at_def)

lemma wf_entry_ids:
  "wf_db d \<Longrightarrow> e \<in> set (db_entries d) \<Longrightarrow> e' \<in> set (db_entries d) \<Longrightarrow> e_id e = e_id e' \<Longrightarrow> e = e'"
  using distinct_map_eq [of e_id "db_entries d"] by (simp add: wf_entry_row)

lemma wf_entry_keys:
  "wf_db d \<Longrightarrow> e \<in> set (db_entries d) \<Longrightarrow> e' \<in> set (db_entries d) \<Longrightarrow>
   entry_key e = entry_key e' \<Longrightarrow> e = e'"
  using distinct_map_eq [of entry_key "db_entries d"] by (simp add: wf_db_def wf_entries_def)

section \<open>Deleting an entry\<close>

text \<open>What the transaction of \<open>delete\<close> does when it commits.\<close>

definition evict1 :: "entry \<Rightarrow> db \<Rightarrow> db" where
  "evict1 e d = d\<lparr>
     db_entries := sql_delete (\<lambda>r. e_id r = e_id e) (db_entries d),
     db_blobs := sql_update (\<lambda>r. b_hash r = e_blob_hash e)
       (\<lambda>r. r\<lparr>b_refcount := b_refcount r - 1\<rparr>) (db_blobs d)\<rparr>"

lemma entries_delete_Ok:
  assumes "wf_db d" and "e \<in> set (db_entries d)"
  shows "entries_delete (e_project_id e) (e_id e) d = (Ok (), evict1 e d)"
proof -
  have "find (\<lambda>x. e_project_id x = e_project_id e \<and> e_id x = e_id e) (db_entries d) = Some e"
    using assms by (intro find_unique_row) (auto dest: wf_entry_ids)
  moreover obtain b where "blob_at d (e_blob_hash e) = Some b"
    using assms by (rule wf_entry_blob)
  moreover have "blob_at (d\<lparr>db_entries := es\<rparr>) h = blob_at d h" for es h
    by (simp add: blob_at_def)
  ultimately show ?thesis
    by (simp add: entries_delete_def transaction_def andthen_def decr_def evict1_def)
qed

lemma entries_delete_NotFound:
  assumes "\<forall>e\<in>set (db_entries d). \<not> (e_project_id e = pid \<and> e_id e = eid)"
  shows "entries_delete pid eid d = (Err (NotFound (''entry '' @ dec_int eid)), d)"
proof -
  have "find (\<lambda>x. e_project_id x = pid \<and> e_id x = eid) (db_entries d) = None"
    using assms by (auto simp: find_None_iff)
  then show ?thesis
    by (simp add: entries_delete_def transaction_def andthen_def)
qed

text \<open>On a well-formed database these are the only two outcomes.\<close>

lemma entries_delete_cases:
  assumes "wf_db d"
  obtains (deleted) e where "e \<in> set (db_entries d)" and "e_project_id e = pid" and "e_id e = eid"
      and "entries_delete pid eid d = (Ok (), evict1 e d)"
    | (missing) "entries_delete pid eid d = (Err (NotFound (''entry '' @ dec_int eid)), d)"
proof (cases "\<exists>e\<in>set (db_entries d). e_project_id e = pid \<and> e_id e = eid")
  case True
  then show ?thesis using entries_delete_Ok [OF assms] deleted by auto
next
  case False
  then show ?thesis using entries_delete_NotFound [of d pid eid] missing by auto
qed

lemma evict1_frame [simp]:
  "db_entries (evict1 e d) = sql_delete (\<lambda>r. e_id r = e_id e) (db_entries d)"
  "db_entry_seq (evict1 e d) = db_entry_seq d"
  "accounts (evict1 e d) = accounts d"
  by (simp_all add: evict1_def accounts_def)

lemma refs_evict1:
  "wf_db d \<Longrightarrow> e \<in> set (db_entries d) \<Longrightarrow>
   refs (db_entries (evict1 e d)) h = refs (db_entries d) h - (if e_blob_hash e = h then 1 else 0)"
  by (simp only: evict1_frame refs_delete_row wf_entry_row)

lemma refcount_evict1:
  assumes "wf_db d" and "e \<in> set (db_entries d)"
  shows "refcount (evict1 e d) h = refcount d h - (if e_blob_hash e = h then 1 else 0)"
proof -
  obtain b where b: "blob_at d (e_blob_hash e) = Some b"
    using assms by (rule wf_entry_blob)
  have "blob_at (evict1 e d) h = blob_at (d\<lparr>db_blobs := db_blobs (evict1 e d)\<rparr>) h"
    by (simp add: blob_at_def)
  then show ?thesis
    using b by (auto simp: refcount_def evict1_def blob_at_update split: option.splits)
qed

lemma leak_evict1:
  "wf_db d \<Longrightarrow> e \<in> set (db_entries d) \<Longrightarrow> leak (evict1 e d) h = leak d h"
  by (simp add: leak_def refs_evict1 refcount_evict1 del: evict1_frame)

lemma has_blob_evict1 [simp]: "has_blob (evict1 e d) h \<longleftrightarrow> has_blob d h"
proof -
  have "has_blob (evict1 e d) h = has_blob (d\<lparr>db_blobs := db_blobs (evict1 e d)\<rparr>) h"
    by (simp add: has_blob_def)
  then show ?thesis by (simp add: evict1_def has_blob_update)
qed

lemma wf_evict1:
  assumes "wf_db d" and "e \<in> set (db_entries d)"
  shows "wf_db (evict1 e d)"
proof (rule wf_dbI [OF assms(1)])
  have "blob_rows_ok (evict1 e d)"
    using assms(1) by (auto simp: wf_db_def wf_blobs_iff blob_rows_ok_def evict1_def map_sql_update)
  then show "wf_blobs (evict1 e d)"
    using leak_nonneg [OF assms(1)] by (simp add: wf_blobs_iff leak_evict1 [OF assms])
  show "wf_entries (evict1 e d)"
    using assms(1) has_project_accounts [of "evict1 e d" d]
    by (simp add: wf_db_def wf_entries_def distinct_map_sql_delete)
qed simp

lemma evict1_other_rows:
  "wf_db d \<Longrightarrow> e \<in> set (db_entries d) \<Longrightarrow> set (db_entries (evict1 e d)) = set (db_entries d) - {e}"
  by (auto dest: wf_entry_ids)

lemma keeps_wf_entries_delete [keeps_intros]: "keeps wf_db (entries_delete pid eid)"
proof
  fix d
  assume wf: "wf_db d"
  then show "wf_db (snd (entries_delete pid eid d))"
    by (rule entries_delete_cases [where pid = pid and eid = eid]) (simp_all add: wf wf_evict1)
qed

lemma leak_entries_delete:
  assumes "wf_db d"
  shows "leak (snd (entries_delete pid eid d)) h = leak d h"
  using assms
  by (rule entries_delete_cases [where pid = pid and eid = eid]) (simp_all add: assms leak_evict1)

section \<open>Inserting or replacing an entry\<close>

text \<open>The state of the transaction before the \<open>INSERT\<close>: the refcounts already moved.\<close>

definition repoint :: "int \<Rightarrow> entry option \<Rightarrow> string \<Rightarrow> int \<Rightarrow> db \<Rightarrow> db" where
  "repoint now prev h sz d =
     (case prev of
        Some e \<Rightarrow>
          if e_blob_hash e \<noteq> h then snd (upsert_incr now h sz (snd (decr (e_blob_hash e) d))) else d
      | None \<Rightarrow> snd (upsert_incr now h sz d))"

lemma repoint_frame [simp]:
  "db_entries (repoint now prev h sz d) = db_entries d"
  "db_entry_seq (repoint now prev h sz d) = db_entry_seq d"
  "accounts (repoint now prev h sz d) = accounts d"
  by (simp_all add: repoint_def split: option.split)

lemma upsert_unfold:
  assumes "wf_db d"
  shows "upsert now1 now pid k p h sz d =
    (let prev = entry_at d (pid, k, p); d1 = repoint now1 prev h sz d in
     case insert_entry now pid k p h sz d1 of
       (Ok i, d2) \<Rightarrow>
         (Ok \<lparr>e_id = i, e_project_id = pid, e_kind = k, e_path = p, e_blob_hash = h,
              e_size_bytes = sz, e_created_at = now, e_last_accessed = now, e_pinned = False\<rparr>, d2)
     | (Err e, _) \<Rightarrow> (Err e, d)
     | (Panic, _) \<Rightarrow> (Panic, d))"
proof -
  have incr: "andthen (upsert_incr now1 h sz) (\<lambda>_. ret ()) x = (Ok (), snd (upsert_incr now1 h sz x))" for x
    using upsert_incr_Ok [of now1 h sz x] by (auto simp: andthen_def split: prod.split)
  have "(case entry_at d (pid, k, p) of
       Some e \<Rightarrow>
         if e_blob_hash e \<noteq> h then
           andthen (decr (e_blob_hash e)) (\<lambda>_. andthen (upsert_incr now1 h sz) (\<lambda>_. ret ()))
         else ret ()
     | None \<Rightarrow> andthen (upsert_incr now1 h sz) (\<lambda>_. ret ())) d =
    (Ok (), repoint now1 (entry_at d (pid, k, p)) h sz d)"
  proof (cases "entry_at d (pid, k, p)")
    case None
    then show ?thesis by (simp add: repoint_def incr)
  next
    case (Some e)
    then have "has_blob d (e_blob_hash e)"
      using assms by (auto simp: wf_db_def wf_entries_def dest: entry_at_Some)
    then obtain n where "decr (e_blob_hash e) d = (Ok n, snd (decr (e_blob_hash e) d))"
      using decr_Ok_iff [of "e_blob_hash e" d] by (cases "decr (e_blob_hash e) d") auto
    then show ?thesis using Some by (simp add: repoint_def andthen_Ok incr)
  qed
  then show ?thesis
    by (simp add: upsert_def transaction_def andthen_def Let_def split: prod.split outcome.split)
qed

lemma has_blob_repoint:
  "wf_db d \<Longrightarrow> prev = entry_at d key \<Longrightarrow>
   has_blob (repoint now prev h sz d) x \<longleftrightarrow> x = h \<or> has_blob d x"
  by (auto simp: repoint_def has_blob_upsert_incr has_blob_decr wf_db_def wf_entries_def
      split: option.split dest: entry_at_Some)

lemma refcount_repoint:
  assumes "wf_db d" and "prev = entry_at d key"
  shows "refcount (repoint now prev h sz d) x = refcount d x +
    (case prev of None \<Rightarrow> (if x = h then 1 else 0)
       | Some e \<Rightarrow> (if x = h then 1 else 0) - (if x = e_blob_hash e then 1 else 0))"
proof (cases prev)
  case None
  then show ?thesis by (simp add: repoint_def refcount_upsert_incr)
next
  case (Some e)
  then have "has_blob d (e_blob_hash e)"
    using assms by (auto simp: wf_db_def wf_entries_def dest: entry_at_Some)
  then show ?thesis
    using Some by (auto simp: repoint_def refcount_upsert_incr refcount_decr)
qed

lemma blob_rows_ok_repoint:
  "wf_db d \<Longrightarrow> 0 \<le> sz \<Longrightarrow> blob_rows_ok (repoint now prev h sz d)"
  by (auto simp: repoint_def wf_db_def wf_blobs_iff blob_rows_ok_upsert_incr blob_rows_ok_decr
      split: option.split)

text \<open>The row that \<open>upsert\<close> leaves under its key.\<close>

definition row_after ::
  "int \<Rightarrow> int \<Rightarrow> kind \<Rightarrow> string \<Rightarrow> string \<Rightarrow> int \<Rightarrow> db \<Rightarrow> entry" where
  "row_after now pid k p h sz d =
     (case entry_at d (pid, k, p) of
        Some e \<Rightarrow> e\<lparr>e_blob_hash := h, e_size_bytes := sz, e_last_accessed := now\<rparr>
      | None \<Rightarrow>
          \<lparr>e_id = db_entry_seq d + 1, e_project_id = pid, e_kind = k, e_path = p,
           e_blob_hash = h, e_size_bytes = sz, e_created_at = now, e_last_accessed = now,
           e_pinned = False\<rparr>)"

lemma row_after_sel [simp]:
  "e_blob_hash (row_after now pid k p h sz d) = h"
  "e_size_bytes (row_after now pid k p h sz d) = sz"
  "e_last_accessed (row_after now pid k p h sz d) = now"
  by (simp_all add: row_after_def split: option.split)

lemma entry_key_row_after [simp]: "entry_key (row_after now pid k p h sz d) = (pid, k, p)"
  by (auto simp: row_after_def entry_key_def split: option.split dest!: entry_at_Some)

text \<open>The whole effect of \<open>upsert\<close> on a project that exists.\<close>

definition upsert_state ::
  "int \<Rightarrow> int \<Rightarrow> int \<Rightarrow> kind \<Rightarrow> string \<Rightarrow> string \<Rightarrow> int \<Rightarrow> db \<Rightarrow> db" where
  "upsert_state now1 now pid k p h sz d =
     (let prev = entry_at d (pid, k, p); d1 = repoint now1 prev h sz d; r = row_after now pid k p h sz d
      in case prev of
        Some e \<Rightarrow> d1\<lparr>db_entries := sql_update (\<lambda>x. entry_key x = (pid, k, p))
            (\<lambda>x. x\<lparr>e_blob_hash := h, e_size_bytes := sz, e_last_accessed := now\<rparr>) (db_entries d)\<rparr>
      | None \<Rightarrow> d1\<lparr>db_entries := db_entries d @ [r], db_entry_seq := db_entry_seq d + 1\<rparr>)"

lemma upsert_Ok:
  assumes "wf_db d" and "has_project d pid"
  shows "upsert now1 now pid k p h sz d =
    (Ok \<lparr>e_id = e_id (row_after now pid k p h sz d), e_project_id = pid, e_kind = k, e_path = p,
         e_blob_hash = h, e_size_bytes = sz, e_created_at = now, e_last_accessed = now,
         e_pinned = False\<rparr>,
     upsert_state now1 now pid k p h sz d)"
proof -
  let ?prev = "entry_at d (pid, k, p)"
  let ?d1 = "repoint now1 ?prev h sz d"
  have blob: "has_blob ?d1 h" using assms(1) by (simp add: has_blob_repoint)
  have proj: "has_project ?d1 pid" using assms(2) by (simp add: has_project_accounts [of ?d1 d])
  have same: "entry_at ?d1 (pid, k, p) = ?prev" by (rule entry_at_cong) simp
  show ?thesis
    using blob proj same
    by (cases ?prev) (simp_all add: upsert_unfold [OF assms(1)] insert_entry_def upsert_state_def
        row_after_def Let_def)
qed

lemma upsert_no_project:
  assumes "wf_db d" and "\<not> has_project d pid"
  shows "upsert now1 now pid k p h sz d = (Err (Database ForeignKeyViolation), d)"
proof -
  let ?d1 = "repoint now1 (entry_at d (pid, k, p)) h sz d"
  have none: "entry_at d (pid, k, p) = None"
    using assms by (auto simp: entry_at_None entry_key_def wf_db_def wf_entries_def)
  then have "entry_at ?d1 (pid, k, p) = None" using entry_at_cong [of ?d1 d] by simp
  moreover have "\<not> has_project ?d1 pid" using assms(2) by (simp add: has_project_accounts [of ?d1 d])
  ultimately show ?thesis
    using none by (simp add: upsert_unfold [OF assms(1)] insert_entry_def)
qed

lemma accounts_upsert_state [simp]: "accounts (upsert_state now1 now pid k p h sz d) = accounts d"
proof -
  have "accounts (x\<lparr>db_entries := es\<rparr>) = accounts x"
    "accounts (x\<lparr>db_entries := es, db_entry_seq := q\<rparr>) = accounts x" for x es q
    by (simp_all add: accounts_def)
  then show ?thesis by (simp add: upsert_state_def Let_def split: option.split)
qed

lemma blobs_upsert_state [simp]:
  "db_blobs (upsert_state now1 now pid k p h sz d) =
   db_blobs (repoint now1 (entry_at d (pid, k, p)) h sz d)"
  by (simp add: upsert_state_def Let_def split: option.split)

lemma refcount_cong: "db_blobs d' = db_blobs d \<Longrightarrow> refcount d' h = refcount d h"
  by (simp add: refcount_def blob_at_def)

lemma has_blob_cong: "db_blobs d' = db_blobs d \<Longrightarrow> has_blob d' h = has_blob d h"
  by (simp add: has_blob_def)

lemma has_blob_upsert_state:
  "wf_db d \<Longrightarrow> has_blob (upsert_state now1 now pid k p h sz d) x \<longleftrightarrow> x = h \<or> has_blob d x"
  using has_blob_cong [OF blobs_upsert_state] by (simp add: has_blob_repoint)

lemma set_entries_upsert_state:
  assumes "wf_db d"
  shows "set (db_entries (upsert_state now1 now pid k p h sz d)) =
    insert (row_after now pid k p h sz d) {e \<in> set (db_entries d). entry_key e \<noteq> (pid, k, p)}"
proof (cases "entry_at d (pid, k, p)")
  case None
  then have "\<forall>e\<in>set (db_entries d). entry_key e \<noteq> (pid, k, p)"
    by (auto simp: entry_at_None image_iff)
  then show ?thesis using None by (auto simp: upsert_state_def Let_def)
next
  case (Some e)
  then have e: "e \<in> set (db_entries d)" "entry_key e = (pid, k, p)"
    by (auto dest: entry_at_Some)
  have uniq: "x = e" if "x \<in> set (db_entries d)" and "entry_key x = (pid, k, p)" for x
    using wf_entry_keys [OF assms that(1) e(1)] that(2) e(2) by simp
  have "row_after now pid k p h sz d =
      e\<lparr>e_blob_hash := h, e_size_bytes := sz, e_last_accessed := now\<rparr>"
    using Some by (simp add: row_after_def)
  then show ?thesis using Some e by (auto simp: upsert_state_def Let_def dest: uniq)
qed

lemma refcount_upsert_state:
  assumes "wf_db d"
  shows "refcount (upsert_state now1 now pid k p h sz d) x = refcount d x +
    (case entry_at d (pid, k, p) of None \<Rightarrow> (if x = h then 1 else 0)
       | Some e \<Rightarrow> (if x = h then 1 else 0) - (if x = e_blob_hash e then 1 else 0))"
proof -
  have "refcount (upsert_state now1 now pid k p h sz d) x =
      refcount (repoint now1 (entry_at d (pid, k, p)) h sz d) x"
    by (rule refcount_cong) simp
  then show ?thesis by (simp add: refcount_repoint [OF assms refl])
qed

lemma refs_upsert_state:
  assumes "wf_db d"
  shows "refs (db_entries (upsert_state now1 now pid k p h sz d)) x = refs (db_entries d) x +
    (case entry_at d (pid, k, p) of None \<Rightarrow> (if x = h then 1 else 0)
       | Some e \<Rightarrow> (if x = h then 1 else 0) - (if x = e_blob_hash e then 1 else 0))"
proof (cases "entry_at d (pid, k, p)")
  case None
  then show ?thesis by (simp add: upsert_state_def Let_def)
next
  case (Some e)
  then have "e \<in> set (db_entries d)" and key: "entry_key e = (pid, k, p)"
    by (auto dest: entry_at_Some)
  moreover have "distinct (map entry_key (db_entries d))"
    using assms by (simp add: wf_db_def wf_entries_def)
  ultimately have "refs (sql_update (\<lambda>y. entry_key y = entry_key e) f (db_entries d)) x =
      refs (db_entries d) x - (if e_blob_hash e = x then 1 else 0) +
      (if e_blob_hash (f e) = x then 1 else 0)" for f
    by (intro refs_update_row)
  then show ?thesis using Some key by (auto simp: upsert_state_def Let_def)
qed

lemma leak_upsert_state:
  "wf_db d \<Longrightarrow> leak (upsert_state now1 now pid k p h sz d) x = leak d x"
  by (simp add: leak_def refcount_upsert_state refs_upsert_state)

lemma upsert_state_rows:
  assumes "wf_db d"
  shows "distinct (map e_id (db_entries (upsert_state now1 now pid k p h sz d)))" (is ?ids)
    and "distinct (map entry_key (db_entries (upsert_state now1 now pid k p h sz d)))" (is ?keys)
    and "db_entry_seq d \<le> db_entry_seq (upsert_state now1 now pid k p h sz d)" (is ?seq)
    and "e_id (row_after now pid k p h sz d) \<le> db_entry_seq (upsert_state now1 now pid k p h sz d)"
      (is ?new)
proof -
  have ids: "distinct (map e_id (db_entries d))" and keys: "distinct (map entry_key (db_entries d))"
    and seq: "\<forall>e\<in>set (db_entries d). e_id e \<le> db_entry_seq d"
    using assms by (simp_all add: wf_db_def wf_entries_def)
  have "?ids \<and> ?keys \<and> ?seq \<and> ?new"
  proof (cases "entry_at d (pid, k, p)")
    case None
    then have id: "e_id (row_after now pid k p h sz d) = db_entry_seq d + 1"
      by (simp add: row_after_def)
    have "(pid, k, p) \<notin> entry_key ` set (db_entries d)" using None by (simp add: entry_at_None)
    moreover have "db_entry_seq d + 1 \<notin> e_id ` set (db_entries d)" using seq by force
    ultimately show ?thesis
      using None ids keys id by (simp add: upsert_state_def Let_def)
  next
    case (Some e)
    then have "e \<in> set (db_entries d)" by (auto dest: entry_at_Some)
    then show ?thesis
      using Some ids keys seq
      by (simp add: upsert_state_def Let_def map_sql_update row_after_def entry_key_def)
  qed
  then show ?ids and ?keys and ?seq and ?new by simp_all
qed

lemma wf_upsert_state:
  assumes wf: "wf_db d" and proj: "has_project d pid" and sz: "0 \<le> sz"
  shows "wf_db (upsert_state now1 now pid k p h sz d)"
proof (rule wf_dbI [OF wf])
  let ?d' = "upsert_state now1 now pid k p h sz d"
  let ?r = "row_after now pid k p h sz d"
  have "blob_rows_ok ?d'"
    using blob_rows_ok_repoint [OF wf sz] by (simp add: blob_rows_ok_def)
  then show "wf_blobs ?d'"
    using leak_nonneg [OF wf] by (simp add: wf_blobs_iff leak_upsert_state [OF wf])
  note rows = upsert_state_rows [OF wf]
  have seq: "db_entry_seq d \<le> db_entry_seq ?d'" by (rule rows(3))
  have row: "has_project d (e_project_id ?r)"
    using proj entry_key_row_after [of now pid k p h sz d] by (simp add: entry_key_def)
  show "wf_entries ?d'"
    unfolding wf_entries_def
  proof (intro conjI rows(1,2) ballI)
    fix e
    assume "e \<in> set (db_entries ?d')"
    then have "e = ?r \<or> e \<in> set (db_entries d)"
      by (auto simp: set_entries_upsert_state [OF wf])
    then show "e_id e \<le> db_entry_seq ?d'" and "0 \<le> e_size_bytes e"
      and "has_project ?d' (e_project_id e)" and "has_blob ?d' (e_blob_hash e)"
      using wf sz row seq rows(4)
      by (auto simp: wf_db_def wf_entries_def has_blob_upsert_state [OF wf]
          has_project_accounts [OF accounts_upsert_state] dest!: bspec)
  qed
qed simp

lemma keeps_wf_upsert [keeps_intros]:
  assumes "0 \<le> sz"
  shows "keeps wf_db (upsert now1 now pid k p h sz)"
proof
  fix d
  assume wf: "wf_db d"
  show "wf_db (snd (upsert now1 now pid k p h sz d))"
    using wf assms by (cases "has_project d pid")
      (simp_all add: upsert_Ok upsert_no_project wf_upsert_state)
qed

lemma leak_upsert: "wf_db d \<Longrightarrow> leak (snd (upsert now1 now pid k p h sz d)) x = leak d x"
  by (cases "has_project d pid") (simp_all add: upsert_Ok upsert_no_project leak_upsert_state)

lemma entry_at_upsert_state:
  assumes "wf_db d" and "has_project d pid" and "0 \<le> sz"
  shows "entry_at (upsert_state now1 now pid k p h sz d) key =
    (if key = (pid, k, p) then Some (row_after now pid k p h sz d) else entry_at d key)"
proof -
  let ?d' = "upsert_state now1 now pid k p h sz d"
  let ?r = "row_after now pid k p h sz d"
  have wf': "wf_db ?d'" using assms by (rule wf_upsert_state)
  note rows = set_entries_upsert_state [OF assms(1), of now1 now pid k p h sz]
  show ?thesis
  proof (cases "key = (pid, k, p)")
    case True
    have "?r \<in> set (db_entries ?d')" by (simp add: rows)
    then have "entry_at ?d' (entry_key ?r) = Some ?r" by (rule entry_at_row [OF wf'])
    then show ?thesis using True by simp
  next
    case False
    show ?thesis
    proof (cases "entry_at d key")
      case None
      then have "entry_at ?d' key = None" using False rows by (auto simp: entry_at_None)
      then show ?thesis using False None by simp
    next
      case (Some e)
      then have e: "e \<in> set (db_entries d)" "entry_key e = key" by (auto dest: entry_at_Some)
      then have "e \<in> set (db_entries ?d')" using False by (simp add: rows)
      then have "entry_at ?d' (entry_key e) = Some e" by (rule entry_at_row [OF wf'])
      then show ?thesis using False Some e by simp
    qed
  qed
qed

section \<open>Updates in place: touch and set_pinned\<close>

lemma wf_update_entries:
  assumes wf: "wf_db d"
    and f: "\<And>e. e_id (f e) = e_id e" "\<And>e. entry_key (f e) = entry_key e"
      "\<And>e. e_blob_hash (f e) = e_blob_hash e" "\<And>e. e_size_bytes (f e) = e_size_bytes e"
  shows "wf_db (d\<lparr>db_entries := sql_update c f (db_entries d)\<rparr>)"
proof (rule wf_dbI [OF wf])
  let ?d' = "d\<lparr>db_entries := sql_update c f (db_entries d)\<rparr>"
  show acc: "accounts ?d' = accounts d" by (simp add: accounts_def)
  have "refcount ?d' h = refcount d h" "has_blob ?d' h = has_blob d h" for h
    by (rule refcount_cong has_blob_cong, simp)+
  moreover have proj: "e_project_id (f e) = e_project_id e" for e
    using f(2) [of e] by (simp add: entry_key_def)
  ultimately show "wf_blobs ?d'" and "wf_entries ?d'"
    using wf has_project_accounts [OF acc]
    by (auto simp: wf_db_def wf_blobs_def wf_entries_def map_sql_update refs_update f)
qed

lemma leak_update_entries:
  assumes "\<And>e. e_blob_hash (f e) = e_blob_hash e"
  shows "leak (d\<lparr>db_entries := sql_update c f (db_entries d)\<rparr>) h = leak d h"
proof -
  have "refcount (d\<lparr>db_entries := sql_update c f (db_entries d)\<rparr>) h = refcount d h"
    by (rule refcount_cong) simp
  then show ?thesis by (simp add: leak_def refs_update assms)
qed

lemma keeps_wf_touch [keeps_intros]: "keeps wf_db (touch now i)"
  by (rule keepsI) (simp add: touch_def wf_update_entries entry_key_def)

lemma keeps_wf_set_pinned [keeps_intros]: "keeps wf_db (set_pinned pid i b)"
  by (rule keepsI) (simp add: set_pinned_def Let_def wf_update_entries entry_key_def)

lemma leak_touch: "leak (snd (touch now i d)) h = leak d h"
  by (simp add: touch_def leak_update_entries)

lemma leak_set_pinned: "leak (snd (set_pinned pid i b d)) h = leak d h"
  by (simp add: set_pinned_def Let_def leak_update_entries)

end
