(* ===== verification/Db_Projects.thy ===== *)
theory Db_Projects
  imports Db_Entries
begin

text \<open>
  The \<open>projects\<close> repository (\<open>db/projects.rs\<close>). Deleting a project deletes its rows in
  \<open>entries\<close>, \<open>api_keys\<close> and \<open>stats_counters\<close> through \<open>ON DELETE CASCADE\<close>; the cascade does
  not run \<open>Entries::delete\<close>, so the blobs of those entries keep their refcount.
\<close>

section \<open>Operations\<close>

definition project_exists_msg :: "string \<Rightarrow> string" where
  "project_exists_msg name = ''project name '' @ [CHR 0x27] @ name @ [CHR 0x27] @ '' already exists''"

definition projects_create ::
  "int \<Rightarrow> string \<Rightarrow> int option \<Rightarrow> int option \<Rightarrow> (db, project) op" where
  "projects_create now name quota_bytes ttl_seconds = (\<lambda>d.
     if name \<in> p_name ` set (db_projects d)
     then (Err (Conflict (project_exists_msg name)), d)
     else
       (let p = \<lparr>p_id = db_project_seq d + 1, p_name = name, p_quota_bytes = quota_bytes,
                 p_ttl_seconds = ttl_seconds, p_created_at = now\<rparr> in
        (Ok p, d\<lparr>db_projects := db_projects d @ [p], db_project_seq := db_project_seq d + 1\<rparr>)))"

definition projects_get :: "int \<Rightarrow> (db, project) op" where
  "projects_get i = query (\<lambda>d.
     case find (\<lambda>p. p_id p = i) (db_projects d) of
       None \<Rightarrow> Err (NotFound (''project '' @ dec_int i))
     | Some p \<Rightarrow> Ok p)"

definition projects_get_by_name :: "string \<Rightarrow> (db, project) op" where
  "projects_get_by_name name = query (\<lambda>d.
     case find (\<lambda>p. p_name p = name) (db_projects d) of
       None \<Rightarrow> Err (NotFound (''project '' @ [CHR 0x27] @ name @ [CHR 0x27]))
     | Some p \<Rightarrow> Ok p)"

definition projects_list :: "(db, project list) op" where
  "projects_list = query (\<lambda>d. Ok (sort_key p_id (db_projects d)))"

text \<open>\<open>UPDATE projects SET name = ? WHERE id = ?\<close> under \<open>UNIQUE(name)\<close>.\<close>

definition rename_project :: "int \<Rightarrow> string \<Rightarrow> (db, unit) op" where
  "rename_project i name = (\<lambda>d.
     if (\<exists>q\<in>set (db_projects d). p_id q = i) \<and>
        (\<exists>q\<in>set (db_projects d). p_id q \<noteq> i \<and> p_name q = name)
     then (Err (Conflict (project_exists_msg name)), d)
     else (Ok (), d\<lparr>db_projects := sql_update (\<lambda>p. p_id p = i) (\<lambda>p. p\<lparr>p_name := name\<rparr>) (db_projects d)\<rparr>))"

definition projects_update ::
  "int \<Rightarrow> string option \<Rightarrow> int option option \<Rightarrow> int option option \<Rightarrow> (db, project) op" where
  "projects_update i new_name quota_bytes ttl_seconds =
     andthen
       (transaction
         (andthen (case new_name of None \<Rightarrow> ret () | Some name \<Rightarrow> rename_project i name) (\<lambda>_.
          andthen
            (case quota_bytes of None \<Rightarrow> ret ()
             | Some q \<Rightarrow> (\<lambda>d. (Ok (), d\<lparr>db_projects :=
                 sql_update (\<lambda>p. p_id p = i) (\<lambda>p. p\<lparr>p_quota_bytes := q\<rparr>) (db_projects d)\<rparr>))) (\<lambda>_.
          case ttl_seconds of None \<Rightarrow> ret ()
             | Some t \<Rightarrow> (\<lambda>d. (Ok (), d\<lparr>db_projects :=
                 sql_update (\<lambda>p. p_id p = i) (\<lambda>p. p\<lparr>p_ttl_seconds := t\<rparr>) (db_projects d)\<rparr>))))))
       (\<lambda>_. projects_get i)"

definition projects_delete :: "int \<Rightarrow> (db, unit) op" where
  "projects_delete i = (\<lambda>d.
     if sql_count (\<lambda>p. p_id p = i) (db_projects d) = 0
     then (Err (NotFound (''project '' @ dec_int i)), d)
     else
       (Ok (), d\<lparr>
          db_projects := sql_delete (\<lambda>p. p_id p = i) (db_projects d),
          db_api_keys := sql_delete (\<lambda>k. k_project_id k = i) (db_api_keys d),
          db_entries := sql_delete (\<lambda>e. e_project_id e = i) (db_entries d),
          db_stats_counters := sql_delete (\<lambda>c. sc_project_id c = Some i) (db_stats_counters d)\<rparr>))"

section \<open>Behaviour\<close>

lemma projects_get_row:
  "wf_db d \<Longrightarrow> p \<in> set (db_projects d) \<Longrightarrow> projects_get (p_id p) d = (Ok p, d)"
  by (simp add: projects_get_def find_unique wf_db_def wf_projects_def)

lemma projects_get_missing:
  "\<not> has_project d i \<Longrightarrow> projects_get i d = (Err (NotFound (''project '' @ dec_int i)), d)"
  by (cases "find (\<lambda>p. p_id p = i) (db_projects d)")
     (auto simp: projects_get_def has_project_def dest!: find_SomeD)

lemma projects_get_by_name_row:
  "wf_db d \<Longrightarrow> p \<in> set (db_projects d) \<Longrightarrow> projects_get_by_name (p_name p) d = (Ok p, d)"
  by (simp add: projects_get_by_name_def find_unique wf_db_def wf_projects_def)

lemma projects_get_by_name_Ok:
  "projects_get_by_name name d = (Ok p, d') \<Longrightarrow> p \<in> set (db_projects d) \<and> p_name p = name \<and> d' = d"
  by (auto simp: projects_get_by_name_def split: option.splits dest!: find_SomeD)

lemma projects_list_Ok: "projects_list d = (Ok (sort_key p_id (db_projects d)), d)"
  by (simp add: projects_list_def)

section \<open>Invariants\<close>

lemma wf_projects_change:
  assumes wf: "wf_db d"
    and rows: "distinct (map p_id ps)" "distinct (map p_name ps)" "\<forall>p\<in>set ps. p_id p \<le> sq"
    and keep: "p_id ` set (db_projects d) \<subseteq> p_id ` set ps"
  shows "wf_db (d\<lparr>db_projects := ps, db_project_seq := sq\<rparr>)"
proof -
  let ?d' = "d\<lparr>db_projects := ps, db_project_seq := sq\<rparr>"
  have proj: "has_project d x \<Longrightarrow> has_project ?d' x" for x
    using keep by (auto simp: has_project_def)
  have "wf_projects ?d'" using rows by (simp add: wf_projects_def)
  moreover have "wf_api_keys ?d'"
    using wf proj by (auto simp: wf_db_def wf_api_keys_def)
  moreover have "wf_admin_tokens ?d'" using wf by (simp add: wf_db_def wf_admin_tokens_def)
  moreover have "wf_blobs ?d'" using wf by (simp add: wf_db_def wf_blobs_def)
  moreover have "has_blob ?d' h = has_blob d h" for h by (rule has_blob_cong) simp
  then have "wf_entries ?d'" using wf proj by (auto simp: wf_db_def wf_entries_def)
  ultimately show ?thesis by (simp add: wf_db_def)
qed

lemma keeps_wf_projects_create [keeps_intros]: "keeps wf_db (projects_create now name q t)"
proof
  fix d
  assume wf: "wf_db d"
  have seq: "\<forall>p\<in>set (db_projects d). p_id p \<le> db_project_seq d"
    and old: "distinct (map p_id (db_projects d))" "distinct (map p_name (db_projects d))"
    using wf by (simp_all add: wf_db_def wf_projects_def)
  have fresh: "db_project_seq d + 1 \<notin> p_id ` set (db_projects d)" using seq by force
  have le: "\<forall>p\<in>set (db_projects d). p_id p \<le> db_project_seq d + 1" using seq by force
  from fresh show "wf_db (snd (projects_create now name q t d))"
    using wf le old by (auto simp: projects_create_def Let_def intro!: wf_projects_change)
qed

lemma wf_update_projects:
  assumes wf: "wf_db d" and f: "\<And>p. p_id (f p) = p_id p"
    and names: "distinct (map p_name (sql_update c f (db_projects d)))"
  shows "wf_db (d\<lparr>db_projects := sql_update c f (db_projects d)\<rparr>)"
proof -
  have ids: "map p_id (sql_update c f (db_projects d)) = map p_id (db_projects d)"
    by (simp add: map_sql_update f)
  have set_ids: "p_id ` set (sql_update c f (db_projects d)) = p_id ` set (db_projects d)"
    using arg_cong [OF ids, of set] by (simp del: set_sql_update)
  have seq: "\<forall>p\<in>set (sql_update c f (db_projects d)). p_id p \<le> db_project_seq d"
    using wf by (auto simp: wf_db_def wf_projects_def f)
  have "wf_db (d\<lparr>db_projects := sql_update c f (db_projects d), db_project_seq := db_project_seq d\<rparr>)"
    by (rule wf_projects_change [OF wf]) (use wf in \<open>simp_all add: ids names seq set_ids wf_db_def wf_projects_def del: set_sql_update\<close>)
  then show ?thesis by simp
qed

lemma keeps_wf_rename_project [keeps_intros]: "keeps wf_db (rename_project i name)"
proof
  fix d
  assume wf: "wf_db d"
  show "wf_db (snd (rename_project i name d))"
  proof (cases "(\<exists>q\<in>set (db_projects d). p_id q = i) \<and> (\<exists>q\<in>set (db_projects d). p_id q \<noteq> i \<and> p_name q = name)")
    case True
    then show ?thesis using wf by (simp add: rename_project_def)
  next
    case False
    let ?g = "\<lambda>p. if p_id p = i then name else p_name p"
    have "map p_name (sql_update (\<lambda>p. p_id p = i) (\<lambda>p. p\<lparr>p_name := name\<rparr>) (db_projects d)) =
        map ?g (db_projects d)"
      by (simp add: sql_update_def)
    moreover have "inj_on ?g (set (db_projects d))"
    proof (rule inj_onI)
      fix x y
      assume xy: "x \<in> set (db_projects d)" "y \<in> set (db_projects d)" and eq: "?g x = ?g y"
      then have "p_id x = i \<longleftrightarrow> p_id y = i" using False by (auto split: if_splits)
      then have "p_id x = p_id y \<or> p_name x = p_name y" using eq by (auto split: if_splits)
      then show "x = y" using xy wf by (auto simp: wf_db_def wf_projects_def dest: distinct_map_eq)
    qed
    moreover have "distinct (db_projects d)"
      using wf by (simp add: wf_db_def wf_projects_def distinct_map)
    ultimately have "distinct (map p_name (sql_update (\<lambda>p. p_id p = i)
        (\<lambda>p. p\<lparr>p_name := name\<rparr>) (db_projects d)))"
      by (simp add: distinct_map)
    moreover have "rename_project i name d = (Ok (), d\<lparr>db_projects :=
        sql_update (\<lambda>p. p_id p = i) (\<lambda>p. p\<lparr>p_name := name\<rparr>) (db_projects d)\<rparr>)"
      using False by (simp only: rename_project_def if_False)
    ultimately show ?thesis by (simp add: wf_update_projects [OF wf])
  qed
qed

lemma keeps_wf_set_project:
  "(\<And>p. p_id (f p) = p_id p) \<Longrightarrow> (\<And>p. p_name (f p) = p_name p) \<Longrightarrow>
   keeps wf_db (\<lambda>d. (Ok (), d\<lparr>db_projects := sql_update c f (db_projects d)\<rparr>))"
proof
  fix d
  assume f: "\<And>p. p_id (f p) = p_id p" "\<And>p. p_name (f p) = p_name p" and wf: "wf_db d"
  then have "distinct (map p_name (sql_update c f (db_projects d)))"
    by (simp add: map_sql_update wf_db_def wf_projects_def)
  then show "wf_db (snd (Ok (), d\<lparr>db_projects := sql_update c f (db_projects d)\<rparr>))"
    using wf f by (simp add: wf_update_projects)
qed

lemma keeps_wf_projects_update [keeps_intros]: "keeps wf_db (projects_update i nm q t)"
  unfolding projects_update_def projects_get_def
  by (intro keeps_intros)
     (auto split: option.split intro!: keeps_intros keeps_wf_set_project)

lemma refs_cascade:
  "refs (sql_delete (\<lambda>e. e_project_id e = i) es) h =
   refs es h - refs (filter (\<lambda>e. e_project_id e = i) es) h"
  by (induction es) (auto simp: sql_delete_def)

lemma keeps_wf_projects_delete [keeps_intros]: "keeps wf_db (projects_delete i)"
proof
  fix d
  assume wf: "wf_db d"
  let ?d' = "snd (projects_delete i d)"
  show "wf_db ?d'"
  proof (cases "sql_count (\<lambda>p. p_id p = i) (db_projects d) = 0")
    case True
    then show ?thesis using wf by (simp add: projects_delete_def)
  next
    case False
    have proj: "has_project ?d' j \<longleftrightarrow> has_project d j \<and> j \<noteq> i" for j
      using False by (auto simp: projects_delete_def has_project_def)
    have "refs (sql_delete (\<lambda>e. e_project_id e = i) (db_entries d)) h \<le> refs (db_entries d) h" for h
      by (simp add: refs_cascade)
    moreover have "has_blob ?d' h = has_blob d h" for h
      using False by (simp add: projects_delete_def has_blob_def)
    ultimately show ?thesis
      using wf False proj
      by (auto simp: wf_db_defs projects_delete_def distinct_map_sql_delete
          intro: order_trans dest!: bspec)
  qed
qed

text \<open>What a deleted project leaks: one count per entry it held.\<close>

lemma leak_projects_delete:
  assumes "has_project d i"
  shows "leak (snd (projects_delete i d)) h =
    leak d h + refs (filter (\<lambda>e. e_project_id e = i) (db_entries d)) h"
proof -
  have "sql_count (\<lambda>p. p_id p = i) (db_projects d) \<noteq> 0"
    using assms by (auto simp: sql_count_zero has_project_def)
  moreover have "refcount (snd (projects_delete i d)) h = refcount d h"
    by (rule refcount_cong) (simp add: projects_delete_def)
  ultimately show ?thesis by (simp add: leak_def projects_delete_def refs_cascade)
qed

end
