(* ===== verification/Db_Stats.thy ===== *)
theory Db_Stats
  imports Db_Projects
begin

text \<open>
  Day-bucketed counters and the audit log (\<open>db/stats.rs\<close>). \<open>NULL\<close> is distinct from every
  value in a \<open>PRIMARY KEY\<close> that is not the rowid, so \<open>ON CONFLICT\<close> never fires for a counter
  without a project. Ties of \<open>ORDER BY timestamp DESC\<close> come in an order SQLite does not
  promise: it is the parameter \<open>rank\<close>.
\<close>

section \<open>Operations\<close>

text \<open>Rust's \<open>/\<close> truncates towards zero.\<close>

definition day_bucket :: "int \<Rightarrow> int" where
  "day_bucket now = (if now < 0 then - ((- now) div 86400) else now div 86400)"

definition bump :: "int \<Rightarrow> int option \<Rightarrow> string \<Rightarrow> int \<Rightarrow> int \<Rightarrow> (db, unit) op" where
  "bump now project_id kind cnt bytes = (\<lambda>d.
     let bucket = day_bucket now;
         hit = (\<lambda>r. project_id \<noteq> None \<and> sc_project_id r = project_id \<and>
                    sc_kind r = kind \<and> sc_bucket_day r = bucket)
     in if \<exists>r\<in>set (db_stats_counters d). hit r then
          (Ok (), d\<lparr>db_stats_counters := sql_update hit
             (\<lambda>r. r\<lparr>sc_count := sc_count r + cnt, sc_bytes := sc_bytes r + bytes\<rparr>)
             (db_stats_counters d)\<rparr>)
        else if (case project_id of None \<Rightarrow> False | Some pid \<Rightarrow> \<not> has_project d pid) then
          (Err (Database ForeignKeyViolation), d)
        else
          (Ok (), d\<lparr>db_stats_counters := db_stats_counters d @
             [\<lparr>sc_project_id = project_id, sc_kind = kind, sc_bucket_day = bucket,
               sc_count = cnt, sc_bytes = bytes\<rparr>]\<rparr>))"

definition counter_rows :: "int option \<Rightarrow> string \<Rightarrow> int \<Rightarrow> db \<Rightarrow> stats_row list" where
  "counter_rows project_id kind since_day d =
     filter (\<lambda>r. sc_kind r = kind \<and> since_day \<le> sc_bucket_day r \<and>
       (project_id = None \<or> sc_project_id r = project_id)) (db_stats_counters d)"

definition stats_sum :: "int option \<Rightarrow> string \<Rightarrow> int \<Rightarrow> (db, int \<times> int) op" where
  "stats_sum project_id kind since_day = query (\<lambda>d.
     let rows = counter_rows project_id kind since_day d in
     case (sql_sum (map sc_count rows), sql_sum (map sc_bytes rows)) of
       (Some c, Some b) \<Rightarrow> Ok (c, b)
     | _ \<Rightarrow> Err (Database IntegerOverflow))"

definition audit ::
  "int \<Rightarrow> string option \<Rightarrow> string \<Rightarrow> string option \<Rightarrow> string option \<Rightarrow> (db, unit) op" where
  "audit now actor_token action target detail_str = (\<lambda>d.
     (Ok (), d\<lparr>db_audit_log := db_audit_log d @
        [\<lparr>au_id = db_audit_seq d + 1, au_timestamp = now, au_actor_token = actor_token,
          au_action = action, au_target = target, au_detail_json = detail_str\<rparr>],
       db_audit_seq := db_audit_seq d + 1\<rparr>))"

definition audit_since :: "(int \<Rightarrow> nat) \<Rightarrow> int \<Rightarrow> int \<Rightarrow> (db, audit_row list) op" where
  "audit_since rank since_ts limit = query (\<lambda>d.
     Ok (sql_limit limit
       (sort_key (\<lambda>r. - au_timestamp r)
         (sort_key (\<lambda>r. rank (au_id r))
           (filter (\<lambda>r. since_ts \<le> au_timestamp r) (db_audit_log d))))))"

section \<open>Behaviour\<close>

lemma wf_db_logs [simp]:
  "wf_db (d\<lparr>db_stats_counters := cs\<rparr>) \<longleftrightarrow> wf_db d"
  "wf_db (d\<lparr>db_audit_log := as, db_audit_seq := n\<rparr>) \<longleftrightarrow> wf_db d"
  by (simp_all add: wf_db_defs has_project_def has_blob_def)

lemma leak_logs [simp]:
  "leak (d\<lparr>db_stats_counters := cs\<rparr>) h = leak d h"
  "leak (d\<lparr>db_audit_log := as, db_audit_seq := n\<rparr>) h = leak d h"
  by (simp_all add: leak_def refcount_def blob_at_def)

lemma keeps_wf_bump [keeps_intros]: "keeps wf_db (bump now pid k c b)"
  by (rule keepsI) (simp add: bump_def Let_def)

lemma keeps_wf_audit [keeps_intros]: "keeps wf_db (audit now a act t dt)"
  by (rule keepsI) (simp add: audit_def)

lemma bump_entries [simp]:
  "db_entries (snd (bump now pid k c b d)) = db_entries d"
  "db_blobs (snd (bump now pid k c b d)) = db_blobs d"
  "accounts (snd (bump now pid k c b d)) = accounts d"
  by (simp_all add: bump_def Let_def accounts_def)

lemma audit_frame [simp]:
  "db_entries (snd (audit now a act t dt d)) = db_entries d"
  "db_blobs (snd (audit now a act t dt d)) = db_blobs d"
  "accounts (snd (audit now a act t dt d)) = accounts d"
  by (simp_all add: audit_def accounts_def)

definition counter_unique :: "db \<Rightarrow> bool" where
  "counter_unique d \<longleftrightarrow>
     distinct (map (\<lambda>r. (sc_project_id r, sc_kind r, sc_bucket_day r))
       (filter (\<lambda>r. sc_project_id r \<noteq> None) (db_stats_counters d)))"

text \<open>The sum of a column of the rows a predicate selects, after one matching row grew.\<close>

lemma sum_list_bump_row:
  fixes n :: int
  assumes "length (filter hit rs) = 1" and "\<And>r. hit r \<Longrightarrow> P r" and "\<And>r. P (f r) = P r"
    and "\<And>r. v (f r) = v r + n"
  shows "sum_list (map v (filter P (sql_update hit f rs))) = sum_list (map v (filter P rs)) + n"
proof -
  have none: "filter hit xs = [] \<Longrightarrow> sql_update hit f xs = xs" for xs
    by (rule sql_update_none) (simp add: filter_empty_conv)
  show ?thesis
    using assms(1)
  proof (induction rs)
    case Nil
    then show ?case by simp
  next
    case (Cons r rs)
    show ?case
    proof (cases "hit r")
      case True
      then have "filter hit rs = []" using Cons.prems by simp
      then have "sql_update hit f (r # rs) = f r # rs" using True none by (simp add: sql_update_def)
      then show ?thesis using True assms(2-4) by simp
    next
      case False
      then have "length (filter hit rs) = 1" using Cons.prems by simp
      then show ?thesis using Cons.IH False by (simp add: sql_update_def)
    qed
  qed
qed

lemma counter_unique_hit:
  assumes "counter_unique d" and "pid \<noteq> None" and "r \<in> set (db_stats_counters d)"
    and "sc_project_id r = pid" "sc_kind r = k" "sc_bucket_day r = b"
  shows "length (filter (\<lambda>r. pid \<noteq> None \<and> sc_project_id r = pid \<and> sc_kind r = k \<and>
    sc_bucket_day r = b) (db_stats_counters d)) = 1"
proof -
  let ?key = "\<lambda>r. (sc_project_id r, sc_kind r, sc_bucket_day r)"
  have one: "distinct (map ?key (filter (\<lambda>r. sc_project_id r \<noteq> None) rs)) \<Longrightarrow> r \<in> set rs \<Longrightarrow>
    length (filter (\<lambda>x. sc_project_id x = pid \<and> sc_kind x = k \<and> sc_bucket_day x = b) rs) = 1" for rs
  proof (induction rs)
    case Nil
    then show ?case by simp
  next
    case (Cons x rs)
    show ?case
    proof (cases "?key x = (pid, k, b)")
      case True
      then have "(pid, k, b) \<notin> ?key ` set (filter (\<lambda>r. sc_project_id r \<noteq> None) rs)"
        using Cons.prems(1) assms(2) by auto
      then have "filter (\<lambda>x. sc_project_id x = pid \<and> sc_kind x = k \<and> sc_bucket_day x = b) rs = []"
        using assms(2) by (auto simp: filter_empty_conv image_iff)
      then show ?thesis using True by simp
    next
      case False
      then have "r \<in> set rs" using Cons.prems(2) assms(4-6) by auto
      then show ?thesis using Cons False by (auto split: if_splits)
    qed
  qed
  show ?thesis using one [of "db_stats_counters d"] assms(1-3) by (simp add: counter_unique_def)
qed

text \<open>The total of a column over the rows that \<open>stats_sum\<close> selects.\<close>

definition counter_total :: "(stats_row \<Rightarrow> int) \<Rightarrow> int option \<Rightarrow> string \<Rightarrow> int \<Rightarrow> db \<Rightarrow> int" where
  "counter_total v project_id kind since_day d =
     sum_list (map v (counter_rows project_id kind since_day d))"

lemma bump_counts:
  assumes "counter_unique d" and ok: "bump now pid k c b d = (Ok (), d')"
    and since: "since \<le> day_bucket now" and q: "q = None \<or> q = pid"
  shows "counter_total sc_count q k since d' = counter_total sc_count q k since d + c \<and>
    counter_total sc_bytes q k since d' = counter_total sc_bytes q k since d + b"
proof -
  let ?hit = "\<lambda>r. pid \<noteq> None \<and> sc_project_id r = pid \<and> sc_kind r = k \<and> sc_bucket_day r = day_bucket now"
  let ?P = "\<lambda>r. sc_kind r = k \<and> since \<le> sc_bucket_day r \<and> (q = None \<or> sc_project_id r = q)"
  let ?f = "\<lambda>r. r\<lparr>sc_count := sc_count r + c, sc_bytes := sc_bytes r + b\<rparr>"
  show ?thesis
  proof (cases "\<exists>r\<in>set (db_stats_counters d). ?hit r")
    case True
    then obtain r where "r \<in> set (db_stats_counters d)" "pid \<noteq> None" "sc_project_id r = pid"
        "sc_kind r = k" "sc_bucket_day r = day_bucket now"
      by blast
    then have one: "length (filter ?hit (db_stats_counters d)) = 1"
      using counter_unique_hit [OF assms(1)] by simp
    have rows: "db_stats_counters d' = sql_update ?hit ?f (db_stats_counters d)"
      using ok True by (auto simp: bump_def Let_def)
    have "sum_list (map v (filter ?P (sql_update ?hit ?f (db_stats_counters d)))) =
        sum_list (map v (filter ?P (db_stats_counters d))) + n"
      if v: "\<And>r. v (?f r) = v r + n" for v :: "stats_row \<Rightarrow> int" and n
    proof (rule sum_list_bump_row [OF one])
      show "?P r" if "?hit r" for r using that since q by auto
    qed (simp_all add: v)
    from this [of sc_count c] this [of sc_bytes b] show ?thesis
      unfolding counter_total_def counter_rows_def rows by simp
  next
    case False
    then have "db_stats_counters d' = db_stats_counters d @
        [\<lparr>sc_project_id = pid, sc_kind = k, sc_bucket_day = day_bucket now, sc_count = c, sc_bytes = b\<rparr>]"
      using ok by (auto simp: bump_def Let_def split: if_splits)
    then show ?thesis using since q by (auto simp: counter_total_def counter_rows_def)
  qed
qed

lemma audit_since_set:
  "limit < 0 \<Longrightarrow> fst (audit_since rank since limit d) = Ok rows \<Longrightarrow>
   set rows = {r \<in> set (db_audit_log d). since \<le> au_timestamp r}"
  by (auto simp: audit_since_def sql_limit_def)

lemma audit_since_sorted:
  "fst (audit_since rank since limit d) = Ok rows \<Longrightarrow>
   sorted_wrt (\<lambda>a b. au_timestamp b \<le> au_timestamp a) rows"
proof -
  assume "fst (audit_since rank since limit d) = Ok rows"
  then obtain xs where rows: "rows = sql_limit limit (sort_key (\<lambda>r. - au_timestamp r) xs)"
    by (auto simp: audit_since_def)
  have "sorted (map (\<lambda>r. - au_timestamp r) (sort_key (\<lambda>r. - au_timestamp r) xs))"
    by (rule sorted_sort_key)
  then have "sorted_wrt (\<lambda>a b. au_timestamp b \<le> au_timestamp a) (sort_key (\<lambda>r. - au_timestamp r) xs)"
    by (simp add: sorted_map)
  then show ?thesis by (simp add: rows sql_limit_def sorted_wrt_take)
qed

end
