(* ===== verification/Storage.thy ===== *)
theory Storage
  imports Core_Error
begin

text \<open>
  The blob store \<open>LocalFsStore\<close> (\<open>storage.rs\<close>) over a file system of regular files: an
  association list from absolute paths (lists of components) to contents; a directory exists
  where a file lies below it. SHA-256 (the \<open>sha2\<close> and \<open>hex\<close> crates) is the parameter
  \<open>sha256\<close>, the hex digest of a byte string; the name that \<open>Uuid::new_v4\<close> picks and the
  failures the file system may report are arguments of the operations. The locale
  \<open>content_store\<close> is the interface the cache relies on, interpreted on \<open>LocalFsStore\<close>.
\<close>

section \<open>Files\<close>

type_synonym path = "string list"

type_synonym fs = "(path \<times> bytes) list"

definition fs_get :: "fs \<Rightarrow> path \<Rightarrow> bytes option" where
  "fs_get files p = map_of files p"

definition fs_del :: "path \<Rightarrow> fs \<Rightarrow> fs" where
  "fs_del p files = filter (\<lambda>f. fst f \<noteq> p) files"

definition fs_put :: "path \<Rightarrow> bytes \<Rightarrow> fs \<Rightarrow> fs" where
  "fs_put p c files = (p, c) # fs_del p files"

text \<open>\<open>File::create\<close>, \<open>write_all\<close>, \<open>remove_file\<close>, \<open>rename\<close>.\<close>

definition create_file :: "path \<Rightarrow> (fs, unit) op" where
  "create_file p = (\<lambda>files. (Ok (), fs_put p [] files))"

definition append_file :: "path \<Rightarrow> bytes \<Rightarrow> (fs, unit) op" where
  "append_file p c = (\<lambda>files.
     (Ok (), fs_put p ((case fs_get files p of None \<Rightarrow> [] | Some b \<Rightarrow> b) @ c) files))"

definition remove_file :: "io_error option \<Rightarrow> path \<Rightarrow> fs \<Rightarrow> (io_error + unit) \<times> fs" where
  "remove_file fault p files =
     (case fault of
        Some e \<Rightarrow> (Inl e, files)
      | None \<Rightarrow>
          (case fs_get files p of
             None \<Rightarrow> (Inl (IoError IoNotFound ''no such file''), files)
           | Some _ \<Rightarrow> (Inr (), fs_del p files)))"

definition rename_file :: "path \<Rightarrow> path \<Rightarrow> fs \<Rightarrow> fs" where
  "rename_file p q files =
     (case fs_get files p of
        None \<Rightarrow> files
      | Some c \<Rightarrow> fs_put q c (fs_del p files))"

definition open_file :: "io_error option \<Rightarrow> path \<Rightarrow> fs \<Rightarrow> io_error + bytes" where
  "open_file fault p files =
     (case fault of
        Some e \<Rightarrow> Inl e
      | None \<Rightarrow>
          (case fs_get files p of
             None \<Rightarrow> Inl (IoError IoNotFound ''no such file'')
           | Some c \<Rightarrow> Inr c))"

fun display_path :: "path \<Rightarrow> string" where
  "display_path [] = []"
| "display_path (c # cs) = ''/'' @ c @ display_path cs"

section \<open>The store\<close>

record written =
  w_hash :: string
  w_size_bytes :: int

text \<open>\<open>&hex_hash[0..2]\<close> and \<open>&hex_hash[2..4]\<close> panic (\<open>None\<close>) on a shorter string.\<close>

definition blob_path :: "path \<Rightarrow> string \<Rightarrow> path option" where
  "blob_path root hex_hash =
     (if length hex_hash < 4 then None
      else Some (root @ [''blobs'', take 2 hex_hash, take 2 (drop 2 hex_hash), hex_hash]))"

definition tmp_path :: "path \<Rightarrow> string \<Rightarrow> path" where
  "tmp_path root uuid = root @ [''tmp'', uuid]"

text \<open>
  \<open>open\<close>: the directories exist wherever a file is put, so what remains is the purge of the
  files directly under \<open>tmp/\<close>; a removal that fails is logged and skipped.
\<close>

definition store_open :: "(path \<Rightarrow> io_error option) \<Rightarrow> path \<Rightarrow> (fs, path) op" where
  "store_open faults root = (\<lambda>files.
     (Ok root,
      filter (\<lambda>f. \<not> (fst f = tmp_path root (last (fst f)) \<and> faults (fst f) = None)) files))"

text \<open>The loop over the body's chunks: hasher input, running total, temporary file.\<close>

fun stream_body :: "path \<Rightarrow> (io_error + bytes) list \<Rightarrow> bytes \<Rightarrow> int \<Rightarrow> (fs, bytes \<times> int) op" where
  "stream_body tmp [] hasher running = ret (hasher, running)"
| "stream_body tmp (Inl e # body) hasher running = fail (Io e)"
| "stream_body tmp (Inr chunk # body) hasher running =
     andthen (append_file tmp chunk)
       (\<lambda>_. stream_body tmp body (hasher @ chunk) (running + int (length chunk)))"

definition place_blob :: "io_error option \<Rightarrow> path \<Rightarrow> path \<Rightarrow> (fs, unit) op" where
  "place_blob rename_fault tmp dest = (\<lambda>files.
     if fs_get files dest \<noteq> None then (Ok (), fs_del tmp files)
     else
       (case rename_fault of
          Some e \<Rightarrow>
            (Err (Io (IoError (io_error_kind e)
               (''rename to '' @ display_path dest @ '': '' @ io_error_msg e))), files)
        | None \<Rightarrow> (Ok (), rename_file tmp dest files)))"

definition write_streamed ::
  "(bytes \<Rightarrow> string) \<Rightarrow> string \<Rightarrow> io_error option \<Rightarrow> path \<Rightarrow> (io_error + bytes) list
    \<Rightarrow> (fs, written) op" where
  "write_streamed sha256 uuid rename_fault root body =
     (let tmp = tmp_path root uuid in
      andthen (create_file tmp) (\<lambda>_.
      andthen (stream_body tmp body [] 0) (\<lambda>(hasher, running).
      let hash = sha256 hasher in
      case blob_path root hash of
        None \<Rightarrow> (\<lambda>files. (Panic, files))
      | Some dest \<Rightarrow>
          andthen (place_blob rename_fault tmp dest) (\<lambda>_.
          ret \<lparr>w_hash = hash, w_size_bytes = running\<rparr>))))"

definition read_blob :: "io_error option \<Rightarrow> path \<Rightarrow> string \<Rightarrow> (fs, bytes) op" where
  "read_blob fault root hash = query (\<lambda>files.
     case blob_path root hash of
       None \<Rightarrow> Panic
     | Some p \<Rightarrow>
         (case open_file fault p files of
            Inr c \<Rightarrow> Ok c
          | Inl e \<Rightarrow>
              (case io_error_kind e of
                 IoNotFound \<Rightarrow> Err (NotFound (''blob '' @ hash))
               | _ \<Rightarrow> Err (Io e))))"

definition delete_blob :: "io_error option \<Rightarrow> path \<Rightarrow> string \<Rightarrow> (fs, unit) op" where
  "delete_blob fault root hash = (\<lambda>files.
     case blob_path root hash of
       None \<Rightarrow> (Panic, files)
     | Some p \<Rightarrow>
         (case remove_file fault p files of
            (Inr _, files') \<Rightarrow> (Ok (), files')
          | (Inl e, files') \<Rightarrow>
              if io_error_kind e = IoNotFound then (Ok (), files') else (Err (Io e), files')))"

section \<open>Files by path\<close>

lemma fs_get_del [simp]: "fs_get (fs_del p files) q = (if q = p then None else fs_get files q)"
proof -
  have "map_of (filter (\<lambda>f. fst f \<noteq> p) files) q = (if q = p then None else map_of files q)"
    by (induction files) auto
  then show ?thesis by (simp add: fs_get_def fs_del_def)
qed

lemma fs_get_put [simp]: "fs_get (fs_put p c files) q = (if q = p then Some c else fs_get files q)"
  using fs_get_del [of p files q] by (simp add: fs_put_def fs_get_def)

lemma fs_get_rename:
  "fs_get files p = Some c \<Longrightarrow> p \<noteq> q \<Longrightarrow>
   fs_get (rename_file p q files) x =
   (if x = q then Some c else if x = p then None else fs_get files x)"
  by (simp add: rename_file_def)

lemma blob_path_Some_iff: "(\<exists>p. blob_path root h = Some p) \<longleftrightarrow> 4 \<le> length h"
  by (auto simp: blob_path_def)

lemma blob_path_inj: "blob_path root h = Some p \<Longrightarrow> blob_path root h' = Some p \<Longrightarrow> h = h'"
  by (auto simp: blob_path_def split: if_splits)

lemma blob_path_not_tmp: "blob_path root h = Some p \<Longrightarrow> p \<noteq> tmp_path root u"
  by (auto simp: blob_path_def tmp_path_def split: if_splits)

lemma blob_path_last: "blob_path root h = Some p \<Longrightarrow> last p = h"
  by (auto simp: blob_path_def split: if_splits)

section \<open>The blobs a store holds\<close>

definition blob_file :: "path \<Rightarrow> string \<Rightarrow> fs \<Rightarrow> bytes option" where
  "blob_file root h files =
     (case blob_path root h of None \<Rightarrow> None | Some p \<Rightarrow> fs_get files p)"

definition stream_bytes :: "(io_error + bytes) list \<Rightarrow> bytes" where
  "stream_bytes body = concat (map (\<lambda>c. case c of Inl _ \<Rightarrow> [] | Inr b \<Rightarrow> b) body)"

definition stream_ok :: "(io_error + bytes) list \<Rightarrow> bool" where
  "stream_ok body \<longleftrightarrow> (\<forall>c\<in>set body. \<not> isl c)"

lemma stream_bytes_Nil [simp]: "stream_bytes [] = []"
  by (simp add: stream_bytes_def)

lemma stream_bytes_Inr [simp]: "stream_bytes (Inr b # cs) = b @ stream_bytes cs"
  by (simp add: stream_bytes_def)

lemma stream_body_ok:
  assumes "stream_ok body" and "fs_get files tmp = Some pre"
  shows "\<exists>files'. stream_body tmp body acc n files =
      (Ok (acc @ stream_bytes body, n + int (length (stream_bytes body))), files') \<and>
    fs_get files' tmp = Some (pre @ stream_bytes body) \<and>
    (\<forall>q. q \<noteq> tmp \<longrightarrow> fs_get files' q = fs_get files q)"
  using assms
proof (induction body arbitrary: acc n files pre)
  case Nil
  then show ?case by simp
next
  case (Cons c cs)
  then obtain b where c: "c = Inr b" and cs: "stream_ok cs"
    by (cases c) (auto simp: stream_ok_def)
  let ?files = "fs_put tmp (pre @ b) files"
  have "fs_get ?files tmp = Some (pre @ b)" by simp
  from Cons.IH [OF cs this, of "acc @ b" "n + int (length b)"]
  obtain files' where "stream_body tmp cs (acc @ b) (n + int (length b)) ?files =
      (Ok ((acc @ b) @ stream_bytes cs, n + int (length b) + int (length (stream_bytes cs))), files')"
    and "fs_get files' tmp = Some ((pre @ b) @ stream_bytes cs)"
    and "\<forall>q. q \<noteq> tmp \<longrightarrow> fs_get files' q = fs_get ?files q"
    by blast
  then show ?case
    using Cons.prems(2) c by (simp add: andthen_def append_file_def add.assoc)
qed

lemma stream_body_error:
  assumes "\<not> stream_ok body"
  shows "\<exists>e files'. Inl e \<in> set body \<and> stream_body tmp body acc n files = (Err (Io e), files') \<and>
    (\<forall>q. q \<noteq> tmp \<longrightarrow> fs_get files' q = fs_get files q)"
  using assms
proof (induction body arbitrary: acc n files)
  case Nil
  then show ?case by (simp add: stream_ok_def)
next
  case (Cons c cs)
  show ?case
  proof (cases c)
    case (Inl e)
    then show ?thesis by auto
  next
    case (Inr b)
    then have "\<not> stream_ok cs" using Cons.prems by (simp add: stream_ok_def)
    from Cons.IH [OF this, of "acc @ b" "n + int (length b)" "snd (append_file tmp b files)"]
    show ?thesis using Inr by (auto simp: andthen_def append_file_def)
  qed
qed

lemma blob_file_cong:
  "(\<And>q. q \<noteq> tmp_path root u \<Longrightarrow> fs_get files' q = fs_get files q) \<Longrightarrow>
   blob_file root h files' = blob_file root h files"
  by (auto simp: blob_file_def blob_path_not_tmp split: option.split)

text \<open>A complete upload: the digest and the length, the blob in place, no temporary file.\<close>

lemma write_streamed_Ok:
  assumes ok: "stream_ok body" and len: "4 \<le> length (sha256 (stream_bytes body))"
  shows "\<exists>files'. write_streamed sha256 uuid None root body files =
      (Ok \<lparr>w_hash = sha256 (stream_bytes body), w_size_bytes = int (length (stream_bytes body))\<rparr>, files') \<and>
    fs_get files' (tmp_path root uuid) = None \<and>
    (\<forall>h. blob_file root h files' =
      (if h = sha256 (stream_bytes body) \<and> blob_file root h files = None
       then Some (stream_bytes body) else blob_file root h files))"
proof -
  let ?tmp = "tmp_path root uuid"
  let ?b = "stream_bytes body"
  obtain dest where dest: "blob_path root (sha256 ?b) = Some dest"
    using len by (auto simp: blob_path_def)
  have tmp_dest: "?tmp \<noteq> dest" using blob_path_not_tmp [OF dest, of uuid] by simp
  have created: "fs_get (fs_put ?tmp [] files) ?tmp = Some []" by simp
  obtain files1 where body: "stream_body ?tmp body [] 0 (fs_put ?tmp [] files) =
      (Ok (?b, int (length ?b)), files1)"
    and tmp1: "fs_get files1 ?tmp = Some ?b"
    and same1: "\<And>q. q \<noteq> ?tmp \<Longrightarrow> fs_get files1 q = fs_get files q"
    using stream_body_ok [OF ok created, of "[]" 0] by auto
  let ?files' = "snd (place_blob None ?tmp dest files1)"
  have run: "write_streamed sha256 uuid None root body files =
      (Ok \<lparr>w_hash = sha256 ?b, w_size_bytes = int (length ?b)\<rparr>, ?files')"
    using body dest
    by (simp add: write_streamed_def Let_def andthen_def create_file_def place_blob_def)
  have get: "fs_get ?files' q =
      (if q = ?tmp then None else if q = dest \<and> fs_get files dest = None then Some ?b
       else fs_get files q)" for q
    using tmp1 tmp_dest same1 by (auto simp: place_blob_def fs_get_rename)
  have "blob_file root h ?files' =
      (if h = sha256 ?b \<and> blob_file root h files = None then Some ?b else blob_file root h files)" for h
  proof (cases "blob_path root h")
    case None
    then show ?thesis using dest by (auto simp: blob_file_def)
  next
    case (Some p)
    have "h = sha256 ?b" if "p = dest" using blob_path_inj [OF _ dest, of h] Some that by simp
    moreover have "p = dest" if "h = sha256 ?b" using Some dest that by simp
    ultimately have pd: "p = dest \<longleftrightarrow> h = sha256 ?b" by metis
    have "p \<noteq> ?tmp" by (rule blob_path_not_tmp [OF Some])
    then show ?thesis using Some pd by (cases "p = dest") (simp_all add: blob_file_def get)
  qed
  moreover have "fs_get ?files' ?tmp = None" by (simp add: get)
  ultimately show ?thesis using run by blast
qed

text \<open>A body that breaks off: the error of the stream, and no blob touched.\<close>

lemma write_streamed_broken:
  assumes "\<not> stream_ok body"
  shows "\<exists>e files'. Inl e \<in> set body \<and>
    write_streamed sha256 uuid fault root body files = (Err (Io e), files') \<and>
    (\<forall>h. blob_file root h files' = blob_file root h files)"
proof -
  let ?tmp = "tmp_path root uuid"
  obtain e files' where e: "Inl e \<in> set body"
    and run: "stream_body ?tmp body [] 0 (fs_put ?tmp [] files) = (Err (Io e), files')"
    and same: "\<forall>q. q \<noteq> ?tmp \<longrightarrow> fs_get files' q = fs_get (fs_put ?tmp [] files) q"
    using stream_body_error [OF assms] by blast
  have "blob_file root h files' = blob_file root h files" for h
    using same by (intro blob_file_cong [where u = uuid]) simp
  then show ?thesis
    using e run by (auto simp: write_streamed_def Let_def andthen_def create_file_def)
qed

lemma write_streamed_short_digest:
  assumes "stream_ok body" and "length (sha256 (stream_bytes body)) < 4"
  shows "fst (write_streamed sha256 uuid fault root body files) = Panic \<and>
    blob_file root h (snd (write_streamed sha256 uuid fault root body files)) = blob_file root h files"
proof -
  let ?tmp = "tmp_path root uuid"
  have created: "fs_get (fs_put ?tmp [] files) ?tmp = Some []" by simp
  obtain files1 where body: "stream_body ?tmp body [] 0 (fs_put ?tmp [] files) =
      (Ok (stream_bytes body, int (length (stream_bytes body))), files1)"
    and same: "\<forall>q. q \<noteq> ?tmp \<longrightarrow> fs_get files1 q = fs_get (fs_put ?tmp [] files) q"
    using stream_body_ok [OF assms(1) created, of "[]" 0] by auto
  have "blob_file root h files1 = blob_file root h files"
    using same by (intro blob_file_cong [where u = uuid]) simp
  then show ?thesis
    using body assms(2)
    by (simp add: write_streamed_def Let_def andthen_def create_file_def blob_path_def)
qed

text \<open>A rename that fails: the blob is already there, or the upload fails and changes no blob.\<close>

lemma write_streamed_fault:
  assumes ok: "stream_ok body" and len: "4 \<le> length (sha256 (stream_bytes body))"
  shows "(blob_file root (sha256 (stream_bytes body)) files \<noteq> None \<and>
      write_streamed sha256 uuid (Some e) root body files = write_streamed sha256 uuid None root body files) \<or>
    (\<exists>e' files'. write_streamed sha256 uuid (Some e) root body files = (Err (Io e'), files') \<and>
      (\<forall>h. blob_file root h files' = blob_file root h files))"
proof -
  let ?tmp = "tmp_path root uuid"
  let ?b = "stream_bytes body"
  obtain dest where dest: "blob_path root (sha256 ?b) = Some dest"
    using len by (auto simp: blob_path_def)
  have tmp_dest: "dest \<noteq> ?tmp" using blob_path_not_tmp [OF dest, of uuid] by simp
  have created: "fs_get (fs_put ?tmp [] files) ?tmp = Some []" by simp
  obtain files1 where body: "stream_body ?tmp body [] 0 (fs_put ?tmp [] files) =
      (Ok (?b, int (length ?b)), files1)"
    and same1: "\<And>q. q \<noteq> ?tmp \<Longrightarrow> fs_get files1 q = fs_get files q"
    using stream_body_ok [OF ok created, of "[]" 0] by auto
  have same: "blob_file root h files1 = blob_file root h files" for h
    using same1 by (intro blob_file_cong [where u = uuid])
  have at_dest: "blob_file root (sha256 ?b) files = fs_get files1 dest"
    using dest same1 [OF tmp_dest] by (simp add: blob_file_def)
  show ?thesis
  proof (cases "fs_get files1 dest")
    case None
    then show ?thesis
      using body dest same
      by (simp add: write_streamed_def Let_def andthen_def create_file_def place_blob_def)
  next
    case (Some c)
    then show ?thesis
      using body dest at_dest
      by (simp add: write_streamed_def Let_def andthen_def create_file_def place_blob_def)
  qed
qed

lemma delete_blob_content:
  "blob_file root h (snd (delete_blob None root h' files)) =
   (if h = h' then None else blob_file root h files)"
proof (cases "blob_path root h")
  case None
  then show ?thesis by (simp add: blob_file_def)
next
  case (Some p)
  then show ?thesis
    using blob_path_inj [OF Some, of h']
    by (auto simp: blob_file_def delete_blob_def remove_file_def split: option.splits)
qed

lemma delete_blob_fault:
  "delete_blob (Some e) root h files = (r, files') \<Longrightarrow> files' = files"
  by (auto simp: delete_blob_def remove_file_def split: option.splits if_splits)

lemma read_blob_Ok: "blob_file root h files = Some c \<Longrightarrow> read_blob None root h files = (Ok c, files)"
  by (auto simp: read_blob_def blob_file_def open_file_def split: option.splits)

lemma read_blob_missing:
  "4 \<le> length h \<Longrightarrow> blob_file root h files = None \<Longrightarrow>
   read_blob None root h files = (Err (NotFound (''blob '' @ h)), files)"
  by (auto simp: read_blob_def blob_file_def open_file_def blob_path_def)

section \<open>The interface of a content-addressed store\<close>

text \<open>Every blob lies under the digest of its content.\<close>

definition integral :: "(bytes \<Rightarrow> string) \<Rightarrow> (string \<Rightarrow> 's \<Rightarrow> bytes option) \<Rightarrow> 's \<Rightarrow> bool" where
  "integral digest content s \<longleftrightarrow> (\<forall>h c. content h s = Some c \<longrightarrow> digest c = h)"

locale content_store =
  fixes digest :: "bytes \<Rightarrow> string"
    and content :: "string \<Rightarrow> 's \<Rightarrow> bytes option"
    and put :: "'c \<Rightarrow> 's \<Rightarrow> 's"
    and del :: "string \<Rightarrow> 's \<Rightarrow> 's"
    and payload :: "'c \<Rightarrow> bytes"
    and accepted :: "'c \<Rightarrow> bool"
  assumes put_content: "accepted c \<Longrightarrow> content h (put c s) =
      (if h = digest (payload c) \<and> content h s = None then Some (payload c) else content h s)"
    and put_rejected: "\<not> accepted c \<Longrightarrow> content h (put c s) = content h s"
    and del_content: "content h (del h' s) = (if h = h' then None else content h s)"
begin

lemma integral_put: "integral digest content s \<Longrightarrow> integral digest content (put c s)"
  by (cases "accepted c") (auto simp: integral_def put_content put_rejected)

lemma integral_del: "integral digest content s \<Longrightarrow> integral digest content (del h s)"
  by (simp add: integral_def del_content)

lemma put_available:
  "accepted c \<Longrightarrow> integral digest content s \<Longrightarrow>
   \<exists>b. content (digest (payload c)) (put c s) = Some b \<and> digest b = digest (payload c)"
  by (auto simp: integral_def put_content)

lemma put_exact:
  "accepted c \<Longrightarrow> (\<And>b. content (digest (payload c)) s = Some b \<Longrightarrow> b = payload c) \<Longrightarrow>
   content (digest (payload c)) (put c s) = Some (payload c)"
  by (cases "content (digest (payload c)) s") (auto simp: put_content)

lemma put_keeps: "content h s = Some b \<Longrightarrow> content h (put c s) = Some b"
  by (cases "accepted c") (simp_all add: put_content put_rejected)

lemma put_dedup:
  "accepted c \<Longrightarrow> accepted c' \<Longrightarrow> digest (payload c') = digest (payload c) \<Longrightarrow>
   content h (put c' (put c s)) = content h (put c s)"
  by (cases "content (digest (payload c)) s"; cases "h = digest (payload c)") (simp_all add: put_content)

lemma del_put_other:
  "h \<noteq> digest (payload c) \<Longrightarrow> content h' (del h (put c s)) = content h' (put c (del h s))"
  by (cases "accepted c") (auto simp: del_content put_content put_rejected)

end

interpretation lfs: content_store sha256 "blob_file root"
    "\<lambda>body files. snd (write_streamed sha256 uuid None root body files)"
    "\<lambda>h files. snd (delete_blob None root h files)"
    stream_bytes
    "\<lambda>body. stream_ok body \<and> 4 \<le> length (sha256 (stream_bytes body))"
  for sha256 uuid root
proof (unfold_locales, goal_cases)
  case (1 body h files)
  then show ?case using write_streamed_Ok [of body sha256 uuid root files] by auto
next
  case (2 body h files)
  then show ?case
    using write_streamed_broken [of body sha256 uuid None root files]
      write_streamed_short_digest [of body sha256 uuid None root files h]
    by (cases "stream_ok body") auto
next
  case (3 h h' files)
  show ?case by (rule delete_blob_content)
qed

end
