(* ===== verification/Engine_State.thy ===== *)
theory Engine_State
  imports Db_Stats Storage
begin

text \<open>
  What the garbage collector and the HTTP handlers share: the database and the blob store,
  with the operations of either lifted to the pair, and the invariants that relate the two.
\<close>

record sys =
  sys_db :: db
  sys_fs :: fs

definition on_db :: "(db, 'a) op \<Rightarrow> (sys, 'a) op" where
  "on_db m = (\<lambda>s. let (r, d) = m (sys_db s) in (r, s\<lparr>sys_db := d\<rparr>))"

definition on_fs :: "(fs, 'a) op \<Rightarrow> (sys, 'a) op" where
  "on_fs m = (\<lambda>s. let (r, f) = m (sys_fs s) in (r, s\<lparr>sys_fs := f\<rparr>))"

lemma on_db_apply [simp, op_simps]:
  "m (sys_db s) = (r, d) \<Longrightarrow> on_db m s = (r, s\<lparr>sys_db := d\<rparr>)"
  by (simp add: on_db_def)

lemma on_fs_apply [simp, op_simps]:
  "m (sys_fs s) = (r, f) \<Longrightarrow> on_fs m s = (r, s\<lparr>sys_fs := f\<rparr>)"
  by (simp add: on_fs_def)

lemma on_db_frame [simp]: "sys_fs (snd (on_db m s)) = sys_fs s"
  by (simp add: on_db_def split: prod.split)

lemma on_fs_frame [simp]: "sys_db (snd (on_fs m s)) = sys_db s"
  by (simp add: on_fs_def split: prod.split)

lemma sys_db_on_db [simp]: "sys_db (snd (on_db m s)) = snd (m (sys_db s))"
  by (simp add: on_db_def split: prod.split)

lemma sys_fs_on_fs [simp]: "sys_fs (snd (on_fs m s)) = snd (m (sys_fs s))"
  by (simp add: on_fs_def split: prod.split)

lemma fst_on_db [simp]: "fst (on_db m s) = fst (m (sys_db s))"
  by (simp add: on_db_def split: prod.split)

lemma fst_on_fs [simp]: "fst (on_fs m s) = fst (m (sys_fs s))"
  by (simp add: on_fs_def split: prod.split)

lemma keeps_on_db: "keeps I m \<Longrightarrow> keeps (\<lambda>s. I (sys_db s)) (on_db m)"
  by (simp add: keeps_def)

lemma keeps_on_fs: "keeps (\<lambda>s. I (sys_db s)) (on_fs m)"
  by (simp add: keeps_def)

text \<open>Every hash is long enough for the slices of \<open>blob_path\<close>.\<close>

definition hashes_ok :: "db \<Rightarrow> bool" where
  "hashes_ok d \<longleftrightarrow> (\<forall>b\<in>set (db_blobs d). 4 \<le> length (b_hash b))"

text \<open>Every blob that an entry refers to can be read.\<close>

definition blobs_present :: "path \<Rightarrow> sys \<Rightarrow> bool" where
  "blobs_present root s \<longleftrightarrow>
     (\<forall>e\<in>set (db_entries (sys_db s)). blob_file root (e_blob_hash e) (sys_fs s) \<noteq> None)"

end
