(* ===== verification/Marmotte_Config.thy ===== *)
theory Marmotte_Config
  imports Core_Error
begin

text \<open>
  The typed configuration (\<open>config.rs\<close>): one record per struct, the serde defaults, and
  \<open>Config::load\<close>. What figment reads from the TOML file and from the environment are the two
  dictionaries that \<open>config_load\<close> takes, from key paths such as \<open>[server, listen]\<close> to values;
  the syntax of socket addresses is a parameter.
\<close>

section \<open>Records\<close>

record server_config =
  listen :: string
  storage_root :: string
  request_timeout_secs :: u64
  upload_max_bytes :: u64

record database_config =
  db_path :: string
  busy_timeout_ms :: u64

record gc_config =
  interval_secs :: u64
  default_ttl_sstate_days :: u64
  default_ttl_downloads_days :: u64
  global_quota_bytes :: u64
  trigger_threshold_pct :: byte

record auth_config =
  verify_cache_size :: u64
  verify_cache_ttl_secs :: u64

datatype log_format = Json | Pretty

record logging_config =
  log_level :: string
  log_format :: log_format

record config =
  cfg_server :: server_config
  cfg_database :: database_config
  cfg_gc :: gc_config
  cfg_auth :: auth_config
  cfg_logging :: logging_config

section \<open>Defaults\<close>

definition default_request_timeout_secs :: u64 where
  "default_request_timeout_secs = 300"

definition default_upload_max_bytes :: u64 where
  "default_upload_max_bytes = 5368709120"

definition default_busy_timeout_ms :: u64 where
  "default_busy_timeout_ms = 5000"

definition default_interval_secs :: u64 where
  "default_interval_secs = 300"

definition default_trigger_threshold_pct :: byte where
  "default_trigger_threshold_pct = 90"

definition default_auth_config :: auth_config where
  "default_auth_config = \<lparr>verify_cache_size = 1024, verify_cache_ttl_secs = 300\<rparr>"

definition default_logging_config :: logging_config where
  "default_logging_config = \<lparr>log_level = ''info'', log_format = Json\<rparr>"

section \<open>Extraction\<close>

datatype cfg_value = CfgInt int | CfgStr string | CfgBool bool

type_synonym dict = "string list \<Rightarrow> cfg_value option"

definition de_uint :: "nat \<Rightarrow> cfg_value \<Rightarrow> int option" where
  "de_uint bits v =
     (case v of CfgInt i \<Rightarrow> if 0 \<le> i \<and> i < 2 ^ bits then Some i else None | _ \<Rightarrow> None)"

definition de_u64 :: "cfg_value \<Rightarrow> u64 option" where
  "de_u64 v = map_option word_of_int (de_uint 64 v)"

definition de_u8 :: "cfg_value \<Rightarrow> byte option" where
  "de_u8 v = map_option word_of_int (de_uint 8 v)"

definition de_str :: "(string \<Rightarrow> bool) \<Rightarrow> cfg_value \<Rightarrow> string option" where
  "de_str ok v = (case v of CfgStr s \<Rightarrow> if ok s then Some s else None | _ \<Rightarrow> None)"

definition de_log_format :: "cfg_value \<Rightarrow> log_format option" where
  "de_log_format v =
     (case v of
        CfgStr s \<Rightarrow> if s = ''json'' then Some Json else if s = ''pretty'' then Some Pretty else None
      | _ \<Rightarrow> None)"

text \<open>One field: the default, if there is one, stands for an absent key.\<close>

definition field ::
  "dict \<Rightarrow> string list \<Rightarrow> (cfg_value \<Rightarrow> 'a option) \<Rightarrow> 'a option \<Rightarrow> (unit, 'a) op" where
  "field d key de default_value = query (\<lambda>_.
     case d key of
       None \<Rightarrow>
         (case default_value of
            None \<Rightarrow> Err (Config (''missing field '' @ concat key))
          | Some a \<Rightarrow> Ok a)
     | Some v \<Rightarrow>
         (case de v of
            None \<Rightarrow> Err (Config (''invalid value for '' @ concat key))
          | Some a \<Rightarrow> Ok a))"

definition extract_server :: "(string \<Rightarrow> bool) \<Rightarrow> dict \<Rightarrow> (unit, server_config) op" where
  "extract_server is_addr d =
     andthen (field d [''server'', ''listen''] (de_str is_addr) None) (\<lambda>l.
     andthen (field d [''server'', ''storage_root''] (de_str (\<lambda>_. True)) None) (\<lambda>r.
     andthen (field d [''server'', ''request_timeout_secs''] de_u64
                (Some default_request_timeout_secs)) (\<lambda>t.
     andthen (field d [''server'', ''upload_max_bytes''] de_u64
                (Some default_upload_max_bytes)) (\<lambda>m.
     ret \<lparr>listen = l, storage_root = r, request_timeout_secs = t, upload_max_bytes = m\<rparr>))))"

definition extract_database :: "dict \<Rightarrow> (unit, database_config) op" where
  "extract_database d =
     andthen (field d [''database'', ''path''] (de_str (\<lambda>_. True)) None) (\<lambda>p.
     andthen (field d [''database'', ''busy_timeout_ms''] de_u64
                (Some default_busy_timeout_ms)) (\<lambda>b.
     ret \<lparr>db_path = p, busy_timeout_ms = b\<rparr>))"

definition extract_gc :: "dict \<Rightarrow> (unit, gc_config) op" where
  "extract_gc d =
     andthen (field d [''gc'', ''interval_secs''] de_u64 (Some default_interval_secs)) (\<lambda>i.
     andthen (field d [''gc'', ''default_ttl_sstate_days''] de_u64 None) (\<lambda>s.
     andthen (field d [''gc'', ''default_ttl_downloads_days''] de_u64 None) (\<lambda>w.
     andthen (field d [''gc'', ''global_quota_bytes''] de_u64 None) (\<lambda>q.
     andthen (field d [''gc'', ''trigger_threshold_pct''] de_u8
                (Some default_trigger_threshold_pct)) (\<lambda>t.
     ret \<lparr>interval_secs = i, default_ttl_sstate_days = s, default_ttl_downloads_days = w,
          global_quota_bytes = q, trigger_threshold_pct = t\<rparr>)))))"

definition extract_auth :: "dict \<Rightarrow> (unit, auth_config) op" where
  "extract_auth d =
     andthen (field d [''auth'', ''verify_cache_size''] de_u64
                (Some (verify_cache_size default_auth_config))) (\<lambda>n.
     andthen (field d [''auth'', ''verify_cache_ttl_secs''] de_u64
                (Some (verify_cache_ttl_secs default_auth_config))) (\<lambda>t.
     ret \<lparr>verify_cache_size = n, verify_cache_ttl_secs = t\<rparr>))"

definition extract_logging :: "dict \<Rightarrow> (unit, logging_config) op" where
  "extract_logging d =
     andthen (field d [''logging'', ''level''] (de_str (\<lambda>_. True))
                (Some (log_level default_logging_config))) (\<lambda>l.
     andthen (field d [''logging'', ''format''] de_log_format
                (Some (log_format default_logging_config))) (\<lambda>f.
     ret \<lparr>log_level = l, log_format = f\<rparr>))"

definition extract_config :: "(string \<Rightarrow> bool) \<Rightarrow> dict \<Rightarrow> (unit, config) op" where
  "extract_config is_addr d =
     andthen (extract_server is_addr d) (\<lambda>sv.
     andthen (extract_database d) (\<lambda>dbc.
     andthen (extract_gc d) (\<lambda>gc.
     andthen (extract_auth d) (\<lambda>au.
     andthen (extract_logging d) (\<lambda>lg.
     ret \<lparr>cfg_server = sv, cfg_database = dbc, cfg_gc = gc, cfg_auth = au, cfg_logging = lg\<rparr>)))))"

text \<open>A later \<open>merge\<close> wins: the environment overrides the file.\<close>

definition config_load :: "(string \<Rightarrow> bool) \<Rightarrow> string + dict \<Rightarrow> dict \<Rightarrow> config outcome" where
  "config_load is_addr toml env =
     (case toml of
        Inl msg \<Rightarrow> Err (Config msg)
      | Inr file \<Rightarrow> fst (extract_config is_addr (file ++ env) ()))"

section \<open>Behaviour\<close>

lemma field_Ok:
  "field d key de def u = (Ok a, u') \<longleftrightarrow>
   (case d key of None \<Rightarrow> def = Some a | Some v \<Rightarrow> de v = Some a)"
  by (cases u; cases u') (simp add: field_def split: option.splits)

lemma extract_fields:
  assumes "extract_config is_addr d u = (Ok c, u')"
  shows "d [''server'', ''listen''] = Some (CfgStr (listen (cfg_server c)))"
    and "is_addr (listen (cfg_server c))"
    and "\<exists>v. d [''gc'', ''global_quota_bytes''] = Some v \<and>
      de_u64 v = Some (global_quota_bytes (cfg_gc c))"
    and "d [''database'', ''busy_timeout_ms''] = None \<Longrightarrow> busy_timeout_ms (cfg_database c) = 5000"
proof -
  from assms obtain sv dbc gc au lg s1 s2 s3
    where sv: "extract_server is_addr d u = (Ok sv, s1)"
      and dbc: "extract_database d s1 = (Ok dbc, s2)" and gc: "extract_gc d s2 = (Ok gc, s3)"
      and c: "c = \<lparr>cfg_server = sv, cfg_database = dbc, cfg_gc = gc, cfg_auth = au, cfg_logging = lg\<rparr>"
    unfolding extract_config_def by (elim andthen_OkE) (rule that, auto)
  from sv have "d [''server'', ''listen''] = Some (CfgStr (listen sv)) \<and> is_addr (listen sv)"
    unfolding extract_server_def
    by (elim andthen_OkE) (auto simp: field_Ok de_str_def split: option.splits cfg_value.splits if_splits)
  then show "d [''server'', ''listen''] = Some (CfgStr (listen (cfg_server c)))"
    and "is_addr (listen (cfg_server c))"
    by (simp_all add: c)
  from gc show "\<exists>v. d [''gc'', ''global_quota_bytes''] = Some v \<and>
      de_u64 v = Some (global_quota_bytes (cfg_gc c))"
    unfolding extract_gc_def c by (elim andthen_OkE) (auto simp: field_Ok split: option.splits)
  from dbc show "busy_timeout_ms (cfg_database c) = 5000" if "d [''database'', ''busy_timeout_ms''] = None"
    using that unfolding extract_database_def c
    by (elim andthen_OkE) (auto simp: field_Ok default_busy_timeout_ms_def)
qed

lemma de_u64_value: "de_u64 v = Some w \<Longrightarrow> v = CfgInt (uint w)"
  by (auto simp: de_u64_def de_uint_def uint_word_of_int split: cfg_value.splits if_splits)

end
