(* ===== verification/Gc.thy ===== *)
theory Gc
  imports Engine_State Marmotte_Config
begin

text \<open>
  The garbage collector (\<open>gc.rs\<close>): \<open>run\<close> with its four phases and \<open>orphan_scan\<close>. A sweep
  holds the service's mutex, so it is a function of the state it starts in. What the code
  reads from its surroundings is the record \<open>gc_env\<close>: the clock, the orders in which SQLite
  and \<open>HashSet\<close> return rows that nothing orders (ranks the rows are sorted by), and the faults
  of the file system. The report's counters are \<open>u64\<close> and wrap.
\<close>

section \<open>Environment and reports\<close>

record gc_env =
  ge_now :: int
  ge_entry_rank :: "entry \<Rightarrow> nat"
  ge_blob_rank :: "string \<Rightarrow> nat"
  ge_unlink :: "string \<Rightarrow> io_error option"
  ge_walk :: "path \<Rightarrow> io_error option"

record gc_report =
  evicted_entries :: u64
  evicted_bytes :: u64
  freed_blobs :: u64
  usage_global_bytes :: int

record orphan_report =
  disk_orphans_removed :: u64
  db_orphans_removed :: u64

definition gc_report_default :: gc_report where
  "gc_report_default =
     \<lparr>evicted_entries = 0, evicted_bytes = 0, freed_blobs = 0, usage_global_bytes = 0\<rparr>"

definition count_evicted :: "int \<Rightarrow> gc_report \<Rightarrow> gc_report" where
  "count_evicted size_bytes rep =
     rep\<lparr>evicted_entries := evicted_entries rep + 1,
         evicted_bytes := evicted_bytes rep + as_u64 size_bytes\<rparr>"

text \<open>\<open>if !dry_run { self.db.entries().delete(project_id, id).await?; }\<close>\<close>

definition gc_delete :: "bool \<Rightarrow> int \<Rightarrow> int \<Rightarrow> (sys, unit) op" where
  "gc_delete dry_run project_id i =
     (if dry_run then ret () else on_db (entries_delete project_id i))"

section \<open>Phase 1: time to live\<close>

definition default_ttl_days :: "gc_config \<Rightarrow> kind \<Rightarrow> u64" where
  "default_ttl_days cfg kind =
     (case kind of
        Sstate \<Rightarrow> default_ttl_sstate_days cfg
      | Downloads \<Rightarrow> default_ttl_downloads_days cfg)"

definition default_secs :: "gc_config \<Rightarrow> kind \<Rightarrow> int" where
  "default_secs cfg kind = as_i64 (default_ttl_days cfg kind * 86400)"

text \<open>The columns of a candidate row: \<open>(id, project_id, size_bytes)\<close>.\<close>

definition candidate :: "entry \<Rightarrow> int \<times> int \<times> int" where
  "candidate e = (e_id e, e_project_id e, e_size_bytes e)"

text \<open>The statement with its join; \<open>pinned = 0\<close> is \<open>\<not> e_pinned\<close>.\<close>

definition ttl_rows :: "(entry \<Rightarrow> nat) \<Rightarrow> int \<Rightarrow> int \<Rightarrow> kind \<Rightarrow> db \<Rightarrow> entry list" where
  "ttl_rows rank now cutoff_default kind d =
     sort_key rank
       [e. e \<leftarrow> db_entries d, p \<leftarrow> db_projects d,
           p_id p = e_project_id e \<and> e_kind e = kind \<and> \<not> e_pinned e \<and>
           e_last_accessed e < now - (case p_ttl_seconds p of None \<Rightarrow> 0 | Some t \<Rightarrow> t) \<and>
           (p_ttl_seconds p \<noteq> None \<or> e_last_accessed e < cutoff_default)]"

definition evict_row :: "bool \<Rightarrow> int \<times> int \<times> int \<Rightarrow> gc_report \<Rightarrow> (sys, gc_report) op" where
  "evict_row dry_run = (\<lambda>(i, project_id, size_bytes) rep.
     andthen (gc_delete dry_run project_id i) (\<lambda>_. ret (count_evicted size_bytes rep)))"

definition ttl_kind :: "gc_env \<Rightarrow> gc_config \<Rightarrow> bool \<Rightarrow> kind \<Rightarrow> gc_report \<Rightarrow> (sys, gc_report) op" where
  "ttl_kind env cfg dry_run kind rep =
     (let cutoff_default = wrap_i64 (ge_now env - default_secs cfg kind) in
      andthen
        (query (\<lambda>s. Ok (map candidate
           (ttl_rows (ge_entry_rank env) (ge_now env) cutoff_default kind (sys_db s)))))
        (\<lambda>candidates. foreach (evict_row dry_run) candidates rep))"

definition ttl_phase :: "gc_env \<Rightarrow> gc_config \<Rightarrow> bool \<Rightarrow> gc_report \<Rightarrow> (sys, gc_report) op" where
  "ttl_phase env cfg dry_run = foreach (ttl_kind env cfg dry_run) [Sstate, Downloads]"

section \<open>Phases 2 and 3: quotas\<close>

text \<open>\<open>ORDER BY last_accessed ASC, id ASC\<close>\<close>

definition lru_order :: "entry list \<Rightarrow> entry list" where
  "lru_order es = sort_key e_last_accessed (sort_key e_id es)"

text \<open>The eviction loop of both quota phases: stop as soon as the usage fits.\<close>

fun evict_until ::
  "bool \<Rightarrow> int \<Rightarrow> (int \<times> int \<times> int) list \<Rightarrow> int \<Rightarrow> gc_report \<Rightarrow> (sys, gc_report) op" where
  "evict_until dry_run quota [] usage rep = ret rep"
| "evict_until dry_run quota ((i, project_id, size_bytes) # rows) usage rep =
     (if usage \<le> quota then ret rep
      else
        andthen (gc_delete dry_run project_id i) (\<lambda>_.
        evict_until dry_run quota rows (wrap_i64 (usage - size_bytes))
          (count_evicted size_bytes rep)))"

definition quota_project :: "bool \<Rightarrow> project \<Rightarrow> gc_report \<Rightarrow> (sys, gc_report) op" where
  "quota_project dry_run p rep =
     (case p_quota_bytes p of
        None \<Rightarrow> ret rep
      | Some quota \<Rightarrow>
          andthen (on_db (project_usage (p_id p))) (\<lambda>usage.
          if usage \<le> quota then ret rep
          else
            andthen
              (query (\<lambda>s. Ok (map candidate (lru_order
                 (filter (\<lambda>e. e_project_id e = p_id p \<and> \<not> e_pinned e) (db_entries (sys_db s)))))))
              (\<lambda>to_evict. evict_until dry_run quota to_evict usage rep)))"

definition quota_phase :: "bool \<Rightarrow> gc_report \<Rightarrow> (sys, gc_report) op" where
  "quota_phase dry_run rep =
     andthen (on_db projects_list) (\<lambda>projects. foreach (quota_project dry_run) projects rep)"

definition global_phase :: "gc_config \<Rightarrow> bool \<Rightarrow> gc_report \<Rightarrow> (sys, gc_report) op" where
  "global_phase cfg dry_run rep =
     andthen (on_db total_size) (\<lambda>usage.
     let quota = as_i64 (global_quota_bytes cfg) in
     if usage \<le> quota then ret rep
     else
       andthen
         (query (\<lambda>s. Ok (map candidate (lru_order
            (filter (\<lambda>e. \<not> e_pinned e) (db_entries (sys_db s)))))))
         (\<lambda>candidates. evict_until dry_run quota candidates usage rep))"

section \<open>Phase 4: reclaiming blobs\<close>

definition BATCH :: int where
  "BATCH = 1000"

text \<open>\<open>if let Err(e) = self.store.delete_blob(h).await { warn }\<close>: an error is only logged.\<close>

definition unlink_logged :: "gc_env \<Rightarrow> path \<Rightarrow> string \<Rightarrow> (sys, unit) op" where
  "unlink_logged env root hash = (\<lambda>s.
     case delete_blob (ge_unlink env hash) root hash (sys_fs s) of
       (Panic, f) \<Rightarrow> (Panic, s\<lparr>sys_fs := f\<rparr>)
     | (_, f) \<Rightarrow> (Ok (), s\<lparr>sys_fs := f\<rparr>))"

definition free_blob ::
  "gc_env \<Rightarrow> path \<Rightarrow> bool \<Rightarrow> string \<Rightarrow> gc_report \<Rightarrow> (sys, gc_report) op" where
  "free_blob env root dry_run hash rep =
     andthen
       (if dry_run then ret ()
        else andthen (unlink_logged env root hash) (\<lambda>_. on_db (blobs_delete hash)))
       (\<lambda>_. ret (rep\<lparr>freed_blobs := freed_blobs rep + 1\<rparr>))"

text \<open>What deletes rows keeps the others, so every batch that is not empty shrinks the table.\<close>

lemma free_blob_rows:
  "free_blob env root False hash rep s = (Ok rep', s') \<Longrightarrow>
   db_blobs (sys_db s') = sql_delete (\<lambda>b. b_hash b = hash) (db_blobs (sys_db s))"
  unfolding free_blob_def if_False
  by (elim andthen_OkE)
     (auto simp: unlink_logged_def blobs_delete_def on_db_def split: prod.splits outcome.splits if_splits)

lemma free_blobs_rows:
  "foreach (free_blob env root False) batch rep s = (Ok rep', s') \<Longrightarrow>
   db_blobs (sys_db s') = filter (\<lambda>b. b_hash b \<notin> set batch) (db_blobs (sys_db s))"
proof (induction batch arbitrary: rep s)
  case Nil
  then show ?case by simp
next
  case (Cons h hs)
  from Cons.prems obtain rep1 s1 where one: "free_blob env root False h rep s = (Ok rep1, s1)"
    and rest: "foreach (free_blob env root False) hs rep1 s1 = (Ok rep', s')"
    by (auto elim: andthen_OkE)
  from Cons.IH [OF rest] free_blob_rows [OF one] show ?case
    by (simp add: sql_delete_def conj_commute)
qed

lemma zero_refcount_rows:
  "fst (zero_refcount rank limit d) = Ok batch \<Longrightarrow>
   set batch \<subseteq> b_hash ` {b \<in> set (db_blobs d). b_refcount b = 0}"
  by (auto simp: zero_refcount_def dest!: subsetD [OF sql_limit_set])

text \<open>
  The loop. A batch reads the table, so the recursion is on the state; it ends because every
  round that does not end it removes at least one row.
\<close>

function cleanup_blobs ::
  "gc_env \<Rightarrow> path \<Rightarrow> bool \<Rightarrow> gc_report \<Rightarrow> sys \<Rightarrow> gc_report outcome \<times> sys" where
  "cleanup_blobs env root dry_run rep s =
     (case on_db (zero_refcount (ge_blob_rank env) BATCH) s of
        (Ok batch, s1) \<Rightarrow>
          if batch = [] then (Ok rep, s1)
          else
            (case foreach (free_blob env root dry_run) batch rep s1 of
               (Ok rep', s2) \<Rightarrow>
                 if dry_run then (Ok rep', s2) else cleanup_blobs env root dry_run rep' s2
             | (Err e, s2) \<Rightarrow> (Err e, s2)
             | (Panic, s2) \<Rightarrow> (Panic, s2))
      | (Err e, s1) \<Rightarrow> (Err e, s1)
      | (Panic, s1) \<Rightarrow> (Panic, s1))"
  by pat_completeness auto

termination
proof (relation "measure (\<lambda>(env, root, dry_run, rep, s). length (db_blobs (sys_db s)))",
    goal_cases)
  case 1
  show ?case by simp
next
  case (2 env root dry_run rep s x s1 batch y s2 rep')
  then have loop: "foreach (free_blob env root False) batch rep s1 = (Ok rep', s2)"
    by (simp split: prod.splits)
  have "fst (zero_refcount (ge_blob_rank env) BATCH (sys_db s)) = Ok batch" and s1: "s1 = s"
    using 2 by (auto simp: on_db_def zero_refcount_def)
  then have "set batch \<subseteq> b_hash ` {b \<in> set (db_blobs (sys_db s)). b_refcount b = 0}"
    by (intro zero_refcount_rows)
  moreover obtain h where "h \<in> set batch" using 2(3) by (cases batch) auto
  ultimately obtain b where "b \<in> set (db_blobs (sys_db s))" "b_hash b \<in> set batch" by auto
  then have "length (filter (\<lambda>b. b_hash b \<notin> set batch) (db_blobs (sys_db s))) <
      length (db_blobs (sys_db s))"
    by (intro length_filter_less [of b]) auto
  then show ?case using free_blobs_rows [OF loop] s1 by simp
qed

declare cleanup_blobs.simps [simp del]

section \<open>The sweep\<close>

definition gc_run :: "gc_env \<Rightarrow> gc_config \<Rightarrow> path \<Rightarrow> bool \<Rightarrow> (sys, gc_report) op" where
  "gc_run env cfg root dry_run =
     andthen (ttl_phase env cfg dry_run gc_report_default) (\<lambda>rep.
     andthen (quota_phase dry_run rep) (\<lambda>rep.
     andthen (global_phase cfg dry_run rep) (\<lambda>rep.
     andthen (cleanup_blobs env root dry_run rep) (\<lambda>rep.
     andthen (on_db total_size) (\<lambda>usage.
     ret (rep\<lparr>usage_global_bytes := usage\<rparr>))))))"

end
