(* ===== verification/Gc_Evict.thy ===== *)
theory Gc_Evict
  imports Gc
begin

text \<open>
  What the eviction loops do, as a function on rows: \<open>evict_all\<close> removes a list of entries with
  their references, \<open>over_quota\<close> is the prefix of a list that has to go before the rest fits.
  The loops of \<open>Gc\<close> are shown to compute exactly these, in a real and in a dry run, and
  \<open>evict_all\<close> is characterised by the rows, references and sizes it leaves.
\<close>

section \<open>Removing a list of entries\<close>

definition evict_all :: "entry list \<Rightarrow> db \<Rightarrow> db" where
  "evict_all es d = fold evict1 es d"

text \<open>Rows that can be evicted one after the other.\<close>

definition evictable :: "entry list \<Rightarrow> db \<Rightarrow> bool" where
  "evictable es d \<longleftrightarrow> wf_db d \<and> distinct es \<and> set es \<subseteq> set (db_entries d)"

lemma evictable_Cons:
  assumes "evictable (e # es) d"
  shows "wf_db d" and "e \<in> set (db_entries d)" and "evictable es (evict1 e d)"
proof -
  show wf: "wf_db d" and e: "e \<in> set (db_entries d)" using assms by (simp_all add: evictable_def)
  show "evictable es (evict1 e d)"
    using assms evict1_other_rows [OF wf e] wf_evict1 [OF wf e] by (auto simp: evictable_def)
qed

lemma evict_all_simps [simp]:
  "evict_all [] d = d"
  "evict_all (e # es) d = evict_all es (evict1 e d)"
  by (simp_all add: evict_all_def)

lemma evict_all_append: "evict_all (xs @ ys) d = evict_all ys (evict_all xs d)"
  by (simp add: evict_all_def)

lemma accounts_evict_all [simp]: "accounts (evict_all es d) = accounts d"
  by (induction es arbitrary: d) simp_all

lemma projects_evict_all [simp]: "db_projects (evict_all es d) = db_projects d"
  using accounts_evict_all [of es d] by (simp add: accounts_def)

lemma wf_evict_all: "evictable es d \<Longrightarrow> wf_db (evict_all es d)"
proof (induction es arbitrary: d)
  case Nil
  then show ?case by (simp add: evictable_def)
next
  case (Cons e es)
  then show ?case using evictable_Cons(3) by simp
qed

lemma set_evict_all:
  "evictable es d \<Longrightarrow> set (db_entries (evict_all es d)) = set (db_entries d) - set es"
proof (induction es arbitrary: d)
  case Nil
  then show ?case by simp
next
  case (Cons e es)
  note c = evictable_Cons [OF Cons.prems]
  show ?case using Cons.IH [OF c(3)] evict1_other_rows [OF c(1,2)] by auto
qed

lemma entries_evict_all:
  "evictable es d \<Longrightarrow> db_entries (evict_all es d) = filter (\<lambda>e. e \<notin> set es) (db_entries d)"
proof (induction es arbitrary: d)
  case Nil
  then show ?case by simp
next
  case (Cons e es)
  note c = evictable_Cons [OF Cons.prems]
  have "filter (\<lambda>x. x \<notin> set es) (sql_delete (\<lambda>r. e_id r = e_id e) (db_entries d)) =
      filter (\<lambda>x. x \<notin> set (e # es)) (db_entries d)"
    using wf_entry_ids [OF c(1) _ c(2)] by (auto simp: sql_delete_def intro!: filter_cong)
  then show ?case using Cons.IH [OF c(3)] by simp
qed

lemma leak_evict_all: "evictable es d \<Longrightarrow> leak (evict_all es d) h = leak d h"
proof (induction es arbitrary: d)
  case Nil
  then show ?case by simp
next
  case (Cons e es)
  note c = evictable_Cons [OF Cons.prems]
  show ?case using Cons.IH [OF c(3)] leak_evict1 [OF c(1,2)] by simp
qed

lemma has_blob_evict_all [simp]: "has_blob (evict_all es d) h \<longleftrightarrow> has_blob d h"
  by (induction es arbitrary: d) simp_all

text \<open>Eviction changes no hash and no size of a blob row.\<close>

lemma blob_sizes_evict_all [simp]:
  "map (\<lambda>b. (b_hash b, b_size_bytes b)) (db_blobs (evict_all es d)) =
   map (\<lambda>b. (b_hash b, b_size_bytes b)) (db_blobs d)"
  by (induction es arbitrary: d) (simp_all add: evict1_def map_sql_update)

lemma blob_bytes_evict_all [simp]: "blob_bytes (evict_all es d) = blob_bytes d"
proof -
  have "map b_size_bytes bs = map snd (map (\<lambda>b. (b_hash b, b_size_bytes b)) bs)" for bs
    by (simp add: comp_def)
  from this [of "db_blobs (evict_all es d)"] this [of "db_blobs d"] show ?thesis
    unfolding blob_bytes_def by (simp only: blob_sizes_evict_all)
qed

lemma hashes_ok_evict_all [simp]: "hashes_ok (evict_all es d) \<longleftrightarrow> hashes_ok d"
proof -
  have hash: "hashes_ok d \<longleftrightarrow> (\<forall>p\<in>set (map (\<lambda>b. (b_hash b, b_size_bytes b)) (db_blobs d)).
      4 \<le> length (fst p))" for d
    by (simp add: hashes_ok_def)
  show ?thesis unfolding hash blob_sizes_evict_all ..
qed

section \<open>The report\<close>

definition count_all :: "entry list \<Rightarrow> gc_report \<Rightarrow> gc_report" where
  "count_all es rep =
     rep\<lparr>evicted_entries := evicted_entries rep + of_nat (length es),
         evicted_bytes := evicted_bytes rep + as_u64 (sum_list (map e_size_bytes es))\<rparr>"

lemma count_all_Nil [simp]: "count_all [] rep = rep"
  by (simp add: count_all_def as_u64_def)

lemma count_all_Cons [simp]:
  "count_all (e # es) rep = count_all es (count_evicted (e_size_bytes e) rep)"
  by (simp add: count_all_def count_evicted_def as_u64_def add.assoc)

lemma count_all_append: "count_all (xs @ ys) rep = count_all ys (count_all xs rep)"
  by (simp add: count_all_def as_u64_def add.assoc)

section \<open>The loops\<close>

definition evicted :: "bool \<Rightarrow> entry list \<Rightarrow> sys \<Rightarrow> sys" where
  "evicted dry_run es s = (if dry_run then s else s\<lparr>sys_db := evict_all es (sys_db s)\<rparr>)"

lemma evicted_sel [simp]:
  "evicted True es s = s"
  "sys_db (evicted False es s) = evict_all es (sys_db s)"
  "sys_fs (evicted dry_run es s) = sys_fs s"
  by (simp_all add: evicted_def)

lemma evicted_Nil [simp]: "evicted dry_run [] s = s"
  by (simp add: evicted_def)

lemma gc_delete_row:
  assumes "wf_db (sys_db s)" and "e \<in> set (db_entries (sys_db s))"
  shows "gc_delete dry_run (e_project_id e) (e_id e) s = (Ok (), evicted dry_run [e] s)"
  using entries_delete_Ok [OF assms] by (simp add: gc_delete_def evicted_def)

lemma evicted_Cons [simp]:
  "evicted dry_run es (evicted dry_run [e] s) = evicted dry_run (e # es) s"
  by (simp add: evicted_def)

lemma evictable_step:
  assumes "evictable (e # es) (sys_db s)"
  shows "evictable es (sys_db (evicted dry_run [e] s))"
  using assms evictable_Cons(3) [OF assms] by (cases dry_run) (simp_all add: evictable_def)

lemma foreach_evict_row:
  assumes "evictable es (sys_db s)"
  shows "foreach (evict_row dry_run) (map candidate es) rep s =
    (Ok (count_all es rep), evicted dry_run es s)"
  using assms
proof (induction es arbitrary: rep s)
  case Nil
  then show ?case by simp
next
  case (Cons e es)
  note c = evictable_Cons [OF Cons.prems]
  have "evict_row dry_run (candidate e) rep s =
      (Ok (count_evicted (e_size_bytes e) rep), evicted dry_run [e] s)"
    using gc_delete_row [OF c(1,2)] by (simp add: evict_row_def candidate_def)
  then show ?case using Cons.IH [OF evictable_step [OF Cons.prems]] by simp
qed

text \<open>How much of a list has to go before the usage fits the quota.\<close>

fun over_quota :: "int \<Rightarrow> int \<Rightarrow> entry list \<Rightarrow> entry list" where
  "over_quota quota usage [] = []"
| "over_quota quota usage (e # es) =
     (if usage \<le> quota then [] else e # over_quota quota (usage - e_size_bytes e) es)"

lemma over_quota_prefix: "\<exists>rest. es = over_quota quota usage es @ rest"
  by (induction quota usage es rule: over_quota.induct) auto

lemma set_over_quota: "set (over_quota quota usage es) \<subseteq> set es"
  using over_quota_prefix [of es quota usage] by (metis Un_upper1 set_append)

lemma over_quota_fits: "usage \<le> quota \<Longrightarrow> over_quota quota usage es = []"
  by (cases es) auto

text \<open>
  Enough: what is left fits, or the list is exhausted. Not too much: without its last row the
  eviction would not have been enough.
\<close>

lemma over_quota_enough:
  "over_quota quota usage es = es \<or>
   usage - sum_list (map e_size_bytes (over_quota quota usage es)) \<le> quota"
  by (induction quota usage es rule: over_quota.induct) (auto simp: diff_diff_eq)

lemma over_quota_minimal:
  "over_quota quota usage es = xs @ [e] \<Longrightarrow> quota < usage - sum_list (map e_size_bytes xs)"
proof (induction quota usage es arbitrary: xs rule: over_quota.induct)
  case (1 quota usage)
  then show ?case by simp
next
  case (2 quota usage x es)
  then have big: "\<not> usage \<le> quota" and eq: "x # over_quota quota (usage - e_size_bytes x) es = xs @ [e]"
    by (auto split: if_splits)
  show ?case
  proof (cases xs)
    case Nil
    then show ?thesis using big by simp
  next
    case (Cons y ys)
    then show ?thesis using 2(1) [OF big, of ys] eq by (auto simp: diff_diff_eq)
  qed
qed

text \<open>The subtractions of the loop stay in range.\<close>

definition sizes_fit :: "int \<Rightarrow> entry list \<Rightarrow> bool" where
  "sizes_fit usage es \<longleftrightarrow>
     in_i64 usage \<and> (\<forall>e\<in>set es. 0 \<le> e_size_bytes e) \<and> in_i64 (usage - sum_list (map e_size_bytes es))"

lemma sizes_fit_Cons:
  assumes "sizes_fit usage (e # es)"
  shows "in_i64 (usage - e_size_bytes e)" and "sizes_fit (usage - e_size_bytes e) es"
proof -
  have "0 \<le> sum_list (map e_size_bytes es)"
    using assms by (intro sum_list_nonneg) (auto simp: sizes_fit_def)
  then show "in_i64 (usage - e_size_bytes e)" and "sizes_fit (usage - e_size_bytes e) es"
    using assms by (auto simp: sizes_fit_def in_i64_def)
qed

lemma evict_until_spec:
  assumes "evictable es (sys_db s)" and "sizes_fit usage es"
  shows "evict_until dry_run quota (map candidate es) usage rep s =
    (Ok (count_all (over_quota quota usage es) rep), evicted dry_run (over_quota quota usage es) s)"
  using assms
proof (induction es arbitrary: usage rep s)
  case Nil
  then show ?case by simp
next
  case (Cons e es)
  note c = evictable_Cons [OF Cons.prems(1)]
  note f = sizes_fit_Cons [OF Cons.prems(2)]
  show ?case
    using gc_delete_row [OF c(1,2)] Cons.IH [OF evictable_step [OF Cons.prems(1)] f(2)]
    by (simp add: candidate_def wrap_i64_small [OF f(1)])
qed

lemma evictable_prefix: "evictable (xs @ ys) d \<Longrightarrow> evictable xs d"
  by (auto simp: evictable_def)

lemma evictable_over_quota:
  assumes "evictable es d"
  shows "evictable (over_quota quota usage es) d"
proof -
  obtain rest where "es = over_quota quota usage es @ rest" using over_quota_prefix by blast
  then show ?thesis using evictable_prefix assms by metis
qed

section \<open>LRU order\<close>

lemma set_lru_order [simp]: "set (lru_order es) = set es"
  by (simp add: lru_order_def)

lemma distinct_lru_order [simp]: "distinct (lru_order es) = distinct es"
  by (simp add: lru_order_def)

lemma sum_lru_order [simp]: "sum_list (map f (lru_order es)) = sum_list (map f es)"
  for f :: "entry \<Rightarrow> int"
proof -
  have "mset (lru_order es) = mset es" by (simp add: lru_order_def)
  then show ?thesis by (metis mset_map sum_mset_sum_list)
qed

definition older :: "entry \<Rightarrow> entry \<Rightarrow> bool" where
  "older a b \<longleftrightarrow> e_last_accessed a < e_last_accessed b \<or>
     e_last_accessed a = e_last_accessed b \<and> e_id a \<le> e_id b"

lemma sorted_wrt_stable:
  fixes f g :: "'x \<Rightarrow> int"
  shows "sorted_wrt (\<lambda>a b. f a < f b \<or> f a = f b \<and> g a \<le> g b) (sort_key f (sort_key g xs))"
proof -
  have ins: "sorted_wrt R (insort_key f x ys)"
    if "sorted_wrt R ys" and R: "\<And>a b. R a b = (f a < f b \<or> f a = f b \<and> g a \<le> g b)"
      and "\<forall>y\<in>set ys. g x \<le> g y" for R x ys
    using that(1,3) by (induction ys) (fastforce simp: R set_insort_key)+
  have "sorted_wrt (\<lambda>a b. f a < f b \<or> f a = f b \<and> g a \<le> g b) (foldr (insort_key f) ys [])"
    if "sorted (map g ys)" for ys
    using that
  proof (induction ys)
    case Nil
    then show ?case by simp
  next
    case (Cons y ys)
    moreover have "set (foldr (insort_key f) ys []) = set ys"
      by (induction ys) (simp_all add: set_insort_key)
    ultimately show ?case by (simp add: ins)
  qed
  from this [of "sort_key g xs"] show ?thesis by (simp add: sort_key_def [of f] sorted_sort_key)
qed

lemma lru_order_sorted: "sorted_wrt older (lru_order es)"
  using sorted_wrt_stable [of e_last_accessed e_id es]
  by (simp add: lru_order_def older_def [abs_def])

lemma over_quota_oldest:
  assumes "a \<in> set (over_quota quota usage (lru_order es))"
    and "b \<in> set es" and "b \<notin> set (over_quota quota usage (lru_order es))"
  shows "older a b"
proof -
  obtain rest where split: "lru_order es = over_quota quota usage (lru_order es) @ rest"
    using over_quota_prefix by blast
  then have "b \<in> set rest" using assms(2,3) by (metis Un_iff set_append set_lru_order)
  moreover have "sorted_wrt older (over_quota quota usage (lru_order es) @ rest)"
    using lru_order_sorted [of es] split by simp
  ultimately show ?thesis using assms(1) by (auto simp: sorted_wrt_append)
qed

end
