(* ===== verification/Gc_Phases.thy ===== *)
theory Gc_Phases
  imports Gc_Evict
begin

text \<open>
  The phases of a sweep as plans: for each of them the list of entries it evicts, computed
  from the database it starts in. The locale \<open>eviction_pass\<close> is the contract of one step of a
  phase (the step evicts exactly its plan, and what it evicts is no other step's business);
  its lemma turns the loop over the steps into the concatenation of their plans. It is
  interpreted on the time-to-live pass over kinds and on the quota pass over projects.
\<close>

section \<open>Steps that evict a plan\<close>

lemma evicted_append [simp]:
  "evicted dry_run ys (evicted dry_run xs s) = evicted dry_run (xs @ ys) s"
  by (simp add: evicted_def evict_all_append)

lemma evictable_append:
  assumes "evictable xs d" and "evictable ys (evict_all xs d)"
  shows "evictable (xs @ ys) d"
  using assms set_evict_all [OF assms(1)] by (auto simp: evictable_def)

lemma evictable_append2:
  assumes "evictable (xs @ ys) d"
  shows "evictable ys (evict_all xs d)"
proof -
  have xs: "evictable xs d" using assms by (rule evictable_prefix)
  show ?thesis
    using assms set_evict_all [OF xs] wf_evict_all [OF xs] by (auto simp: evictable_def)
qed

locale eviction_pass =
  fixes good :: "db \<Rightarrow> bool"
    and key :: "'x \<Rightarrow> 'k"
    and plan :: "'x \<Rightarrow> db \<Rightarrow> entry list"
    and step :: "bool \<Rightarrow> 'x \<Rightarrow> gc_report \<Rightarrow> (sys, gc_report) op"
  assumes good_evict: "good d \<Longrightarrow> evictable es d \<Longrightarrow> good (evict_all es d)"
    and plan_evictable: "good d \<Longrightarrow> evictable (plan x d) d"
    and plan_other: "good d \<Longrightarrow> key x \<noteq> key y \<Longrightarrow> plan y (evict_all (plan x d) d) = plan y d"
    and step_plan: "good (sys_db s) \<Longrightarrow> step dry_run x rep s =
      (Ok (count_all (plan x (sys_db s)) rep), evicted dry_run (plan x (sys_db s)) s)"
begin

definition plans :: "'x list \<Rightarrow> db \<Rightarrow> entry list" where
  "plans xs d = concat (map (\<lambda>x. plan x d) xs)"

lemma plans_other:
  "good d \<Longrightarrow> key x \<notin> key ` set xs \<Longrightarrow> plans xs (evict_all (plan x d) d) = plans xs d"
  unfolding plans_def by (intro arg_cong [of _ _ concat] map_cong refl plan_other) auto

lemma plans_evictable:
  "good d \<Longrightarrow> distinct (map key xs) \<Longrightarrow> evictable (plans xs d) d"
proof (induction xs)
  case Nil
  then show ?case using plan_evictable [of d] by (auto simp: plans_def evictable_def)
next
  case (Cons x xs)
  let ?d = "evict_all (plan x d) d"
  have x: "evictable (plan x d) d" using Cons.prems(1) by (rule plan_evictable)
  have good': "good ?d" using Cons.prems(1) x by (rule good_evict)
  have same: "plans xs ?d = plans xs d" using Cons.prems by (intro plans_other) simp_all
  have "evictable (plans xs ?d) ?d"
    using good' Cons.prems(2)
  proof (induction xs arbitrary: d x)
    case Nil
    then show ?case using plan_evictable by (auto simp: plans_def evictable_def)
  next
    case (Cons y ys)
    let ?D = "evict_all (plan x d) d"
    have y: "evictable (plan y ?D) ?D" using Cons.prems(1) by (rule plan_evictable)
    have "good (evict_all (plan y ?D) ?D)" using Cons.prems(1) y by (rule good_evict)
    then have "evictable (plans ys (evict_all (plan y ?D) ?D)) (evict_all (plan y ?D) ?D)"
      using Cons.prems(2) by (intro Cons.IH) auto
    moreover have "plans ys (evict_all (plan y ?D) ?D) = plans ys ?D"
      using Cons.prems by (intro plans_other) auto
    ultimately show ?case using evictable_append [OF y] by (simp add: plans_def)
  qed
  then show ?case using evictable_append [OF x] same by (simp add: plans_def)
qed

lemma foreach_plans:
  "good (sys_db s) \<Longrightarrow> distinct (map key xs) \<Longrightarrow>
   foreach (step dry_run) xs rep s =
     (Ok (count_all (plans xs (sys_db s)) rep), evicted dry_run (plans xs (sys_db s)) s)"
proof (induction xs arbitrary: rep s)
  case Nil
  then show ?case by (simp add: plans_def)
next
  case (Cons x xs)
  let ?s = "evicted dry_run (plan x (sys_db s)) s"
  have "evictable (plan x (sys_db s)) (sys_db s)" using Cons.prems(1) by (rule plan_evictable)
  then have good': "good (sys_db ?s)"
    using Cons.prems(1) by (cases dry_run) (simp_all add: good_evict)
  have "plans xs (sys_db ?s) = plans xs (sys_db s)"
    using Cons.prems by (cases dry_run) (simp_all add: plans_other)
  then show ?case
    using Cons.IH [OF good'] Cons.prems
    by (simp add: step_plan plans_def count_all_append)
qed

end

section \<open>Sizes that fit\<close>

definition bytes_fit :: "db \<Rightarrow> bool" where
  "bytes_fit d \<longleftrightarrow> sum_list (map e_size_bytes (db_entries d)) < 2 ^ 63 \<and> blob_bytes d < 2 ^ 63"

definition gc_ready :: "db \<Rightarrow> bool" where
  "gc_ready d \<longleftrightarrow> wf_db d \<and> bytes_fit d"

definition ttl_days_fit :: "int \<Rightarrow> gc_config \<Rightarrow> bool" where
  "ttl_days_fit now cfg \<longleftrightarrow> 0 \<le> now \<and> now < 2 ^ 63 \<and>
     unat (default_ttl_sstate_days cfg) * 86400 < 2 ^ 63 \<and>
     unat (default_ttl_downloads_days cfg) * 86400 < 2 ^ 63"

definition project_bytes :: "int \<Rightarrow> db \<Rightarrow> int" where
  "project_bytes pid d =
     sum_list (map e_size_bytes (filter (\<lambda>e. e_project_id e = pid) (db_entries d)))"

lemma wf_sizes: "wf_db d \<Longrightarrow> \<forall>e\<in>set (db_entries d). 0 \<le> e_size_bytes e"
  by (simp add: wf_db_def wf_entries_def)

lemma gc_ready_evict: "gc_ready d \<Longrightarrow> evictable es d \<Longrightarrow> gc_ready (evict_all es d)"
  using sum_list_filter_le [OF wf_sizes, of d "\<lambda>e. e \<notin> set es"]
  by (auto simp: gc_ready_def bytes_fit_def wf_evict_all entries_evict_all)

lemma gc_ready_wf: "gc_ready d \<Longrightarrow> wf_db d"
  by (simp add: gc_ready_def)

lemma wf_entry_project:
  assumes "wf_db d" and "e \<in> set (db_entries d)"
  obtains p where "find (\<lambda>p. p_id p = e_project_id e) (db_projects d) = Some p"
proof (cases "find (\<lambda>p. p_id p = e_project_id e) (db_projects d)")
  case None
  have "has_project d (e_project_id e)" using assms by (simp add: wf_db_def wf_entries_def)
  then show ?thesis using None by (auto simp: has_project_def find_None_iff)
next
  case (Some p)
  then show ?thesis by (rule that)
qed

lemma evictable_filter:
  assumes "wf_db d" and "set es = {e \<in> set (db_entries d). P e}" and "distinct es"
  shows "evictable es d"
  using assms by (auto simp: evictable_def)

lemma wf_distinct_entries: "wf_db d \<Longrightarrow> distinct (db_entries d)"
  using wf_entry_row distinct_map by blast

section \<open>Phase 1\<close>

lemma default_secs_days:
  assumes "ttl_days_fit now cfg"
  shows "default_secs cfg k = int (unat (default_ttl_days cfg k)) * 86400"
proof -
  have fits: "unat (default_ttl_days cfg k) * 86400 < 2 ^ 63"
    using assms by (cases k) (simp_all add: ttl_days_fit_def default_ttl_days_def)
  then have "unat (default_ttl_days cfg k * 86400) = unat (default_ttl_days cfg k) * 86400"
    by (subst unat_mult_lem [THEN iffD1]) simp_all
  then show ?thesis using fits by (simp add: default_secs_def as_i64_small)
qed

text \<open>\<open>COALESCE(projects.ttl_seconds, kind default)\<close>, as the comment of the code has it.\<close>

definition effective_ttl :: "gc_config \<Rightarrow> db \<Rightarrow> entry \<Rightarrow> int" where
  "effective_ttl cfg d e =
     (case find (\<lambda>p. p_id p = e_project_id e) (db_projects d) of
        None \<Rightarrow> default_secs cfg (e_kind e)
      | Some p \<Rightarrow> (case p_ttl_seconds p of None \<Rightarrow> default_secs cfg (e_kind e) | Some t \<Rightarrow> t))"

definition expired :: "int \<Rightarrow> gc_config \<Rightarrow> db \<Rightarrow> entry \<Rightarrow> bool" where
  "expired now cfg d e \<longleftrightarrow> \<not> e_pinned e \<and> e_last_accessed e < now - effective_ttl cfg d e"

lemma join_project:
  assumes "distinct (map p_id ps)"
  shows "[e. p \<leftarrow> ps, p_id p = i \<and> Q p] =
    (case find (\<lambda>p. p_id p = i) ps of None \<Rightarrow> [] | Some p \<Rightarrow> if Q p then [e] else [])"
  using assms
proof (induction ps)
  case Nil
  then show ?case by simp
next
  case (Cons p ps)
  show ?case
  proof (cases "p_id p = i")
    case True
    then have "find (\<lambda>p. p_id p = i) ps = None"
      using Cons.prems by (simp add: find_None_iff) (metis image_eqI)
    then show ?thesis using True Cons by simp
  next
    case False
    then show ?thesis using Cons by simp
  qed
qed

lemma concat_if_filter: "concat (map (\<lambda>x. if P x then [x] else []) xs) = filter P xs"
  by (induction xs) auto

definition ttl_plan :: "gc_env \<Rightarrow> gc_config \<Rightarrow> kind \<Rightarrow> db \<Rightarrow> entry list" where
  "ttl_plan env cfg kind d =
     sort_key (ge_entry_rank env)
       (filter (\<lambda>e. e_kind e = kind \<and> expired (ge_now env) cfg d e) (db_entries d))"

lemma ttl_rows_plan:
  assumes wf: "wf_db d" and fit: "ttl_days_fit (ge_now env) cfg"
  shows "ttl_rows (ge_entry_rank env) (ge_now env) (wrap_i64 (ge_now env - default_secs cfg kind)) kind d =
    ttl_plan env cfg kind d"
proof -
  have nonneg: "0 \<le> default_secs cfg kind" by (simp add: default_secs_days [OF fit])
  have "in_i64 (ge_now env - default_secs cfg kind)"
  proof -
    have "default_secs cfg kind \<le> 2 ^ 63 - 1"
      using in_i64_as_i64 [of "default_ttl_days cfg kind * 86400"]
      by (simp add: default_secs_def in_i64_def i64_max_def)
    then show ?thesis
      using fit nonneg by (simp add: ttl_days_fit_def in_i64_def i64_min_def i64_max_def)
  qed
  then have cutoff: "wrap_i64 (ge_now env - default_secs cfg kind) = ge_now env - default_secs cfg kind"
    by (rule wrap_i64_small)
  have ids: "distinct (map p_id (db_projects d))" using wf by (simp add: wf_db_def wf_projects_def)
  let ?Q = "\<lambda>e p. e_kind e = kind \<and> \<not> e_pinned e \<and>
      e_last_accessed e < ge_now env - (case p_ttl_seconds p of None \<Rightarrow> 0 | Some t \<Rightarrow> t) \<and>
      (p_ttl_seconds p \<noteq> None \<or> e_last_accessed e < ge_now env - default_secs cfg kind)"
  have one: "[e. p \<leftarrow> db_projects d, p_id p = e_project_id e \<and> ?Q e p] =
      (if e_kind e = kind \<and> expired (ge_now env) cfg d e then [e] else [])"
    if e: "e \<in> set (db_entries d)" for e
  proof -
    obtain p where p: "find (\<lambda>p. p_id p = e_project_id e) (db_projects d) = Some p"
      using wf e by (rule wf_entry_project)
    have "?Q e p \<longleftrightarrow> e_kind e = kind \<and> expired (ge_now env) cfg d e"
      using nonneg by (auto simp: expired_def effective_ttl_def p split: option.split)
    then show ?thesis by (simp only: join_project [OF ids] p option.case)
  qed
  have "[e. e \<leftarrow> db_entries d, p \<leftarrow> db_projects d, p_id p = e_project_id e \<and> ?Q e p] =
      filter (\<lambda>e. e_kind e = kind \<and> expired (ge_now env) cfg d e) (db_entries d)"
    unfolding concat_if_filter [symmetric]
    by (intro arg_cong [of _ _ concat] map_cong refl one)
  then show ?thesis by (simp add: ttl_rows_def ttl_plan_def cutoff conj_assoc)
qed

lemma ttl_plan_evictable: "wf_db d \<Longrightarrow> evictable (ttl_plan env cfg kind d) d"
  by (rule evictable_filter) (auto simp: ttl_plan_def wf_distinct_entries)

lemma expired_evict_all [simp]: "expired now cfg (evict_all es d) e = expired now cfg d e"
  by (simp add: expired_def effective_ttl_def)

lemma ttl_kind_plan:
  assumes "gc_ready (sys_db s)" and "ttl_days_fit (ge_now env) cfg"
  shows "ttl_kind env cfg dry_run kind rep s =
    (Ok (count_all (ttl_plan env cfg kind (sys_db s)) rep),
     evicted dry_run (ttl_plan env cfg kind (sys_db s)) s)"
proof -
  have wf: "wf_db (sys_db s)" using assms(1) by (simp add: gc_ready_def)
  show ?thesis
    by (simp add: ttl_kind_def Let_def ttl_rows_plan [OF wf assms(2)]
        foreach_evict_row [OF ttl_plan_evictable [OF wf]])
qed

interpretation ttl: eviction_pass "\<lambda>d. gc_ready d \<and> ttl_days_fit (ge_now env) cfg" "\<lambda>k. k"
    "ttl_plan env cfg" "ttl_kind env cfg"
  for env cfg
proof (unfold_locales, goal_cases)
  case (1 d es)
  then show ?case using gc_ready_evict by blast
next
  case (2 d x)
  then show ?case using ttl_plan_evictable by (simp add: gc_ready_def)
next
  case (3 d x y)
  then have "evictable (ttl_plan env cfg x d) d" using ttl_plan_evictable by (simp add: gc_ready_def)
  from entries_evict_all [OF this] show ?case
    using 3 by (auto simp: ttl_plan_def intro!: arg_cong [of _ _ "sort_key (ge_entry_rank env)"] filter_cong)
next
  case (4 s dry_run x rep)
  then show ?case using ttl_kind_plan by blast
qed

section \<open>Phase 2\<close>

lemma project_usage_Ok:
  assumes "gc_ready d"
  shows "project_usage pid d = (Ok (project_bytes pid d), d)"
proof -
  have "\<forall>e\<in>set (db_entries d). 0 \<le> e_size_bytes e"
    using gc_ready_wf [OF assms] by (rule wf_sizes)
  moreover have "project_bytes pid d < 2 ^ 63"
    using sum_list_filter_le [OF calculation, of "\<lambda>e. e_project_id e = pid"] assms
    by (simp add: project_bytes_def gc_ready_def bytes_fit_def)
  ultimately show ?thesis
    by (simp add: project_usage_def project_bytes_def sql_sum_fits)
qed

definition quota_plan :: "project \<Rightarrow> db \<Rightarrow> entry list" where
  "quota_plan p d =
     (case p_quota_bytes p of
        None \<Rightarrow> []
      | Some quota \<Rightarrow> over_quota quota (project_bytes (p_id p) d)
          (lru_order (filter (\<lambda>e. e_project_id e = p_id p \<and> \<not> e_pinned e) (db_entries d))))"

lemma evictable_lru: "wf_db d \<Longrightarrow> evictable (lru_order (filter P (db_entries d))) d"
  by (rule evictable_filter) (auto simp: wf_distinct_entries)

lemma evictable_Nil: "wf_db d \<Longrightarrow> evictable [] d"
  by (simp add: evictable_def)

lemma quota_plan_evictable: "wf_db d \<Longrightarrow> evictable (quota_plan p d) d"
  by (auto simp: quota_plan_def evictable_Nil split: option.split
      intro!: evictable_over_quota evictable_lru)

lemma set_quota_plan:
  "set (quota_plan p d) \<subseteq> {e \<in> set (db_entries d). e_project_id e = p_id p \<and> \<not> e_pinned e}"
proof (cases "p_quota_bytes p")
  case None
  then show ?thesis by (simp add: quota_plan_def)
next
  case (Some q)
  let ?rows = "lru_order (filter (\<lambda>e. e_project_id e = p_id p \<and> \<not> e_pinned e) (db_entries d))"
  have "set (quota_plan p d) \<subseteq> set ?rows"
    using Some set_over_quota [of q "project_bytes (p_id p) d" ?rows] by (simp add: quota_plan_def)
  then show ?thesis by simp
qed

lemma quota_project_plan:
  assumes ready: "gc_ready (sys_db s)"
  shows "quota_project dry_run p rep s =
    (Ok (count_all (quota_plan p (sys_db s)) rep), evicted dry_run (quota_plan p (sys_db s)) s)"
proof (cases "p_quota_bytes p")
  case None
  then show ?thesis by (simp add: quota_project_def quota_plan_def)
next
  case (Some q)
  let ?d = "sys_db s"
  let ?mine = "filter (\<lambda>e. e_project_id e = p_id p) (db_entries ?d)"
  let ?rows = "lru_order (filter (\<lambda>e. e_project_id e = p_id p \<and> \<not> e_pinned e) (db_entries ?d))"
  have wf: "wf_db ?d" using ready by (simp add: gc_ready_def)
  have usage: "on_db (project_usage (p_id p)) s = (Ok (project_bytes (p_id p) ?d), s)"
    using project_usage_Ok [OF ready] by simp
  have nonneg: "\<forall>e\<in>set (db_entries ?d). 0 \<le> e_size_bytes e" using wf by (rule wf_sizes)
  have total: "project_bytes (p_id p) ?d < 2 ^ 63"
    using sum_list_filter_le [OF nonneg, of "\<lambda>e. e_project_id e = p_id p"] ready
    by (simp add: project_bytes_def gc_ready_def bytes_fit_def)
  have "sum_list (map e_size_bytes (filter (\<lambda>e. \<not> e_pinned e) ?mine)) \<le> project_bytes (p_id p) ?d"
    unfolding project_bytes_def using nonneg by (intro sum_list_filter_le) simp
  moreover have "filter (\<lambda>e. \<not> e_pinned e) ?mine =
      filter (\<lambda>e. e_project_id e = p_id p \<and> \<not> e_pinned e) (db_entries ?d)"
    by (simp add: conj_commute)
  ultimately have part: "sum_list (map e_size_bytes ?rows) \<le> project_bytes (p_id p) ?d" by simp
  moreover have "0 \<le> sum_list (map e_size_bytes ?rows)"
    using nonneg by (intro sum_list_nonneg) auto
  ultimately have "sizes_fit (project_bytes (p_id p) ?d) ?rows"
    using nonneg total by (auto simp: sizes_fit_def in_i64_def i64_min_def i64_max_def)
  from evict_until_spec [OF evictable_lru [OF wf] this] show ?thesis
    using usage Some by (simp add: quota_project_def quota_plan_def over_quota_fits)
qed

interpretation quota: eviction_pass gc_ready p_id quota_plan quota_project
proof (unfold_locales, goal_cases)
  case (1 d es)
  then show ?case by (rule gc_ready_evict)
next
  case (2 d x)
  then show ?case using quota_plan_evictable by (simp add: gc_ready_def)
next
  case (3 d x y)
  then have "evictable (quota_plan x d) d" using quota_plan_evictable by (simp add: gc_ready_def)
  note rows = entries_evict_all [OF this]
  have mine: "filter (\<lambda>e. e_project_id e = p_id y \<and> Q e) (db_entries (evict_all (quota_plan x d) d)) =
      filter (\<lambda>e. e_project_id e = p_id y \<and> Q e) (db_entries d)" for Q
    using 3 set_quota_plan [of x d] by (auto simp: rows intro!: filter_cong)
  from mine [of "\<lambda>_. True"]
  have "project_bytes (p_id y) (evict_all (quota_plan x d) d) = project_bytes (p_id y) d"
    by (simp add: project_bytes_def)
  then show ?case by (simp only: quota_plan_def [of y] mine)
next
  case (4 s dry_run x rep)
  then show ?case by (rule quota_project_plan)
qed

end
