(* ===== verification/Gc_Sweep.thy ===== *)
theory Gc_Sweep
  imports Gc_Phases
begin

text \<open>
  The whole sweep. \<open>sweep_plan\<close> lists what the three eviction phases remove and \<open>drop_zero\<close> is
  the reclaiming phase; \<open>gc_run\<close> is shown to compute both (\<open>gc_run_real\<close>, \<open>gc_run_dry\<close>), so that
  every property of a sweep is a property of these two functions.
\<close>

section \<open>Phase 3\<close>

lemma total_size_Ok:
  assumes "gc_ready d"
  shows "total_size d = (Ok (blob_bytes d), d)"
proof -
  have "\<forall>x\<in>set (map b_size_bytes (db_blobs d)). 0 \<le> x"
    using gc_ready_wf [OF assms] by (auto simp: wf_db_def wf_blobs_def)
  then show ?thesis
    using assms by (simp add: total_size_def sql_sum_fits gc_ready_def bytes_fit_def blob_bytes_def)
qed

definition global_plan :: "gc_config \<Rightarrow> db \<Rightarrow> entry list" where
  "global_plan cfg d =
     over_quota (as_i64 (global_quota_bytes cfg)) (blob_bytes d)
       (lru_order (filter (\<lambda>e. \<not> e_pinned e) (db_entries d)))"

lemma blob_bytes_nonneg: "wf_db d \<Longrightarrow> 0 \<le> blob_bytes d"
  unfolding blob_bytes_def by (intro sum_list_nonneg) (auto simp: wf_db_def wf_blobs_def)

lemma global_phase_plan:
  assumes ready: "gc_ready (sys_db s)"
  shows "global_phase cfg dry_run rep s =
    (Ok (count_all (global_plan cfg (sys_db s)) rep), evicted dry_run (global_plan cfg (sys_db s)) s)"
proof -
  let ?d = "sys_db s"
  let ?rows = "lru_order (filter (\<lambda>e. \<not> e_pinned e) (db_entries ?d))"
  have wf: "wf_db ?d" using ready by (rule gc_ready_wf)
  have nonneg: "\<forall>e\<in>set (db_entries ?d). 0 \<le> e_size_bytes e" using wf by (rule wf_sizes)
  have "sum_list (map e_size_bytes ?rows) \<le> sum_list (map e_size_bytes (db_entries ?d))"
    using sum_list_filter_le [OF nonneg] by simp
  moreover have "0 \<le> sum_list (map e_size_bytes ?rows)"
    using nonneg by (intro sum_list_nonneg) auto
  ultimately have "sizes_fit (blob_bytes ?d) ?rows"
    using nonneg ready blob_bytes_nonneg [OF wf]
    by (auto simp: sizes_fit_def in_i64_def i64_min_def i64_max_def gc_ready_def bytes_fit_def)
  from evict_until_spec [OF evictable_lru [OF wf] this] show ?thesis
    using total_size_Ok [OF ready]
    by (simp add: global_phase_def global_plan_def Let_def over_quota_fits)
qed

lemma global_plan_evictable: "wf_db d \<Longrightarrow> evictable (global_plan cfg d) d"
  unfolding global_plan_def by (intro evictable_over_quota evictable_lru)

lemma set_global_plan: "set (global_plan cfg d) \<subseteq> {e \<in> set (db_entries d). \<not> e_pinned e}"
  using set_over_quota [of "as_i64 (global_quota_bytes cfg)" "blob_bytes d"
      "lru_order (filter (\<lambda>e. \<not> e_pinned e) (db_entries d))"]
  by (auto simp: global_plan_def)

section \<open>Phase 4\<close>

definition zero_rows :: "db \<Rightarrow> blob list" where
  "zero_rows d = filter (\<lambda>b. b_refcount b = 0) (db_blobs d)"

definition drop_zero :: "db \<Rightarrow> db" where
  "drop_zero d = d\<lparr>db_blobs := filter (\<lambda>b. b_refcount b \<noteq> 0) (db_blobs d)\<rparr>"

text \<open>The files of the hashes in \<open>H\<close> are gone, where the file system let them be removed.\<close>

definition files_after :: "gc_env \<Rightarrow> path \<Rightarrow> string set \<Rightarrow> fs \<Rightarrow> fs \<Rightarrow> bool" where
  "files_after env root H files files' \<longleftrightarrow>
     (\<forall>h. blob_file root h files' =
        (if h \<in> H \<and> ge_unlink env h = None then None else blob_file root h files))"

lemma files_after_refl: "files_after env root {} files files"
  by (simp add: files_after_def)

lemma files_after_trans:
  "files_after env root H1 f1 f2 \<Longrightarrow> files_after env root H2 f2 f3 \<Longrightarrow>
   files_after env root (H1 \<union> H2) f1 f3"
  by (auto simp: files_after_def)

lemma wf_drop_rows:
  assumes wf: "wf_db d" and dead: "\<And>b. b \<in> set (db_blobs d) \<Longrightarrow> \<not> P b \<Longrightarrow> refs (db_entries d) (b_hash b) = 0"
  shows "wf_db (d\<lparr>db_blobs := filter P (db_blobs d)\<rparr>)"
proof (rule wf_dbI [OF wf])
  let ?d = "d\<lparr>db_blobs := filter P (db_blobs d)\<rparr>"
  show acc: "accounts ?d = accounts d" by (simp add: accounts_def)
  show "wf_blobs ?d"
    using wf by (auto simp: wf_db_def wf_blobs_def distinct_map_filter)
  have "has_blob ?d (e_blob_hash e)" if e: "e \<in> set (db_entries d)" for e
  proof -
    have "has_blob d (e_blob_hash e)" using wf e by (simp add: wf_db_def wf_entries_def)
    then obtain b where b: "b \<in> set (db_blobs d)" "b_hash b = e_blob_hash e"
      by (auto simp: has_blob_def)
    then have "P b" using dead [OF b(1)] e by (auto simp: refs_zero_iff)
    then show ?thesis using b by (auto simp: has_blob_def image_iff intro!: bexI [of _ b])
  qed
  then show "wf_entries ?d"
    using wf has_project_accounts [OF acc] by (auto simp: wf_db_def wf_entries_def)
qed

lemma zero_row_dead:
  assumes "wf_db d" and "b \<in> set (db_blobs d)" and "b_refcount b = 0"
  shows "refs (db_entries d) (b_hash b) = 0"
proof -
  have "refs (db_entries d) (b_hash b) \<le> 0" using assms by (auto simp: wf_db_def wf_blobs_def)
  then show ?thesis using refs_nonneg [of "db_entries d" "b_hash b"] by linarith
qed

lemma unlink_logged_Ok:
  assumes "4 \<le> length h"
  shows "\<exists>f'. unlink_logged env root h s = (Ok (), s\<lparr>sys_fs := f'\<rparr>) \<and>
    files_after env root {h} (sys_fs s) f'"
proof (cases "ge_unlink env h")
  case None
  let ?f = "snd (delete_blob None root h (sys_fs s))"
  have "unlink_logged env root h s = (Ok (), s\<lparr>sys_fs := ?f\<rparr>)"
    using assms None
    by (auto simp: unlink_logged_def delete_blob_def blob_path_def remove_file_def split: option.split)
  moreover have "files_after env root {h} (sys_fs s) ?f"
    using None by (simp add: files_after_def delete_blob_content)
  ultimately show ?thesis by blast
next
  case (Some e)
  have "unlink_logged env root h s = (Ok (), s\<lparr>sys_fs := sys_fs s\<rparr>)"
    using assms Some
    by (auto simp: unlink_logged_def delete_blob_def blob_path_def remove_file_def)
  moreover have "files_after env root {h} (sys_fs s) (sys_fs s)"
    using Some by (simp add: files_after_def)
  ultimately show ?thesis by blast
qed

lemma free_blob_Ok:
  assumes "4 \<le> length h" and "refs (db_entries (sys_db s)) h = 0"
  shows "\<exists>f'. free_blob env root False h rep s =
      (Ok (rep\<lparr>freed_blobs := freed_blobs rep + 1\<rparr>),
       \<lparr>sys_db = (sys_db s)\<lparr>db_blobs := sql_delete (\<lambda>b. b_hash b = h) (db_blobs (sys_db s))\<rparr>,
        sys_fs = f'\<rparr>) \<and>
    files_after env root {h} (sys_fs s) f'"
proof -
  obtain f' where un: "unlink_logged env root h s = (Ok (), s\<lparr>sys_fs := f'\<rparr>)"
    and f': "files_after env root {h} (sys_fs s) f'"
    using unlink_logged_Ok [OF assms(1)] by blast
  have "\<not> (\<exists>e\<in>set (db_entries (sys_db s)). e_blob_hash e = h)"
    using assms(2) by (auto simp: refs_zero_iff)
  then have "free_blob env root False h rep s =
      (Ok (rep\<lparr>freed_blobs := freed_blobs rep + 1\<rparr>),
       \<lparr>sys_db = (sys_db s)\<lparr>db_blobs := sql_delete (\<lambda>b. b_hash b = h) (db_blobs (sys_db s))\<rparr>,
        sys_fs = f'\<rparr>)"
    using un by (simp add: free_blob_def blobs_delete_def andthen_def on_db_def)
  then show ?thesis using f' by blast
qed

lemma free_blobs_Ok:
  assumes "\<And>h. h \<in> set batch \<Longrightarrow> 4 \<le> length h"
    and "\<And>h. h \<in> set batch \<Longrightarrow> refs (db_entries (sys_db s)) h = 0"
  shows "\<exists>f'. foreach (free_blob env root False) batch rep s =
      (Ok (rep\<lparr>freed_blobs := freed_blobs rep + of_nat (length batch)\<rparr>),
       \<lparr>sys_db = (sys_db s)\<lparr>db_blobs := filter (\<lambda>b. b_hash b \<notin> set batch) (db_blobs (sys_db s))\<rparr>,
        sys_fs = f'\<rparr>) \<and>
    files_after env root (set batch) (sys_fs s) f'"
  using assms
proof (induction batch arbitrary: rep s)
  case Nil
  then show ?case by (auto simp: files_after_refl intro!: exI [of _ "sys_fs s"])
next
  case (Cons h hs)
  let ?rep = "rep\<lparr>freed_blobs := freed_blobs rep + 1\<rparr>"
  let ?d = "(sys_db s)\<lparr>db_blobs := sql_delete (\<lambda>b. b_hash b = h) (db_blobs (sys_db s))\<rparr>"
  obtain f1 where one: "free_blob env root False h rep s = (Ok ?rep, \<lparr>sys_db = ?d, sys_fs = f1\<rparr>)"
    and f1: "files_after env root {h} (sys_fs s) f1"
    using free_blob_Ok [of h s env root rep] Cons.prems by auto
  let ?s1 = "\<lparr>sys_db = ?d, sys_fs = f1\<rparr>"
  from Cons.IH [of ?s1 ?rep] Cons.prems obtain f2
    where rest: "foreach (free_blob env root False) hs ?rep ?s1 =
        (Ok (?rep\<lparr>freed_blobs := freed_blobs ?rep + of_nat (length hs)\<rparr>),
         \<lparr>sys_db = ?d\<lparr>db_blobs := filter (\<lambda>b. b_hash b \<notin> set hs) (db_blobs ?d)\<rparr>, sys_fs = f2\<rparr>)"
      and f2: "files_after env root (set hs) f1 f2"
    by auto
  have "files_after env root (set (h # hs)) (sys_fs s) f2"
    using files_after_trans [OF f1 f2] by simp
  moreover have "filter (\<lambda>b. b_hash b \<notin> set hs) (sql_delete (\<lambda>b. b_hash b = h) bs) =
      filter (\<lambda>b. b_hash b \<notin> set (h # hs)) bs" for bs :: "blob list"
    by (simp add: sql_delete_def conj_commute)
  ultimately show ?case using one rest by (auto simp: add.assoc)
qed

lemma batch_facts:
  assumes wf: "wf_db d" and "hashes_ok d"
    and batch: "batch = sql_limit BATCH (sort_key rank (map b_hash (zero_rows d)))"
  shows "h \<in> set batch \<Longrightarrow> 4 \<le> length h"
    and "h \<in> set batch \<Longrightarrow> refs (db_entries d) h = 0"
    and "\<And>b. b \<in> set (db_blobs d) \<Longrightarrow> b_hash b \<in> set batch \<Longrightarrow> b_refcount b = 0"
    and "length (filter (\<lambda>b. b_hash b \<in> set batch) (zero_rows d)) = length batch"
    and "batch = [] \<longleftrightarrow> zero_rows d = []"
proof -
  have sub: "set batch \<subseteq> b_hash ` set (zero_rows d)"
    using sql_limit_set [of BATCH "sort_key rank (map b_hash (zero_rows d))"] batch by simp
  have keys: "distinct (map b_hash (db_blobs d))" using wf by (simp add: wf_db_def wf_blobs_def)
  then have zkeys: "distinct (map b_hash (zero_rows d))" by (simp add: zero_rows_def distinct_map_filter)
  have "distinct batch" unfolding batch by (rule distinct_sql_limit) (simp add: zkeys)
  show "4 \<le> length h" if "h \<in> set batch"
    using that sub assms(2) by (auto simp: hashes_ok_def zero_rows_def)
  show "refs (db_entries d) h = 0" if "h \<in> set batch"
    using that sub zero_row_dead [OF wf] by (auto simp: zero_rows_def)
  show "b_refcount b = 0" if b: "b \<in> set (db_blobs d)" "b_hash b \<in> set batch" for b
  proof -
    obtain z where "z \<in> set (zero_rows d)" "b_hash b = b_hash z" using b(2) sub by auto
    moreover from this have "b = z" using b(1) distinct_map_eq [OF keys] by (simp add: zero_rows_def)
    ultimately show ?thesis by (simp add: zero_rows_def)
  qed
  have "set (map b_hash (filter (\<lambda>b. b_hash b \<in> set batch) (zero_rows d))) = set batch"
    using sub by auto
  moreover have "distinct (map b_hash (filter (\<lambda>b. b_hash b \<in> set batch) (zero_rows d)))"
    using zkeys by (rule distinct_map_filter)
  ultimately show "length (filter (\<lambda>b. b_hash b \<in> set batch) (zero_rows d)) = length batch"
    using \<open>distinct batch\<close> by (metis distinct_card length_map)
  show "batch = [] \<longleftrightarrow> zero_rows d = []"
    unfolding batch by (subst sql_limit_Nil) (auto simp: BATCH_def simp flip: length_0_conv)
qed

lemma cleanup_blobs_real:
  assumes "wf_db (sys_db s)" and "hashes_ok (sys_db s)"
  shows "\<exists>f'. cleanup_blobs env root False rep s =
      (Ok (rep\<lparr>freed_blobs := freed_blobs rep + of_nat (length (zero_rows (sys_db s)))\<rparr>),
       \<lparr>sys_db = drop_zero (sys_db s), sys_fs = f'\<rparr>) \<and>
    files_after env root (b_hash ` set (zero_rows (sys_db s))) (sys_fs s) f'"
  using assms
proof (induction "length (db_blobs (sys_db s))" arbitrary: rep s rule: less_induct)
  case less
  let ?d = "sys_db s"
  define batch where "batch = sql_limit BATCH (sort_key (ge_blob_rank env) (map b_hash (zero_rows ?d)))"
  note facts = batch_facts [OF less.prems batch_def]
  have fetch: "on_db (zero_refcount (ge_blob_rank env) BATCH) s = (Ok batch, s)"
    by (simp add: on_db_def zero_refcount_def batch_def zero_rows_def)
  show ?case
  proof (cases "batch = []")
    case True
    then have none: "zero_rows ?d = []" using facts(5) by simp
    then have "filter (\<lambda>b. b_refcount b \<noteq> 0) (db_blobs ?d) = db_blobs ?d"
      by (auto simp: zero_rows_def filter_empty_conv filter_id_conv)
    then have "drop_zero ?d = ?d" by (simp add: drop_zero_def)
    then show ?thesis
      using True fetch none by (simp add: cleanup_blobs.simps files_after_refl exI [of _ "sys_fs s"])
  next
    case False
    let ?rep = "rep\<lparr>freed_blobs := freed_blobs rep + of_nat (length batch)\<rparr>"
    let ?d1 = "?d\<lparr>db_blobs := filter (\<lambda>b. b_hash b \<notin> set batch) (db_blobs ?d)\<rparr>"
    obtain f1 where round: "foreach (free_blob env root False) batch rep s =
        (Ok ?rep, \<lparr>sys_db = ?d1, sys_fs = f1\<rparr>)"
      and f1: "files_after env root (set batch) (sys_fs s) f1"
      using free_blobs_Ok [of batch s env root rep] facts(1,2) by blast
    let ?s1 = "\<lparr>sys_db = ?d1, sys_fs = f1\<rparr>"
    have unfold: "cleanup_blobs env root False rep s = cleanup_blobs env root False ?rep ?s1"
      using False fetch round by (subst cleanup_blobs.simps) simp
    have wf1: "wf_db ?d1"
      using facts(2) by (intro wf_drop_rows less.prems) auto
    have hash1: "hashes_ok ?d1" using less.prems(2) by (simp add: hashes_ok_def)
    have zero1: "zero_rows ?d1 = filter (\<lambda>b. b_hash b \<notin> set batch) (zero_rows ?d)"
      by (simp add: zero_rows_def conj_commute)
    have len: "length (zero_rows ?d1) + length batch = length (zero_rows ?d)"
      using length_filter_split [of "\<lambda>b. b_hash b \<in> set batch" "zero_rows ?d"] facts(4) zero1 by simp
    have drop1: "drop_zero ?d1 = drop_zero ?d"
    proof -
      have "filter (\<lambda>b. b_hash b \<notin> set batch \<and> b_refcount b \<noteq> 0) (db_blobs ?d) =
          filter (\<lambda>b. b_refcount b \<noteq> 0) (db_blobs ?d)"
        using facts(3) by (auto intro!: filter_cong)
      then show ?thesis by (simp add: drop_zero_def conj_commute)
    qed
    have "length (db_blobs ?d1) < length (db_blobs ?d)"
    proof -
      obtain b where "b \<in> set (zero_rows ?d)" "b_hash b \<in> set batch"
        using False facts(4) by (metis filter_empty_conv length_0_conv)
      then show ?thesis by (auto simp: zero_rows_def intro!: length_filter_less [of b])
    qed
    then obtain f2 where rest: "cleanup_blobs env root False ?rep ?s1 =
        (Ok (?rep\<lparr>freed_blobs := freed_blobs ?rep + of_nat (length (zero_rows ?d1))\<rparr>),
         \<lparr>sys_db = drop_zero ?d1, sys_fs = f2\<rparr>)"
      and f2: "files_after env root (b_hash ` set (zero_rows ?d1)) f1 f2"
      using less.hyps [of ?s1 ?rep] wf1 hash1 by auto
    have "b_hash ` set (zero_rows ?d) = set batch \<union> b_hash ` set (zero_rows ?d1)"
    proof -
      have "set batch \<subseteq> b_hash ` set (zero_rows ?d)"
        using sql_limit_set [of BATCH "sort_key (ge_blob_rank env) (map b_hash (zero_rows ?d))"]
        by (simp add: batch_def)
      then show ?thesis by (auto simp: zero1)
    qed
    then have "files_after env root (b_hash ` set (zero_rows ?d)) (sys_fs s) f2"
      using files_after_trans [OF f1 f2] by simp
    moreover have "of_nat (length batch) + of_nat (length (zero_rows ?d1)) =
        (of_nat (length (zero_rows ?d)) :: u64)"
      unfolding of_nat_add [symmetric] using len by (simp add: add.commute)
    ultimately show ?thesis using unfold rest drop1 by (simp add: add.assoc)
  qed
qed

text \<open>A dry run looks at one batch and counts it.\<close>

lemma cleanup_blobs_dry:
  "cleanup_blobs env root True rep s =
   (Ok (rep\<lparr>freed_blobs := freed_blobs rep + of_nat (min 1000 (length (zero_rows (sys_db s))))\<rparr>), s)"
proof -
  have loop: "foreach (free_blob env root True) batch rep s =
      (Ok (rep\<lparr>freed_blobs := freed_blobs rep + of_nat (length batch)\<rparr>), s)" for batch rep
    by (induction batch arbitrary: rep) (simp_all add: free_blob_def add.assoc)
  have fetch: "on_db (zero_refcount (ge_blob_rank env) BATCH) s =
      (Ok (take 1000 (sort_key (ge_blob_rank env) (map b_hash (zero_rows (sys_db s))))), s)"
    by (simp add: on_db_def zero_refcount_def zero_rows_def sql_limit_def BATCH_def)
  have len: "length (sort_key (ge_blob_rank env) (map b_hash (zero_rows (sys_db s)))) =
      length (zero_rows (sys_db s))"
    by (simp only: length_sort length_map)
  show ?thesis
  proof (cases "zero_rows (sys_db s) = []")
    case True
    then show ?thesis using fetch by (simp add: cleanup_blobs.simps)
  next
    case False
    then have "sort_key (ge_blob_rank env) (map b_hash (zero_rows (sys_db s))) \<noteq> []"
      using len by (metis length_0_conv)
    then show ?thesis
      using fetch len by (simp add: cleanup_blobs.simps loop min.commute)
  qed
qed

section \<open>All phases\<close>

definition ttl_sweep :: "gc_env \<Rightarrow> gc_config \<Rightarrow> db \<Rightarrow> entry list" where
  "ttl_sweep env cfg d = ttl_plan env cfg Sstate d @ ttl_plan env cfg Downloads d"

definition quota_sweep :: "db \<Rightarrow> entry list" where
  "quota_sweep d = concat (map (\<lambda>p. quota_plan p d) (sort_key p_id (db_projects d)))"

text \<open>A real run lets every phase see what the phases before it removed; a dry run does not.\<close>

definition sweep_plan :: "bool \<Rightarrow> gc_env \<Rightarrow> gc_config \<Rightarrow> db \<Rightarrow> entry list" where
  "sweep_plan dry_run env cfg d =
     (let go = (\<lambda>es. if dry_run then d else evict_all es d);
          es1 = ttl_sweep env cfg d;
          es2 = quota_sweep (go es1);
          es3 = global_plan cfg (go (es1 @ es2))
      in es1 @ es2 @ es3)"

lemma ttl_phase_sweep:
  assumes "gc_ready (sys_db s)" and "ttl_days_fit (ge_now env) cfg"
  shows "ttl_phase env cfg dry_run rep s =
    (Ok (count_all (ttl_sweep env cfg (sys_db s)) rep), evicted dry_run (ttl_sweep env cfg (sys_db s)) s)"
  using ttl.foreach_plans [of s env cfg "[Sstate, Downloads]" dry_run rep] assms
  by (simp add: ttl_phase_def ttl_sweep_def ttl.plans_def del: foreach.simps)

lemma ttl_sweep_evictable:
  "gc_ready d \<Longrightarrow> ttl_days_fit (ge_now env) cfg \<Longrightarrow> evictable (ttl_sweep env cfg d) d"
  using ttl.plans_evictable [of d env cfg "[Sstate, Downloads]"]
  by (simp add: ttl_sweep_def ttl.plans_def)

lemma sorted_projects_keys: "wf_db d \<Longrightarrow> distinct (map p_id (sort_key p_id (db_projects d)))"
  by (simp add: distinct_map wf_db_def wf_projects_def)

lemma quota_phase_sweep:
  assumes "gc_ready (sys_db s)"
  shows "quota_phase dry_run rep s =
    (Ok (count_all (quota_sweep (sys_db s)) rep), evicted dry_run (quota_sweep (sys_db s)) s)"
  using quota.foreach_plans [OF assms sorted_projects_keys [OF gc_ready_wf [OF assms]]]
  by (simp add: quota_phase_def projects_list_def quota_sweep_def quota.plans_def)

lemma quota_sweep_evictable: "gc_ready d \<Longrightarrow> evictable (quota_sweep d) d"
  using quota.plans_evictable [OF _ sorted_projects_keys [OF gc_ready_wf]]
  by (simp add: quota_sweep_def quota.plans_def)

lemma sweep_plan_evictable:
  assumes ready: "gc_ready d" and ttl: "ttl_days_fit (ge_now env) cfg"
  shows "evictable (sweep_plan False env cfg d) d"
proof -
  let ?es1 = "ttl_sweep env cfg d"
  let ?es2 = "quota_sweep (evict_all ?es1 d)"
  have e1: "evictable ?es1 d" using assms by (rule ttl_sweep_evictable)
  have "gc_ready (evict_all ?es1 d)" using ready e1 by (rule gc_ready_evict)
  from evictable_append [OF e1 quota_sweep_evictable [OF this]]
  have e12: "evictable (?es1 @ ?es2) d" .
  have "wf_db (evict_all (?es1 @ ?es2) d)" using e12 by (rule wf_evict_all)
  from evictable_append [OF e12 global_plan_evictable [OF this, of cfg]]
  show ?thesis by (simp add: sweep_plan_def Let_def evict_all_append)
qed

lemma evict_phases:
  assumes ready: "gc_ready (sys_db s)" and ttl: "ttl_days_fit (ge_now env) cfg"
  shows "andthen (ttl_phase env cfg dry_run rep) (\<lambda>rep. andthen (quota_phase dry_run rep) (\<lambda>rep.
      andthen (global_phase cfg dry_run rep) k)) s =
    k (count_all (sweep_plan dry_run env cfg (sys_db s)) rep)
      (evicted dry_run (sweep_plan dry_run env cfg (sys_db s)) s)"
proof -
  let ?d = "sys_db s"
  let ?es1 = "ttl_sweep env cfg ?d"
  let ?s1 = "evicted dry_run ?es1 s"
  have e1: "evictable ?es1 ?d" using assms by (rule ttl_sweep_evictable)
  have r1: "gc_ready (sys_db ?s1)"
    using ready gc_ready_evict [OF ready e1] by (cases dry_run) simp_all
  let ?es2 = "quota_sweep (sys_db ?s1)"
  let ?s2 = "evicted dry_run ?es2 ?s1"
  have e2: "evictable ?es2 (sys_db ?s1)" using r1 by (rule quota_sweep_evictable)
  have r2: "gc_ready (sys_db ?s2)"
    using r1 gc_ready_evict [OF r1 e2] by (cases dry_run) (simp_all del: evicted_append)
  have plan: "sweep_plan dry_run env cfg ?d = ?es1 @ ?es2 @ global_plan cfg (sys_db ?s2)"
    by (cases dry_run) (simp_all add: sweep_plan_def Let_def)
  show ?thesis
    by (simp add: ttl_phase_sweep [OF assms] quota_phase_sweep [OF r1] global_phase_plan [OF r2]
        plan count_all_append del: evicted_append)
       (simp add: evicted_def evict_all_append)
qed

definition sweep_report :: "gc_env \<Rightarrow> gc_config \<Rightarrow> db \<Rightarrow> gc_report" where
  "sweep_report env cfg d =
     (let es = sweep_plan False env cfg d; d1 = evict_all es d in
      \<lparr>evicted_entries = of_nat (length es),
       evicted_bytes = as_u64 (sum_list (map e_size_bytes es)),
       freed_blobs = of_nat (length (zero_rows d1)),
       usage_global_bytes = blob_bytes (drop_zero d1)\<rparr>)"

lemma gc_ready_drop_zero:
  assumes "gc_ready d"
  shows "gc_ready (drop_zero d)"
proof -
  have wf: "wf_db d" using assms by (rule gc_ready_wf)
  have "wf_db (drop_zero d)"
    unfolding drop_zero_def by (rule wf_drop_rows [OF wf]) (simp add: zero_row_dead [OF wf])
  moreover have "\<forall>b\<in>set (db_blobs d). 0 \<le> b_size_bytes b" using wf by (simp add: wf_db_def wf_blobs_def)
  from sum_list_filter_le [OF this, of "\<lambda>b. b_refcount b \<noteq> 0"]
  have "blob_bytes (drop_zero d) \<le> blob_bytes d" by (simp add: blob_bytes_def drop_zero_def)
  moreover have "db_entries (drop_zero d) = db_entries d" by (simp add: drop_zero_def)
  ultimately show ?thesis using assms by (simp add: gc_ready_def bytes_fit_def)
qed

lemma gc_run_real:
  assumes ready: "gc_ready (sys_db s)" and ttl: "ttl_days_fit (ge_now env) cfg"
    and hash: "hashes_ok (sys_db s)"
  shows "\<exists>f'. gc_run env cfg root False s =
      (Ok (sweep_report env cfg (sys_db s)),
       \<lparr>sys_db = drop_zero (evict_all (sweep_plan False env cfg (sys_db s)) (sys_db s)), sys_fs = f'\<rparr>) \<and>
    files_after env root
      (b_hash ` set (zero_rows (evict_all (sweep_plan False env cfg (sys_db s)) (sys_db s))))
      (sys_fs s) f'"
proof -
  let ?es = "sweep_plan False env cfg (sys_db s)"
  let ?d1 = "evict_all ?es (sys_db s)"
  let ?s1 = "s\<lparr>sys_db := ?d1\<rparr>"
  have ev: "evictable ?es (sys_db s)" using ready ttl by (rule sweep_plan_evictable)
  have r1: "gc_ready ?d1" using ready ev by (rule gc_ready_evict)
  have "wf_db (sys_db ?s1)" and "hashes_ok (sys_db ?s1)"
    using gc_ready_wf [OF r1] hash by simp_all
  from cleanup_blobs_real [OF this, of env root "count_all ?es gc_report_default"] obtain f'
    where clean: "cleanup_blobs env root False (count_all ?es gc_report_default) ?s1 =
        (Ok ((count_all ?es gc_report_default)\<lparr>freed_blobs := 0 + of_nat (length (zero_rows ?d1))\<rparr>),
         \<lparr>sys_db = drop_zero ?d1, sys_fs = f'\<rparr>)"
      and f': "files_after env root (b_hash ` set (zero_rows ?d1)) (sys_fs s) f'"
    by (auto simp: count_all_def gc_report_default_def)
  have size: "on_db total_size \<lparr>sys_db = drop_zero ?d1, sys_fs = f'\<rparr> =
      (Ok (blob_bytes (drop_zero ?d1)), \<lparr>sys_db = drop_zero ?d1, sys_fs = f'\<rparr>)"
    using total_size_Ok [OF gc_ready_drop_zero [OF r1]] by simp
  have "gc_run env cfg root False s =
      (Ok (sweep_report env cfg (sys_db s)), \<lparr>sys_db = drop_zero ?d1, sys_fs = f'\<rparr>)"
    unfolding gc_run_def evict_phases [OF ready ttl]
    by (simp only: evicted_def if_False andthen_Ok [where m = "cleanup_blobs env root False (count_all ?es gc_report_default)", OF clean]
        andthen_Ok [where m = "on_db total_size", OF size] ret_apply)
       (simp add: sweep_report_def Let_def count_all_def gc_report_default_def)
  then show ?thesis using f' by blast
qed

lemma gc_run_dry:
  assumes ready: "gc_ready (sys_db s)" and ttl: "ttl_days_fit (ge_now env) cfg"
  shows "gc_run env cfg root True s =
    (Ok \<lparr>evicted_entries = of_nat (length (sweep_plan True env cfg (sys_db s))),
         evicted_bytes = as_u64 (sum_list (map e_size_bytes (sweep_plan True env cfg (sys_db s)))),
         freed_blobs = of_nat (min 1000 (length (zero_rows (sys_db s)))),
         usage_global_bytes = blob_bytes (sys_db s)\<rparr>, s)"
  unfolding gc_run_def evict_phases [OF ready ttl]
  by (simp add: cleanup_blobs_dry total_size_Ok [OF ready] count_all_def gc_report_default_def)

end
