(* ===== verification/Gc_Guarantees.thy ===== *)
theory Gc_Guarantees
  imports Gc_Sweep
begin

text \<open>
  What a sweep guarantees, as facts about \<open>sweep_plan\<close>, \<open>evict_all\<close> and \<open>drop_zero\<close>: which
  entries can be in the plan, what is left of a project's usage, what becomes of the blobs.
\<close>

section \<open>The plan\<close>

lemma set_ttl_sweep:
  "set (ttl_sweep env cfg d) = {e \<in> set (db_entries d). expired (ge_now env) cfg d e}"
proof -
  have "k = Sstate \<or> k = Downloads" for k by (cases k) simp_all
  then show ?thesis by (fastforce simp: ttl_sweep_def ttl_plan_def)
qed

lemma set_quota_sweep: "set (quota_sweep d) \<subseteq> {e \<in> set (db_entries d). \<not> e_pinned e}"
  using set_quota_plan by (fastforce simp: quota_sweep_def)

lemma sweep_plan_parts:
  obtains es1 es2 es3 where "sweep_plan dry_run env cfg d = es1 @ es2 @ es3"
    and "es1 = ttl_sweep env cfg d"
    and "es2 = quota_sweep (if dry_run then d else evict_all es1 d)"
    and "es3 = global_plan cfg (if dry_run then d else evict_all (es1 @ es2) d)"
  by (simp add: sweep_plan_def Let_def)

lemma sweep_plan_unpinned:
  assumes "gc_ready d" and "ttl_days_fit (ge_now env) cfg" and "e \<in> set (sweep_plan False env cfg d)"
  shows "e \<in> set (db_entries d) \<and> \<not> e_pinned e"
proof -
  have in_d: "e \<in> set (db_entries d)"
    using sweep_plan_evictable [OF assms(1,2)] assms(3) by (auto simp: evictable_def)
  obtain es1 es2 es3 where plan: "sweep_plan False env cfg d = es1 @ es2 @ es3"
    and es: "es1 = ttl_sweep env cfg d" "es2 = quota_sweep (evict_all es1 d)"
      "es3 = global_plan cfg (evict_all (es1 @ es2) d)"
    by (rule sweep_plan_parts [of False env cfg d]) simp
  have "set es1 \<subseteq> {e. \<not> e_pinned e}" by (auto simp: es(1) set_ttl_sweep expired_def)
  moreover have "set es2 \<subseteq> {e. \<not> e_pinned e}" using set_quota_sweep es(2) by blast
  moreover have "set es3 \<subseteq> {e. \<not> e_pinned e}" using set_global_plan es(3) by blast
  ultimately show ?thesis using in_d assms(3) plan by auto
qed

section \<open>What is left of a usage\<close>

lemma sum_without:
  fixes f :: "'x \<Rightarrow> int"
  assumes "distinct xs" and "distinct es" and "set es \<subseteq> set xs"
  shows "sum_list (map f (filter P (filter (\<lambda>x. x \<notin> set es) xs))) =
    sum_list (map f (filter P xs)) - sum_list (map f (filter P es))"
proof -
  have sums: "sum_list (map f (filter P ys)) = sum f {y \<in> set ys. P y}" if "distinct ys" for ys
    using that by (simp add: sum_list_distinct_conv_sum_set)
  have "{y \<in> set xs. P y} = {y \<in> set (filter (\<lambda>x. x \<notin> set es) xs). P y} \<union> {y \<in> set es. P y}"
    using assms(3) by auto
  then have "sum f {y \<in> set xs. P y} =
      sum f {y \<in> set (filter (\<lambda>x. x \<notin> set es) xs). P y} + sum f {y \<in> set es. P y}"
    by (simp only:) (rule sum.union_disjoint, auto)
  then show ?thesis
    unfolding sums [OF assms(1)] sums [OF assms(2)] sums [OF distinct_filter [OF assms(1)]] by linarith
qed

lemma project_bytes_evict:
  assumes "evictable es d"
  shows "project_bytes pid (evict_all es d) =
    project_bytes pid d - sum_list (map e_size_bytes (filter (\<lambda>e. e_project_id e = pid) es))"
  unfolding project_bytes_def entries_evict_all [OF assms]
  using assms wf_distinct_entries by (intro sum_without) (auto simp: evictable_def)

lemma entry_bytes_evict:
  assumes "evictable es d"
  shows "sum_list (map e_size_bytes (db_entries (evict_all es d))) =
    sum_list (map e_size_bytes (db_entries d)) - sum_list (map e_size_bytes es)"
  using sum_without [of "db_entries d" es e_size_bytes "\<lambda>_. True"] assms wf_distinct_entries
  by (simp add: entries_evict_all [OF assms]) (auto simp: evictable_def)

lemma project_bytes_mono:
  assumes "evictable es d"
  shows "project_bytes pid (evict_all es d) \<le> project_bytes pid d"
proof -
  have "0 \<le> sum_list (map e_size_bytes (filter (\<lambda>e. e_project_id e = pid) es))"
    using assms wf_sizes [of d] by (intro sum_list_nonneg) (auto simp: evictable_def)
  then show ?thesis by (simp add: project_bytes_evict [OF assms])
qed

text \<open>Within a project, the quota sweep removes the project's own plan.\<close>

lemma quota_sweep_project:
  assumes wf: "wf_db d" and p: "p \<in> set (db_projects d)"
  shows "{e \<in> set (quota_sweep d). e_project_id e = p_id p} = set (quota_plan p d)"
proof -
  have ids: "distinct (map p_id (db_projects d))" using wf by (simp add: wf_db_def wf_projects_def)
  have "q = p" if "q \<in> set (db_projects d)" "e \<in> set (quota_plan q d)" "e_project_id e = p_id p" for q e
    using set_quota_plan [of q d] that distinct_map_eq [OF ids that(1) p] by auto
  moreover have "e_project_id e = p_id p" if "e \<in> set (quota_plan p d)" for e
    using set_quota_plan [of p d] that by auto
  ultimately show ?thesis using p by (auto simp: quota_sweep_def)
qed

lemma quota_sweep_bytes:
  assumes ready: "gc_ready d" and p: "p \<in> set (db_projects d)"
  shows "project_bytes (p_id p) (evict_all (quota_sweep d) d) =
    project_bytes (p_id p) d - sum_list (map e_size_bytes (quota_plan p d))"
proof -
  have wf: "wf_db d" using ready by (rule gc_ready_wf)
  have ev: "evictable (quota_sweep d) d" using ready by (rule quota_sweep_evictable)
  have "distinct (quota_plan p d)"
    using quota_plan_evictable [OF wf] by (simp add: evictable_def)
  moreover have "distinct (filter (\<lambda>e. e_project_id e = p_id p) (quota_sweep d))"
    using ev by (simp add: evictable_def)
  moreover have "set (filter (\<lambda>e. e_project_id e = p_id p) (quota_sweep d)) = set (quota_plan p d)"
    using quota_sweep_project [OF wf p] by simp
  ultimately have "sum_list (map e_size_bytes (filter (\<lambda>e. e_project_id e = p_id p) (quota_sweep d))) =
      sum_list (map e_size_bytes (quota_plan p d))"
    by (simp only: sum_list_distinct_conv_sum_set)
  then show ?thesis by (simp add: project_bytes_evict [OF ev])
qed

text \<open>After the quota sweep a project fits its quota, unless only pinned entries are left.\<close>

definition within_quota :: "project \<Rightarrow> db \<Rightarrow> bool" where
  "within_quota p d \<longleftrightarrow>
     (case p_quota_bytes p of
        None \<Rightarrow> True
      | Some q \<Rightarrow> project_bytes (p_id p) d \<le> q \<or>
          (\<forall>e\<in>set (db_entries d). e_project_id e = p_id p \<longrightarrow> e_pinned e))"

lemma within_quota_evict: "within_quota p d \<Longrightarrow> evictable es d \<Longrightarrow> within_quota p (evict_all es d)"
  using project_bytes_mono [of es d "p_id p"] set_evict_all [of es d]
  by (auto simp: within_quota_def split: option.splits)

lemma within_quota_sweep:
  assumes ready: "gc_ready d" and p: "p \<in> set (db_projects d)"
  shows "within_quota p (evict_all (quota_sweep d) d)"
proof (cases "p_quota_bytes p")
  case None
  then show ?thesis by (simp add: within_quota_def)
next
  case (Some q)
  let ?rows = "lru_order (filter (\<lambda>e. e_project_id e = p_id p \<and> \<not> e_pinned e) (db_entries d))"
  have plan: "quota_plan p d = over_quota q (project_bytes (p_id p) d) ?rows"
    using Some by (simp add: quota_plan_def)
  from over_quota_enough [of q "project_bytes (p_id p) d" ?rows]
  consider (all) "quota_plan p d = ?rows"
    | (fits) "project_bytes (p_id p) d - sum_list (map e_size_bytes (quota_plan p d)) \<le> q"
    using plan by auto
  then show ?thesis
  proof cases
    case all
    then have "set (quota_plan p d) = {e \<in> set (db_entries d). e_project_id e = p_id p \<and> \<not> e_pinned e}"
      by simp
    then show ?thesis
      using quota_sweep_project [OF gc_ready_wf [OF ready] p]
        set_evict_all [OF quota_sweep_evictable [OF ready]]
      using Some by (auto simp: within_quota_def)
  next
    case fits
    then show ?thesis
      using Some quota_sweep_bytes [OF ready p] by (simp add: within_quota_def)
  qed
qed

lemma entries_drop_zero [simp]:
  "db_entries (drop_zero d) = db_entries d" "db_projects (drop_zero d) = db_projects d"
  by (simp_all add: drop_zero_def)

lemma within_quota_drop_zero [simp]: "within_quota p (drop_zero d) = within_quota p d"
  by (simp add: within_quota_def project_bytes_def split: option.split)

text \<open>The state in which the global phase starts.\<close>

lemma evict_sweep_plan:
  assumes ready: "gc_ready d" and ttl: "ttl_days_fit (ge_now env) cfg"
  obtains d1 d2 where "d1 = evict_all (ttl_sweep env cfg d) d"
    and "d2 = evict_all (quota_sweep d1) d1"
    and "gc_ready d1" and "gc_ready d2"
    and "evict_all (sweep_plan False env cfg d) d = evict_all (global_plan cfg d2) d2"
proof -
  let ?d1 = "evict_all (ttl_sweep env cfg d) d"
  have r1: "gc_ready ?d1" using ready ttl_sweep_evictable [OF ready ttl] by (rule gc_ready_evict)
  have "gc_ready (evict_all (quota_sweep ?d1) ?d1)"
    using r1 quota_sweep_evictable [OF r1] by (rule gc_ready_evict)
  then show ?thesis
    using r1 by (intro that [of ?d1]) (simp_all add: sweep_plan_def Let_def evict_all_append)
qed

section \<open>What becomes of the blobs\<close>

lemma refcount_drop_zero [simp]:
  assumes "wf_db d"
  shows "refcount (drop_zero d) h = refcount d h"
proof -
  have "distinct (map b_hash bs) \<Longrightarrow>
    (case find (\<lambda>b. b_hash b = h) (filter (\<lambda>b. b_refcount b \<noteq> 0) bs) of
       None \<Rightarrow> 0 | Some b \<Rightarrow> b_refcount b) =
    (case find (\<lambda>b. b_hash b = h) bs of None \<Rightarrow> 0 | Some b \<Rightarrow> b_refcount b)" for bs :: "blob list"
  proof (induction bs)
    case Nil
    then show ?case by simp
  next
    case (Cons b bs)
    have "find (\<lambda>c. c \<in> set bs \<and> b_hash c = h) (filter (\<lambda>b. b_refcount b \<noteq> 0) bs) = None"
      if "b_hash b = h"
      using Cons.prems that by (auto simp: find_None_iff) (metis image_eqI)
    moreover have "find (\<lambda>c. b_hash c = h) (filter (\<lambda>b. b_refcount b \<noteq> 0) bs) = None"
      if "b_hash b = h"
      using Cons.prems that by (auto simp: find_None_iff) (metis image_eqI)
    ultimately show ?case using Cons by auto
  qed
  from this [of "db_blobs d"] show ?thesis
    using assms by (simp add: refcount_def blob_at_def drop_zero_def wf_db_def wf_blobs_def)
qed

lemma leak_drop_zero: "wf_db d \<Longrightarrow> leak (drop_zero d) h = leak d h"
  by (simp add: leak_def)

lemma wf_drop_zero: "wf_db d \<Longrightarrow> wf_db (drop_zero d)"
  unfolding drop_zero_def by (rule wf_drop_rows) (simp_all add: zero_row_dead)

lemma no_zero_rows: "b \<in> set (db_blobs (drop_zero d)) \<Longrightarrow> b_refcount b \<noteq> 0"
  by (simp add: drop_zero_def)

lemma live_rows:
  assumes wf: "wf_db d" and exact: "refs_exact d" and b: "b \<in> set (db_blobs (drop_zero d))"
  shows "\<exists>e\<in>set (db_entries d). e_blob_hash e = b_hash b"
proof -
  have "b \<in> set (db_blobs d)" and "b_refcount b \<noteq> 0" using b by (auto simp: drop_zero_def)
  then have "refs (db_entries d) (b_hash b) \<noteq> 0" using exact by (simp add: refs_exact_def)
  then show ?thesis by (auto simp: refs_zero_iff)
qed

lemma blobs_present_sweep:
  assumes wf: "wf_db d'" and present: "blobs_present root s"
    and sub: "set (db_entries d') \<subseteq> set (db_entries (sys_db s))"
    and files: "files_after env root (b_hash ` set (zero_rows d')) (sys_fs s) f'"
  shows "blobs_present root \<lparr>sys_db = drop_zero d', sys_fs = f'\<rparr>"
proof -
  have "blob_file root (e_blob_hash e) f' \<noteq> None" if e: "e \<in> set (db_entries d')" for e
  proof -
    have "e_blob_hash e \<notin> b_hash ` set (zero_rows d')"
      using zero_row_dead [OF wf] e by (auto simp: zero_rows_def refs_zero_iff)
    then have "blob_file root (e_blob_hash e) f' = blob_file root (e_blob_hash e) (sys_fs s)"
      using files by (simp add: files_after_def)
    then show ?thesis using present e sub by (auto simp: blobs_present_def)
  qed
  then show ?thesis by (simp add: blobs_present_def)
qed

section \<open>Physical usage where nothing is shared\<close>

text \<open>No two entries have the same blob, and sizes agree.\<close>

definition unshared :: "db \<Rightarrow> bool" where
  "unshared d \<longleftrightarrow> distinct (map e_blob_hash (db_entries d)) \<and>
     (\<forall>e\<in>set (db_entries d). \<forall>b\<in>set (db_blobs d). b_hash b = e_blob_hash e \<longrightarrow>
        b_size_bytes b = e_size_bytes e)"

lemma unshared_evict:
  assumes un: "unshared d" and ev: "evictable es d"
  shows "unshared (evict_all es d)"
proof -
  have rows: "b_size_bytes b = e_size_bytes e"
    if e: "e \<in> set (db_entries d)" and b: "b \<in> set (db_blobs (evict_all es d))"
      and h: "b_hash b = e_blob_hash e" for e b
  proof -
    have "set (map (\<lambda>b. (b_hash b, b_size_bytes b)) (db_blobs (evict_all es d))) =
        set (map (\<lambda>b. (b_hash b, b_size_bytes b)) (db_blobs d))"
      by (simp only: blob_sizes_evict_all)
    moreover have "(b_hash b, b_size_bytes b) \<in>
        set (map (\<lambda>b. (b_hash b, b_size_bytes b)) (db_blobs (evict_all es d)))"
      unfolding set_map using b by (rule imageI)
    ultimately have "(b_hash b, b_size_bytes b) \<in> set (map (\<lambda>b. (b_hash b, b_size_bytes b)) (db_blobs d))"
      by simp
    then obtain c where "c \<in> set (db_blobs d)" "b_hash b = b_hash c" "b_size_bytes b = b_size_bytes c"
      by auto
    then show ?thesis using un e h by (auto simp: unshared_def)
  qed
  then show ?thesis
    using un by (auto simp: unshared_def entries_evict_all [OF ev] distinct_map_filter)
qed

lemma unshared_live_bytes:
  assumes wf: "wf_db d" and exact: "refs_exact d" and un: "unshared d"
  shows "blob_bytes (drop_zero d) = sum_list (map e_size_bytes (db_entries d))"
proof -
  let ?live = "filter (\<lambda>b. b_refcount b \<noteq> 0) (db_blobs d)"
  have keys: "distinct (map b_hash ?live)"
    using wf by (simp add: wf_db_def wf_blobs_def distinct_map_filter)
  have live: "b \<in> set ?live \<longleftrightarrow> b \<in> set (db_blobs d) \<and> (\<exists>e\<in>set (db_entries d). e_blob_hash e = b_hash b)" for b
    using exact by (auto simp: refs_exact_def refs_zero_iff)
  have sizes: "b_size_bytes b = e_size_bytes e"
    if "e \<in> set (db_entries d)" "b \<in> set (db_blobs d)" "b_hash b = e_blob_hash e" for e b
    using un that by (auto simp: unshared_def)
  define size_of where "size_of h = b_size_bytes (the (blob_at d h))" for h
  have "sum_list (map b_size_bytes ?live) = sum size_of (b_hash ` set ?live)"
  proof -
    have "sum_list (map b_size_bytes ?live) = sum b_size_bytes (set ?live)"
      using keys by (simp add: sum_list_distinct_conv_sum_set distinct_map)
    also have "\<dots> = sum (\<lambda>b. size_of (b_hash b)) (set ?live)"
      using wf by (intro sum.cong) (auto simp: size_of_def wf_blob_row)
    also have "\<dots> = sum size_of (b_hash ` set ?live)"
      using keys by (simp add: sum.reindex distinct_map)
    finally show ?thesis .
  qed
  moreover have "sum_list (map e_size_bytes (db_entries d)) = sum size_of (e_blob_hash ` set (db_entries d))"
  proof -
    have "e_size_bytes e = size_of (e_blob_hash e)" if e: "e \<in> set (db_entries d)" for e
    proof -
      obtain b where "blob_at d (e_blob_hash e) = Some b" using wf e by (rule wf_entry_blob)
      then show ?thesis using sizes [OF e, of b] by (auto simp: size_of_def dest!: blob_at_Some)
    qed
    then have "sum_list (map e_size_bytes (db_entries d)) =
        sum_list (map (\<lambda>e. size_of (e_blob_hash e)) (db_entries d))"
      by (intro arg_cong [of _ _ sum_list] map_cong) simp_all
    also have "\<dots> = sum_list (map size_of (map e_blob_hash (db_entries d)))" by (simp add: comp_def)
    also have "\<dots> = sum size_of (set (map e_blob_hash (db_entries d)))"
      using un by (intro sum_list_distinct_conv_sum_set) (simp add: unshared_def)
    finally show ?thesis by simp
  qed
  moreover have "b_hash ` set ?live = e_blob_hash ` set (db_entries d)"
  proof (intro equalityI subsetI)
    fix h assume "h \<in> b_hash ` set ?live"
    then show "h \<in> e_blob_hash ` set (db_entries d)" using live by (auto intro: rev_image_eqI)
  next
    fix h assume "h \<in> e_blob_hash ` set (db_entries d)"
    then obtain e where e: "e \<in> set (db_entries d)" "h = e_blob_hash e" by auto
    then obtain b where "blob_at d h = Some b" using wf by (auto elim: wf_entry_blob)
    then have b: "b \<in> set (db_blobs d)" "b_hash b = h" by (auto dest: blob_at_Some)
    then have "b \<in> set ?live" using e by (simp only: live) auto
    then show "h \<in> b_hash ` set ?live" using b(2) by (metis imageI)
  qed
  ultimately show ?thesis by (simp add: blob_bytes_def drop_zero_def)
qed

lemma blob_bytes_drop_zero_le: "wf_db d \<Longrightarrow> blob_bytes (drop_zero d) \<le> blob_bytes d"
  using sum_list_filter_le [of "db_blobs d" b_size_bytes "\<lambda>b. b_refcount b \<noteq> 0"]
  by (simp add: blob_bytes_def drop_zero_def wf_db_def wf_blobs_def)

lemma refs_exact_evict_all:
  assumes "evictable es d"
  shows "refs_exact (evict_all es d) \<longleftrightarrow> refs_exact d"
  using refs_exact_leak [OF wf_evict_all [OF assms]] refs_exact_leak [of d] leak_evict_all [OF assms] assms
  by (simp add: evictable_def)

lemma global_sweep_bytes:
  assumes ready: "gc_ready d" and exact: "refs_exact d" and un: "unshared d"
  shows "blob_bytes (drop_zero (evict_all (global_plan cfg d) d)) \<le> as_i64 (global_quota_bytes cfg) \<or>
    (\<forall>e\<in>set (db_entries (evict_all (global_plan cfg d) d)). e_pinned e)"
proof -
  let ?q = "as_i64 (global_quota_bytes cfg)"
  let ?rows = "lru_order (filter (\<lambda>e. \<not> e_pinned e) (db_entries d))"
  let ?d = "evict_all (global_plan cfg d) d"
  have wf: "wf_db d" using ready by (rule gc_ready_wf)
  have ev: "evictable (global_plan cfg d) d" using wf by (rule global_plan_evictable)
  from over_quota_enough [of ?q "blob_bytes d" ?rows]
  consider (all) "global_plan cfg d = ?rows"
    | (fits) "blob_bytes d - sum_list (map e_size_bytes (global_plan cfg d)) \<le> ?q"
    by (auto simp: global_plan_def)
  then show ?thesis
  proof cases
    case all
    then have "set (global_plan cfg d) = {e \<in> set (db_entries d). \<not> e_pinned e}" by simp
    then show ?thesis using set_evict_all [OF ev] by auto
  next
    case fits
    have "blob_bytes (drop_zero ?d) = sum_list (map e_size_bytes (db_entries ?d))"
      using wf_evict_all [OF ev] exact unshared_evict [OF un ev] refs_exact_evict_all [OF ev]
      by (simp add: unshared_live_bytes)
    also have "\<dots> = sum_list (map e_size_bytes (db_entries d)) -
        sum_list (map e_size_bytes (global_plan cfg d))"
      using ev by (rule entry_bytes_evict)
    also have "sum_list (map e_size_bytes (db_entries d)) \<le> blob_bytes d"
      using unshared_live_bytes [OF wf exact un] blob_bytes_drop_zero_le [OF wf] by simp
    finally show ?thesis using fits by simp
  qed
qed

section \<open>The parts of a run\<close>

lemma gc_run_parts:
  assumes "gc_ready (sys_db s)" and "ttl_days_fit (ge_now env) cfg" and "hashes_ok (sys_db s)"
  shows "fst (gc_run env cfg root False s) = Ok (sweep_report env cfg (sys_db s))"
    and "sys_db (snd (gc_run env cfg root False s)) =
      drop_zero (evict_all (sweep_plan False env cfg (sys_db s)) (sys_db s))"
    and "files_after env root
      (b_hash ` set (zero_rows (evict_all (sweep_plan False env cfg (sys_db s)) (sys_db s))))
      (sys_fs s) (sys_fs (snd (gc_run env cfg root False s)))"
  using gc_run_real [OF assms, of root] by auto

end
