(* ===== verification/Gc_Invariant.thy ===== *)
theory Gc_Invariant
  imports Gc_Guarantees
begin

text \<open>
  Invariants that a sweep keeps on every path, an error half way included. The locale
  \<open>sweep_invariant\<close> asks for the two things a sweep does to the state (delete an entry that is
  not pinned, reclaim a blob that no entry refers to) and gives the invariant of the whole run;
  it is interpreted on the well-formedness of the database and on the survival of a pinned
  entry. A dry run keeps the state itself.
\<close>

section \<open>Frames\<close>

lemma keeps_wf_blobs_delete [keeps_intros]: "keeps wf_db (blobs_delete h)"
proof
  fix d
  assume wf: "wf_db d"
  have "wf_db (d\<lparr>db_blobs := filter (\<lambda>b. b_hash b \<noteq> h) (db_blobs d)\<rparr>)"
    if "\<not> (has_blob d h \<and> (\<exists>e\<in>set (db_entries d). e_blob_hash e = h))"
    using that by (intro wf_drop_rows [OF wf]) (auto simp: has_blob_def refs_zero_iff)
  then show "wf_db (snd (blobs_delete h d))"
    using wf by (simp add: blobs_delete_def sql_delete_def)
qed

lemma keeps_unlink_logged: "keeps (\<lambda>s. P (sys_db s)) (unlink_logged env root h)"
  by (simp add: keeps_def unlink_logged_def split: prod.split outcome.split)

lemma free_blob_frame:
  "db_entries (sys_db (snd (free_blob env root dry_run h rep s))) = db_entries (sys_db s)"
proof -
  have "keeps (\<lambda>d. db_entries d = es) (blobs_delete h)" for es
    by (auto intro!: keepsI simp: blobs_delete_def)
  then have "keeps (\<lambda>t. db_entries (sys_db t) = es) (free_blob env root dry_run h rep)" for es
    unfolding free_blob_def
    by (auto intro!: keeps_ret keeps_andthen keeps_unlink_logged keeps_on_db [of "\<lambda>d. db_entries d = es"])
  then show ?thesis by (simp add: keeps_def)
qed

lemma free_blob_wf:
  assumes "wf_db (sys_db s)"
  shows "wf_db (sys_db (snd (free_blob env root dry_run h rep s)))"
proof -
  have "keeps (\<lambda>s. wf_db (sys_db s)) (free_blob env root dry_run h rep)"
    unfolding free_blob_def
    by (auto intro!: keeps_ret keeps_andthen keeps_unlink_logged keeps_on_db keeps_wf_blobs_delete)
  then show ?thesis using assms by (rule keepsD)
qed

text \<open>Unlinking a blob leaves the others.\<close>

lemma unlink_other:
  assumes "h' \<noteq> h"
  shows "blob_file root h' (sys_fs (snd (unlink_logged env root h s))) = blob_file root h' (sys_fs s)"
proof -
  have "blob_file root h' (snd (delete_blob fault root h f)) = blob_file root h' f" for fault f
  proof (cases fault)
    case None
    then show ?thesis using assms by (simp add: delete_blob_content)
  next
    case (Some e)
    then show ?thesis
      using delete_blob_fault [of e root h f "fst (delete_blob fault root h f)" "snd (delete_blob fault root h f)"]
      by simp
  qed
  from this [of "ge_unlink env h" "sys_fs s"] show ?thesis
    by (auto simp: unlink_logged_def split: prod.split outcome.split)
qed

lemma free_blob_other:
  assumes "h' \<noteq> h"
  shows "blob_file root h' (sys_fs (snd (free_blob env root dry_run h rep s))) = blob_file root h' (sys_fs s)"
proof -
  have "keeps (\<lambda>t. blob_file root h' (sys_fs t) = c) (unlink_logged env root h)" for c
    by (rule keepsI) (simp add: unlink_other [OF assms])
  moreover have "keeps (\<lambda>t. blob_file root h' (sys_fs t) = c) (on_db m)" for c and m :: "(db, unit) op"
    by (rule keepsI) simp
  ultimately have "keeps (\<lambda>t. blob_file root h' (sys_fs t) = c) (free_blob env root dry_run h rep)" for c
    unfolding free_blob_def by (intro keeps_andthen keeps_ret) (auto intro!: keeps_andthen keeps_ret)
  then show ?thesis by (simp add: keeps_def)
qed

section \<open>The interface\<close>

locale sweep_invariant =
  fixes I :: "sys \<Rightarrow> bool" and root :: path
  assumes inv_wf: "I s \<Longrightarrow> wf_db (sys_db s)"
    and inv_delete: "I s \<Longrightarrow> e \<in> set (db_entries (sys_db s)) \<Longrightarrow> \<not> e_pinned e \<Longrightarrow>
      keeps I (gc_delete dry_run (e_project_id e) (e_id e))"
    and inv_free: "I s \<Longrightarrow> refs (db_entries (sys_db s)) h = 0 \<Longrightarrow>
      I (snd (free_blob env root dry_run h rep s))"
begin

lemma keeps_evict_row:
  "I s \<Longrightarrow> e \<in> set (db_entries (sys_db s)) \<Longrightarrow> \<not> e_pinned e \<Longrightarrow>
   keeps I (evict_row dry_run (candidate e) rep)"
  by (auto simp: evict_row_def candidate_def intro!: keeps_intros inv_delete)

lemma keeps_evict_rows:
  assumes "I s" and "set es \<subseteq> {e \<in> set (db_entries (sys_db s)). \<not> e_pinned e}"
  shows "keeps I (foreach (evict_row dry_run) (map candidate es) rep)"
proof (rule keeps_foreach)
  fix row r
  assume "row \<in> set (map candidate es)"
  then obtain e where "row = candidate e" and "e \<in> set es" by auto
  then show "keeps I (evict_row dry_run row r)" using assms by (auto intro!: keeps_evict_row)
qed

lemma keeps_evict_until:
  assumes "I s" and "set es \<subseteq> {e \<in> set (db_entries (sys_db s)). \<not> e_pinned e}"
  shows "keeps I (evict_until dry_run quota (map candidate es) usage rep)"
  using assms(2)
proof (induction es arbitrary: usage rep)
  case Nil
  show ?case by (simp only: evict_until.simps list.map keeps_ret)
next
  case (Cons e es)
  then have "keeps I (gc_delete dry_run (e_project_id e) (e_id e))"
    by (intro inv_delete [OF assms(1)]) auto
  then show ?case
    using Cons by (auto simp: candidate_def intro!: keeps_intros)
qed

lemma keeps_on_db_query: "keeps I (on_db (query q))"
  by (simp add: keeps_def on_db_def)

lemma keeps_ttl_kind: "keeps I (ttl_kind env cfg dry_run kind rep)"
  unfolding ttl_kind_def Let_def
proof (rule keeps_query_then)
  fix s rows
  assume s: "I s" and "Ok (map candidate (ttl_rows (ge_entry_rank env) (ge_now env)
      (wrap_i64 (ge_now env - default_secs cfg kind)) kind (sys_db s))) = Ok rows"
  then have rows: "rows = map candidate (ttl_rows (ge_entry_rank env) (ge_now env)
      (wrap_i64 (ge_now env - default_secs cfg kind)) kind (sys_db s))" by simp
  have "set (ttl_rows rank now c k d) \<subseteq> {e \<in> set (db_entries d). \<not> e_pinned e}" for rank now c k d
    by (auto simp: ttl_rows_def split: if_splits)
  then show "keeps I (foreach (evict_row dry_run) rows rep)"
    unfolding rows by (intro keeps_evict_rows [OF s])
qed

lemma keeps_quota_project: "keeps I (quota_project dry_run p rep)"
proof (cases "p_quota_bytes p")
  case None
  then show ?thesis by (simp add: quota_project_def keeps_ret)
next
  case (Some quota)
  have "keeps I (andthen (query (\<lambda>s. Ok (map candidate (lru_order
      (filter (\<lambda>e. e_project_id e = p_id p \<and> \<not> e_pinned e) (db_entries (sys_db s)))))))
      (\<lambda>to_evict. evict_until dry_run quota to_evict usage rep))" for usage
    by (rule keeps_query_then) (auto intro!: keeps_evict_until)
  then show ?thesis
    using Some unfolding quota_project_def project_usage_def
    by (auto intro!: keeps_andthen keeps_on_db_query keeps_ret)
qed

lemma keeps_global_phase: "keeps I (global_phase cfg dry_run rep)"
proof -
  have "keeps I (andthen (query (\<lambda>s. Ok (map candidate (lru_order
      (filter (\<lambda>e. \<not> e_pinned e) (db_entries (sys_db s)))))))
      (\<lambda>to_evict. evict_until dry_run quota to_evict usage rep))" for usage quota
    by (rule keeps_query_then) (auto intro!: keeps_evict_until)
  then show ?thesis
    unfolding global_phase_def total_size_def Let_def
    by (auto intro!: keeps_andthen keeps_on_db_query keeps_ret)
qed

text \<open>A batch frees blobs without references, and freeing one leaves the references of the others.\<close>

lemma keeps_free_batch:
  assumes "I s" and "\<And>h. h \<in> set batch \<Longrightarrow> refs (db_entries (sys_db s)) h = 0"
  shows "I (snd (foreach (free_blob env root dry_run) batch rep s))"
proof -
  have "keeps (\<lambda>t. I t \<and> db_entries (sys_db t) = db_entries (sys_db s)) (free_blob env root dry_run h rep)"
    if "h \<in> set batch" for h rep
    using assms(2) [OF that] by (intro keepsI) (auto simp: free_blob_frame intro: inv_free)
  then have "keeps (\<lambda>t. I t \<and> db_entries (sys_db t) = db_entries (sys_db s))
      (foreach (free_blob env root dry_run) batch rep)"
    by (rule keeps_foreach)
  from keepsD [OF this, of s] show ?thesis using assms(1) by simp
qed

lemma keeps_cleanup: "root' = root \<Longrightarrow> I s \<Longrightarrow> I (snd (cleanup_blobs env root' dry_run rep s))"
proof (induction env root' dry_run rep s rule: cleanup_blobs.induct)
  case (1 env root' dry_run rep s)
  obtain batch where fetch: "on_db (zero_refcount (ge_blob_rank env) BATCH) s = (Ok batch, s)"
    and rows: "fst (zero_refcount (ge_blob_rank env) BATCH (sys_db s)) = Ok batch"
    by (simp add: on_db_def zero_refcount_def)
  obtain r s2 where loop: "foreach (free_blob env root' dry_run) batch rep s = (r, s2)" by fastforce
  have "refs (db_entries (sys_db s)) h = 0" if "h \<in> set batch" for h
    using zero_refcount_rows [OF rows] that zero_row_dead [OF inv_wf [OF 1(3)]] by auto
  then have "I s2" using keeps_free_batch [OF 1(3), of batch env dry_run rep] loop 1(2) by simp
  then show ?case
    using 1 fetch loop by (subst cleanup_blobs.simps) (auto split: outcome.split)
qed

lemma keeps_run: "keeps I (gc_run env cfg root dry_run)"
proof -
  have "keeps I (cleanup_blobs env root dry_run rep)" for rep
    using keeps_cleanup by (auto simp: keeps_def)
  then show ?thesis
    unfolding gc_run_def ttl_phase_def quota_phase_def projects_list_def total_size_def
    by (intro keeps_andthen keeps_foreach keeps_on_db_query keeps_ret keeps_ttl_kind
        keeps_quota_project keeps_global_phase)
qed

end

section \<open>Interpretations\<close>

lemma gc_delete_wf:
  "wf_db (sys_db s) \<Longrightarrow> wf_db (sys_db (snd (gc_delete dry_run pid i s)))"
  using keepsD [OF keeps_wf_entries_delete] by (simp add: gc_delete_def)

interpretation wf_sweep: sweep_invariant "\<lambda>s. wf_db (sys_db s)" root for root
  by unfold_locales (auto intro!: keepsI simp: gc_delete_wf free_blob_wf)

lemma gc_delete_other:
  assumes "wf_db (sys_db s)" and "x \<in> set (db_entries (sys_db s))" and "e_id x \<noteq> i"
  shows "x \<in> set (db_entries (sys_db (snd (gc_delete dry_run pid i s))))"
proof -
  from assms(1) have "x \<in> set (db_entries (snd (entries_delete pid i (sys_db s))))"
    by (rule entries_delete_cases [where pid = pid and eid = i]) (use assms in auto)
  then show ?thesis using assms(2) by (simp add: gc_delete_def)
qed

interpretation pinned_sweep: sweep_invariant
    "\<lambda>s. wf_db (sys_db s) \<and> x \<in> set (db_entries (sys_db s)) \<and> e_pinned x" root for x root
proof (unfold_locales, goal_cases)
  case (2 s e dry_run)
  then have "e_id x \<noteq> e_id e" using wf_entry_ids [of "sys_db s" x e] by auto
  then show ?case by (auto intro!: keepsI simp: gc_delete_wf gc_delete_other)
next
  case (3 s h env dry_run rep)
  then show ?case by (simp add: free_blob_wf free_blob_frame)
qed simp

lemma entries_delete_subset:
  "wf_db d \<Longrightarrow> set (db_entries (snd (entries_delete pid i d))) \<subseteq> set (db_entries d)"
  by (rule entries_delete_cases [of d pid i]) auto

interpretation readable_sweep: sweep_invariant
    "\<lambda>s. wf_db (sys_db s) \<and> blobs_present root s" root for root
proof (unfold_locales, goal_cases)
  case (2 s e dry_run)
  show ?case
  proof
    fix t
    assume t: "wf_db (sys_db t) \<and> blobs_present root t"
    let ?t = "snd (gc_delete dry_run (e_project_id e) (e_id e) t)"
    have "set (db_entries (sys_db ?t)) \<subseteq> set (db_entries (sys_db t))" and "sys_fs ?t = sys_fs t"
      using entries_delete_subset t by (auto simp: gc_delete_def)
    then show "wf_db (sys_db ?t) \<and> blobs_present root ?t"
      using t gc_delete_wf by (auto simp: blobs_present_def)
  qed
next
  case (3 s h env dry_run rep)
  have "blob_file root (e_blob_hash e) (sys_fs (snd (free_blob env root dry_run h rep s))) \<noteq> None"
    if "e \<in> set (db_entries (sys_db s))" for e
    using 3 that free_blob_other [of "e_blob_hash e" h] by (auto simp: blobs_present_def refs_zero_iff)
  then show ?case using 3(1) by (simp add: free_blob_wf blobs_present_def free_blob_frame)
qed simp

section \<open>A dry run\<close>

lemma on_db_query_frame: "snd (on_db (query q) s) = s"
  by (simp add: on_db_def)

lemma keeps_eq_on_db_query: "keeps (\<lambda>s. s = s0) (on_db (query q))"
  by (simp add: keeps_def on_db_def)

lemma dry_evict_row: "keeps (\<lambda>s. s = s0) (evict_row True row rep)"
  by (cases row) (auto simp: evict_row_def gc_delete_def intro!: keeps_intros)

lemma dry_evict_until: "keeps (\<lambda>s. s = s0) (evict_until True quota rows usage rep)"
  by (induction rows arbitrary: usage rep) (auto simp: gc_delete_def intro!: keeps_intros)

lemma dry_cleanup: "keeps (\<lambda>s. s = s0) (cleanup_blobs env root True rep)"
  by (rule keepsI) (simp add: cleanup_blobs_dry)

lemma dry_run_keeps: "keeps (\<lambda>s. s = s0) (gc_run env cfg root True)"
proof -
  have ttl: "keeps (\<lambda>s. s = s0) (ttl_kind env cfg True kind rep)" for kind rep
    unfolding ttl_kind_def Let_def by (intro keeps_intros dry_evict_row)
  have quota: "keeps (\<lambda>s. s = s0) (quota_project True p rep)" for p rep
    unfolding quota_project_def project_usage_def
    by (auto split: option.split intro!: keeps_ret keeps_andthen keeps_query keeps_eq_on_db_query dry_evict_until)
  have global: "keeps (\<lambda>s. s = s0) (global_phase cfg True rep)" for rep
    unfolding global_phase_def total_size_def Let_def
    by (auto intro!: keeps_ret keeps_andthen keeps_query keeps_eq_on_db_query dry_evict_until)
  show ?thesis
    unfolding gc_run_def ttl_phase_def quota_phase_def projects_list_def total_size_def
    by (intro keeps_andthen keeps_foreach keeps_eq_on_db_query keeps_ret ttl quota global dry_cleanup)
qed

end
