(* ===== verification/Samples.thy ===== *)
theory Samples
  imports Gc_Invariant
begin

text \<open>
  A small cache on which the properties are instantiated: two projects (one with a quota), four
  entries (one pinned and long expired, one expired), four blobs in the store, and the facts
  about it that the properties ask for.
\<close>

definition acme :: project where
  "acme = \<lparr>p_id = 1, p_name = ''acme'', p_quota_bytes = Some 60, p_ttl_seconds = None,
     p_created_at = 0\<rparr>"

definition beta :: project where
  "beta = \<lparr>p_id = 2, p_name = ''beta'', p_quota_bytes = None, p_ttl_seconds = None,
     p_created_at = 0\<rparr>"

definition entry_a :: entry where
  "entry_a = \<lparr>e_id = 1, e_project_id = 1, e_kind = Sstate, e_path = ''a'', e_blob_hash = ''aaaa'',
     e_size_bytes = 30, e_created_at = 0, e_last_accessed = 999000, e_pinned = False\<rparr>"

definition entry_b :: entry where
  "entry_b = \<lparr>e_id = 2, e_project_id = 1, e_kind = Sstate, e_path = ''b'', e_blob_hash = ''bbbb'',
     e_size_bytes = 40, e_created_at = 0, e_last_accessed = 999500, e_pinned = False\<rparr>"

definition entry_c :: entry where
  "entry_c = \<lparr>e_id = 3, e_project_id = 1, e_kind = Sstate, e_path = ''c'', e_blob_hash = ''cccc'',
     e_size_bytes = 10, e_created_at = 0, e_last_accessed = 1000, e_pinned = True\<rparr>"

definition entry_d :: entry where
  "entry_d = \<lparr>e_id = 4, e_project_id = 2, e_kind = Downloads, e_path = ''d'', e_blob_hash = ''dddd'',
     e_size_bytes = 20, e_created_at = 0, e_last_accessed = 1000, e_pinned = False\<rparr>"

definition blob_of :: "entry \<Rightarrow> blob" where
  "blob_of e = \<lparr>b_hash = e_blob_hash e, b_size_bytes = e_size_bytes e, b_refcount = 1, b_created_at = 0\<rparr>"

definition sample_db :: db where
  "sample_db = db_empty\<lparr>
     db_projects := [acme, beta], db_project_seq := 2,
     db_blobs := map blob_of [entry_a, entry_b, entry_c, entry_d],
     db_entries := [entry_a, entry_b, entry_c, entry_d], db_entry_seq := 4\<rparr>"

definition sample_root :: path where
  "sample_root = [''srv'']"

definition sample_fs :: fs where
  "sample_fs = map (\<lambda>h. (sample_root @ [''blobs'', take 2 h, take 2 (drop 2 h), h], [0]))
     [''aaaa'', ''bbbb'', ''cccc'', ''dddd'']"

definition sample_sys :: sys where
  "sample_sys = \<lparr>sys_db = sample_db, sys_fs = sample_fs\<rparr>"

definition sample_env :: gc_env where
  "sample_env = \<lparr>ge_now = 1000000, ge_entry_rank = (\<lambda>_. 0), ge_blob_rank = (\<lambda>_. 0),
     ge_unlink = (\<lambda>_. None), ge_walk = (\<lambda>_. None)\<rparr>"

text \<open>The configuration of the code's own tests, with a global quota of \<open>quota\<close> bytes.\<close>

definition sample_cfg :: "u64 \<Rightarrow> gc_config" where
  "sample_cfg quota = \<lparr>interval_secs = 60, default_ttl_sstate_days = 1,
     default_ttl_downloads_days = 7, global_quota_bytes = quota, trigger_threshold_pct = 90\<rparr>"

lemmas sample_entries = entry_a_def entry_b_def entry_c_def entry_d_def
lemmas sample_defs = sample_db_def db_empty_def acme_def beta_def sample_entries blob_of_def

lemma sample_sel [simp]:
  "sys_db sample_sys = sample_db" "sys_fs sample_sys = sample_fs" "ge_now sample_env = 1000000"
  "global_quota_bytes (sample_cfg q) = q" "ge_unlink sample_env h = None"
  by (simp_all add: sample_sys_def sample_env_def sample_cfg_def)

lemma sample_wf: "wf_db sample_db"
  by (simp add: wf_db_defs sample_defs has_project_def has_blob_def entry_key_def)

lemma sample_ready: "gc_ready sample_db"
  by (simp add: gc_ready_def sample_wf bytes_fit_def blob_bytes_def) (simp add: sample_defs)

lemma sample_exact: "refs_exact sample_db"
  by (simp add: refs_exact_def sample_defs)

lemma sample_hashes: "hashes_ok sample_db"
  by (simp add: hashes_ok_def sample_defs)

lemma sample_ttl_fit: "ttl_days_fit (ge_now sample_env) (sample_cfg q)"
  by (simp add: ttl_days_fit_def sample_cfg_def)

lemma sample_unshared: "unshared sample_db"
  by (simp add: unshared_def sample_defs)

lemma sample_present: "blobs_present sample_root sample_sys"
  by (simp add: blobs_present_def blob_file_def blob_path_def fs_get_def sample_fs_def sample_root_def)
     (simp add: sample_defs)

lemma sample_tables:
  "db_entries sample_db = [entry_a, entry_b, entry_c, entry_d]"
  "db_projects sample_db = [acme, beta]"
  "db_blobs sample_db = map blob_of [entry_a, entry_b, entry_c, entry_d]"
  by (simp_all add: sample_db_def)

lemma sample_flags [simp]:
  "\<not> e_pinned entry_a" "\<not> e_pinned entry_b" "e_pinned entry_c" "\<not> e_pinned entry_d"
  "e_size_bytes entry_a = 30" "e_size_bytes entry_b = 40"
  "e_size_bytes entry_c = 10" "e_size_bytes entry_d = 20"
  by (simp_all add: sample_entries)

lemma sample_quotas [simp]:
  "p_id acme = 1" "p_id beta = 2" "p_quota_bytes acme = Some 60" "p_quota_bytes beta = None"
  by (simp_all add: acme_def beta_def)

lemma sample_default_secs [simp]:
  "default_secs (sample_cfg q) Sstate = 86400" "default_secs (sample_cfg q) Downloads = 604800"
  by (simp_all add: default_secs_def default_ttl_days_def sample_cfg_def as_i64_def)

lemma sample_accessed [simp]:
  "e_last_accessed entry_a = 999000" "e_last_accessed entry_b = 999500"
  "e_last_accessed entry_c = 1000" "e_last_accessed entry_d = 1000"
  "e_kind entry_a = Sstate" "e_kind entry_b = Sstate" "e_kind entry_c = Sstate"
  "e_kind entry_d = Downloads"
  "e_project_id entry_a = 1" "e_project_id entry_b = 1" "e_project_id entry_c = 1"
  "e_project_id entry_d = 2"
  "e_id entry_a = 1" "e_id entry_b = 2" "e_id entry_c = 3" "e_id entry_d = 4"
  by (simp_all add: sample_entries)

lemma default_effective_ttl:
  "\<forall>p\<in>set (db_projects d). p_ttl_seconds p = None \<Longrightarrow>
   effective_ttl cfg d e = default_secs cfg (e_kind e)"
  by (auto simp: effective_ttl_def split: option.split dest!: find_SomeD)

lemma sample_effective_ttl [simp]:
  "effective_ttl (sample_cfg q) sample_db e = default_secs (sample_cfg q) (e_kind e)"
  by (rule default_effective_ttl) (simp add: sample_tables acme_def beta_def)

lemma sample_distinct [simp]:
  "entry_a \<noteq> entry_b" "entry_a \<noteq> entry_c" "entry_a \<noteq> entry_d" "entry_b \<noteq> entry_a"
  "entry_b \<noteq> entry_c" "entry_b \<noteq> entry_d" "entry_c \<noteq> entry_a" "entry_c \<noteq> entry_b"
  "entry_c \<noteq> entry_d" "entry_d \<noteq> entry_a" "entry_d \<noteq> entry_b" "entry_d \<noteq> entry_c"
  by (simp_all add: sample_entries)

end
