(* ===== verification/Gc_Properties.thy ===== *)
theory Gc_Properties
  imports Samples
begin

text \<open>
  The properties of the garbage collector: what a real sweep computes, what it never touches,
  what it achieves, what it reports, and where it falls short of its documentation.
\<close>

section \<open>The result of a sweep\<close>

lemma gc_run_entries:
  assumes "gc_ready (sys_db s)" and "ttl_days_fit (ge_now env) cfg" and "hashes_ok (sys_db s)"
  shows "set (db_entries (sys_db (snd (gc_run env cfg root False s)))) =
    set (db_entries (sys_db s)) - set (sweep_plan False env cfg (sys_db s))"
  using set_evict_all [OF sweep_plan_evictable [OF assms(1,2)]] by (simp add: gc_run_parts(2) [OF assms])

lemma gc_run_kept:
  assumes ready: "gc_ready (sys_db s)" and ttl: "ttl_days_fit (ge_now env) cfg"
    and hash: "hashes_ok (sys_db s)"
  shows "gc_ready (sys_db (snd (gc_run env cfg root False s)))"
    and "hashes_ok (sys_db (snd (gc_run env cfg root False s)))"
    and "leak (sys_db (snd (gc_run env cfg root False s))) h = leak (sys_db s) h"
    and "blobs_present root s \<Longrightarrow> blobs_present root (snd (gc_run env cfg root False s))"
proof -
  let ?es = "sweep_plan False env cfg (sys_db s)"
  have ev: "evictable ?es (sys_db s)" using ready ttl by (rule sweep_plan_evictable)
  note parts = gc_run_parts [OF assms]
  show "gc_ready (sys_db (snd (gc_run env cfg root False s)))"
    unfolding parts(2) by (intro gc_ready_drop_zero gc_ready_evict ready ev)
  have "hashes_ok (drop_zero d)" if "hashes_ok d" for d
    using that by (simp add: hashes_ok_def drop_zero_def)
  then show "hashes_ok (sys_db (snd (gc_run env cfg root False s)))"
    unfolding parts(2) using hash by simp
  show "leak (sys_db (snd (gc_run env cfg root False s))) h = leak (sys_db s) h"
    unfolding parts(2) using leak_drop_zero [OF wf_evict_all [OF ev]] leak_evict_all [OF ev] by simp
  show "blobs_present root (snd (gc_run env cfg root False s))" if "blobs_present root s"
  proof -
    have "blobs_present root \<lparr>sys_db = drop_zero (evict_all ?es (sys_db s)),
        sys_fs = sys_fs (snd (gc_run env cfg root False s))\<rparr>"
      using wf_evict_all [OF ev] that _ parts(3)
      by (rule blobs_present_sweep) (auto simp: set_evict_all [OF ev])
    then show ?thesis by (simp add: blobs_present_def parts(2))
  qed
qed

text \<open>
  C1 (\<open>GcSvc::run\<close>, refinement). A real sweep of a well-formed cache whose sizes fit in 63 bits
  never fails: it returns the report of the plan, it removes exactly the planned entries with
  their references and then every blob row without a reference, and on disk it removes the files
  of those rows and no other file (a file the system refuses to unlink stays as an orphan).
\<close>

theorem gc_run_computes_plan:
  assumes "gc_ready (sys_db s)" and "ttl_days_fit (ge_now env) cfg" and "hashes_ok (sys_db s)"
  shows "fst (gc_run env cfg root False s) = Ok (sweep_report env cfg (sys_db s)) \<and>
    sys_db (snd (gc_run env cfg root False s)) =
      drop_zero (evict_all (sweep_plan False env cfg (sys_db s)) (sys_db s)) \<and>
    (\<forall>h. blob_file root h (sys_fs (snd (gc_run env cfg root False s))) =
      (if h \<in> b_hash ` set (zero_rows (evict_all (sweep_plan False env cfg (sys_db s)) (sys_db s))) \<and>
          ge_unlink env h = None
       then None else blob_file root h (sys_fs s)))"
  using gc_run_parts [OF assms, of root] by (simp add: files_after_def)

theorem gc_run_computes_plan_witness:
  "fst (gc_run sample_env (sample_cfg 1000) sample_root False sample_sys) =
     Ok (sweep_report sample_env (sample_cfg 1000) sample_db)"
  using gc_run_computes_plan [of sample_sys sample_env "sample_cfg 1000" sample_root]
    sample_ready sample_ttl_fit sample_hashes
  by simp

text \<open>
  C14 (safety). A pinned entry survives every sweep, whatever the configuration, and also when the
  sweep fails half way.
\<close>

theorem gc_run_keeps_pinned:
  assumes "wf_db (sys_db s)" and "e \<in> set (db_entries (sys_db s))" and "e_pinned e"
  shows "e \<in> set (db_entries (sys_db (snd (gc_run env cfg root dry_run s))))"
  using pinned_sweep.keeps_run [of e env cfg root dry_run] assms by (simp add: keeps_def)

theorem gc_run_keeps_pinned_witness:
  "entry_c \<in> set (db_entries (sys_db (snd (gc_run sample_env (sample_cfg 0) sample_root False sample_sys))))"
  by (rule gc_run_keeps_pinned) (simp_all add: sample_wf sample_tables)



text \<open>
  (functional). After a sweep of a cache whose refcounts are exact there is no garbage: every
  blob row is referred to by an entry.
\<close>

theorem gc_run_leaves_no_garbage:
  assumes "gc_ready (sys_db s)" and "ttl_days_fit (ge_now env) cfg" and "hashes_ok (sys_db s)"
    and "refs_exact (sys_db s)"
  shows "\<forall>b\<in>set (db_blobs (sys_db (snd (gc_run env cfg root False s)))).
    \<exists>e\<in>set (db_entries (sys_db (snd (gc_run env cfg root False s)))). e_blob_hash e = b_hash b"
proof -
  have ev: "evictable (sweep_plan False env cfg (sys_db s)) (sys_db s)"
    using assms(1,2) by (rule sweep_plan_evictable)
  show ?thesis
    using live_rows [OF wf_evict_all [OF ev]] refs_exact_evict_all [OF ev] assms(4)
    by (simp add: gc_run_parts(2) [OF assms(1-3)])
qed

theorem gc_run_leaves_no_garbage_witness:
  "b_hash ` set (db_blobs (sys_db (snd (gc_run sample_env (sample_cfg 0) sample_root False sample_sys)))) \<subseteq>
   e_blob_hash ` set (db_entries (sys_db (snd (gc_run sample_env (sample_cfg 0) sample_root False sample_sys))))"
  using gc_run_leaves_no_garbage [of sample_sys sample_env "sample_cfg 0" sample_root]
    sample_ready sample_ttl_fit [of 0] sample_hashes sample_exact
  by (force simp: image_iff)

text \<open>
  (functional, time to live). What a sweep leaves is pinned or was accessed within its
  effective time to live, the project's own or else the default of the kind.
\<close>

theorem gc_run_ttl:
  assumes "gc_ready (sys_db s)" and "ttl_days_fit (ge_now env) cfg" and "hashes_ok (sys_db s)"
    and "e \<in> set (db_entries (sys_db (snd (gc_run env cfg root False s))))"
  shows "e \<in> set (db_entries (sys_db s)) \<and>
    (e_pinned e \<or> ge_now env - effective_ttl cfg (sys_db s) e \<le> e_last_accessed e)"
proof -
  obtain es1 es2 es3 where plan: "sweep_plan False env cfg (sys_db s) = es1 @ es2 @ es3"
    and es: "es1 = ttl_sweep env cfg (sys_db s)"
    by (rule sweep_plan_parts [of False env cfg "sys_db s"]) simp
  show ?thesis
    using assms(4) gc_run_entries [OF assms(1-3), of root] plan
    by (auto simp: es set_ttl_sweep expired_def)
qed

lemma sample_survivors:
  "set (db_entries (sys_db (snd (gc_run sample_env (sample_cfg q) root False sample_sys)))) =
   {entry_a, entry_b, entry_c, entry_d} - set (sweep_plan False sample_env (sample_cfg q) sample_db)"
  using gc_run_entries [of sample_sys sample_env "sample_cfg q" root]
    sample_ready sample_ttl_fit [of q] sample_hashes
  by (simp add: sample_tables)

theorem gc_run_ttl_witness:
  "entry_d \<notin> set (db_entries (sys_db (snd (gc_run sample_env (sample_cfg 1000) sample_root False sample_sys))))"
  using gc_run_ttl [of sample_sys sample_env "sample_cfg 1000" entry_d sample_root]
    sample_ready sample_ttl_fit sample_hashes
  by auto

text \<open>
  (functional). Where no project exceeds its quota and the store fits the global one, a sweep
  evicts the expired entries and nothing else.
\<close>

theorem gc_run_evicts_only_expired:
  assumes "gc_ready (sys_db s)" and "ttl_days_fit (ge_now env) cfg" and "hashes_ok (sys_db s)"
    and "\<forall>p\<in>set (db_projects (sys_db s)). p_quota_bytes p = None \<or>
      project_bytes (p_id p) (sys_db s) \<le> the (p_quota_bytes p)"
    and "blob_bytes (sys_db s) \<le> as_i64 (global_quota_bytes cfg)"
  shows "set (db_entries (sys_db (snd (gc_run env cfg root False s)))) =
    {e \<in> set (db_entries (sys_db s)).
       e_pinned e \<or> ge_now env - effective_ttl cfg (sys_db s) e \<le> e_last_accessed e}"
proof -
  let ?d = "sys_db s"
  obtain es1 es2 es3 where plan: "sweep_plan False env cfg ?d = es1 @ es2 @ es3"
    and es: "es1 = ttl_sweep env cfg ?d" "es2 = quota_sweep (evict_all es1 ?d)"
      "es3 = global_plan cfg (evict_all (es1 @ es2) ?d)"
    by (rule sweep_plan_parts [of False env cfg ?d]) simp
  have e1: "evictable es1 ?d" using assms(1,2) unfolding es(1) by (rule ttl_sweep_evictable)
  have "quota_plan p (evict_all es1 ?d) = []" if "p \<in> set (db_projects ?d)" for p
    using assms(4) that project_bytes_mono [OF e1, of "p_id p"]
    by (auto simp: quota_plan_def split: option.split intro!: over_quota_fits)
  then have "es2 = []" by (simp add: es(2) quota_sweep_def)
  moreover have "es3 = []" using assms(5) by (simp add: es(3) global_plan_def over_quota_fits)
  ultimately show ?thesis
    unfolding gc_run_entries [OF assms(1-3)] plan by (auto simp: es(1) set_ttl_sweep expired_def)
qed

definition roomy_sys :: sys where
  "roomy_sys = sample_sys\<lparr>sys_db := sample_db\<lparr>db_projects := [acme\<lparr>p_quota_bytes := Some 80\<rparr>, beta]\<rparr>\<rparr>"

lemma roomy_facts:
  "gc_ready (sys_db roomy_sys)" "hashes_ok (sys_db roomy_sys)"
  "\<forall>p\<in>set (db_projects (sys_db roomy_sys)). p_quota_bytes p = None \<or>
     project_bytes (p_id p) (sys_db roomy_sys) \<le> the (p_quota_bytes p)"
  "blob_bytes (sys_db roomy_sys) = 100"
proof -
  have "wf_db (sys_db roomy_sys)"
    by (simp add: roomy_sys_def wf_db_defs sample_defs has_project_def has_blob_def entry_key_def)
  then show "gc_ready (sys_db roomy_sys)"
    by (simp add: gc_ready_def bytes_fit_def blob_bytes_def roomy_sys_def sample_tables blob_of_def)
qed (simp_all add: roomy_sys_def hashes_ok_def project_bytes_def blob_bytes_def sample_defs)

theorem gc_run_evicts_only_expired_witness:
  "set (db_entries (sys_db (snd (gc_run sample_env (sample_cfg 1000) sample_root False roomy_sys)))) =
    {entry_a, entry_b, entry_c}"
proof -
  have "as_i64 (global_quota_bytes (sample_cfg 1000)) = 1000" by (simp add: as_i64_def)
  then have "set (db_entries (sys_db (snd (gc_run sample_env (sample_cfg 1000) sample_root False roomy_sys)))) =
    {e \<in> set (db_entries (sys_db roomy_sys)). e_pinned e \<or> ge_now sample_env -
       effective_ttl (sample_cfg 1000) (sys_db roomy_sys) e \<le> e_last_accessed e}"
    using roomy_facts sample_ttl_fit by (intro gc_run_evicts_only_expired) simp_all
  also have "\<dots> = set (filter (\<lambda>e. e_pinned e \<or> ge_now sample_env -
      default_secs (sample_cfg 1000) (e_kind e) \<le> e_last_accessed e) [entry_a, entry_b, entry_c, entry_d])"
    unfolding set_filter
    by (subst default_effective_ttl) (simp_all add: roomy_sys_def sample_tables acme_def beta_def)
  also have "\<dots> = {entry_a, entry_b, entry_c}" by simp
  finally show ?thesis .
qed

section \<open>Quotas\<close>

text \<open>
  C16 (functional, project quota). After a sweep every project is within its quota, unless all that
  is left of it is pinned.
\<close>

theorem gc_run_project_quota:
  assumes "gc_ready (sys_db s)" and "ttl_days_fit (ge_now env) cfg" and "hashes_ok (sys_db s)"
    and "p \<in> set (db_projects (sys_db s))" and "p_quota_bytes p = Some quota"
  shows "project_bytes (p_id p) (sys_db (snd (gc_run env cfg root False s))) \<le> quota \<or>
    (\<forall>e\<in>set (db_entries (sys_db (snd (gc_run env cfg root False s)))).
       e_project_id e = p_id p \<longrightarrow> e_pinned e)"
proof -
  obtain d1 d2 where d: "d1 = evict_all (ttl_sweep env cfg (sys_db s)) (sys_db s)"
      "d2 = evict_all (quota_sweep d1) d1" and ready: "gc_ready d1" "gc_ready d2"
    and plan: "evict_all (sweep_plan False env cfg (sys_db s)) (sys_db s) = evict_all (global_plan cfg d2) d2"
    using assms(1,2) by (rule evict_sweep_plan)
  have "p \<in> set (db_projects d1)" using assms(4) by (simp add: d(1))
  then have "within_quota p d2" unfolding d(2) by (intro within_quota_sweep ready(1))
  then have "within_quota p (drop_zero (evict_all (global_plan cfg d2) d2))"
    by (simp add: within_quota_evict global_plan_evictable gc_ready_wf [OF ready(2)])
  then show ?thesis
    by (simp add: gc_run_parts(2) [OF assms(1-3)] plan within_quota_def assms(5))
qed

theorem gc_run_project_quota_witness:
  "project_bytes 1 (sys_db (snd (gc_run sample_env (sample_cfg 1000) sample_root False sample_sys))) \<le> 60 \<or>
   {e \<in> set (db_entries (sys_db (snd (gc_run sample_env (sample_cfg 1000) sample_root False sample_sys)))).
      e_project_id e = 1} \<subseteq> {e. e_pinned e}"
  using gc_run_project_quota [of sample_sys sample_env "sample_cfg 1000" acme 60 sample_root]
    sample_ready sample_ttl_fit sample_hashes
  by (auto simp: sample_tables)

text \<open>
  (functional, least recently used). The quota step of a project evicts unpinned entries of that
  project only, each of them accessed no later than every unpinned entry it keeps; and not one
  too many: with the newest of them still there the project would exceed its quota.
\<close>

theorem quota_project_lru:
  assumes "gc_ready (sys_db s)" and "p_quota_bytes p = Some quota"
    and "a \<in> set (db_entries (sys_db s))"
    and "a \<notin> set (db_entries (sys_db (snd (quota_project False p rep s))))"
  shows "e_project_id a = p_id p \<and> \<not> e_pinned a \<and>
    (\<forall>b\<in>set (db_entries (sys_db (snd (quota_project False p rep s)))).
       e_project_id b = p_id p \<and> \<not> e_pinned b \<longrightarrow> older a b) \<and>
    (\<exists>z\<in>set (db_entries (sys_db s)) - set (db_entries (sys_db (snd (quota_project False p rep s)))).
       older a z \<and>
       quota < project_bytes (p_id p) (sys_db (snd (quota_project False p rep s))) + e_size_bytes z)"
proof -
  let ?d = "sys_db s"
  let ?rows = "lru_order (filter (\<lambda>e. e_project_id e = p_id p \<and> \<not> e_pinned e) (db_entries ?d))"
  let ?plan = "over_quota quota (project_bytes (p_id p) ?d) ?rows"
  have wf: "wf_db ?d" using assms(1) by (rule gc_ready_wf)
  have plan: "quota_plan p ?d = ?plan" using assms(2) by (simp add: quota_plan_def)
  then have ev: "evictable ?plan ?d" using quota_plan_evictable [OF wf, of p] by simp
  have after: "sys_db (snd (quota_project False p rep s)) = evict_all ?plan ?d"
    by (simp add: quota_project_plan [OF assms(1)] plan)
  have rows: "set (db_entries (evict_all ?plan ?d)) = set (db_entries ?d) - set ?plan"
    using ev by (rule set_evict_all)
  have a: "a \<in> set ?plan" using assms(3,4) by (simp add: after rows)
  have mine: "set ?plan \<subseteq> {e \<in> set (db_entries ?d). e_project_id e = p_id p \<and> \<not> e_pinned e}"
    using set_quota_plan [of p ?d] by (simp add: plan)
  have oldest: "older a b" if "b \<in> set (db_entries (evict_all ?plan ?d))" "e_project_id b = p_id p"
      "\<not> e_pinned b" for b
  proof (rule over_quota_oldest [OF a])
    have "b \<in> set (db_entries ?d)" and "b \<notin> set ?plan" using that(1) unfolding rows by blast+
    then show "b \<in> set (filter (\<lambda>e. e_project_id e = p_id p \<and> \<not> e_pinned e) (db_entries ?d))"
      and "b \<notin> set ?plan"
      using that(2,3) by simp_all
  qed
  obtain xs z where snoc: "?plan = xs @ [z]" using a by (cases ?plan rule: rev_cases) auto
  have "older a z"
  proof -
    obtain rest where "?rows = ?plan @ rest" using over_quota_prefix by blast
    then have "sorted_wrt older (xs @ [z])"
      using lru_order_sorted [of "filter (\<lambda>e. e_project_id e = p_id p \<and> \<not> e_pinned e) (db_entries ?d)"]
      by (simp add: snoc sorted_wrt_append)
    then show ?thesis using a by (auto simp: snoc sorted_wrt_append older_def)
  qed
  moreover have "quota < project_bytes (p_id p) (evict_all ?plan ?d) + e_size_bytes z"
  proof -
    have "filter (\<lambda>e. e_project_id e = p_id p) ?plan = ?plan"
      using mine by (auto simp: filter_id_conv)
    then have "project_bytes (p_id p) (evict_all ?plan ?d) =
        project_bytes (p_id p) ?d - sum_list (map e_size_bytes ?plan)"
      using project_bytes_evict [OF ev, of "p_id p"] by simp
    then show ?thesis using over_quota_minimal [OF snoc] by (simp add: snoc)
  qed
  moreover have "z \<in> set (db_entries ?d) - set (db_entries (evict_all ?plan ?d))"
  proof -
    have "z \<in> set ?plan" unfolding snoc by simp
    then show ?thesis using mine unfolding rows by blast
  qed
  ultimately have newest: "\<exists>z\<in>set (db_entries ?d) - set (db_entries (evict_all ?plan ?d)).
      older a z \<and> quota < project_bytes (p_id p) (evict_all ?plan ?d) + e_size_bytes z"
    by blast
  have "e_project_id a = p_id p \<and> \<not> e_pinned a" using a mine by blast
  then show ?thesis unfolding after using oldest newest by blast
qed

lemma sample_quota_plan: "quota_plan acme sample_db = [entry_a]"
  by (simp add: quota_plan_def lru_order_def project_bytes_def sample_tables)

theorem quota_project_lru_witness:
  "older entry_a entry_b"
proof -
  have "sys_db (snd (quota_project False acme gc_report_default sample_sys)) =
      evict_all [entry_a] sample_db"
    using quota_project_plan [of sample_sys False acme gc_report_default] sample_ready
    by (simp add: sample_quota_plan)
  moreover have "set (db_entries (evict_all [entry_a] sample_db)) = {entry_b, entry_c, entry_d}"
  proof -
    have "evictable [entry_a] sample_db" by (simp add: evictable_def sample_wf sample_tables)
    from set_evict_all [OF this] show ?thesis by (auto simp: sample_tables)
  qed
  moreover have "entry_a \<notin> {entry_b, entry_c, entry_d}" by simp
  moreover have "entry_a \<in> set (db_entries sample_db)" by (simp add: sample_tables)
  ultimately have "\<forall>b\<in>{entry_b, entry_c, entry_d}. e_project_id b = 1 \<and> \<not> e_pinned b \<longrightarrow> older entry_a b"
    using quota_project_lru [of sample_sys acme 60 entry_a gc_report_default] sample_ready
    by (simp only: sample_sel sample_quotas) blast
  then show ?thesis by simp
qed



section \<open>Reports and dry runs\<close>

text \<open>
  (functional). The report of a sweep is accurate: the entries and the logical bytes that went,
  the blob rows that went, and the physical bytes that are left.
\<close>

theorem gc_run_report:
  assumes "gc_ready (sys_db s)" and "ttl_days_fit (ge_now env) cfg" and "hashes_ok (sys_db s)"
  shows "\<exists>rep. fst (gc_run env cfg root False s) = Ok rep \<and>
    (let d = sys_db s; d' = sys_db (snd (gc_run env cfg root False s)) in
     evicted_entries rep = of_nat (length (db_entries d) - length (db_entries d')) \<and>
     evicted_bytes rep = as_u64 (sum_list (map e_size_bytes (db_entries d)) -
       sum_list (map e_size_bytes (db_entries d'))) \<and>
     freed_blobs rep = of_nat (length (db_blobs d) - length (db_blobs d')) \<and>
     usage_global_bytes rep = blob_bytes d')"
proof -
  let ?es = "sweep_plan False env cfg (sys_db s)"
  let ?d1 = "evict_all ?es (sys_db s)"
  have ev: "evictable ?es (sys_db s)" using assms(1,2) by (rule sweep_plan_evictable)
  have "length (filter (\<lambda>e. e \<in> set ?es) (db_entries (sys_db s))) = length ?es"
  proof -
    have "set (filter (\<lambda>e. e \<in> set ?es) (db_entries (sys_db s))) = set ?es"
      using ev by (auto simp: evictable_def)
    then show ?thesis
      using ev wf_distinct_entries by (metis distinct_card distinct_filter evictable_def)
  qed
  then have len: "length (db_entries (sys_db s)) - length (db_entries ?d1) = length ?es"
    using length_filter_split [of "\<lambda>e. e \<in> set ?es" "db_entries (sys_db s)"]
    by (simp add: entries_evict_all [OF ev])
  have "length (db_blobs ?d1) = length (db_blobs (sys_db s))"
    by (metis blob_sizes_evict_all length_map)
  then have "length (db_blobs (sys_db s)) - length (db_blobs (drop_zero ?d1)) = length (zero_rows ?d1)"
    using length_filter_split [of "\<lambda>b. b_refcount b = 0" "db_blobs ?d1"]
    by (simp add: drop_zero_def zero_rows_def)
  then show ?thesis
    using len entry_bytes_evict [OF ev]
    by (simp add: gc_run_parts(1,2) [OF assms] sweep_report_def Let_def)
qed

theorem gc_run_report_witness:
  "\<exists>rep. fst (gc_run sample_env (sample_cfg 1000) sample_root False sample_sys) = Ok rep \<and>
    usage_global_bytes rep =
      blob_bytes (sys_db (snd (gc_run sample_env (sample_cfg 1000) sample_root False sample_sys)))"
  using gc_run_report [of sample_sys sample_env "sample_cfg 1000" sample_root]
    sample_ready sample_ttl_fit sample_hashes
  by (auto simp: Let_def)

text \<open>
  (safety). A dry run leaves the database and the store exactly as they are, whatever they are
  and whether or not it succeeds.
\<close>

theorem gc_dry_run_changes_nothing: "snd (gc_run env cfg root True s) = s"
  using dry_run_keeps [of s env cfg root] by (simp add: keeps_def)

section \<open>Where a sweep falls short\<close>

definition sweeps :: "path \<Rightarrow> (gc_env \<times> gc_config) list \<Rightarrow> sys \<Rightarrow> sys" where
  "sweeps root runs s = fold (\<lambda>(env, cfg) s. snd (gc_run env cfg root False s)) runs s"

lemma sweeps_leak:
  assumes "gc_ready (sys_db s)" and "hashes_ok (sys_db s)"
    and "\<forall>(env, cfg)\<in>set runs. ttl_days_fit (ge_now env) cfg"
  shows "gc_ready (sys_db (sweeps root runs s)) \<and> leak (sys_db (sweeps root runs s)) h = leak (sys_db s) h"
  using assms
proof (induction runs arbitrary: s)
  case Nil
  then show ?case by (simp add: sweeps_def)
next
  case (Cons run runs)
  obtain env cfg where run: "run = (env, cfg)" by fastforce
  then have "ttl_days_fit (ge_now env) cfg" using Cons.prems(3) by auto
  note kept = gc_run_kept [OF Cons.prems(1) this Cons.prems(2), of root]
  from Cons.IH [OF kept(1,2)] Cons.prems(3) show ?case by (simp add: sweeps_def run kept(3))
qed

lemma leak_has_blob:
  assumes "0 < leak d h"
  shows "has_blob d h"
proof (rule ccontr)
  assume "\<not> has_blob d h"
  then have "refcount d h = 0" by (rule refcount_no_blob)
  then show False using assms refs_nonneg [of "db_entries d" h] by (simp add: leak_def del: refs_nonneg)
qed

lemma refs_member: "e \<in> set es \<Longrightarrow> 0 < refs es (e_blob_hash e)"
proof (induction es)
  case Nil
  then show ?case by simp
next
  case (Cons x es)
  then show ?case using refs_nonneg [of es "e_blob_hash e"] by (auto simp del: refs_nonneg)
qed

text \<open>
  C18 (safety, negative). Deleting a project leaves the refcounts of its blobs as they were, so a
  blob of a deleted project is never reclaimed, however many sweeps follow: its row stays, with a
  refcount above the number of references to it.
\<close>

theorem deleted_project_blobs_never_reclaimed:
  assumes "wf_db (sys_db s)" and "e \<in> set (db_entries (sys_db s))"
    and "s' = snd (on_db (projects_delete (e_project_id e)) s)"
    and "gc_ready (sys_db s')" and "hashes_ok (sys_db s')"
    and "\<forall>(env, cfg)\<in>set runs. ttl_days_fit (ge_now env) cfg"
  shows "has_blob (sys_db (sweeps root runs s')) (e_blob_hash e) \<and>
    refs (db_entries (sys_db (sweeps root runs s'))) (e_blob_hash e) <
      refcount (sys_db (sweeps root runs s')) (e_blob_hash e)"
proof -
  have "has_project (sys_db s) (e_project_id e)"
    using assms(1,2) by (simp add: wf_db_def wf_entries_def)
  then have "leak (sys_db s') (e_blob_hash e) = leak (sys_db s) (e_blob_hash e) +
      refs (filter (\<lambda>x. e_project_id x = e_project_id e) (db_entries (sys_db s))) (e_blob_hash e)"
    by (simp add: assms(3) leak_projects_delete)
  moreover have "e \<in> set (filter (\<lambda>x. e_project_id x = e_project_id e) (db_entries (sys_db s)))"
    using assms(2) by simp
  then have "0 < refs (filter (\<lambda>x. e_project_id x = e_project_id e) (db_entries (sys_db s))) (e_blob_hash e)"
    by (rule refs_member)
  ultimately have "0 < leak (sys_db s') (e_blob_hash e)"
    using leak_nonneg [OF assms(1), of "e_blob_hash e"] by simp
  then have "0 < leak (sys_db (sweeps root runs s')) (e_blob_hash e)"
    using sweeps_leak [OF assms(4-6)] by simp
  then show ?thesis by (simp add: leak_has_blob) (simp add: leak_def)
qed

definition orphaned_sys :: sys where
  "orphaned_sys = snd (on_db (projects_delete 1) sample_sys)"

lemma orphaned_facts: "gc_ready (sys_db orphaned_sys)" "hashes_ok (sys_db orphaned_sys)"
proof -
  have d: "sys_db orphaned_sys = sample_db\<lparr>db_projects := [beta], db_entries := [entry_d]\<rparr>"
    by (simp add: orphaned_sys_def projects_delete_def sql_count_def sample_tables sql_delete_def)
       (simp add: sample_db_def db_empty_def)
  have "wf_db (sys_db orphaned_sys)"
    using keepsD [OF keeps_wf_projects_delete sample_wf, of 1] by (simp add: orphaned_sys_def)
  then show "gc_ready (sys_db orphaned_sys)"
    by (simp add: gc_ready_def bytes_fit_def blob_bytes_def) (simp add: d sample_tables blob_of_def)
  show "hashes_ok (sys_db orphaned_sys)"
    using sample_hashes by (simp add: d hashes_ok_def)
qed

theorem deleted_project_blobs_never_reclaimed_witness:
  "has_blob (sys_db (sweeps sample_root [(sample_env, sample_cfg 0), (sample_env, sample_cfg 0)]
     orphaned_sys)) ''aaaa''"
proof -
  have "entry_a \<in> set (db_entries (sys_db sample_sys))" by (simp add: sample_tables)
  moreover have "orphaned_sys = snd (on_db (projects_delete (e_project_id entry_a)) sample_sys)"
    by (simp add: orphaned_sys_def)
  moreover have "\<forall>(env, cfg)\<in>set [(sample_env, sample_cfg 0), (sample_env, sample_cfg 0)].
      ttl_days_fit (ge_now env) cfg"
    using sample_ttl_fit by simp
  ultimately have "has_blob (sys_db (sweeps sample_root [(sample_env, sample_cfg 0),
      (sample_env, sample_cfg 0)] orphaned_sys)) (e_blob_hash entry_a)"
    using deleted_project_blobs_never_reclaimed [of sample_sys entry_a orphaned_sys
        "[(sample_env, sample_cfg 0), (sample_env, sample_cfg 0)]" sample_root]
      sample_wf orphaned_facts
    by simp
  then show ?thesis by (simp add: entry_a_def)
qed

text \<open>
  The global phase works on an estimate of the usage. Two entries that share a blob: evicting the
  older one frees nothing, and the estimate says that it did.
\<close>

definition shared_sys :: sys where
  "shared_sys = sample_sys\<lparr>sys_db := sample_db\<lparr>
     db_projects := [beta],
     db_entries := [entry_d\<lparr>e_id := 1, e_path := ''x'', e_last_accessed := 999000\<rparr>,
                    entry_d\<lparr>e_id := 2, e_path := ''y'', e_last_accessed := 999500\<rparr>],
     db_blobs := [(blob_of entry_d)\<lparr>b_refcount := 2\<rparr>]\<rparr>\<rparr>"

lemma shared_facts: "gc_ready (sys_db shared_sys)" "hashes_ok (sys_db shared_sys)"
  "refs_exact (sys_db shared_sys)"
proof -
  have "wf_db (sys_db shared_sys)"
    by (simp add: shared_sys_def wf_db_defs sample_defs has_project_def has_blob_def entry_key_def)
  then show "gc_ready (sys_db shared_sys)"
    by (simp add: gc_ready_def bytes_fit_def blob_bytes_def shared_sys_def blob_of_def)
qed (simp_all add: shared_sys_def hashes_ok_def refs_exact_def sample_defs)

lemma shared_plan:
  "sweep_plan False sample_env (sample_cfg 10) (sys_db shared_sys) =
   [entry_d\<lparr>e_id := 1, e_path := ''x'', e_last_accessed := 999000\<rparr>]"
proof -
  have "effective_ttl (sample_cfg 10) (sys_db shared_sys) e = default_secs (sample_cfg 10) (e_kind e)" for e
    by (rule default_effective_ttl) (simp add: shared_sys_def beta_def)
  then have "ttl_sweep sample_env (sample_cfg 10) (sys_db shared_sys) = []"
    by (simp add: ttl_sweep_def ttl_plan_def expired_def) (simp add: shared_sys_def)
  moreover have "quota_sweep (sys_db shared_sys) = []"
    by (simp add: quota_sweep_def quota_plan_def shared_sys_def)
  moreover have "global_plan (sample_cfg 10) (sys_db shared_sys) =
      [entry_d\<lparr>e_id := 1, e_path := ''x'', e_last_accessed := 999000\<rparr>]"
    by (simp add: global_plan_def lru_order_def shared_sys_def blob_bytes_def blob_of_def as_i64_def)
  ultimately show ?thesis by (simp add: sweep_plan_def Let_def)
qed

text \<open>
  (global quota, negative). With shared blobs a sweep may stop although the store is over the
  global quota and unpinned entries are left: the estimate subtracts the size of every evicted
  entry, also where its blob stays.
\<close>

theorem global_phase_stops_early:
  "\<exists>s env cfg root.
     gc_ready (sys_db s) \<and> ttl_days_fit (ge_now env) cfg \<and> hashes_ok (sys_db s) \<and> refs_exact (sys_db s) \<and>
     as_i64 (global_quota_bytes cfg) < blob_bytes (sys_db (snd (gc_run env cfg root False s))) \<and>
     (\<exists>e\<in>set (db_entries (sys_db (snd (gc_run env cfg root False s)))). \<not> e_pinned e)"
proof (intro exI conjI)
  show "gc_ready (sys_db shared_sys)" "ttl_days_fit (ge_now sample_env) (sample_cfg 10)"
    "hashes_ok (sys_db shared_sys)" "refs_exact (sys_db shared_sys)"
    using shared_facts sample_ttl_fit by simp_all
  note after = gc_run_parts(2) [OF this(1,2,3), of sample_root, unfolded shared_plan]
  show "as_i64 (global_quota_bytes (sample_cfg 10)) <
      blob_bytes (sys_db (snd (gc_run sample_env (sample_cfg 10) sample_root False shared_sys)))"
    unfolding after by (simp add: shared_sys_def evict1_def sql_update_def blob_bytes_def drop_zero_def
        blob_of_def as_i64_def)
  show "\<exists>e\<in>set (db_entries (sys_db (snd (gc_run sample_env (sample_cfg 10) sample_root False shared_sys)))).
      \<not> e_pinned e"
    unfolding after by (simp add: shared_sys_def evict1_def sql_delete_def)
qed

definition quotas_met :: "db \<Rightarrow> bool" where
  "quotas_met d \<longleftrightarrow> (\<forall>p\<in>set (db_projects d). p_quota_bytes p = None \<or>
     project_bytes (p_id p) d \<le> the (p_quota_bytes p))"

lemma roomy_plan:
  "sweep_plan False sample_env (sample_cfg 80) (sys_db roomy_sys) = [entry_d, entry_a]"
proof -
  let ?d = "sys_db roomy_sys"
  have ttl: "effective_ttl (sample_cfg 80) ?d e = default_secs (sample_cfg 80) (e_kind e)" for e
    by (rule default_effective_ttl) (simp add: roomy_sys_def acme_def beta_def)
  have es1: "ttl_sweep sample_env (sample_cfg 80) ?d = [entry_d]"
    by (simp add: ttl_sweep_def ttl_plan_def expired_def ttl) (simp add: roomy_sys_def sample_tables)
  have "evictable [entry_d] ?d"
    using roomy_facts(1) by (simp add: evictable_def gc_ready_def) (simp add: roomy_sys_def sample_tables)
  from entries_evict_all [OF this]
  have rows: "db_entries (evict1 entry_d ?d) = [entry_a, entry_b, entry_c]"
    by (simp del: evict1_frame) (simp add: roomy_sys_def sample_tables)
  have "blob_bytes (evict1 entry_d ?d) = 100"
    using blob_bytes_evict_all [of "[entry_d]" ?d] roomy_facts(4) by simp
  then have "global_plan (sample_cfg 80) (evict1 entry_d ?d) = [entry_a]"
    by (simp add: global_plan_def lru_order_def rows as_i64_def del: evict1_frame)
  moreover have "db_projects (evict1 entry_d ?d) = [acme\<lparr>p_quota_bytes := Some 80\<rparr>, beta]"
    using projects_evict_all [of "[entry_d]" ?d] by (simp add: roomy_sys_def)
  then have "quota_sweep (evict1 entry_d ?d) = []"
    by (simp add: quota_sweep_def quota_plan_def project_bytes_def rows lru_order_def del: evict1_frame)
  ultimately show ?thesis by (simp add: sweep_plan_def Let_def es1)
qed

text \<open>
  (global quota, negative). The phase also counts the blobs that the earlier phases have just
  orphaned, which are reclaimed only after it: a sweep may evict an entry that is neither expired
  nor over its project's quota, although what is neither fits the global quota.
\<close>

theorem global_phase_evicts_too_much:
  "\<exists>s env cfg root e.
     gc_ready (sys_db s) \<and> ttl_days_fit (ge_now env) cfg \<and> hashes_ok (sys_db s) \<and>
     e \<in> set (db_entries (sys_db s)) \<and> \<not> expired (ge_now env) cfg (sys_db s) e \<and>
     quotas_met (sys_db s) \<and>
     sum_list (map e_size_bytes (filter (\<lambda>e. \<not> expired (ge_now env) cfg (sys_db s) e)
        (db_entries (sys_db s)))) \<le> as_i64 (global_quota_bytes cfg) \<and>
     e \<notin> set (db_entries (sys_db (snd (gc_run env cfg root False s))))"
proof (intro exI conjI)
  have ttl: "effective_ttl (sample_cfg 80) (sys_db roomy_sys) e = default_secs (sample_cfg 80) (e_kind e)" for e
    by (rule default_effective_ttl) (simp add: roomy_sys_def acme_def beta_def)
  have exp: "\<not> expired (ge_now sample_env) (sample_cfg 80) (sys_db roomy_sys) entry_a"
    "\<not> expired (ge_now sample_env) (sample_cfg 80) (sys_db roomy_sys) entry_b"
    "\<not> expired (ge_now sample_env) (sample_cfg 80) (sys_db roomy_sys) entry_c"
    "expired (ge_now sample_env) (sample_cfg 80) (sys_db roomy_sys) entry_d"
    by (simp_all add: expired_def ttl)
  show "gc_ready (sys_db roomy_sys)" "ttl_days_fit (ge_now sample_env) (sample_cfg 80)"
    "hashes_ok (sys_db roomy_sys)"
    using roomy_facts sample_ttl_fit by simp_all
  note after = gc_run_entries [OF this, of sample_root, unfolded roomy_plan]
  show "entry_a \<notin> set (db_entries (sys_db (snd (gc_run sample_env (sample_cfg 80) sample_root False roomy_sys))))"
    unfolding after by simp
  show "entry_a \<in> set (db_entries (sys_db roomy_sys))" by (simp add: roomy_sys_def sample_tables)
  have rows: "db_entries (sys_db roomy_sys) = [entry_a, entry_b, entry_c, entry_d]"
    by (simp add: roomy_sys_def sample_tables)
  show "sum_list (map e_size_bytes (filter (\<lambda>e. \<not> expired (ge_now sample_env) (sample_cfg 80)
      (sys_db roomy_sys) e) (db_entries (sys_db roomy_sys)))) \<le> as_i64 (global_quota_bytes (sample_cfg 80))"
    unfolding rows by (simp add: exp [simplified] as_i64_def)
qed (use roomy_facts in \<open>simp_all add: quotas_met_def expired_def default_effective_ttl roomy_sys_def acme_def beta_def\<close>)

lemma sample_dry_plan:
  "sweep_plan True sample_env (sample_cfg 0) sample_db = [entry_d, entry_a, entry_d, entry_a, entry_b]"
  by (simp add: sweep_plan_def Let_def ttl_sweep_def ttl_plan_def expired_def quota_sweep_def
      sample_tables sample_quota_plan)
     (simp add: quota_plan_def global_plan_def lru_order_def blob_bytes_def blob_of_def sample_tables as_i64_def)

text \<open>
  (dry run, negative). A dry run evicts nothing between its phases, so an entry that several
  phases select is counted once for each: it may report more evictions than there are entries.
\<close>

theorem dry_run_overcounts:
  "\<exists>rep. fst (gc_run sample_env (sample_cfg 0) sample_root True sample_sys) = Ok rep \<and>
    length (db_entries (sys_db sample_sys)) < unat (evicted_entries rep)"
  using gc_run_dry [of sample_sys sample_env "sample_cfg 0" sample_root] sample_ready sample_ttl_fit
  by (simp add: sample_dry_plan sample_tables)

end
