(* ===== verification/Gc_Orphans.thy ===== *)
theory Gc_Orphans
  imports Samples
begin

text \<open>
  \<open>GcSvc::orphan_scan\<close> and \<open>walk_blobs\<close> (\<open>gc.rs\<close>). A directory is a proper prefix of the path
  of a file; \<open>read_dir\<close> lists what lies directly below it. A \<open>HashSet\<close> is a list without
  repetitions, read in the order of a rank.
\<close>

section \<open>Walking the blob tree\<close>

definition below :: "path \<Rightarrow> path \<Rightarrow> bool" where
  "below dir p \<longleftrightarrow> length dir < length p \<and> take (length dir) p = dir"

definition read_dir :: "path \<Rightarrow> fs \<Rightarrow> string list" where
  "read_dir dir files =
     remdups (map (\<lambda>p. p ! length dir) (filter (below dir) (map fst files)))"

definition is_dir :: "path \<Rightarrow> fs \<Rightarrow> bool" where
  "is_dir p files \<longleftrightarrow> (\<exists>q\<in>set (map fst files). below p q)"

definition is_ascii_hexdigit :: "char \<Rightarrow> bool" where
  "is_ascii_hexdigit c \<longleftrightarrow> c \<in> set ''0123456789abcdefABCDEF''"

definition is_blob_name :: "string \<Rightarrow> bool" where
  "is_blob_name name \<longleftrightarrow> length name = 64 \<and> list_all is_ascii_hexdigit name"

definition path_bound :: "fs \<Rightarrow> nat" where
  "path_bound files = Max (insert 0 (length ` fst ` set files))"

lemma path_bound_ge: "q \<in> set (map fst files) \<Longrightarrow> length q \<le> path_bound files"
  by (auto simp: path_bound_def intro!: Max_ge)

text \<open>
  The recursion descends one component at a time and no path is longer than \<open>path_bound\<close>.
\<close>

function walk_blobs :: "(path \<Rightarrow> io_error option) \<Rightarrow> fs \<Rightarrow> path \<Rightarrow> string list \<Rightarrow> string list outcome"
  and walk_names ::
    "(path \<Rightarrow> io_error option) \<Rightarrow> fs \<Rightarrow> path \<Rightarrow> string list \<Rightarrow> string list \<Rightarrow> string list outcome"
where
  "walk_blobs faults files dir out =
     (case faults dir of
        Some e \<Rightarrow> Err (Io e)
      | None \<Rightarrow> walk_names faults files dir (read_dir dir files) out)"
| "walk_names faults files dir [] out = Ok out"
| "walk_names faults files dir (name # names) out =
     (if is_dir (dir @ [name]) files then
        (case walk_blobs faults files (dir @ [name]) out of
           Ok out' \<Rightarrow> walk_names faults files dir names out'
         | Err e \<Rightarrow> Err e
         | Panic \<Rightarrow> Panic)
      else walk_names faults files dir names
             (if is_blob_name name then List.insert name out else out))"
  by pat_completeness auto

termination
proof (relation "inv_image (measures [fst, snd]) (\<lambda>x. case x of
      Inl (faults, files, dir, out) \<Rightarrow>
        (path_bound files - length dir, Suc (length (read_dir dir files)))
    | Inr (faults, files, dir, names, out) \<Rightarrow> (path_bound files - length dir, length names))",
    goal_cases)
  case (3 faults files dir name names out)
  then obtain q where "q \<in> set (map fst files)" and "below (dir @ [name]) q"
    by (auto simp: is_dir_def)
  then have "length dir + 1 < path_bound files"
    using path_bound_ge [of q files] by (simp add: below_def)
  then have "path_bound files - Suc (length dir) < path_bound files - length dir" by arith
  then show ?case by simp
qed auto

declare walk_blobs.simps [simp del] walk_names.simps [simp del]

section \<open>The scan\<close>

definition purge_row :: "string \<Rightarrow> (db, unit) op" where
  "purge_row h = transaction
     (andthen
       (\<lambda>d. (Ok (), d\<lparr>db_entries := sql_delete (\<lambda>e. e_blob_hash e = h) (db_entries d)\<rparr>))
       (\<lambda>_. blobs_delete h))"

definition disk_orphan ::
  "gc_env \<Rightarrow> path \<Rightarrow> bool \<Rightarrow> string \<Rightarrow> orphan_report \<Rightarrow> (sys, orphan_report) op" where
  "disk_orphan env root dry_run h rep =
     andthen (if dry_run then ret () else unlink_logged env root h)
       (\<lambda>_. ret (rep\<lparr>disk_orphans_removed := disk_orphans_removed rep + 1\<rparr>))"

definition db_orphan :: "bool \<Rightarrow> string \<Rightarrow> orphan_report \<Rightarrow> (sys, orphan_report) op" where
  "db_orphan dry_run h rep =
     andthen (if dry_run then ret () else on_db (purge_row h))
       (\<lambda>_. ret (rep\<lparr>db_orphans_removed := db_orphans_removed rep + 1\<rparr>))"

definition blobs_dir :: "path \<Rightarrow> path" where
  "blobs_dir root = root @ [''blobs'']"

definition orphan_scan :: "gc_env \<Rightarrow> path \<Rightarrow> bool \<Rightarrow> (sys, orphan_report) op" where
  "orphan_scan env root dry_run =
     andthen
       (query (\<lambda>s.
          if is_dir (blobs_dir root) (sys_fs s)
          then walk_blobs (ge_walk env) (sys_fs s) (blobs_dir root) []
          else Ok []))
       (\<lambda>on_disk.
     andthen (query (\<lambda>s. Ok (remdups (map b_hash (db_blobs (sys_db s)))))) (\<lambda>db_set.
     andthen
       (foreach (disk_orphan env root dry_run)
          (sort_key (ge_blob_rank env) (filter (\<lambda>h. h \<notin> set db_set) on_disk))
          \<lparr>disk_orphans_removed = 0, db_orphans_removed = 0\<rparr>)
       (foreach (db_orphan dry_run)
          (sort_key (ge_blob_rank env) (filter (\<lambda>h. h \<notin> set on_disk) db_set)))))"

section \<open>What the walk finds\<close>

text \<open>No file lies below another file.\<close>

definition tree_like :: "fs \<Rightarrow> bool" where
  "tree_like files \<longleftrightarrow> (\<forall>p\<in>set (map fst files). \<forall>q\<in>set (map fst files). \<not> below p q)"

lemma below_snoc:
  "below dir p \<and> p ! length dir = name \<longleftrightarrow> p = dir @ [name] \<or> below (dir @ [name]) p"
  by (auto simp: below_def take_Suc_conv_app_nth Suc_le_eq nth_append)
     (metis Suc_lessI append_take_drop_id append_Nil2 drop_all order_refl take_Suc_conv_app_nth)+

definition names_below :: "fs \<Rightarrow> path \<Rightarrow> string set \<Rightarrow> string set" where
  "names_below files dir names =
     {last p | p. p \<in> set (map fst files) \<and> below dir p \<and> p ! length dir \<in> names \<and> is_blob_name (last p)}"

lemma names_below_insert:
  "names_below files dir (insert name names) =
   names_below files dir {name} \<union> names_below files dir names"
  by (auto simp: names_below_def)

lemma names_below_dir:
  assumes "tree_like files" and "is_dir (dir @ [name]) files"
  shows "names_below files dir {name} =
    names_below files (dir @ [name]) (set (read_dir (dir @ [name]) files))"
proof -
  obtain q where q: "q \<in> set (map fst files)" "below (dir @ [name]) q"
    using assms(2) by (auto simp: is_dir_def)
  have "dir @ [name] \<notin> set (map fst files)"
    using assms(1) q unfolding tree_like_def by blast
  moreover have "p ! length (dir @ [name]) \<in> set (read_dir (dir @ [name]) files)"
    if "p \<in> set (map fst files)" "below (dir @ [name]) p" for p
    using that by (auto simp: read_dir_def)
  ultimately have "p \<in> set (map fst files) \<and> below dir p \<and> p ! length dir \<in> {name} \<longleftrightarrow>
      p \<in> set (map fst files) \<and> below (dir @ [name]) p \<and>
      p ! length (dir @ [name]) \<in> set (read_dir (dir @ [name]) files)" for p
    unfolding singleton_iff using below_snoc [of dir p name] by metis
  then have "(x = last p \<and> p \<in> set (map fst files) \<and> below dir p \<and> p ! length dir \<in> {name} \<and>
      is_blob_name (last p)) = (x = last p \<and> p \<in> set (map fst files) \<and> below (dir @ [name]) p \<and>
      p ! length (dir @ [name]) \<in> set (read_dir (dir @ [name]) files) \<and> is_blob_name (last p))" for x p
    by metis
  then show ?thesis by (simp only: names_below_def)
qed

lemma names_below_file:
  assumes "name \<in> set (read_dir dir files)" and "\<not> is_dir (dir @ [name]) files"
  shows "names_below files dir {name} = (if is_blob_name name then {name} else {})"
proof -
  have only: "p = dir @ [name]" if "p \<in> set (map fst files)" "below dir p" "p ! length dir = name" for p
    using that assms(2) below_snoc [of dir p name] unfolding is_dir_def by blast
  obtain p where p: "p \<in> set (map fst files)" "below dir p" "p ! length dir = name"
    using assms(1) by (auto simp: read_dir_def)
  have "x \<in> names_below files dir {name} \<longleftrightarrow> x = name \<and> is_blob_name name" for x
  proof
    assume "x \<in> names_below files dir {name}"
    then obtain q where "x = last q" "q \<in> set (map fst files)" "below dir q" "q ! length dir = name"
      "is_blob_name (last q)"
      unfolding names_below_def by blast
    with only [of q] show "x = name \<and> is_blob_name name" by simp
  next
    assume "x = name \<and> is_blob_name name"
    moreover have "last p = name" using only [OF p] by simp
    ultimately have "x = last p \<and> p \<in> set (map fst files) \<and> below dir p \<and>
        p ! length dir \<in> {name} \<and> is_blob_name (last p)"
      using p by simp
    then show "x \<in> names_below files dir {name}"
      unfolding names_below_def mem_Collect_eq by (rule exI)
  qed
  then show ?thesis by auto
qed

lemma walk_finds:
  "tree_like files \<Longrightarrow> (\<forall>p. faults p = None) \<Longrightarrow>
     \<exists>res. walk_blobs faults files dir out = Ok res \<and>
       set res = set out \<union> names_below files dir (set (read_dir dir files)) \<and>
       (distinct out \<longrightarrow> distinct res)"
  "tree_like files \<Longrightarrow> (\<forall>p. faults p = None) \<Longrightarrow> set names \<subseteq> set (read_dir dir files) \<Longrightarrow>
     \<exists>res. walk_names faults files dir names out = Ok res \<and>
       set res = set out \<union> names_below files dir (set names) \<and> (distinct out \<longrightarrow> distinct res)"
proof (induction faults files dir out and faults files dir names out
    rule: walk_blobs_walk_names.induct)
  case (1 faults files dir out)
  then show ?case by (simp add: walk_blobs.simps)
next
  case (2 faults files dir out)
  then show ?case by (simp add: walk_names.simps names_below_def)
next
  case (3 faults files dir name names out)
  show ?case
  proof (cases "is_dir (dir @ [name]) files")
    case True
    from 3(1) [OF True 3(4,5)] obtain res1 where r1: "walk_blobs faults files (dir @ [name]) out = Ok res1"
        "set res1 = set out \<union> names_below files (dir @ [name]) (set (read_dir (dir @ [name]) files))"
        "distinct out \<longrightarrow> distinct res1"
      by blast
    from 3(2) [OF True r1(1) 3(4,5)] 3(6) obtain res where r2: "walk_names faults files dir names res1 = Ok res"
        "set res = set res1 \<union> names_below files dir (set names)" "distinct res1 \<longrightarrow> distinct res"
      by auto
    have "set res = set out \<union> names_below files dir (set (name # names))"
      using r1(2) r2(2) names_below_dir [OF 3(4) True] names_below_insert [of files dir name "set names"]
      by auto
    then show ?thesis using True r1 r2 by (simp add: walk_names.simps)
  next
    case False
    let ?out = "if is_blob_name name then List.insert name out else out"
    from 3(3) [OF False 3(4,5)] 3(6) obtain res where r: "walk_names faults files dir names ?out = Ok res"
        "set res = set ?out \<union> names_below files dir (set names)" "distinct ?out \<longrightarrow> distinct res"
      by auto
    have "set ?out = set out \<union> names_below files dir {name}"
      using names_below_file [OF _ False] 3(6) by auto
    then have "set res = set out \<union> names_below files dir (set (name # names))"
      using r(2) names_below_insert [of files dir name "set names"] by auto
    moreover have "distinct out \<longrightarrow> distinct ?out" by simp
    ultimately show ?thesis using False r by (simp add: walk_names.simps)
  qed
qed

text \<open>Every file below \<open>blobs\<close> whose name looks like a digest lies where that digest belongs.\<close>

definition store_shape :: "path \<Rightarrow> fs \<Rightarrow> bool" where
  "store_shape root files \<longleftrightarrow> tree_like files \<and>
     (\<forall>p\<in>set (map fst files). below (blobs_dir root) p \<and> is_blob_name (last p) \<longrightarrow>
        blob_path root (last p) = Some p)"

lemma names_on_disk:
  assumes "store_shape root files"
  shows "names_below files (blobs_dir root) (set (read_dir (blobs_dir root) files)) =
    {h. is_blob_name h \<and> blob_file root h files \<noteq> None}"
proof -
  have key: "fs_get files p \<noteq> None \<longleftrightarrow> p \<in> set (map fst files)" for p
    by (auto simp: fs_get_def map_of_eq_None_iff)
  have under: "below (blobs_dir root) p" if "blob_path root h = Some p" for h p
    using that by (auto simp: blob_path_def below_def blobs_dir_def split: if_splits)
  have "p ! length (blobs_dir root) \<in> set (read_dir (blobs_dir root) files)"
    if "p \<in> set (map fst files)" "below (blobs_dir root) p" for p
    using that by (auto simp: read_dir_def)
  then have "names_below files (blobs_dir root) (set (read_dir (blobs_dir root) files)) =
      {last p | p. p \<in> set (map fst files) \<and> below (blobs_dir root) p \<and> is_blob_name (last p)}"
    by (auto simp: names_below_def)
  also have "\<dots> = {h. is_blob_name h \<and> blob_file root h files \<noteq> None}"
  proof (intro equalityI subsetI)
    fix h
    assume "h \<in> {last p | p. p \<in> set (map fst files) \<and> below (blobs_dir root) p \<and> is_blob_name (last p)}"
    then obtain p where p: "h = last p" "p \<in> set (map fst files)" "below (blobs_dir root) p" "is_blob_name h"
      by auto
    then have "blob_path root h = Some p" using assms by (auto simp: store_shape_def)
    then show "h \<in> {h. is_blob_name h \<and> blob_file root h files \<noteq> None}"
      using p key [of p] by (simp add: blob_file_def)
  next
    fix h
    assume "h \<in> {h. is_blob_name h \<and> blob_file root h files \<noteq> None}"
    then obtain p where p: "is_blob_name h" "blob_path root h = Some p" "fs_get files p \<noteq> None"
      by (auto simp: blob_file_def split: option.splits)
    then show "h \<in> {last p | p. p \<in> set (map fst files) \<and> below (blobs_dir root) p \<and> is_blob_name (last p)}"
      using key [of p] under [OF p(2)] blob_path_last [OF p(2)] by auto
  qed
  finally show ?thesis .
qed

section \<open>What the scan does\<close>

lemma disk_orphans_Ok:
  assumes "\<And>h. h \<in> set hs \<Longrightarrow> 4 \<le> length h"
  shows "\<exists>f'. foreach (disk_orphan env root False) hs rep s =
      (Ok (rep\<lparr>disk_orphans_removed := disk_orphans_removed rep + of_nat (length hs)\<rparr>),
       s\<lparr>sys_fs := f'\<rparr>) \<and>
    files_after env root (set hs) (sys_fs s) f'"
  using assms
proof (induction hs arbitrary: rep s)
  case Nil
  then show ?case by (auto simp: files_after_refl intro!: exI [of _ "sys_fs s"])
next
  case (Cons h hs)
  obtain f1 where f1: "unlink_logged env root h s = (Ok (), s\<lparr>sys_fs := f1\<rparr>)"
      "files_after env root {h} (sys_fs s) f1"
    using unlink_logged_Ok [of h env root s] Cons.prems by auto
  let ?rep = "rep\<lparr>disk_orphans_removed := disk_orphans_removed rep + 1\<rparr>"
  from Cons.IH [of ?rep "s\<lparr>sys_fs := f1\<rparr>"] Cons.prems obtain f2
    where f2: "foreach (disk_orphan env root False) hs ?rep (s\<lparr>sys_fs := f1\<rparr>) =
        (Ok (?rep\<lparr>disk_orphans_removed := disk_orphans_removed ?rep + of_nat (length hs)\<rparr>),
         s\<lparr>sys_fs := f2\<rparr>)" "files_after env root (set hs) f1 f2"
    by auto
  have "files_after env root (set (h # hs)) (sys_fs s) f2"
    using files_after_trans [OF f1(2) f2(2)] by simp
  moreover have "disk_orphan env root False h rep s = (Ok ?rep, s\<lparr>sys_fs := f1\<rparr>)"
    using f1(1) by (simp add: disk_orphan_def)
  ultimately show ?case using f2(1) by (auto simp: add.assoc)
qed

text \<open>A missing file takes its row and every entry that refers to it.\<close>

definition purge :: "string set \<Rightarrow> db \<Rightarrow> db" where
  "purge H d = d\<lparr>
     db_entries := filter (\<lambda>e. e_blob_hash e \<notin> H) (db_entries d),
     db_blobs := filter (\<lambda>b. b_hash b \<notin> H) (db_blobs d)\<rparr>"

lemma purge_row_Ok: "purge_row h d = (Ok (), purge {h} d)"
  by (simp add: purge_row_def transaction_def andthen_def blobs_delete_def purge_def sql_delete_def
      split: prod.split outcome.split)

lemma purge_purge: "purge H' (purge H d) = purge (H \<union> H') d"
proof -
  have "filter (\<lambda>x. f x \<notin> H') (filter (\<lambda>x. f x \<notin> H) xs) = filter (\<lambda>x. f x \<notin> H \<union> H') xs"
    for f :: "'x \<Rightarrow> string" and xs
    by (auto intro: filter_cong)
  from this [of e_blob_hash "db_entries d"] show ?thesis
    by (simp add: purge_def)
qed

lemma db_orphans_Ok:
  "foreach (db_orphan False) hs rep s =
    (Ok (rep\<lparr>db_orphans_removed := db_orphans_removed rep + of_nat (length hs)\<rparr>),
     s\<lparr>sys_db := purge (set hs) (sys_db s)\<rparr>)"
proof (induction hs arbitrary: rep s)
  case Nil
  then show ?case by (simp add: purge_def)
next
  case (Cons h hs)
  have "db_orphan False h rep s =
      (Ok (rep\<lparr>db_orphans_removed := db_orphans_removed rep + 1\<rparr>), s\<lparr>sys_db := purge {h} (sys_db s)\<rparr>)"
    by (simp add: db_orphan_def andthen_def on_db_def purge_row_Ok)
  then show ?case
    using purge_purge [of "set hs" "{h}" "sys_db s"] by (simp add: Cons.IH add.assoc)
qed

lemma refs_purge: "refs (db_entries (purge H d)) h = (if h \<in> H then 0 else refs (db_entries d) h)"
proof -
  have "refs (filter (\<lambda>e. e_blob_hash e \<notin> H) es) h = (if h \<in> H then 0 else refs es h)" for es
    by (induction es) auto
  then show ?thesis by (simp add: purge_def)
qed

lemma has_blob_purge: "has_blob (purge H d) h \<longleftrightarrow> has_blob d h \<and> h \<notin> H"
  by (auto simp: has_blob_def purge_def)

lemma refs_exact_purge: "refs_exact d \<Longrightarrow> refs_exact (purge H d)"
  using refs_purge [of H d] by (auto simp: refs_exact_def purge_def)

lemma wf_purge:
  assumes wf: "wf_db d"
  shows "wf_db (purge H d)"
proof (rule wf_dbI [OF wf])
  show acc: "accounts (purge H d) = accounts d" by (simp add: accounts_def purge_def)
  show "wf_blobs (purge H d)"
    unfolding wf_blobs_def
  proof (intro conjI ballI)
    show "distinct (map b_hash (db_blobs (purge H d)))"
      using wf by (simp add: purge_def wf_db_def wf_blobs_def distinct_map_filter)
    fix b
    assume "b \<in> set (db_blobs (purge H d))"
    then have "b \<in> set (db_blobs d)" and "b_hash b \<notin> H" by (auto simp: purge_def)
    then show "0 \<le> b_size_bytes b" and "refs (db_entries (purge H d)) (b_hash b) \<le> b_refcount b"
      using wf by (auto simp: refs_purge wf_db_def wf_blobs_def)
  qed
  show "wf_entries (purge H d)"
    using wf has_project_accounts [OF acc] has_blob_purge [of H d]
    by (auto simp: wf_db_def wf_entries_def) (auto simp: purge_def distinct_map_filter)
qed

text \<open>The two sets of a scan: digests with a file, digests with a row.\<close>

definition disk_hashes :: "path \<Rightarrow> fs \<Rightarrow> string set" where
  "disk_hashes root files = {h. is_blob_name h \<and> blob_file root h files \<noteq> None}"

definition row_hashes :: "db \<Rightarrow> string set" where
  "row_hashes d = b_hash ` set (db_blobs d)"

lemma walk_root:
  assumes shape: "store_shape root files" and faults: "\<forall>p. faults p = None"
  shows "\<exists>res. (if is_dir (blobs_dir root) files then walk_blobs faults files (blobs_dir root) [] else Ok []) =
      Ok res \<and> set res = disk_hashes root files \<and> distinct res"
proof (cases "is_dir (blobs_dir root) files")
  case True
  have "tree_like files" using shape by (simp add: store_shape_def)
  from walk_finds(1) [OF this faults, of "blobs_dir root" "[]"] True show ?thesis
    by (auto simp: names_on_disk [OF shape] disk_hashes_def)
next
  case False
  have "names_below files (blobs_dir root) (set (read_dir (blobs_dir root) files)) = {}"
    using False unfolding names_below_def is_dir_def by blast
  then show ?thesis using False by (simp add: names_on_disk [OF shape] disk_hashes_def)
qed

lemma orphan_scan_real:
  assumes shape: "store_shape root (sys_fs s)" and faults: "\<forall>p. ge_walk env p = None"
  shows "\<exists>f' rep. orphan_scan env root False s =
      (Ok rep, \<lparr>sys_db = purge (row_hashes (sys_db s) - disk_hashes root (sys_fs s)) (sys_db s), sys_fs = f'\<rparr>) \<and>
    files_after env root (disk_hashes root (sys_fs s) - row_hashes (sys_db s)) (sys_fs s) f' \<and>
    disk_orphans_removed rep = of_nat (card (disk_hashes root (sys_fs s) - row_hashes (sys_db s))) \<and>
    db_orphans_removed rep = of_nat (card (row_hashes (sys_db s) - disk_hashes root (sys_fs s)))"
proof -
  obtain res where res: "(if is_dir (blobs_dir root) (sys_fs s)
      then walk_blobs (ge_walk env) (sys_fs s) (blobs_dir root) [] else Ok []) = Ok res"
      "set res = disk_hashes root (sys_fs s)" "distinct res"
    using walk_root [OF assms] by blast
  let ?rows = "remdups (map b_hash (db_blobs (sys_db s)))"
  let ?disk = "sort_key (ge_blob_rank env) (filter (\<lambda>h. h \<notin> set ?rows) res)"
  let ?miss = "sort_key (ge_blob_rank env) (filter (\<lambda>h. h \<notin> set res) ?rows)"
  have set_disk: "set ?disk = disk_hashes root (sys_fs s) - row_hashes (sys_db s)"
    by (auto simp: res(2) row_hashes_def)
  have set_miss: "set ?miss = row_hashes (sys_db s) - disk_hashes root (sys_fs s)"
    by (auto simp: res(2) row_hashes_def)
  have "distinct ?disk" and "distinct ?miss" using res(3) by simp_all
  then have len_disk: "length ?disk = card (disk_hashes root (sys_fs s) - row_hashes (sys_db s))"
    and len_miss: "length ?miss = card (row_hashes (sys_db s) - disk_hashes root (sys_fs s))"
    by (simp_all only: set_disk [symmetric] set_miss [symmetric] distinct_card)
  have "4 \<le> length h" if "h \<in> set ?disk" for h
    using that unfolding set_disk by (simp add: disk_hashes_def is_blob_name_def)
  then obtain f' where f': "foreach (disk_orphan env root False) ?disk
      \<lparr>disk_orphans_removed = 0, db_orphans_removed = 0\<rparr> s =
      (Ok \<lparr>disk_orphans_removed = of_nat (length ?disk), db_orphans_removed = 0\<rparr>, s\<lparr>sys_fs := f'\<rparr>)"
      "files_after env root (set ?disk) (sys_fs s) f'"
    using disk_orphans_Ok [of ?disk env root "\<lparr>disk_orphans_removed = 0, db_orphans_removed = 0\<rparr>" s]
    by auto
  let ?rep = "\<lparr>disk_orphans_removed = of_nat (length ?disk), db_orphans_removed = of_nat (length ?miss)\<rparr>"
  have scan: "orphan_scan env root False s = (Ok ?rep, s\<lparr>sys_fs := f', sys_db := purge (set ?miss) (sys_db s)\<rparr>)"
    by (simp only: orphan_scan_def query_apply andthen_def res(1) prod.case outcome.case f'(1)
        db_orphans_Ok) simp
  have "s\<lparr>sys_fs := f', sys_db := purge (set ?miss) (sys_db s)\<rparr> =
      \<lparr>sys_db = purge (row_hashes (sys_db s) - disk_hashes root (sys_fs s)) (sys_db s), sys_fs = f'\<rparr>"
    unfolding set_miss by simp
  then show ?thesis
    using scan f'(2) unfolding set_disk len_disk len_miss by (intro exI [of _ f'] exI [of _ ?rep]) (simp only: len_disk len_miss, simp)
qed

lemma dry_scan_keeps: "keeps (\<lambda>s. s = s0) (orphan_scan env root True)"
proof -
  have "keeps (\<lambda>s. s = s0) (disk_orphan env root True h rep)"
    "keeps (\<lambda>s. s = s0) (db_orphan True h rep')" for h rep rep'
    by (auto simp: disk_orphan_def db_orphan_def intro!: keeps_intros)
  then show ?thesis unfolding orphan_scan_def by (intro keeps_intros)
qed

section \<open>Properties\<close>

text \<open>
  C19 (\<open>orphan_scan\<close>, functional). After a scan the store and the database agree: the digests with
  a row are exactly the digests with a file, namely those that had both; the database stays
  well-formed with exact refcounts, every entry's blob can be read, and the report counts the
  files and the rows that went.
\<close>

theorem orphan_scan_reconciles:
  assumes "store_shape root (sys_fs s)" and "\<forall>p. ge_walk env p = None" and "\<forall>h. ge_unlink env h = None"
    and "wf_db (sys_db s)" and "refs_exact (sys_db s)" and "\<forall>h\<in>row_hashes (sys_db s). is_blob_name h"
  shows "let D = disk_hashes root (sys_fs s); R = row_hashes (sys_db s);
      s' = snd (orphan_scan env root False s) in
    disk_hashes root (sys_fs s') = D \<inter> R \<and> row_hashes (sys_db s') = D \<inter> R \<and>
    wf_db (sys_db s') \<and> refs_exact (sys_db s') \<and> blobs_present root s' \<and>
    (\<exists>rep. fst (orphan_scan env root False s) = Ok rep \<and>
      disk_orphans_removed rep = of_nat (card (D - R)) \<and> db_orphans_removed rep = of_nat (card (R - D)))"
proof -
  let ?D = "disk_hashes root (sys_fs s)"
  let ?R = "row_hashes (sys_db s)"
  obtain f' rep where run: "orphan_scan env root False s =
      (Ok rep, \<lparr>sys_db = purge (?R - ?D) (sys_db s), sys_fs = f'\<rparr>)"
    and f': "files_after env root (?D - ?R) (sys_fs s) f'"
    and rep: "disk_orphans_removed rep = of_nat (card (?D - ?R))" "db_orphans_removed rep = of_nat (card (?R - ?D))"
    using orphan_scan_real [OF assms(1,2)] by blast
  have disk: "disk_hashes root f' = ?D \<inter> ?R"
    using f' assms(3) by (auto simp: disk_hashes_def files_after_def split: if_splits)
  have rows: "row_hashes (purge (?R - ?D) (sys_db s)) = ?D \<inter> ?R"
    by (auto simp: row_hashes_def purge_def)
  have wf: "wf_db (purge (?R - ?D) (sys_db s))" using assms(4) by (rule wf_purge)
  have "blobs_present root \<lparr>sys_db = purge (?R - ?D) (sys_db s), sys_fs = f'\<rparr>"
  proof -
    have "e_blob_hash e \<in> ?D \<inter> ?R" if "e \<in> set (db_entries (purge (?R - ?D) (sys_db s)))" for e
    proof -
      have "has_blob (purge (?R - ?D) (sys_db s)) (e_blob_hash e)"
        using wf that by (simp add: wf_db_def wf_entries_def)
      then show ?thesis using rows by (simp add: has_blob_def row_hashes_def)
    qed
    then show ?thesis using disk by (fastforce simp: blobs_present_def disk_hashes_def)
  qed
  then show ?thesis
    using run rep disk rows wf assms(5) by (simp add: Let_def refs_exact_purge)
qed

definition good_hash :: string where "good_hash = replicate 64 CHR ''a''"
definition missing_hash :: string where "missing_hash = replicate 64 CHR ''e''"
definition orphan_hash :: string where "orphan_hash = replicate 64 CHR ''f''"

text \<open>The state that the unit test of \<open>orphan_scan\<close> sets up.\<close>

definition scan_sys :: sys where
  "scan_sys = \<lparr>
     sys_db = db_empty\<lparr>db_projects := [beta], db_project_seq := 2,
       db_blobs := [(blob_of entry_d)\<lparr>b_hash := good_hash\<rparr>,
                    (blob_of entry_d)\<lparr>b_hash := missing_hash, b_refcount := 0\<rparr>],
       db_entries := [entry_d\<lparr>e_blob_hash := good_hash\<rparr>], db_entry_seq := 4\<rparr>,
     sys_fs = [([''srv'', ''blobs'', ''aa'', ''aa'', good_hash], [1]),
               ([''srv'', ''blobs'', ''ff'', ''ff'', orphan_hash], [2])]\<rparr>"

lemma scan_hashes:
  "good_hash \<noteq> missing_hash" "missing_hash \<noteq> orphan_hash" "good_hash \<noteq> orphan_hash"
  "missing_hash \<noteq> good_hash" "orphan_hash \<noteq> missing_hash" "orphan_hash \<noteq> good_hash"
  "is_blob_name good_hash" "is_blob_name missing_hash" "is_blob_name orphan_hash"
  by (simp_all add: good_hash_def missing_hash_def orphan_hash_def is_blob_name_def
      is_ascii_hexdigit_def list_all_iff)

lemma scan_paths:
  "blob_path sample_root good_hash = Some [''srv'', ''blobs'', ''aa'', ''aa'', good_hash]"
  "blob_path sample_root missing_hash = Some [''srv'', ''blobs'', ''ee'', ''ee'', missing_hash]"
  "blob_path sample_root orphan_hash = Some [''srv'', ''blobs'', ''ff'', ''ff'', orphan_hash]"
  by (simp_all add: blob_path_def sample_root_def good_hash_def missing_hash_def orphan_hash_def
      numeral_2_eq_2)

lemma scan_facts:
  "store_shape sample_root (sys_fs scan_sys)" "wf_db (sys_db scan_sys)" "refs_exact (sys_db scan_sys)"
  "\<forall>h\<in>row_hashes (sys_db scan_sys). is_blob_name h"
proof -
  show "store_shape sample_root (sys_fs scan_sys)"
    by (simp add: store_shape_def tree_like_def below_def scan_sys_def scan_paths)
  show "wf_db (sys_db scan_sys)"
    by (simp add: scan_sys_def wf_db_defs db_empty_def beta_def entry_d_def blob_of_def
        has_project_def has_blob_def scan_hashes)
  show "refs_exact (sys_db scan_sys)"
    by (simp add: scan_sys_def refs_exact_def db_empty_def entry_d_def blob_of_def scan_hashes)
  show "\<forall>h\<in>row_hashes (sys_db scan_sys). is_blob_name h"
    by (simp add: scan_sys_def row_hashes_def scan_hashes)
qed

theorem orphan_scan_reconciles_witness:
  "row_hashes (sys_db (snd (orphan_scan sample_env sample_root False scan_sys))) = {good_hash}"
proof -
  have "\<forall>p. ge_walk sample_env p = None" by (simp add: sample_env_def)
  from orphan_scan_reconciles [OF scan_facts(1) this _ scan_facts(2-4)]
  have "row_hashes (sys_db (snd (orphan_scan sample_env sample_root False scan_sys))) =
      disk_hashes sample_root (sys_fs scan_sys) \<inter> row_hashes (sys_db scan_sys)"
    by (simp add: Let_def)
  also have "row_hashes (sys_db scan_sys) = {good_hash, missing_hash}"
    by (simp add: scan_sys_def row_hashes_def)
  also have "disk_hashes sample_root (sys_fs scan_sys) \<inter> {good_hash, missing_hash} = {good_hash}"
    by (auto simp: disk_hashes_def blob_file_def scan_paths scan_hashes scan_sys_def fs_get_def)
  finally show ?thesis .
qed

text \<open>
  (safety). A scan, also one whose removals fail, keeps every entry whose blob has a row and a
  file, and keeps that file; a dry scan changes nothing at all.
\<close>

theorem orphan_scan_keeps_live:
  assumes "store_shape root (sys_fs s)" and "\<forall>p. ge_walk env p = None"
    and "e \<in> set (db_entries (sys_db s))" and "wf_db (sys_db s)" and "is_blob_name (e_blob_hash e)"
    and "blob_file root (e_blob_hash e) (sys_fs s) = Some c"
  shows "e \<in> set (db_entries (sys_db (snd (orphan_scan env root dry_run s)))) \<and>
    blob_file root (e_blob_hash e) (sys_fs (snd (orphan_scan env root dry_run s))) = Some c"
proof (cases dry_run)
  case True
  then show ?thesis using dry_scan_keeps [of s env root] assms(3,6) by (simp add: keeps_def)
next
  case False
  obtain f' rep where run: "orphan_scan env root False s = (Ok rep,
      \<lparr>sys_db = purge (row_hashes (sys_db s) - disk_hashes root (sys_fs s)) (sys_db s), sys_fs = f'\<rparr>)"
    and f': "files_after env root (disk_hashes root (sys_fs s) - row_hashes (sys_db s)) (sys_fs s) f'"
    using orphan_scan_real [OF assms(1,2)] by blast
  have "e_blob_hash e \<in> disk_hashes root (sys_fs s)" using assms(5,6) by (simp add: disk_hashes_def)
  moreover have "e_blob_hash e \<in> row_hashes (sys_db s)"
    using assms(3,4) by (simp add: wf_db_def wf_entries_def has_blob_def row_hashes_def)
  ultimately show ?thesis
    using run f' False assms(3,6) by (simp add: purge_def files_after_def)
qed

theorem orphan_scan_keeps_live_witness:
  "blob_file sample_root good_hash (sys_fs (snd (orphan_scan sample_env sample_root False scan_sys))) = Some [1]"
proof -
  have "\<forall>p. ge_walk sample_env p = None" by (simp add: sample_env_def)
  moreover have "entry_d\<lparr>e_blob_hash := good_hash\<rparr> \<in> set (db_entries (sys_db scan_sys))"
    by (simp add: scan_sys_def)
  moreover have "blob_file sample_root good_hash (sys_fs scan_sys) = Some [1]"
    by (simp add: blob_file_def scan_paths scan_sys_def fs_get_def)
  ultimately show ?thesis
    using orphan_scan_keeps_live [OF scan_facts(1), of sample_env "entry_d\<lparr>e_blob_hash := good_hash\<rparr>" "[1]" False]
      scan_facts(2) scan_hashes
    by simp
qed

end
