(* ===== verification/Db_Credentials.thy ===== *)
theory Db_Credentials
  imports Db_Stats
begin

text \<open>
  The two credential repositories, \<open>db/api_keys.rs\<close> and \<open>db/admin_tokens.rs\<close>. A secret is never
  stored: a row holds a lookup digest, which is unique over all rows, revoked ones included, and
  a verifier. The locale \<open>credential_table\<close> is what authentication relies on, interpreted on
  both tables: a revoked credential is never found again, whatever the table does next.
\<close>

section \<open>API keys\<close>

definition api_keys_create ::
  "int \<Rightarrow> int \<Rightarrow> string \<Rightarrow> string \<Rightarrow> role \<Rightarrow> string option \<Rightarrow> (db, api_key) op" where
  "api_keys_create now project_id key_lookup key_hash r label = (\<lambda>d.
     if key_lookup \<in> k_key_lookup ` set (db_api_keys d)
     then (Err (Database (UniqueViolation ''api_keys.key_lookup'')), d)
     else if \<not> has_project d project_id then (Err (Database ForeignKeyViolation), d)
     else
       (let k = \<lparr>k_id = db_api_key_seq d + 1, k_project_id = project_id, k_key_lookup = key_lookup,
                 k_key_hash = key_hash, k_role = r, k_label = label, k_created_at = now,
                 k_revoked_at = None\<rparr> in
        (Ok k, d\<lparr>db_api_keys := db_api_keys d @ [k], db_api_key_seq := db_api_key_seq d + 1\<rparr>)))"

definition api_keys_find_active :: "int \<Rightarrow> string \<Rightarrow> (db, api_key option) op" where
  "api_keys_find_active project_id key_lookup = query (\<lambda>d.
     Ok (find (\<lambda>k. k_project_id k = project_id \<and> k_key_lookup k = key_lookup \<and> k_revoked_at k = None)
       (db_api_keys d)))"

definition api_keys_list :: "int \<Rightarrow> (db, api_key list) op" where
  "api_keys_list project_id = query (\<lambda>d.
     Ok (sort_key k_id (filter (\<lambda>k. k_project_id k = project_id) (db_api_keys d))))"

definition api_keys_revoke :: "int \<Rightarrow> int \<Rightarrow> int \<Rightarrow> (db, unit) op" where
  "api_keys_revoke now project_id i = (\<lambda>d.
     let hit = (\<lambda>k. k_project_id k = project_id \<and> k_id k = i \<and> k_revoked_at k = None) in
     if sql_count hit (db_api_keys d) = 0
     then (Err (NotFound (''api_key '' @ dec_int i)), d)
     else (Ok (), d\<lparr>db_api_keys :=
             sql_update hit (\<lambda>k. k\<lparr>k_revoked_at := Some now\<rparr>) (db_api_keys d)\<rparr>))"

section \<open>Admin tokens\<close>

definition admin_tokens_create ::
  "int \<Rightarrow> string \<Rightarrow> string \<Rightarrow> string option \<Rightarrow> (db, admin_token) op" where
  "admin_tokens_create now token_lookup token_hash label = (\<lambda>d.
     if token_lookup \<in> t_token_lookup ` set (db_admin_tokens d)
     then (Err (Database (UniqueViolation ''admin_tokens.token_lookup'')), d)
     else
       (let t = \<lparr>t_id = db_admin_token_seq d + 1, t_token_lookup = token_lookup,
                 t_token_hash = token_hash, t_label = label, t_created_at = now,
                 t_revoked_at = None\<rparr> in
        (Ok t, d\<lparr>db_admin_tokens := db_admin_tokens d @ [t],
                 db_admin_token_seq := db_admin_token_seq d + 1\<rparr>)))"

definition admin_tokens_find_active :: "string \<Rightarrow> (db, admin_token option) op" where
  "admin_tokens_find_active lookup = query (\<lambda>d.
     Ok (find (\<lambda>t. t_token_lookup t = lookup \<and> t_revoked_at t = None) (db_admin_tokens d)))"

definition admin_tokens_list :: "(db, admin_token list) op" where
  "admin_tokens_list = query (\<lambda>d. Ok (sort_key t_id (db_admin_tokens d)))"

definition admin_tokens_revoke :: "int \<Rightarrow> int \<Rightarrow> (db, unit) op" where
  "admin_tokens_revoke now i = (\<lambda>d.
     let hit = (\<lambda>t. t_id t = i \<and> t_revoked_at t = None) in
     if sql_count hit (db_admin_tokens d) = 0
     then (Err (NotFound (''admin_token '' @ dec_int i)), d)
     else (Ok (), d\<lparr>db_admin_tokens :=
             sql_update hit (\<lambda>t. t\<lparr>t_revoked_at := Some now\<rparr>) (db_admin_tokens d)\<rparr>))"

section \<open>Invariants\<close>

lemma wf_credentials_change:
  assumes "wf_db d"
  shows "wf_api_keys (d\<lparr>db_api_keys := ks, db_api_key_seq := n\<rparr>) \<Longrightarrow>
      wf_db (d\<lparr>db_api_keys := ks, db_api_key_seq := n\<rparr>)"
    and "wf_admin_tokens (d\<lparr>db_admin_tokens := ts, db_admin_token_seq := m\<rparr>) \<Longrightarrow>
      wf_db (d\<lparr>db_admin_tokens := ts, db_admin_token_seq := m\<rparr>)"
proof -
  have cong: "db_entries d' = db_entries d \<Longrightarrow> db_blobs d' = db_blobs d \<Longrightarrow>
      db_entry_seq d' = db_entry_seq d \<Longrightarrow> db_projects d' = db_projects d \<Longrightarrow>
      wf_blobs d' = wf_blobs d \<and> wf_entries d' = wf_entries d" for d'
    by (simp add: wf_blobs_def wf_entries_def has_blob_def has_project_def)
  show "wf_db (d\<lparr>db_api_keys := ks, db_api_key_seq := n\<rparr>)"
    if "wf_api_keys (d\<lparr>db_api_keys := ks, db_api_key_seq := n\<rparr>)"
    using assms that cong [of "d\<lparr>db_api_keys := ks, db_api_key_seq := n\<rparr>"]
    by (simp add: wf_db_def wf_projects_def wf_admin_tokens_def)
  show "wf_db (d\<lparr>db_admin_tokens := ts, db_admin_token_seq := m\<rparr>)"
    if "wf_admin_tokens (d\<lparr>db_admin_tokens := ts, db_admin_token_seq := m\<rparr>)"
    using assms that cong [of "d\<lparr>db_admin_tokens := ts, db_admin_token_seq := m\<rparr>"]
    by (simp add: wf_db_def wf_projects_def wf_api_keys_def has_project_def)
qed

lemma keeps_wf_api_keys_create [keeps_intros]: "keeps wf_db (api_keys_create now pid l h r lab)"
proof
  fix d
  assume wf: "wf_db d"
  have seq: "\<forall>k\<in>set (db_api_keys d). k_id k \<le> db_api_key_seq d"
    using wf by (simp add: wf_db_def wf_api_keys_def)
  then have "db_api_key_seq d + 1 \<notin> k_id ` set (db_api_keys d)" by force
  moreover have "\<forall>k\<in>set (db_api_keys d). k_id k \<le> db_api_key_seq d + 1" using seq by force
  moreover have "distinct (map k_id (db_api_keys d))" "distinct (map k_key_lookup (db_api_keys d))"
    "\<forall>k\<in>set (db_api_keys d). has_project d (k_project_id k)"
    using wf by (simp_all add: wf_db_def wf_api_keys_def)
  ultimately show "wf_db (snd (api_keys_create now pid l h r lab d))"
    by (auto simp: api_keys_create_def Let_def wf_api_keys_def has_project_def wf
        intro!: wf_credentials_change(1) [OF wf])
qed

lemma keeps_wf_api_keys_revoke [keeps_intros]: "keeps wf_db (api_keys_revoke now pid i)"
proof
  fix d
  assume wf: "wf_db d"
  have "wf_db (d\<lparr>db_api_keys := sql_update c (\<lambda>k. k\<lparr>k_revoked_at := Some now\<rparr>) (db_api_keys d),
      db_api_key_seq := db_api_key_seq d\<rparr>)" for c
    using wf by (intro wf_credentials_change(1))
      (auto simp: wf_db_def wf_api_keys_def map_sql_update has_project_def)
  then show "wf_db (snd (api_keys_revoke now pid i d))"
    using wf by (simp add: api_keys_revoke_def Let_def)
qed

lemma keeps_wf_admin_tokens_create [keeps_intros]: "keeps wf_db (admin_tokens_create now l h lab)"
proof
  fix d
  assume wf: "wf_db d"
  have seq: "\<forall>t\<in>set (db_admin_tokens d). t_id t \<le> db_admin_token_seq d"
    using wf by (simp add: wf_db_def wf_admin_tokens_def)
  then have "db_admin_token_seq d + 1 \<notin> t_id ` set (db_admin_tokens d)" by force
  moreover have "\<forall>t\<in>set (db_admin_tokens d). t_id t \<le> db_admin_token_seq d + 1" using seq by force
  moreover have "distinct (map t_id (db_admin_tokens d))" "distinct (map t_token_lookup (db_admin_tokens d))"
    using wf by (simp_all add: wf_db_def wf_admin_tokens_def)
  ultimately show "wf_db (snd (admin_tokens_create now l h lab d))"
    by (auto simp: admin_tokens_create_def Let_def wf_admin_tokens_def wf
        intro!: wf_credentials_change(2) [OF wf])
qed

lemma keeps_wf_admin_tokens_revoke [keeps_intros]: "keeps wf_db (admin_tokens_revoke now i)"
proof
  fix d
  assume wf: "wf_db d"
  have "wf_db (d\<lparr>db_admin_tokens := sql_update c (\<lambda>t. t\<lparr>t_revoked_at := Some now\<rparr>) (db_admin_tokens d),
      db_admin_token_seq := db_admin_token_seq d\<rparr>)" for c
    using wf by (intro wf_credentials_change(2)) (auto simp: wf_db_def wf_admin_tokens_def map_sql_update)
  then show "wf_db (snd (admin_tokens_revoke now i d))"
    using wf by (simp add: admin_tokens_revoke_def Let_def)
qed

section \<open>What authentication relies on\<close>

locale credential_table =
  fixes rows :: "'s \<Rightarrow> 'r list"
    and lookup :: "'r \<Rightarrow> 'l"
    and live :: "'r \<Rightarrow> bool"
    and step :: "'s \<Rightarrow> 's \<Rightarrow> bool"
  assumes step_unique: "step s s' \<Longrightarrow> distinct (map lookup (rows s)) \<Longrightarrow> distinct (map lookup (rows s'))"
    and step_dead: "step s s' \<Longrightarrow> r \<in> set (rows s) \<Longrightarrow> \<not> live r \<Longrightarrow> r \<in> set (rows s')"
begin

lemma steps_unique: "step\<^sup>*\<^sup>* s s' \<Longrightarrow> distinct (map lookup (rows s)) \<Longrightarrow> distinct (map lookup (rows s'))"
  by (induction rule: rtranclp_induct) (auto dest: step_unique)

lemma steps_dead: "step\<^sup>*\<^sup>* s s' \<Longrightarrow> r \<in> set (rows s) \<Longrightarrow> \<not> live r \<Longrightarrow> r \<in> set (rows s')"
  by (induction rule: rtranclp_induct) (auto dest: step_dead)

lemma revoked_for_good:
  assumes "step\<^sup>*\<^sup>* s s'" and "distinct (map lookup (rows s))" and "r \<in> set (rows s)" and "\<not> live r"
  shows "find (\<lambda>x. P x \<and> lookup x = lookup r \<and> live x) (rows s') = None"
proof -
  have "r \<in> set (rows s')" using assms(1,3,4) by (rule steps_dead)
  moreover have "distinct (map lookup (rows s'))" using assms(1,2) by (rule steps_unique)
  ultimately have "x = r" if "x \<in> set (rows s')" "lookup x = lookup r" for x
    using that by (intro distinct_map_eq [of lookup "rows s'"])
  then show ?thesis using assms(4) by (auto simp: find_None_iff)
qed

end

text \<open>The operations of the two repositories that change their table.\<close>

inductive api_key_step :: "db \<Rightarrow> db \<Rightarrow> bool" where
  key_created: "api_key_step d (snd (api_keys_create now pid l h r lab d))"
| key_revoked: "api_key_step d (snd (api_keys_revoke now pid i d))"

inductive admin_token_step :: "db \<Rightarrow> db \<Rightarrow> bool" where
  token_created: "admin_token_step d (snd (admin_tokens_create now l h lab d))"
| token_revoked: "admin_token_step d (snd (admin_tokens_revoke now i d))"

inductive_cases api_key_stepE: "api_key_step d d'"
inductive_cases admin_token_stepE: "admin_token_step d d'"

interpretation keys: credential_table db_api_keys k_key_lookup "\<lambda>k. k_revoked_at k = None" api_key_step
proof (unfold_locales, goal_cases)
  case (1 d d')
  then show ?case
    by (auto elim!: api_key_stepE
        simp: api_keys_create_def api_keys_revoke_def Let_def map_sql_update)
next
  case (2 d d' k)
  then show ?case
    by (force elim!: api_key_stepE
        simp: api_keys_create_def api_keys_revoke_def Let_def image_iff)
qed

interpretation tokens: credential_table db_admin_tokens t_token_lookup "\<lambda>t. t_revoked_at t = None"
    admin_token_step
proof (unfold_locales, goal_cases)
  case (1 d d')
  then show ?case
    by (auto elim!: admin_token_stepE
        simp: admin_tokens_create_def admin_tokens_revoke_def Let_def map_sql_update)
next
  case (2 d d' t)
  then show ?case
    by (force elim!: admin_token_stepE
        simp: admin_tokens_create_def admin_tokens_revoke_def Let_def image_iff)
qed

section \<open>Behaviour\<close>

lemma api_key_found_after_create:
  assumes "api_keys_create now pid l h r lab d = (Ok k, d')"
  shows "api_keys_find_active pid l d' = (Ok (Some k), d')"
proof -
  have fresh: "l \<notin> k_key_lookup ` set (db_api_keys d)" and rows: "db_api_keys d' = db_api_keys d @ [k]"
    and k: "k_project_id k = pid" "k_key_lookup k = l" "k_revoked_at k = None"
    using assms by (auto simp: api_keys_create_def Let_def split: if_splits)
  have "find (\<lambda>x. k_project_id x = pid \<and> k_key_lookup x = l \<and> k_revoked_at x = None) (db_api_keys d') = Some k"
    using fresh k by (intro find_unique_row) (auto simp: rows, metis image_eqI)
  then show ?thesis by (simp add: api_keys_find_active_def)
qed

lemma admin_token_found_after_create:
  assumes "admin_tokens_create now l h lab d = (Ok t, d')"
  shows "admin_tokens_find_active l d' = (Ok (Some t), d')"
proof -
  have fresh: "l \<notin> t_token_lookup ` set (db_admin_tokens d)" and rows: "db_admin_tokens d' = db_admin_tokens d @ [t]"
    and t: "t_token_lookup t = l" "t_revoked_at t = None"
    using assms by (auto simp: admin_tokens_create_def Let_def split: if_splits)
  have "find (\<lambda>x. t_token_lookup x = l \<and> t_revoked_at x = None) (db_admin_tokens d') = Some t"
    using fresh t by (intro find_unique_row) (auto simp: rows, metis image_eqI)
  then show ?thesis by (simp add: admin_tokens_find_active_def)
qed

lemma api_key_revoked:
  assumes "api_keys_revoke now pid i d = (Ok (), d')" and "k \<in> set (db_api_keys d)"
    and "k_project_id k = pid" and "k_id k = i" and "k_revoked_at k = None"
  shows "k\<lparr>k_revoked_at := Some now\<rparr> \<in> set (db_api_keys d')"
  using assms by (auto simp: api_keys_revoke_def Let_def image_iff split: if_splits intro!: bexI [of _ k])

end
