(* ===== verification/Auth.thy ===== *)
theory Auth
  imports Db_Credentials Marmotte_Config
begin

text \<open>
  Authentication (\<open>auth.rs\<close>). SHA-256 and argon2 are the fields of a record \<open>crypto\<close>. The moka
  cache is seen through the calls the code makes: a cache is the list of its \<open>get\<close> and \<open>insert\<close>
  calls so far, and the parameter \<open>moka\<close> says what a \<open>get\<close> answers after them. What the code
  relies on is \<open>moka_sound\<close>, the documented meaning of \<open>time_to_live\<close>: a value that is returned
  was inserted for that key, less than the time to live ago. That the cache may forget at any
  time (its capacity is bounded) is allowed by it.
\<close>

section \<open>Primitives\<close>

record crypto =
  cr_sha256 :: "bytes \<Rightarrow> string"
  cr_parse_phc :: "string \<Rightarrow> string + string"
  cr_verify_password :: "bytes \<Rightarrow> string \<Rightarrow> bool"
  cr_encode_salt :: "bytes \<Rightarrow> string + string"
  cr_hash_password :: "bytes \<Rightarrow> string \<Rightarrow> string + string"
  cr_b64_url :: "bytes \<Rightarrow> string"

definition str_bytes :: "string \<Rightarrow> bytes" where
  "str_bytes s = map (\<lambda>c. word_of_nat (of_char c)) s"

definition lookup_hash :: "crypto \<Rightarrow> string \<Rightarrow> string" where
  "lookup_hash cr secret = cr_sha256 cr (str_bytes secret)"

text \<open>The random bytes of a secret and of a salt are arguments.\<close>

definition generate_secret :: "crypto \<Rightarrow> bytes \<Rightarrow> string" where
  "generate_secret cr random = cr_b64_url cr random"

definition hash_argon2 :: "crypto \<Rightarrow> bytes \<Rightarrow> string \<Rightarrow> string outcome" where
  "hash_argon2 cr salt_bytes secret =
     (case cr_encode_salt cr salt_bytes of
        Inl e \<Rightarrow> Err (Crypto e)
      | Inr salt \<Rightarrow>
          (case cr_hash_password cr (str_bytes secret) salt of
             Inl e \<Rightarrow> Err (Crypto e)
           | Inr phc \<Rightarrow> Ok phc))"

definition verify_argon2 :: "crypto \<Rightarrow> string \<Rightarrow> string \<Rightarrow> bool outcome" where
  "verify_argon2 cr secret phc =
     (case cr_parse_phc cr phc of
        Inl e \<Rightarrow> Err (Crypto e)
      | Inr parsed \<Rightarrow> Ok (cr_verify_password cr (str_bytes secret) parsed))"

definition ct_eq :: "string \<Rightarrow> string \<Rightarrow> bool" where
  "ct_eq a b \<longleftrightarrow> str_bytes a = str_bytes b"

lemma str_bytes_inj: "str_bytes a = str_bytes b \<longleftrightarrow> a = b"
proof
  assume eq: "str_bytes a = str_bytes b"
  have "inj (\<lambda>c. word_of_nat (of_char c) :: byte)"
  proof (rule injI)
    fix c c' :: char
    assume "word_of_nat (of_char c) = (word_of_nat (of_char c') :: byte)"
    then have "unat (word_of_nat (of_char c) :: byte) = unat (word_of_nat (of_char c') :: byte)" by simp
    then have "(of_char c :: nat) mod 256 = of_char c' mod 256" by (simp add: unat_of_nat)
    then show "c = c'" by (simp add: of_char_mod_256)
  qed
  then show "a = b" using eq by (auto simp: str_bytes_def dest: map_injective)
qed simp

lemma ct_eq_iff: "ct_eq a b \<longleftrightarrow> a = b"
  by (simp add: ct_eq_def str_bytes_inj)

section \<open>The verification cache\<close>

type_synonym cache_key = "string \<times> string"

datatype 'v cache_event = CacheGet int cache_key | CacheInsert int cache_key 'v

type_synonym 'v cache = "'v cache_event list"
type_synonym 'v moka = "'v cache \<Rightarrow> int \<Rightarrow> cache_key \<Rightarrow> 'v option"

definition get_or_insert ::
  "'v moka \<Rightarrow> int \<Rightarrow> string \<Rightarrow> string \<Rightarrow> 'v outcome \<Rightarrow> ('v cache, 'v) op" where
  "get_or_insert moka now scope lookup f = (\<lambda>c.
     let key = (scope, lookup); c1 = c @ [CacheGet now key] in
     case moka c now key of
       Some v \<Rightarrow> (Ok v, c1)
     | None \<Rightarrow>
         (case f of
            Ok v \<Rightarrow> (Ok v, c1 @ [CacheInsert now key v])
          | Err e \<Rightarrow> (Err e, c1)
          | Panic \<Rightarrow> (Panic, c1)))"

definition moka_sound :: "int \<Rightarrow> 'v moka \<Rightarrow> bool" where
  "moka_sound ttl moka \<longleftrightarrow>
     (\<forall>c now key v. moka c now key = Some v \<longrightarrow>
        (\<exists>t. CacheInsert t key v \<in> set c \<and> now < t + ttl))"

section \<open>The service\<close>

record project_auth =
  pa_project_id :: int
  pa_project_name :: string
  pa_api_key_id :: int
  pa_role :: role

record admin_auth =
  aa_token_id :: int
  aa_token_label :: "string option"

text \<open>The closure that \<open>authenticate_project\<close> runs when the cache has no answer.\<close>

definition check_project :: "crypto \<Rightarrow> string \<Rightarrow> string \<Rightarrow> db \<Rightarrow> project_auth outcome" where
  "check_project cr project_name api_key d =
     (case fst (projects_get_by_name project_name d) of
        Err _ \<Rightarrow> Err Unauthorized
      | Panic \<Rightarrow> Panic
      | Ok p \<Rightarrow>
          (case fst (api_keys_find_active (p_id p) (lookup_hash cr api_key) d) of
             Err e \<Rightarrow> Err e
           | Panic \<Rightarrow> Panic
           | Ok None \<Rightarrow> Err Unauthorized
           | Ok (Some k) \<Rightarrow>
               (case verify_argon2 cr api_key (k_key_hash k) of
                  Err e \<Rightarrow> Err e
                | Panic \<Rightarrow> Panic
                | Ok False \<Rightarrow> Err Unauthorized
                | Ok True \<Rightarrow>
                    Ok \<lparr>pa_project_id = p_id p, pa_project_name = p_name p,
                        pa_api_key_id = k_id k, pa_role = k_role k\<rparr>)))"

definition check_admin :: "crypto \<Rightarrow> string \<Rightarrow> db \<Rightarrow> admin_auth outcome" where
  "check_admin cr token d =
     (case fst (admin_tokens_find_active (lookup_hash cr token) d) of
        Err e \<Rightarrow> Err e
      | Panic \<Rightarrow> Panic
      | Ok None \<Rightarrow> Err Unauthorized
      | Ok (Some t) \<Rightarrow>
          (case verify_argon2 cr token (t_token_hash t) of
             Err e \<Rightarrow> Err e
           | Panic \<Rightarrow> Panic
           | Ok False \<Rightarrow> Err Unauthorized
           | Ok True \<Rightarrow> Ok \<lparr>aa_token_id = t_id t, aa_token_label = t_label t\<rparr>))"

definition project_scope :: "string \<Rightarrow> string" where
  "project_scope project_name = ''proj:'' @ project_name"

definition authenticate_project ::
  "crypto \<Rightarrow> project_auth moka \<Rightarrow> int \<Rightarrow> string \<Rightarrow> string \<Rightarrow> db \<Rightarrow> (project_auth cache, project_auth) op" where
  "authenticate_project cr moka now project_name api_key d =
     get_or_insert moka now (project_scope project_name) (lookup_hash cr api_key)
       (check_project cr project_name api_key d)"

definition authenticate_admin ::
  "crypto \<Rightarrow> admin_auth moka \<Rightarrow> int \<Rightarrow> string \<Rightarrow> db \<Rightarrow> (admin_auth cache, admin_auth) op" where
  "authenticate_admin cr moka now token d =
     get_or_insert moka now ''admin'' (lookup_hash cr token) (check_admin cr token d)"

section \<open>A cache that answers for a check\<close>

text \<open>
  The contract of the cache, once for both uses: requests are checked by \<open>check\<close> in a state that
  changes between them, under a key that the request determines. An accepted request is backed by
  a check of a request with the same key, less than the time to live ago.
\<close>

locale verify_cache =
  fixes moka :: "'v moka"
    and ttl :: int
    and scope_of :: "'q \<Rightarrow> string"
    and lookup_of :: "'q \<Rightarrow> string"
    and check :: "'q \<Rightarrow> 'd \<Rightarrow> 'v outcome"
  assumes sound: "moka_sound ttl moka"
begin

definition request :: "int \<times> 'd \<times> 'q \<Rightarrow> ('v cache, 'v) op" where
  "request r = (case r of (now, d, q) \<Rightarrow> get_or_insert moka now (scope_of q) (lookup_of q) (check q d))"

definition serve :: "(int \<times> 'd \<times> 'q) list \<Rightarrow> 'v cache \<Rightarrow> 'v cache" where
  "serve rs c = fold (\<lambda>r c. snd (request r c)) rs c"

definition backed :: "(int \<times> 'd \<times> 'q) set \<Rightarrow> 'v cache \<Rightarrow> bool" where
  "backed R c \<longleftrightarrow> (\<forall>t key v. CacheInsert t key v \<in> set c \<longrightarrow>
     (\<exists>d q. (t, d, q) \<in> R \<and> (scope_of q, lookup_of q) = key \<and> check q d = Ok v))"

lemma request_backed: "backed R c \<Longrightarrow> r \<in> R \<Longrightarrow> backed R (snd (request r c))"
  by (cases r) (fastforce simp: request_def get_or_insert_def backed_def Let_def
      split: option.splits outcome.splits)

lemma serve_backed: "backed R c \<Longrightarrow> set rs \<subseteq> R \<Longrightarrow> backed R (serve rs c)"
  by (induction rs arbitrary: c) (auto simp: serve_def request_backed)

lemma accepted_backed:
  assumes "fst (request (now, d, q) c) = Ok v" and "backed R c"
  shows "check q d = Ok v \<or>
    (\<exists>t d' q'. (t, d', q') \<in> R \<and> now < t + ttl \<and> scope_of q' = scope_of q \<and>
       lookup_of q' = lookup_of q \<and> check q' d' = Ok v)"
proof (cases "moka c now (scope_of q, lookup_of q)")
  case None
  then show ?thesis
    using assms(1) by (auto simp: request_def get_or_insert_def Let_def split: outcome.splits)
next
  case (Some w)
  then have w: "w = v" using assms(1) by (simp add: request_def get_or_insert_def Let_def)
  obtain t where "CacheInsert t (scope_of q, lookup_of q) w \<in> set c" and t: "now < t + ttl"
    using sound Some unfolding moka_sound_def by blast
  then obtain d' q' where "(t, d', q') \<in> R" "(scope_of q', lookup_of q') = (scope_of q, lookup_of q)"
    "check q' d' = Ok w"
    using assms(2) unfolding backed_def by blast
  then show ?thesis using w t by auto
qed

lemma accepted_after:
  assumes "fst (request (now, d, q) (serve rs [])) = Ok v"
  shows "\<exists>t d' q'. (t, d', q') \<in> set rs \<union> {(now, d, q)} \<and> now < t + max ttl 1 \<and>
    scope_of q' = scope_of q \<and> lookup_of q' = lookup_of q \<and> check q' d' = Ok v"
proof -
  have "backed (set rs) (serve rs [])" by (rule serve_backed) (simp_all add: backed_def)
  from accepted_backed [OF assms this] show ?thesis by fastforce
qed

end

text \<open>
  An answer of moka for every history that satisfies its contract: the value of the last insert
  for the key, if that is recent enough.
\<close>

fun recall :: "int \<Rightarrow> 'v cache \<Rightarrow> int \<Rightarrow> cache_key \<Rightarrow> 'v option" where
  "recall ttl [] now key = None"
| "recall ttl (CacheGet t k # c) now key = recall ttl c now key"
| "recall ttl (CacheInsert t k v # c) now key =
     (case recall ttl c now key of
        Some w \<Rightarrow> Some w
      | None \<Rightarrow> if k = key \<and> now < t + ttl then Some v else None)"

lemma recall_sound: "moka_sound ttl (recall ttl)"
proof -
  have "\<exists>t. CacheInsert t key v \<in> set c \<and> now < t + ttl" if "recall ttl c now key = Some v" for c now key v
    using that by (induction c now key rule: recall.induct) (auto split: option.splits if_splits)
  then show ?thesis by (auto simp: moka_sound_def)
qed

text \<open>Both uses, for every cache that keeps its contract; \<open>guarded\<close> makes any moka keep it.\<close>

definition guarded :: "int \<Rightarrow> 'v moka \<Rightarrow> 'v moka" where
  "guarded ttl moka =
     (if moka_sound ttl moka then moka else (\<lambda>_ _ _. None))"

lemma guarded_sound: "moka_sound ttl (guarded ttl moka)"
  by (simp add: guarded_def) (simp add: moka_sound_def)

lemma guarded_id: "moka_sound ttl moka \<Longrightarrow> guarded ttl moka = moka"
  by (simp add: guarded_def)

interpretation pauth: verify_cache "guarded ttl moka" ttl
    "\<lambda>(project_name, api_key). project_scope project_name"
    "\<lambda>(project_name, api_key). lookup_hash cr api_key"
    "\<lambda>(project_name, api_key). check_project cr project_name api_key"
  for ttl moka cr
  by unfold_locales (rule guarded_sound)

interpretation aauth: verify_cache "guarded ttl moka" ttl "\<lambda>_. ''admin''" "lookup_hash cr"
    "check_admin cr"
  for ttl moka cr
  by unfold_locales (rule guarded_sound)

section \<open>What a check decides\<close>

lemma check_project_Ok:
  assumes "check_project cr name key d = Ok a"
  shows "\<exists>p k phc. p \<in> set (db_projects d) \<and> p_name p = name \<and>
    k \<in> set (db_api_keys d) \<and> k_project_id k = p_id p \<and> k_key_lookup k = lookup_hash cr key \<and>
    k_revoked_at k = None \<and> cr_parse_phc cr (k_key_hash k) = Inr phc \<and>
    cr_verify_password cr (str_bytes key) phc \<and>
    a = \<lparr>pa_project_id = p_id p, pa_project_name = name, pa_api_key_id = k_id k, pa_role = k_role k\<rparr>"
proof -
  obtain p where p: "fst (projects_get_by_name name d) = Ok p"
    using assms by (auto simp: check_project_def split: outcome.splits)
  then have "p \<in> set (db_projects d)" "p_name p = name"
    using projects_get_by_name_Ok [of name d p d] by (simp_all add: projects_get_by_name_def)
  moreover obtain k where k: "find (\<lambda>k. k_project_id k = p_id p \<and> k_key_lookup k = lookup_hash cr key \<and>
      k_revoked_at k = None) (db_api_keys d) = Some k"
    and ver: "verify_argon2 cr key (k_key_hash k) = Ok True"
    and a: "a = \<lparr>pa_project_id = p_id p, pa_project_name = p_name p, pa_api_key_id = k_id k, pa_role = k_role k\<rparr>"
    using assms p by (auto simp: check_project_def api_keys_find_active_def
        split: outcome.splits option.splits bool.splits)
  moreover obtain phc where "cr_parse_phc cr (k_key_hash k) = Inr phc"
    "cr_verify_password cr (str_bytes key) phc"
    using ver by (auto simp: verify_argon2_def split: sum.splits)
  ultimately show ?thesis using find_SomeD [OF k] by auto
qed

lemma check_project_active:
  assumes wf: "wf_db d" and p: "p \<in> set (db_projects d)"
    and k: "k \<in> set (db_api_keys d)" "k_project_id k = p_id p" "k_key_lookup k = lookup_hash cr key"
      "k_revoked_at k = None"
    and ver: "verify_argon2 cr key (k_key_hash k) = Ok True"
  shows "check_project cr (p_name p) key d =
    Ok \<lparr>pa_project_id = p_id p, pa_project_name = p_name p, pa_api_key_id = k_id k, pa_role = k_role k\<rparr>"
proof -
  have "distinct (map k_key_lookup (db_api_keys d))" using wf by (simp add: wf_db_def wf_api_keys_def)
  then have "find (\<lambda>x. k_project_id x = p_id p \<and> k_key_lookup x = lookup_hash cr key \<and>
      k_revoked_at x = None) (db_api_keys d) = Some k"
    using k by (intro find_unique_row) (auto dest: distinct_map_eq)
  then show ?thesis
    using projects_get_by_name_row [OF wf p] ver
    by (simp add: check_project_def api_keys_find_active_def)
qed

text \<open>No row of a live key for this name and lookup.\<close>

definition no_live_key :: "string \<Rightarrow> string \<Rightarrow> db \<Rightarrow> bool" where
  "no_live_key name lookup d \<longleftrightarrow>
     (\<forall>p\<in>set (db_projects d). p_name p = name \<longrightarrow>
        (\<forall>k\<in>set (db_api_keys d). k_project_id k = p_id p \<and> k_key_lookup k = lookup \<longrightarrow>
           k_revoked_at k \<noteq> None))"

lemma check_project_no_live_key:
  assumes "no_live_key name (lookup_hash cr key) d"
  shows "check_project cr name key d = Err Unauthorized"
proof (cases "find (\<lambda>p. p_name p = name) (db_projects d)")
  case None
  then show ?thesis by (simp add: check_project_def projects_get_by_name_def)
next
  case (Some p)
  then have "find (\<lambda>k. k_project_id k = p_id p \<and> k_key_lookup k = lookup_hash cr key \<and>
      k_revoked_at k = None) (db_api_keys d) = None"
    using assms by (auto simp: no_live_key_def find_None_iff dest!: find_SomeD)
  then show ?thesis
    using Some by (simp add: check_project_def projects_get_by_name_def api_keys_find_active_def)
qed

end
