(* ===== verification/Auth_Properties.thy ===== *)
theory Auth_Properties
  imports Auth Samples
begin

text \<open>
  The properties of authentication: every acceptance is backed by a recent verification of an
  active credential, a revocation takes effect within the cache's time to live, and for good, and
  a newly issued credential works at once.
\<close>

section \<open>Requests in sequence\<close>

type_synonym auth_request = "int \<times> db \<times> string \<times> string"

definition serve_projects ::
  "crypto \<Rightarrow> project_auth moka \<Rightarrow> auth_request list \<Rightarrow> project_auth cache \<Rightarrow> project_auth cache" where
  "serve_projects cr moka reqs c =
     fold (\<lambda>(t, d, name, key) c. snd (authenticate_project cr moka t name key d c)) reqs c"

definition serve_admins ::
  "crypto \<Rightarrow> admin_auth moka \<Rightarrow> (int \<times> db \<times> string) list \<Rightarrow> admin_auth cache \<Rightarrow> admin_auth cache" where
  "serve_admins cr moka reqs c =
     fold (\<lambda>(t, d, token) c. snd (authenticate_admin cr moka t token d c)) reqs c"

lemma serve_projects_eq:
  assumes "moka_sound ttl moka"
  shows "serve_projects cr moka reqs c = pauth.serve ttl moka cr reqs c"
    and "authenticate_project cr moka t name key d c = pauth.request ttl moka cr (t, d, name, key) c"
proof -
  have one: "authenticate_project cr moka t name key d c = pauth.request ttl moka cr (t, d, name, key) c"
    for t name key d c
    unfolding authenticate_project_def pauth.request_def using assms by (simp add: guarded_id)
  then show "authenticate_project cr moka t name key d c = pauth.request ttl moka cr (t, d, name, key) c" .
  have "(\<lambda>(t, d, name, key) c. snd (authenticate_project cr moka t name key d c)) =
      (\<lambda>r c. snd (pauth.request ttl moka cr r c))"
    using one by (auto simp: fun_eq_iff)
  then show "serve_projects cr moka reqs c = pauth.serve ttl moka cr reqs c"
    by (simp add: serve_projects_def pauth.serve_def)
qed

lemma serve_admins_eq:
  assumes "moka_sound ttl moka"
  shows "serve_admins cr moka reqs c = aauth.serve ttl moka cr reqs c"
    and "authenticate_admin cr moka t token d c = aauth.request ttl moka cr (t, d, token) c"
proof -
  have one: "authenticate_admin cr moka t token d c = aauth.request ttl moka cr (t, d, token) c"
    for t token d c
    unfolding authenticate_admin_def aauth.request_def using assms by (simp add: guarded_id)
  then show "authenticate_admin cr moka t token d c = aauth.request ttl moka cr (t, d, token) c" .
  have "(\<lambda>(t, d, token) c. snd (authenticate_admin cr moka t token d c)) =
      (\<lambda>r c. snd (aauth.request ttl moka cr r c))"
    using one by (auto simp: fun_eq_iff)
  then show "serve_admins cr moka reqs c = aauth.serve ttl moka cr reqs c"
    by (simp add: serve_admins_def aauth.serve_def)
qed

lemma project_scope_inj [simp]: "project_scope a = project_scope b \<longleftrightarrow> a = b"
  by (simp add: project_scope_def)

section \<open>A concrete instance\<close>

definition plain_crypto :: crypto where
  "plain_crypto = \<lparr>cr_sha256 = map (\<lambda>w. char_of (unat w)), cr_parse_phc = Inr,
     cr_verify_password = (\<lambda>secret phc. secret = str_bytes phc), cr_encode_salt = Inr o map (\<lambda>w. char_of (unat w)),
     cr_hash_password = (\<lambda>secret salt. Inr (map (\<lambda>w. char_of (unat w)) secret)),
     cr_b64_url = map (\<lambda>w. char_of (unat w))\<rparr>"

definition sample_key :: api_key where
  "sample_key = \<lparr>k_id = 1, k_project_id = 1, k_key_lookup = lookup_hash plain_crypto ''s3cret'',
     k_key_hash = ''s3cret'', k_role = Write, k_label = None, k_created_at = 0, k_revoked_at = None\<rparr>"

definition keyed_db :: db where
  "keyed_db = sample_db\<lparr>db_api_keys := [sample_key], db_api_key_seq := 1\<rparr>"

lemma keyed_wf: "wf_db keyed_db"
proof -
  have "wf_api_keys keyed_db"
    by (simp add: wf_api_keys_def keyed_db_def sample_key_def has_project_def sample_tables)
  then show ?thesis using wf_credentials_change(1) [OF sample_wf] by (simp add: keyed_db_def)
qed

lemma keyed_check:
  "check_project plain_crypto ''acme'' ''s3cret'' keyed_db =
   Ok \<lparr>pa_project_id = 1, pa_project_name = ''acme'', pa_api_key_id = 1, pa_role = Write\<rparr>"
proof -
  have "acme \<in> set (db_projects keyed_db)" and "sample_key \<in> set (db_api_keys keyed_db)"
    by (simp_all add: keyed_db_def sample_tables)
  from check_project_active [OF keyed_wf this, of plain_crypto "''s3cret''"] show ?thesis
    by (simp add: sample_key_def acme_def verify_argon2_def plain_crypto_def)
qed

lemma check_project_accounts:
  assumes "accounts d = accounts d'"
  shows "check_project cr name key d = check_project cr name key d'"
proof -
  have "fst (projects_get_by_name name d) = fst (projects_get_by_name name d')"
    and "fst (api_keys_find_active i l d) = fst (api_keys_find_active i l d')" for i l
    using assms by (simp_all add: accounts_def projects_get_by_name_def api_keys_find_active_def)
  then show ?thesis by (simp only: check_project_def)
qed

section \<open>Properties\<close>

text \<open>
  C24 (safety). Whoever \<open>authenticate_project\<close> accepts, now or from the cache, presented a key with
  the same lookup digest as one that was verified less than the time to live ago, in a state where
  the project had that name and an active row of its own for the digest; the result names that
  project, that row and its role. A result cached for one project never serves another.
\<close>

theorem accepted_project_was_verified:
  assumes "moka_sound ttl moka" and "0 < ttl"
    and "fst (authenticate_project cr moka now name key d (serve_projects cr moka reqs [])) = Ok a"
  shows "\<exists>(t, d', name', key')\<in>set reqs \<union> {(now, d, name, key)}.
    now < t + ttl \<and> name' = name \<and> lookup_hash cr key' = lookup_hash cr key \<and>
    (\<exists>p\<in>set (db_projects d'). \<exists>k\<in>set (db_api_keys d').
       p_name p = name \<and> k_project_id k = p_id p \<and> k_key_lookup k = lookup_hash cr key \<and>
       k_revoked_at k = None \<and> verify_argon2 cr key' (k_key_hash k) = Ok True \<and>
       a = \<lparr>pa_project_id = p_id p, pa_project_name = name, pa_api_key_id = k_id k, pa_role = k_role k\<rparr>)"
proof -
  have "fst (pauth.request ttl moka cr (now, d, name, key) (pauth.serve ttl moka cr reqs [])) = Ok a"
    using assms(3) by (simp add: serve_projects_eq [OF assms(1)])
  from pauth.accepted_after [OF this] obtain t d' name' key'
    where r: "(t, d', name', key') \<in> set reqs \<union> {(now, d, name, key)}" "now < t + max ttl 1"
      "project_scope name' = project_scope name" "lookup_hash cr key' = lookup_hash cr key"
      "check_project cr name' key' d' = Ok a"
    by auto
  from check_project_Ok [OF r(5)] obtain p k phc
    where pk: "p \<in> set (db_projects d')" "k \<in> set (db_api_keys d')" "p_name p = name'"
      "k_project_id k = p_id p" "k_key_lookup k = lookup_hash cr key'" "k_revoked_at k = None"
      "cr_parse_phc cr (k_key_hash k) = Inr phc" "cr_verify_password cr (str_bytes key') phc"
      "a = \<lparr>pa_project_id = p_id p, pa_project_name = name', pa_api_key_id = k_id k, pa_role = k_role k\<rparr>"
    by blast
  have "verify_argon2 cr key' (k_key_hash k) = Ok True" using pk by (simp add: verify_argon2_def)
  then have "\<exists>p\<in>set (db_projects d'). \<exists>k\<in>set (db_api_keys d').
       p_name p = name \<and> k_project_id k = p_id p \<and> k_key_lookup k = lookup_hash cr key \<and>
       k_revoked_at k = None \<and> verify_argon2 cr key' (k_key_hash k) = Ok True \<and>
       a = \<lparr>pa_project_id = p_id p, pa_project_name = name, pa_api_key_id = k_id k, pa_role = k_role k\<rparr>"
    using pk r(3,4) by (intro bexI [of _ p] bexI [of _ k]) simp_all
  then show ?thesis using r assms(2) by (intro bexI [OF _ r(1)]) simp
qed

theorem accepted_project_was_verified_witness:
  "fst (authenticate_project plain_crypto (recall 300) 10 ''acme'' ''s3cret'' keyed_db []) =
     Ok \<lparr>pa_project_id = 1, pa_project_name = ''acme'', pa_api_key_id = 1, pa_role = Write\<rparr> \<and>
   (\<exists>p\<in>set (db_projects keyed_db). p_name p = ''acme'')"
proof -
  have ok: "fst (authenticate_project plain_crypto (recall 300) 10 ''acme'' ''s3cret'' keyed_db
      (serve_projects plain_crypto (recall 300) [] [])) =
      Ok \<lparr>pa_project_id = 1, pa_project_name = ''acme'', pa_api_key_id = 1, pa_role = Write\<rparr>"
    by (simp add: authenticate_project_def get_or_insert_def Let_def keyed_check serve_projects_def)
  from accepted_project_was_verified [OF recall_sound _ this] show ?thesis
    using ok by (auto simp: serve_projects_def)
qed


definition revoked_db :: db where
  "revoked_db = snd (api_keys_revoke 20 1 1 keyed_db)"

lemma revoked_no_live_key: "no_live_key ''acme'' (lookup_hash plain_crypto ''s3cret'') revoked_db"
  by (simp add: no_live_key_def revoked_db_def api_keys_revoke_def Let_def keyed_db_def sql_count_def
      sql_update_def sample_key_def sample_tables)


text \<open>
  (safety). The lag is real: a key that was verified just before it was revoked is still
  accepted as long as the cache remembers it.
\<close>

theorem revoked_key_still_accepted:
  "fst (authenticate_project plain_crypto (recall 300) 25 ''acme'' ''s3cret'' revoked_db
     (serve_projects plain_crypto (recall 300) [(10, keyed_db, ''acme'', ''s3cret'')] [])) =
   Ok \<lparr>pa_project_id = 1, pa_project_name = ''acme'', pa_api_key_id = 1, pa_role = Write\<rparr>"
  by (simp add: serve_projects_def authenticate_project_def get_or_insert_def Let_def keyed_check)

text \<open>
  (safety). A revoked API key never becomes active again, whatever keys are created and revoked
  afterwards: lookup digests stay reserved, so a second key with the same secret cannot be issued.
\<close>

theorem revoked_key_stays_revoked:
  assumes "wf_db d" and "k \<in> set (db_api_keys d)" and "k_project_id k = pid" and "k_id k = i"
    and "k_revoked_at k = None" and "api_keys_revoke now pid i d = (Ok (), d1)"
    and "api_key_step\<^sup>*\<^sup>* d1 d2"
  shows "api_keys_find_active pid' (k_key_lookup k) d2 = (Ok None, d2)"
proof -
  have r: "k\<lparr>k_revoked_at := Some now\<rparr> \<in> set (db_api_keys d1)"
    using assms(6,2-5) by (rule api_key_revoked)
  have "wf_db d1" using keepsE [OF keeps_wf_api_keys_revoke assms(1,6)] .
  then have "distinct (map k_key_lookup (db_api_keys d1))" by (simp add: wf_db_def wf_api_keys_def)
  from keys.revoked_for_good [OF assms(7) this r, of "\<lambda>x. k_project_id x = pid'"] show ?thesis
    by (simp add: api_keys_find_active_def)
qed

theorem revoked_key_stays_revoked_witness:
  "fst (api_keys_find_active 1 (lookup_hash plain_crypto ''s3cret'')
     (snd (api_keys_create 30 1 (lookup_hash plain_crypto ''s3cret'') ''s3cret'' Write None revoked_db))) = Ok None"
proof -
  let ?d2 = "snd (api_keys_create 30 1 (lookup_hash plain_crypto ''s3cret'') ''s3cret'' Write None revoked_db)"
  have "api_keys_revoke 20 1 1 keyed_db = (Ok (), revoked_db)"
    by (simp add: revoked_db_def api_keys_revoke_def Let_def keyed_db_def sql_count_def sample_key_def)
  moreover have "api_key_step\<^sup>*\<^sup>* revoked_db ?d2" by (rule r_into_rtranclp) (rule key_created)
  ultimately have "api_keys_find_active 1 (k_key_lookup sample_key) ?d2 = (Ok None, ?d2)"
    by (intro revoked_key_stays_revoked [OF keyed_wf]) (simp_all add: keyed_db_def, simp_all add: sample_key_def)
  then show ?thesis by (simp add: sample_key_def)
qed

text \<open>
  (safety). The same for admin tokens.
\<close>

theorem accepted_admin_was_verified:
  assumes "moka_sound ttl moka" and "0 < ttl"
    and "fst (authenticate_admin cr moka now token d (serve_admins cr moka reqs [])) = Ok a"
  shows "\<exists>(t, d', token')\<in>set reqs \<union> {(now, d, token)}.
    now < t + ttl \<and> lookup_hash cr token' = lookup_hash cr token \<and>
    (\<exists>row\<in>set (db_admin_tokens d'). t_token_lookup row = lookup_hash cr token \<and>
       t_revoked_at row = None \<and> verify_argon2 cr token' (t_token_hash row) = Ok True \<and>
       a = \<lparr>aa_token_id = t_id row, aa_token_label = t_label row\<rparr>)"
proof -
  have "fst (aauth.request ttl moka cr (now, d, token) (aauth.serve ttl moka cr reqs [])) = Ok a"
    using assms(3) by (simp add: serve_admins_eq [OF assms(1)])
  from aauth.accepted_after [OF this] obtain t d' token'
    where r: "(t, d', token') \<in> set reqs \<union> {(now, d, token)}" "now < t + max ttl 1"
      "lookup_hash cr token' = lookup_hash cr token" "check_admin cr token' d' = Ok a"
    by auto
  obtain row where row: "find (\<lambda>t. t_token_lookup t = lookup_hash cr token' \<and> t_revoked_at t = None)
      (db_admin_tokens d') = Some row" "verify_argon2 cr token' (t_token_hash row) = Ok True"
      "a = \<lparr>aa_token_id = t_id row, aa_token_label = t_label row\<rparr>"
    using r(4) by (auto simp: check_admin_def admin_tokens_find_active_def
        split: outcome.splits option.splits bool.splits)
  then have "\<exists>row\<in>set (db_admin_tokens d'). t_token_lookup row = lookup_hash cr token \<and>
       t_revoked_at row = None \<and> verify_argon2 cr token' (t_token_hash row) = Ok True \<and>
       a = \<lparr>aa_token_id = t_id row, aa_token_label = t_label row\<rparr>"
    using find_SomeD [OF row(1)] r(3) by auto
  then show ?thesis using r assms(2) by (intro bexI [OF _ r(1)]) simp
qed

definition tokened_db :: db where
  "tokened_db = snd (admin_tokens_create 0 (lookup_hash plain_crypto ''root'') ''root'' None db_empty)"

theorem accepted_admin_was_verified_witness:
  "fst (authenticate_admin plain_crypto (recall 300) 10 ''root'' tokened_db []) =
     Ok \<lparr>aa_token_id = 1, aa_token_label = None\<rparr> \<and>
   (\<exists>row\<in>set (db_admin_tokens tokened_db). t_revoked_at row = None)"
proof -
  have ok: "fst (authenticate_admin plain_crypto (recall 300) 10 ''root'' tokened_db
      (serve_admins plain_crypto (recall 300) [] [])) = Ok \<lparr>aa_token_id = 1, aa_token_label = None\<rparr>"
    by (simp add: authenticate_admin_def get_or_insert_def Let_def check_admin_def serve_admins_def tokened_db_def
        admin_tokens_create_def db_empty_def admin_tokens_find_active_def verify_argon2_def plain_crypto_def)
  from accepted_admin_was_verified [OF recall_sound _ this] show ?thesis
    using ok by (auto simp: serve_admins_def)
qed

text \<open>
  (round trip). A key that was just created with a verifier that accepts its secret is
  accepted for its project, with its own id and role, whatever is in the cache of other keys.
\<close>

theorem new_key_authenticates:
  assumes "wf_db d" and "p \<in> set (db_projects d)"
    and "api_keys_create t (p_id p) (lookup_hash cr secret) phc r label d = (Ok k, d')"
    and "verify_argon2 cr secret phc = Ok True"
    and "moka c now (project_scope (p_name p), lookup_hash cr secret) = None"
  shows "fst (authenticate_project cr moka now (p_name p) secret d' c) =
    Ok \<lparr>pa_project_id = p_id p, pa_project_name = p_name p, pa_api_key_id = k_id k, pa_role = r\<rparr>"
proof -
  have wf': "wf_db d'" using keepsE [OF keeps_wf_api_keys_create assms(1,3)] .
  have k: "k \<in> set (db_api_keys d')" "k_project_id k = p_id p" "k_key_lookup k = lookup_hash cr secret"
      "k_key_hash k = phc" "k_role k = r" "k_revoked_at k = None" and projects: "db_projects d' = db_projects d"
    using assms(3) by (auto simp: api_keys_create_def Let_def split: if_splits)
  have "check_project cr (p_name p) secret d' = Ok \<lparr>pa_project_id = p_id p, pa_project_name = p_name p,
      pa_api_key_id = k_id k, pa_role = k_role k\<rparr>"
    using assms(2,4) k projects by (intro check_project_active [OF wf']) simp_all
  then show ?thesis
    using assms(5) k(5) by (simp add: authenticate_project_def get_or_insert_def Let_def)
qed

theorem new_key_authenticates_witness:
  "fst (authenticate_project plain_crypto (recall 300) 5 ''acme'' ''tok''
     (snd (api_keys_create 4 1 (lookup_hash plain_crypto ''tok'') ''tok'' Read None sample_db)) []) =
   Ok \<lparr>pa_project_id = 1, pa_project_name = ''acme'', pa_api_key_id = 1, pa_role = Read\<rparr>"
proof -
  let ?new = "api_keys_create 4 1 (lookup_hash plain_crypto ''tok'') ''tok'' Read None sample_db"
  obtain k where k: "?new = (Ok k, snd ?new)" "k_id k = 1"
    by (simp add: api_keys_create_def Let_def has_project_def sample_tables sample_db_def db_empty_def)
  have "fst (authenticate_project plain_crypto (recall 300) 5 (p_name acme) ''tok'' (snd ?new) []) =
    Ok \<lparr>pa_project_id = p_id acme, pa_project_name = p_name acme, pa_api_key_id = k_id k, pa_role = Read\<rparr>"
    using k(1) by (intro new_key_authenticates [OF sample_wf])
      (simp_all add: sample_tables verify_argon2_def plain_crypto_def)
  then show ?thesis using k(2) by (simp add: acme_def)
qed

end
