(* ===== verification/Db_History.thy ===== *)
theory Db_History
  imports Db_Credentials Samples
begin

text \<open>
  The database as a state machine: one step per operation of the repositories that writes, each
  with arbitrary arguments. \<open>cache_step\<close> has all of them but the deletion of a project, which
  \<open>db_step\<close> adds. By rule induction every reachable database is well-formed, and as long as no
  project is deleted its refcounts are exact.
\<close>

section \<open>Steps\<close>

inductive cache_step :: "db \<Rightarrow> db \<Rightarrow> bool" where
  step_project_create: "cache_step d (snd (projects_create now name q t d))"
| step_project_update: "cache_step d (snd (projects_update i nm q' t' d))"
| step_key_create: "cache_step d (snd (api_keys_create now pid l h r lab d))"
| step_key_revoke: "cache_step d (snd (api_keys_revoke now pid i d))"
| step_token_create: "cache_step d (snd (admin_tokens_create now l h lab d))"
| step_token_revoke: "cache_step d (snd (admin_tokens_revoke now i d))"
| step_upsert: "0 \<le> sz \<Longrightarrow> cache_step d (snd (upsert now1 now pid k p hash sz d))"
| step_touch: "cache_step d (snd (touch now i d))"
| step_set_pinned: "cache_step d (snd (set_pinned pid i pin d))"
| step_entry_delete: "cache_step d (snd (entries_delete pid i d))"
| step_blob_delete: "b \<in> set (db_blobs d) \<Longrightarrow> b_refcount b = 0 \<Longrightarrow>
    cache_step d (snd (blobs_delete (b_hash b) d))"
| step_bump: "cache_step d (snd (bump now pid' kd c by d))"
| step_audit: "cache_step d (snd (audit now act a tgt dt d))"

inductive db_step :: "db \<Rightarrow> db \<Rightarrow> bool" where
  step_cache: "cache_step d d' \<Longrightarrow> db_step d d'"
| step_project_delete: "db_step d (snd (projects_delete i d))"

section \<open>Invariants of the steps\<close>

lemma cache_step_wf: "cache_step d d' \<Longrightarrow> wf_db d \<Longrightarrow> wf_db d'"
  by (induction rule: cache_step.induct)
     (rule keepsD [of wf_db], (intro keeps_intros | rule keeps_wf_blobs_delete), assumption+)+

lemma leak_cong: "db_entries d' = db_entries d \<Longrightarrow> db_blobs d' = db_blobs d \<Longrightarrow> leak d' h = leak d h"
  by (simp add: leak_def refcount_def blob_at_def)

lemma keeps_rows_update:
  "keeps (\<lambda>d. db_entries d = es \<and> db_blobs d = bs) (projects_update i nm q t)"
  unfolding projects_update_def projects_get_def rename_project_def
  by (intro keeps_andthen keeps_transaction keeps_query)
     (auto split: option.split intro!: keeps_ret keepsI)

lemma leak_blobs_delete:
  assumes wf: "wf_db d" and b: "b \<in> set (db_blobs d)" "b_refcount b = 0"
  shows "leak (snd (blobs_delete (b_hash b) d)) h = leak d h"
proof -
  let ?d = "d\<lparr>db_blobs := filter (\<lambda>x. b_hash x \<noteq> b_hash b) (db_blobs d)\<rparr>"
  have dead: "refs (db_entries d) (b_hash b) = 0" using wf b by (rule zero_row_dead)
  then have run: "snd (blobs_delete (b_hash b) d) = ?d"
    by (auto simp: blobs_delete_def sql_delete_def refs_zero_iff)
  have "blob_at ?d h = (if h = b_hash b then None else blob_at d h)"
  proof -
    have "find (\<lambda>x. b_hash x = h) (filter (\<lambda>x. b_hash x \<noteq> g) xs) =
        (if h = g then None else find (\<lambda>x. b_hash x = h) xs)" for g and xs :: "blob list"
      by (induction xs) auto
    then show ?thesis by (simp add: blob_at_def)
  qed
  moreover have "blob_at d (b_hash b) = Some b" using wf b(1) by (rule wf_blob_row)
  ultimately have "refcount ?d h = refcount d h" using b(2) by (auto simp: refcount_def)
  then show ?thesis by (simp add: run leak_def)
qed

lemma cache_step_leak:
  assumes "cache_step d d'" and "wf_db d"
  shows "leak d' h = leak d h"
  using assms
proof (induction rule: cache_step.induct)
  case (step_project_update d i nm q' t')
  then show ?case
    using keepsD [OF keeps_rows_update [where es = "db_entries d" and bs = "db_blobs d"], of d]
    by (intro leak_cong) auto
next
  case (step_blob_delete b d)
  then show ?case by (intro leak_blobs_delete)
next
  case (step_upsert sz d now1 now pid k p hash)
  then show ?case by (intro leak_upsert)
qed (auto simp: leak_entries_delete leak_touch leak_set_pinned projects_create_def api_keys_create_def
    api_keys_revoke_def admin_tokens_create_def admin_tokens_revoke_def Let_def intro!: leak_cong)

lemma db_step_wf: "db_step d d' \<Longrightarrow> wf_db d \<Longrightarrow> wf_db d'"
  by (induction rule: db_step.induct)
     (auto intro: cache_step_wf keepsD [OF keeps_wf_projects_delete])

lemma cache_steps_kept:
  "cache_step\<^sup>*\<^sup>* d d' \<Longrightarrow> wf_db d \<Longrightarrow> wf_db d' \<and> leak d' h = leak d h"
  by (induction rule: rtranclp_induct) (auto simp: cache_step_leak intro: cache_step_wf)

section \<open>Properties\<close>

text \<open>
  (invariant). Every database that the repositories can produce from an empty one is
  well-formed: keys are unique, foreign keys resolve, sizes are not negative and no refcount is
  below the number of entries that refer to the blob.
\<close>

theorem reachable_wf:
  assumes "db_step\<^sup>*\<^sup>* db_empty d"
  shows "wf_db d"
  using assms by (induction rule: rtranclp_induct) (auto intro: db_step_wf wf_db_empty)

theorem reachable_wf_witness:
  "wf_db (snd (projects_delete 1 (snd (projects_create 0 ''acme'' None None db_empty))))"
  by (rule reachable_wf)
     (blast intro: rtranclp.rtrancl_into_rtrancl rtranclp.rtrancl_refl step_cache step_project_create
       step_project_delete)

text \<open>
  C26 (invariant, reference counting). As long as no project is deleted, the refcount of every blob
  is exactly the number of entries that refer to it: no leak, no early reclaim.
\<close>

theorem reachable_refs_exact:
  assumes "cache_step\<^sup>*\<^sup>* db_empty d"
  shows "refs_exact d \<and> (\<forall>e\<in>set (db_entries d). \<exists>b\<in>set (db_blobs d).
    b_hash b = e_blob_hash e \<and> 0 < b_refcount b)"
proof -
  have kept: "wf_db d \<and> leak d h = leak db_empty h" for h
    using cache_steps_kept [OF assms wf_db_empty] .
  have "leak db_empty h = 0" for h using refs_exact_leak [OF wf_db_empty] refs_exact_empty by simp
  then have exact: "refs_exact d" using kept refs_exact_leak by simp
  have "\<exists>b\<in>set (db_blobs d). b_hash b = e_blob_hash e \<and> 0 < b_refcount b"
    if e: "e \<in> set (db_entries d)" for e
  proof -
    obtain b where "blob_at d (e_blob_hash e) = Some b" using kept e by (auto elim: wf_entry_blob)
    then have b: "b \<in> set (db_blobs d)" "b_hash b = e_blob_hash e" by (auto dest: blob_at_Some)
    have "refs (db_entries d) (e_blob_hash e) \<noteq> 0" using e by (auto simp: refs_zero_iff)
    then have "0 < refs (db_entries d) (e_blob_hash e)"
      using refs_nonneg [of "db_entries d" "e_blob_hash e"] by linarith
    then have "0 < b_refcount b" using exact b by (auto simp: refs_exact_def)
    then show ?thesis using b by blast
  qed
  then show ?thesis using exact by blast
qed

theorem reachable_refs_exact_witness:
  "refs_exact (snd (upsert 5 6 1 Sstate ''a'' ''aaaa'' 30 (snd (projects_create 0 ''acme'' None None db_empty))))"
proof -
  have "cache_step\<^sup>*\<^sup>* db_empty (snd (projects_create 0 ''acme'' None None db_empty))"
    by (rule r_into_rtranclp) (rule step_project_create)
  moreover have "cache_step (snd (projects_create 0 ''acme'' None None db_empty))
      (snd (upsert 5 6 1 Sstate ''a'' ''aaaa'' 30 (snd (projects_create 0 ''acme'' None None db_empty))))"
    by (rule step_upsert) simp
  ultimately have "cache_step\<^sup>*\<^sup>* db_empty (snd (upsert 5 6 1 Sstate ''a'' ''aaaa'' 30
      (snd (projects_create 0 ''acme'' None None db_empty))))"
    by (rule rtranclp.rtrancl_into_rtrancl)
  from reachable_refs_exact [OF this] show ?thesis by simp
qed

text \<open>
  (round trip). After an \<open>upsert\<close> the key finds an entry with the new content, size and access
  time, every other key finds what it found before, the blob has a row, and the refcounts stay as
  exact as they were.
\<close>

theorem upsert_then_find:
  assumes "wf_db d" and "has_project d pid" and "0 \<le> sz"
  shows "let d' = snd (upsert now1 now pid k p hash sz d) in
    (\<exists>r. entries_find pid k p d' = (Ok (Some r), d') \<and> entry_key r = (pid, k, p) \<and>
       e_blob_hash r = hash \<and> e_size_bytes r = sz \<and> e_last_accessed r = now \<and>
       (case entry_at d (pid, k, p) of
          None \<Rightarrow> e_created_at r = now \<and> \<not> e_pinned r
        | Some old \<Rightarrow> e_id r = e_id old \<and> e_created_at r = e_created_at old \<and> e_pinned r = e_pinned old)) \<and>
    (\<forall>pid' k' p'. (pid', k', p') \<noteq> (pid, k, p) \<longrightarrow>
       entries_find pid' k' p' d' = (Ok (entry_at d (pid', k', p')), d')) \<and>
    has_blob d' hash \<and> (\<forall>h. leak d' h = leak d h)"
proof -
  let ?d' = "upsert_state now1 now pid k p hash sz d"
  have run: "snd (upsert now1 now pid k p hash sz d) = ?d'"
    by (simp add: upsert_Ok [OF assms(1,2)])
  note at = entry_at_upsert_state [OF assms, of now1 now k p hash]
  let ?r = "row_after now pid k p hash sz d"
  have "entries_find pid k p ?d' = (Ok (Some ?r), ?d')" by (simp add: entries_find_def at)
  moreover have "case entry_at d (pid, k, p) of
      None \<Rightarrow> e_created_at ?r = now \<and> \<not> e_pinned ?r
    | Some old \<Rightarrow> e_id ?r = e_id old \<and> e_created_at ?r = e_created_at old \<and> e_pinned ?r = e_pinned old"
    by (simp add: row_after_def split: option.split)
  moreover have "\<forall>pid' k' p'. (pid', k', p') \<noteq> (pid, k, p) \<longrightarrow>
      entries_find pid' k' p' ?d' = (Ok (entry_at d (pid', k', p')), ?d')"
    by (simp add: entries_find_def at)
  ultimately show ?thesis
    unfolding run Let_def
    using has_blob_upsert_state [OF assms(1)] leak_upsert_state [OF assms(1)]
    by (intro conjI exI [of _ ?r]) simp_all
qed

theorem upsert_then_find_witness:
  "\<exists>r. fst (entries_find 1 Sstate ''c'' (snd (upsert 7 8 1 Sstate ''c'' ''eeee'' 5 sample_db))) = Ok (Some r) \<and>
    e_blob_hash r = ''eeee'' \<and> e_pinned r"
proof -
  have proj: "has_project sample_db 1" by (simp add: has_project_def sample_tables)
  have old: "entry_at sample_db (1, Sstate, ''c'') = Some entry_c"
    by (simp add: entry_at_def sample_tables) (simp add: entry_key_def sample_entries)
  show ?thesis
    using upsert_then_find [OF sample_wf proj, of 5 7 8 Sstate "''c''" "''eeee''"] old
    by (auto simp: Let_def)
qed

text \<open>
  (error). An \<open>upsert\<close> into a project that does not exist fails on its foreign key and, being one
  transaction, leaves the database as it was, refcounts included.
\<close>

theorem upsert_unknown_project:
  assumes "wf_db d" and "\<not> has_project d pid"
  shows "upsert now1 now pid k p hash sz d = (Err (Database ForeignKeyViolation), d)"
  using assms by (rule upsert_no_project)

theorem upsert_unknown_project_witness:
  "upsert 7 8 9 Sstate ''c'' ''eeee'' 5 sample_db = (Err (Database ForeignKeyViolation), sample_db)"
  by (rule upsert_unknown_project [OF sample_wf]) (simp add: has_project_def sample_tables)

text \<open>
  (functional). \<open>delete\<close> removes exactly the named entry of the named project and one reference
  to its blob; an id of another project is \<open>NotFound\<close> and nothing changes.
\<close>

theorem entries_delete_exact:
  assumes "wf_db d"
  shows "case fst (entries_delete pid i d) of
      Ok _ \<Rightarrow> (\<exists>e\<in>set (db_entries d). e_project_id e = pid \<and> e_id e = i \<and>
          set (db_entries (snd (entries_delete pid i d))) = set (db_entries d) - {e} \<and>
          (\<forall>h. refcount (snd (entries_delete pid i d)) h =
             refcount d h - (if h = e_blob_hash e then 1 else 0)))
    | Err err \<Rightarrow> err = NotFound (''entry '' @ dec_int i) \<and> snd (entries_delete pid i d) = d \<and>
        (\<forall>e\<in>set (db_entries d). e_project_id e = pid \<longrightarrow> e_id e \<noteq> i)
    | Panic \<Rightarrow> False"
proof (cases "\<exists>e\<in>set (db_entries d). e_project_id e = pid \<and> e_id e = i")
  case True
  then obtain e where e: "e \<in> set (db_entries d)" "e_project_id e = pid" "e_id e = i" by blast
  have "entries_delete pid i d = (Ok (), evict1 e d)"
    using entries_delete_Ok [OF assms e(1)] e by simp
  then show ?thesis
    using e evict1_other_rows [OF assms e(1)] refcount_evict1 [OF assms e(1)]
    by (auto intro!: bexI [of _ e] simp del: evict1_frame)
next
  case False
  then show ?thesis using entries_delete_NotFound [of d pid i] by auto
qed

theorem entries_delete_exact_witness:
  "fst (entries_delete 2 1 sample_db) = Err (NotFound (''entry '' @ dec_int 1))"
  using entries_delete_exact [OF sample_wf, of 2 1]
  by (auto simp: sample_tables split: outcome.splits)

end
