(* ===== verification/Db_Entry_List.thy ===== *)
theory Db_Entry_List
  imports Db_Entries "HOL-Library.Product_Lexorder"
begin

text \<open>
  \<open>Entries::list\<close> (\<open>db/entries.rs\<close>): filters, sorting and keyset pagination. The dynamic SQL is
  read as a predicate on rows and an order; a bound JSON value is compared with a column as
  SQLite compares two values of one type, and where the types differ (only a hand-made cursor
  gets there) by the parameter \<open>mixed\<close>. Base64 and serde are the record \<open>cursor_codec\<close>.
  The locale \<open>keyset\<close> is the argument behind keyset pagination, interpreted on every sort order.
\<close>

section \<open>Sorting\<close>

datatype sort_field = ByPath | ByLastAccessed | BySize | ByCreatedAt
datatype sort_order = Asc | Desc

datatype sql_value = SqlInt int | SqlReal string | SqlText string

fun sql_rank :: "sql_value \<Rightarrow> nat \<times> int \<times> string" where
  "sql_rank (SqlInt i) = (0, i, [])"
| "sql_rank (SqlReal r) = (1, 0, r)"
| "sql_rank (SqlText s) = (2, 0, s)"

lemma sql_rank_inj [simp]: "sql_rank a = sql_rank b \<longleftrightarrow> a = b"
  by (cases a; cases b) auto

text \<open>The order of the values of one column: integers by value, texts by their bytes.\<close>

instantiation sql_value :: linorder
begin

definition less_eq_sql_value :: "sql_value \<Rightarrow> sql_value \<Rightarrow> bool" where
  "less_eq_sql_value a b \<longleftrightarrow> sql_rank a \<le> sql_rank b"

definition less_sql_value :: "sql_value \<Rightarrow> sql_value \<Rightarrow> bool" where
  "less_sql_value a b \<longleftrightarrow> sql_rank a < sql_rank b"

instance
  by standard
     (auto simp only: less_eq_sql_value_def less_sql_value_def sql_rank_inj [symmetric]
       less_le_not_le order_trans)

end

text \<open>\<open>SortField::column\<close>: the column a field sorts by.\<close>

fun column :: "sort_field \<Rightarrow> entry \<Rightarrow> sql_value" where
  "column ByPath e = SqlText (e_path e)"
| "column ByLastAccessed e = SqlInt (e_last_accessed e)"
| "column BySize e = SqlInt (e_size_bytes e)"
| "column ByCreatedAt e = SqlInt (e_id e)"

section \<open>Cursors\<close>

text \<open>A JSON value, as far as \<open>bind_json\<close> tells them apart; other numbers and composites by their text.\<close>

datatype json = JNull | JBool bool | JI64 int | JNumber string | JString string | JComposite string

record cursor =
  cu_sv :: json
  cu_id :: int

record cursor_codec =
  cc_encode :: "cursor \<Rightarrow> string"
  cc_decode :: "string \<Rightarrow> string + cursor"

definition cursor_decode :: "cursor_codec \<Rightarrow> string \<Rightarrow> cursor outcome" where
  "cursor_decode codec s =
     (case cc_decode codec s of
        Inl e \<Rightarrow> Err (InvalidInput (''bad cursor: '' @ e))
      | Inr c \<Rightarrow> Ok c)"

definition codec_ok :: "cursor_codec \<Rightarrow> bool" where
  "codec_ok codec \<longleftrightarrow> (\<forall>c. cc_decode codec (cc_encode codec c) = Inr c)"

fun sort_value_of :: "entry \<Rightarrow> sort_field \<Rightarrow> json" where
  "sort_value_of e ByPath = JString (e_path e)"
| "sort_value_of e ByLastAccessed = JI64 (e_last_accessed e)"
| "sort_value_of e BySize = JI64 (e_size_bytes e)"
| "sort_value_of e ByCreatedAt = JI64 (e_id e)"

fun bind_json :: "json \<Rightarrow> sql_value" where
  "bind_json (JI64 i) = SqlInt i"
| "bind_json (JNumber r) = SqlReal r"
| "bind_json (JString s) = SqlText s"
| "bind_json JNull = SqlText ''null''"
| "bind_json (JBool True) = SqlText ''true''"
| "bind_json (JBool False) = SqlText ''false''"
| "bind_json (JComposite t) = SqlText t"

lemma bind_sort_value [simp]: "bind_json (sort_value_of e f) = column f e"
  by (cases f) simp_all

datatype ord = Lt | Eq | Gt

fun same_type :: "sql_value \<Rightarrow> sql_value \<Rightarrow> bool" where
  "same_type (SqlInt _) (SqlInt _) = True"
| "same_type (SqlText _) (SqlText _) = True"
| "same_type _ _ = False"

definition sql_compare :: "(sql_value \<Rightarrow> sql_value \<Rightarrow> ord) \<Rightarrow> sql_value \<Rightarrow> sql_value \<Rightarrow> ord" where
  "sql_compare mixed a b =
     (if same_type a b then (if a < b then Lt else if a = b then Eq else Gt) else mixed a b)"

section \<open>LIKE\<close>

text \<open>
  SQLite's \<open>LIKE\<close>: \<open>%\<close> matches any text, \<open>_\<close> one UTF-8 character, letters of ASCII match in
  either case.
\<close>

definition ascii_lower :: "char \<Rightarrow> char" where
  "ascii_lower c =
     (if 65 \<le> (of_char c :: nat) \<and> (of_char c :: nat) \<le> 90 then char_of ((of_char c :: nat) + 32) else c)"

definition skip_utf8 :: "char \<Rightarrow> string \<Rightarrow> string" where
  "skip_utf8 c cs =
     (if 192 \<le> (of_char c :: nat)
      then dropWhile (\<lambda>x. 128 \<le> (of_char x :: nat) \<and> (of_char x :: nat) < 192) cs else cs)"

lemma length_skip_utf8: "length (skip_utf8 c cs) \<le> length cs"
  by (simp add: skip_utf8_def length_dropWhile_le)

function like :: "string \<Rightarrow> string \<Rightarrow> bool" where
  "like [] s \<longleftrightarrow> s = []"
| "like (p # ps) [] \<longleftrightarrow> p = CHR ''%'' \<and> like ps []"
| "like (p # ps) (c # cs) \<longleftrightarrow>
     (if p = CHR ''%'' then like ps (c # cs) \<or> like (p # ps) cs
      else if p = CHR ''_'' then like ps (skip_utf8 c cs)
      else ascii_lower p = ascii_lower c \<and> like ps cs)"
  by pat_completeness auto
termination
  by (relation "measure (\<lambda>(p, s). length p + length s)")
     (auto intro: le_less_trans [OF length_skip_utf8])

section \<open>The query\<close>

record list_filter =
  lf_kind :: "kind option"
  lf_pinned :: "bool option"
  lf_path_prefix :: "string option"
  lf_sort :: "sort_field option"
  lf_order :: "sort_order option"
  lf_limit :: "int option"
  lf_cursor :: "string option"

record page =
  pg_entries :: "entry list"
  pg_next_cursor :: "string option"
  pg_has_more :: bool

definition lf_sort_field :: "list_filter \<Rightarrow> sort_field" where
  "lf_sort_field f = (case lf_sort f of None \<Rightarrow> ByLastAccessed | Some s \<Rightarrow> s)"

definition lf_sort_order :: "list_filter \<Rightarrow> sort_order" where
  "lf_sort_order f = (case lf_order f of None \<Rightarrow> Desc | Some ord \<Rightarrow> ord)"

definition lf_page_limit :: "list_filter \<Rightarrow> int" where
  "lf_page_limit f = max 1 (min 1000 (case lf_limit f of None \<Rightarrow> 100 | Some l \<Rightarrow> l))"

definition matches :: "int \<Rightarrow> list_filter \<Rightarrow> entry \<Rightarrow> bool" where
  "matches project_id f e \<longleftrightarrow>
     e_project_id e = project_id \<and>
     (case lf_kind f of None \<Rightarrow> True | Some k \<Rightarrow> e_kind e = k) \<and>
     (case lf_pinned f of None \<Rightarrow> True | Some p \<Rightarrow> e_pinned e = p) \<and>
     (case lf_path_prefix f of None \<Rightarrow> True | Some prefix \<Rightarrow> like (prefix @ ''%'') (e_path e))"

text \<open>\<open>col cmp ? OR (col = ? AND id cmp ?)\<close>\<close>

definition past_cursor ::
  "(sql_value \<Rightarrow> sql_value \<Rightarrow> ord) \<Rightarrow> sort_field \<Rightarrow> sort_order \<Rightarrow> cursor \<Rightarrow> entry \<Rightarrow> bool" where
  "past_cursor mixed srt order cur e \<longleftrightarrow>
     (let cmp = sql_compare mixed (column srt e) (bind_json (cu_sv cur)) in
      case order of
        Asc \<Rightarrow> cmp = Gt \<or> (cmp = Eq \<and> cu_id cur < e_id e)
      | Desc \<Rightarrow> cmp = Lt \<or> (cmp = Eq \<and> e_id e < cu_id cur))"

text \<open>\<open>ORDER BY col ord, id ord\<close>: ids are unique, so descending is the reverse of ascending.\<close>

definition order_by :: "sort_field \<Rightarrow> sort_order \<Rightarrow> entry list \<Rightarrow> entry list" where
  "order_by srt order es =
     (let up = sort_key (\<lambda>e. (column srt e, e_id e)) es in
      case order of Asc \<Rightarrow> up | Desc \<Rightarrow> rev up)"

definition entries_list ::
  "cursor_codec \<Rightarrow> (sql_value \<Rightarrow> sql_value \<Rightarrow> ord) \<Rightarrow> int \<Rightarrow> list_filter \<Rightarrow> (db, page) op" where
  "entries_list codec mixed project_id f =
     (let srt = lf_sort_field f; order = lf_sort_order f; limit = lf_page_limit f in
      andthen
        (case lf_cursor f of
           None \<Rightarrow> ret None
         | Some c \<Rightarrow> query (\<lambda>_. case cursor_decode codec c of
             Ok cur \<Rightarrow> Ok (Some cur) | Err e \<Rightarrow> Err e | Panic \<Rightarrow> Panic))
        (\<lambda>cur. query (\<lambda>d.
           let hit = (\<lambda>e. matches project_id f e \<and>
                 (case cur of None \<Rightarrow> True | Some c \<Rightarrow> past_cursor mixed srt order c e));
               fetched = sql_limit (limit + 1) (order_by srt order (filter hit (db_entries d)));
               has_more = limit < int (length fetched);
               rows = (if has_more then take (nat limit) fetched else fetched)
           in Ok \<lparr>pg_entries = rows,
                 pg_next_cursor =
                   (if has_more
                    then Some (cc_encode codec \<lparr>cu_sv = sort_value_of (last rows) srt, cu_id = e_id (last rows)\<rparr>)
                    else None),
                 pg_has_more = has_more\<rparr>)))"

section \<open>Keyset pagination\<close>

locale keyset =
  fixes before :: "'r \<Rightarrow> 'r \<Rightarrow> bool"
  assumes before_irrefl: "\<not> before r r"
    and before_trans: "before a b \<Longrightarrow> before b c \<Longrightarrow> before a c"
begin

lemma rest_after:
  assumes "sorted_wrt before (xs @ r # ys)"
  shows "filter (before r) (xs @ r # ys) = ys"
proof -
  have "\<not> before r x" if "x \<in> set xs" for x
    using assms that before_irrefl before_trans [of x r x] by (auto simp: sorted_wrt_append)
  moreover have "before r y" if "y \<in> set ys" for y
    using assms that by (auto simp: sorted_wrt_append)
  ultimately show ?thesis using before_irrefl by (simp add: filter_empty_conv)
qed

text \<open>A page of \<open>n\<close> rows and what follows it.\<close>

lemma page_split:
  assumes sorted: "sorted_wrt before rows" and n: "0 < n" "n < length rows"
  shows "filter (before (last (take n rows))) rows = drop n rows"
proof -
  have "take n rows \<noteq> []" using n by auto
  then have "rows = butlast (take n rows) @ last (take n rows) # drop n rows"
    by (metis append.assoc append_Cons append_Nil append_butlast_last_id append_take_drop_id)
  then show ?thesis using sorted rest_after by metis
qed

text \<open>Reading page after page, each after the last row of the one before it.\<close>

fun pages :: "nat \<Rightarrow> nat \<Rightarrow> 'r list \<Rightarrow> 'r list option" where
  "pages 0 n rows = None"
| "pages (Suc fuel) n rows =
     (if length rows \<le> n then Some rows
      else map_option ((@) (take n rows)) (pages fuel n (filter (before (last (take n rows))) rows)))"

lemma pages_all:
  "sorted_wrt before rows \<Longrightarrow> 0 < n \<Longrightarrow> length rows < fuel \<Longrightarrow> pages fuel n rows = Some rows"
proof (induction fuel arbitrary: rows)
  case 0
  then show ?case by simp
next
  case (Suc fuel)
  show ?case
  proof (cases "length rows \<le> n")
    case False
    then have rest: "filter (before (last (take n rows))) rows = drop n rows"
      using page_split Suc.prems by simp
    have "pages fuel n (drop n rows) = Some (drop n rows)"
      using Suc.prems False by (intro Suc.IH) (auto simp: sorted_wrt_drop)
    then show ?thesis using False rest by simp
  qed simp
qed

end

text \<open>The order of a listing: by column and id, in either direction.\<close>

definition listed_before :: "sort_field \<Rightarrow> sort_order \<Rightarrow> entry \<Rightarrow> entry \<Rightarrow> bool" where
  "listed_before srt order a b \<longleftrightarrow>
     (case order of
        Asc \<Rightarrow> (column srt a, e_id a) < (column srt b, e_id b)
      | Desc \<Rightarrow> (column srt b, e_id b) < (column srt a, e_id a))"

interpretation listing: keyset "listed_before srt order" for srt order
  by unfold_locales (auto simp: listed_before_def split: sort_order.splits)

lemma same_type_column [simp]: "same_type (column srt a) (column srt b)"
  by (cases srt) simp_all

lemma past_cursor_of_row:
  "past_cursor mixed srt order \<lparr>cu_sv = sort_value_of r srt, cu_id = e_id r\<rparr> e \<longleftrightarrow>
   listed_before srt order r e"
  by (cases order) (auto simp: past_cursor_def listed_before_def sql_compare_def Let_def)

lemma set_order_by [simp]: "set (order_by srt order es) = set es"
  by (simp add: order_by_def Let_def split: sort_order.split)

lemma filter_order_by: "filter P (order_by srt order es) = order_by srt order (filter P es)"
  by (simp add: order_by_def Let_def rev_filter split: sort_order.split flip: filter_sort)

lemma order_by_sorted:
  assumes "distinct (map e_id es)"
  shows "sorted_wrt (listed_before srt order) (order_by srt order es)"
proof -
  let ?key = "\<lambda>e. (column srt e, e_id e)"
  let ?up = "sort_key ?key es"
  have "distinct (map e_id ?up)" using assms by (simp add: distinct_map)
  then have "distinct (map ?key ?up)" by (auto simp: distinct_map inj_on_def)
  moreover have "sorted (map ?key ?up)" by (rule sorted_sort_key)
  ultimately have "sorted_wrt (<) (map ?key ?up)" by (simp add: strict_sorted_iff)
  then have up: "sorted_wrt (\<lambda>a b. ?key a < ?key b) ?up" by (simp add: sorted_wrt_map)
  show ?thesis
  proof (cases order)
    case Asc
    then show ?thesis using up by (simp add: order_by_def listed_before_def [abs_def])
  next
    case Desc
    then show ?thesis using up by (simp add: order_by_def listed_before_def [abs_def] sorted_wrt_rev)
  qed
qed

section \<open>Reading a listing page by page\<close>

text \<open>What a client does with \<open>next_cursor\<close>, given at most \<open>fuel\<close> requests.\<close>

fun read_all ::
  "cursor_codec \<Rightarrow> (sql_value \<Rightarrow> sql_value \<Rightarrow> ord) \<Rightarrow> int \<Rightarrow> list_filter \<Rightarrow> db \<Rightarrow> nat \<Rightarrow> entry list option"
where
  "read_all codec mixed pid f d 0 = None"
| "read_all codec mixed pid f d (Suc fuel) =
     (case fst (entries_list codec mixed pid f d) of
        Ok pg \<Rightarrow>
          (case pg_next_cursor pg of
             None \<Rightarrow> Some (pg_entries pg)
           | Some c \<Rightarrow> map_option ((@) (pg_entries pg))
               (read_all codec mixed pid (f\<lparr>lf_cursor := Some c\<rparr>) d fuel))
      | _ \<Rightarrow> None)"

definition listing_rows :: "int \<Rightarrow> list_filter \<Rightarrow> db \<Rightarrow> entry list" where
  "listing_rows pid f d =
     order_by (lf_sort_field f) (lf_sort_order f) (filter (matches pid f) (db_entries d))"

lemma filter_ignores_cursor [simp]:
  "lf_sort_field (f\<lparr>lf_cursor := c\<rparr>) = lf_sort_field f"
  "lf_sort_order (f\<lparr>lf_cursor := c\<rparr>) = lf_sort_order f"
  "lf_page_limit (f\<lparr>lf_cursor := c\<rparr>) = lf_page_limit f"
  "matches pid (f\<lparr>lf_cursor := c\<rparr>) = matches pid f"
  by (simp_all add: lf_sort_field_def lf_sort_order_def lf_page_limit_def matches_def fun_eq_iff)

lemma page_limit_bounds: "1 \<le> lf_page_limit f" "lf_page_limit f \<le> 1000"
  by (simp_all add: lf_page_limit_def)

text \<open>The page of a cursor, in terms of the rows past it.\<close>

lemma entries_list_page:
  assumes "case cur of None \<Rightarrow> lf_cursor f = None
    | Some c \<Rightarrow> \<exists>text. lf_cursor f = Some text \<and> cc_decode codec text = Inr c"
    and rows: "rows = filter (\<lambda>e. case cur of None \<Rightarrow> True
      | Some c \<Rightarrow> past_cursor mixed (lf_sort_field f) (lf_sort_order f) c e) (listing_rows pid f d)"
  shows "fst (entries_list codec mixed pid f d) =
    (let n = nat (lf_page_limit f) in
     Ok (if length rows \<le> n then \<lparr>pg_entries = rows, pg_next_cursor = None, pg_has_more = False\<rparr>
         else \<lparr>pg_entries = take n rows,
               pg_next_cursor = Some (cc_encode codec
                 \<lparr>cu_sv = sort_value_of (last (take n rows)) (lf_sort_field f), cu_id = e_id (last (take n rows))\<rparr>),
               pg_has_more = True\<rparr>))"
proof -
  let ?n = "nat (lf_page_limit f)"
  have lim: "lf_page_limit f = int ?n" "nat (lf_page_limit f + 1) = Suc ?n"
    using page_limit_bounds(1) [of f] by simp_all
  have hit: "order_by (lf_sort_field f) (lf_sort_order f) (filter (\<lambda>e. matches pid f e \<and>
      (case cur of None \<Rightarrow> True | Some c \<Rightarrow> past_cursor mixed (lf_sort_field f) (lf_sort_order f) c e))
      (db_entries d)) = rows"
    by (simp add: rows listing_rows_def filter_order_by conj_commute)
  have fetched: "sql_limit (lf_page_limit f + 1) rows = take (Suc ?n) rows"
    using page_limit_bounds(1) [of f] lim by (simp add: sql_limit_def)
  let ?dec = "case lf_cursor f of None \<Rightarrow> ret None
       | Some c \<Rightarrow> query (\<lambda>_. case cursor_decode codec c of
           Ok cur \<Rightarrow> Ok (Some cur) | Err e \<Rightarrow> Err e | Panic \<Rightarrow> Panic)"
  have dec: "?dec d = (Ok cur, d)"
    using assms(1) by (auto simp: cursor_decode_def split: option.splits)
  have more: "lf_page_limit f < int (length (take (Suc ?n) rows)) \<longleftrightarrow> \<not> length rows \<le> ?n"
  proof -
    obtain n where "lf_page_limit f = int n" using lim(1) by blast
    then show ?thesis by auto
  qed
  show ?thesis
    unfolding entries_list_def Let_def andthen_Ok [where m = ?dec, OF dec]
    by (simp only: query_apply fst_conv hit fetched more) (auto simp: min_absorb1)
qed

lemma read_all_rows:
  assumes codec: "codec_ok codec" and ids: "distinct (map e_id (db_entries d))"
    and cur: "case cur of None \<Rightarrow> lf_cursor f = None
      | Some c \<Rightarrow> lf_cursor f = Some (cc_encode codec c)"
    and rows: "rows = filter (\<lambda>e. case cur of None \<Rightarrow> True
      | Some c \<Rightarrow> past_cursor mixed (lf_sort_field f) (lf_sort_order f) c e) (listing_rows pid f d)"
    and suffix: "\<exists>pre. listing_rows pid f d = pre @ rows"
  shows "read_all codec mixed pid f d fuel =
    listing.pages (lf_sort_field f) (lf_sort_order f) fuel (nat (lf_page_limit f)) rows"
  using cur rows suffix
proof (induction fuel arbitrary: f cur rows)
  case 0
  then show ?case by simp
next
  case (Suc fuel)
  let ?n = "nat (lf_page_limit f)"
  let ?sf = "lf_sort_field f" and ?so = "lf_sort_order f"
  have n: "0 < ?n" using page_limit_bounds(1) [of f] by simp
  have page: "fst (entries_list codec mixed pid f d) =
    (let n = ?n in
     Ok (if length rows \<le> n then \<lparr>pg_entries = rows, pg_next_cursor = None, pg_has_more = False\<rparr>
         else \<lparr>pg_entries = take n rows,
               pg_next_cursor = Some (cc_encode codec
                 \<lparr>cu_sv = sort_value_of (last (take n rows)) ?sf, cu_id = e_id (last (take n rows))\<rparr>),
               pg_has_more = True\<rparr>))"
    using codec Suc.prems(1) by (intro entries_list_page [OF _ Suc.prems(2)])
      (auto simp: codec_ok_def split: option.splits)
  show ?case
  proof (cases "length rows \<le> ?n")
    case True
    then show ?thesis using page by (simp add: Let_def)
  next
    case False
    let ?r = "last (take ?n rows)"
    let ?c = "\<lparr>cu_sv = sort_value_of ?r ?sf, cu_id = e_id ?r\<rparr>"
    let ?f = "f\<lparr>lf_cursor := Some (cc_encode codec ?c)\<rparr>"
    obtain pre where pre: "listing_rows pid f d = pre @ rows" using Suc.prems(3) by blast
    have "distinct (map e_id (filter (matches pid f) (db_entries d)))"
      using ids by (rule distinct_map_filter)
    from order_by_sorted [OF this] have sorted: "sorted_wrt (listed_before ?sf ?so) (pre @ rows)"
      by (simp add: listing_rows_def flip: pre)
    have "take ?n rows \<noteq> []" using n False by auto
    then have split: "pre @ rows = (pre @ butlast (take ?n rows)) @ ?r # drop ?n rows"
      by (metis append.assoc append_Cons append_Nil append_butlast_last_id append_take_drop_id)
    have after: "filter (listed_before ?sf ?so ?r) (pre @ rows) = drop ?n rows"
      using listing.rest_after sorted unfolding split by blast
    have same: "listing_rows pid ?f d = listing_rows pid f d" by (simp add: listing_rows_def)
    have "drop ?n rows = filter (\<lambda>e. case Some ?c of None \<Rightarrow> True
        | Some c \<Rightarrow> past_cursor mixed (lf_sort_field ?f) (lf_sort_order ?f) c e) (listing_rows pid ?f d)"
      unfolding same pre by (simp only: option.case filter_ignores_cursor past_cursor_of_row after)
    moreover have "\<exists>pre. listing_rows pid ?f d = pre @ drop ?n rows"
      unfolding same pre split by (metis append.assoc append_Cons append_Nil)
    ultimately have "read_all codec mixed pid ?f d fuel =
        listing.pages (lf_sort_field ?f) (lf_sort_order ?f) fuel (nat (lf_page_limit ?f)) (drop ?n rows)"
      by (intro Suc.IH [where cur = "Some ?c"]) simp_all
    moreover have "filter (listed_before ?sf ?so ?r) rows = drop ?n rows"
    proof -
      have "sorted_wrt (listed_before ?sf ?so) rows" using sorted by (simp add: sorted_wrt_append)
      then show ?thesis using listing.page_split n False by simp
    qed
    ultimately show ?thesis using page False by (simp add: Let_def)
  qed
qed

end
