(* ===== verification/Listing_Properties.thy ===== *)
theory Listing_Properties
  imports Db_Entry_List Samples
begin

text \<open>
  The properties of the entry listing: a client that follows the cursors reads every matching
  entry once, in order; no page, whatever its cursor, shows an entry of another project; the path
  filter finds every path with the prefix, and more.
\<close>

definition plain_filter :: list_filter where
  "plain_filter = \<lparr>lf_kind = None, lf_pinned = None, lf_path_prefix = None, lf_sort = Some BySize,
     lf_order = Some Asc, lf_limit = Some 1, lf_cursor = None\<rparr>"

text \<open>A codec for the witnesses: numbers in unary, a JSON value after its tag.\<close>

definition enc_int :: "int \<Rightarrow> string" where
  "enc_int i = (if i < 0 then CHR ''-'' # replicate (nat (- i)) CHR ''1''
    else CHR ''+'' # replicate (nat i) CHR ''1'')"

fun dec_unary :: "string \<Rightarrow> int" where
  "dec_unary [] = 0"
| "dec_unary (c # cs) = (if c = CHR ''-'' then - int (length cs) else int (length cs))"

fun enc_json :: "json \<Rightarrow> string" where
  "enc_json JNull = ''n''"
| "enc_json (JBool b) = (if b then ''t'' else ''f'')"
| "enc_json (JI64 i) = CHR ''i'' # enc_int i"
| "enc_json (JNumber r) = CHR ''r'' # r"
| "enc_json (JString t) = CHR ''s'' # t"
| "enc_json (JComposite t) = CHR ''c'' # t"

fun dec_json :: "string \<Rightarrow> json" where
  "dec_json [] = JNull"
| "dec_json (c # cs) =
     (if c = CHR ''t'' then JBool True else if c = CHR ''f'' then JBool False
      else if c = CHR ''i'' then JI64 (dec_unary cs) else if c = CHR ''r'' then JNumber cs
      else if c = CHR ''s'' then JString cs else if c = CHR ''c'' then JComposite cs else JNull)"

definition plain_codec :: cursor_codec where
  "plain_codec = \<lparr>
     cc_encode = (\<lambda>c. enc_int (cu_id c) @ CHR '';'' # enc_json (cu_sv c)),
     cc_decode = (\<lambda>s. if CHR '';'' \<notin> set s then Inl ''no separator''
       else Inr \<lparr>cu_sv = dec_json (tl (dropWhile (\<lambda>x. x \<noteq> CHR '';'') s)),
                 cu_id = dec_unary (takeWhile (\<lambda>x. x \<noteq> CHR '';'') s)\<rparr>)\<rparr>"

lemma plain_codec_ok: "codec_ok plain_codec"
proof -
  have int: "dec_unary (enc_int i) = i" "CHR '';'' \<notin> set (enc_int i)" for i
    by (simp_all add: enc_int_def)
  have json: "dec_json (enc_json v) = v" for v
    by (cases v) (simp_all add: int)
  have "takeWhile (\<lambda>x. x \<noteq> CHR '';'') (enc_int i @ CHR '';'' # t) = enc_int i"
    "dropWhile (\<lambda>x. x \<noteq> CHR '';'') (enc_int i @ CHR '';'' # t) = CHR '';'' # t" for i t
  proof -
    have all: "x \<in> set (enc_int i) \<Longrightarrow> x \<noteq> CHR '';''" for x using int(2) [of i] by auto
    show "takeWhile (\<lambda>x. x \<noteq> CHR '';'') (enc_int i @ CHR '';'' # t) = enc_int i"
      "dropWhile (\<lambda>x. x \<noteq> CHR '';'') (enc_int i @ CHR '';'' # t) = CHR '';'' # t"
      using all by (simp_all add: takeWhile_append2 dropWhile_append2)
  qed
  then show ?thesis by (simp add: codec_ok_def plain_codec_def int json)
qed

text \<open>
  C27 (functional, pagination). On an unchanging database, following \<open>next_cursor\<close> from the first
  page until there is none ends after at most one request per row and one more, and yields every
  matching entry exactly once, sorted by the requested column and then by id in the requested
  direction.
\<close>

theorem pagination_is_complete:
  assumes "wf_db d" and "codec_ok codec" and "lf_cursor f = None"
    and "length (filter (matches pid f) (db_entries d)) < fuel"
  shows "\<exists>es. read_all codec mixed pid f d fuel = Some es \<and> distinct es \<and>
    set es = {e \<in> set (db_entries d). matches pid f e} \<and>
    sorted_wrt (listed_before (lf_sort_field f) (lf_sort_order f)) es"
proof -
  let ?rows = "listing_rows pid f d"
  have ids: "distinct (map e_id (db_entries d))" using assms(1) by (rule wf_entry_row)
  have sorted: "sorted_wrt (listed_before (lf_sort_field f) (lf_sort_order f)) ?rows"
    unfolding listing_rows_def using ids by (intro order_by_sorted distinct_map_filter)
  have len: "length ?rows = length (filter (matches pid f) (db_entries d))"
    by (simp add: listing_rows_def order_by_def Let_def split: sort_order.split)
  have "read_all codec mixed pid f d fuel =
      listing.pages (lf_sort_field f) (lf_sort_order f) fuel (nat (lf_page_limit f)) ?rows"
    using assms(2,3) ids by (intro read_all_rows [where cur = None]) simp_all
  also have "\<dots> = Some ?rows"
    using sorted page_limit_bounds(1) [of f] assms(4) len by (intro listing.pages_all) simp_all
  finally have "read_all codec mixed pid f d fuel = Some ?rows" .
  moreover have "distinct ?rows"
    using wf_distinct_entries [OF assms(1)]
    by (simp add: listing_rows_def order_by_def Let_def split: sort_order.split)
  moreover have "set ?rows = {e \<in> set (db_entries d). matches pid f e}"
    by (simp add: listing_rows_def)
  ultimately show ?thesis using sorted by blast
qed

theorem pagination_is_complete_witness:
  "\<exists>es. read_all plain_codec (\<lambda>_ _. Lt) 1 plain_filter sample_db 5 = Some es \<and>
    set es = {entry_a, entry_b, entry_c}"
proof -
  have "lf_cursor plain_filter = None" by (simp add: plain_filter_def)
  moreover have "length (filter (matches 1 plain_filter) (db_entries sample_db)) < 5"
    by (rule le_less_trans [OF length_filter_le]) (simp add: sample_tables)
  ultimately obtain es where "read_all plain_codec (\<lambda>_ _. Lt) 1 plain_filter sample_db 5 = Some es"
    and "set es = {e \<in> set (db_entries sample_db). matches 1 plain_filter e}"
    using pagination_is_complete [OF sample_wf plain_codec_ok, of plain_filter 1 5] by blast
  moreover have "{e \<in> set (db_entries sample_db). matches 1 plain_filter e} =
      set (filter (matches 1 plain_filter) [entry_a, entry_b, entry_c, entry_d])"
    unfolding sample_tables set_filter ..
  moreover have "set (filter (matches 1 plain_filter) [entry_a, entry_b, entry_c, entry_d]) =
      {entry_a, entry_b, entry_c}"
    by (simp add: matches_def plain_filter_def)
  ultimately show ?thesis by auto
qed

text \<open>
  (safety). A page holds only entries of the requested project that match the filters, at most
  as many as the limit and never more than 1000, also for a forged cursor; and a listing writes
  nothing.
\<close>

theorem page_is_within_project:
  assumes "entries_list codec mixed pid f d = (Ok pg, d')"
  shows "(\<forall>e\<in>set (pg_entries pg). e \<in> set (db_entries d) \<and> e_project_id e = pid \<and> matches pid f e) \<and>
    int (length (pg_entries pg)) \<le> lf_page_limit f \<and> length (pg_entries pg) \<le> 1000 \<and>
    (pg_next_cursor pg \<noteq> None \<longleftrightarrow> pg_has_more pg) \<and> d' = d"
proof -
  obtain cur d1 where d1: "(case lf_cursor f of None \<Rightarrow> ret None
       | Some c \<Rightarrow> query (\<lambda>_. case cursor_decode codec c of
           Ok cur \<Rightarrow> Ok (Some cur) | Err e \<Rightarrow> Err e | Panic \<Rightarrow> Panic)) d = (Ok cur, d1)"
    and rest: "query (\<lambda>d.
           let hit = (\<lambda>e. matches pid f e \<and>
                 (case cur of None \<Rightarrow> True | Some c \<Rightarrow> past_cursor mixed (lf_sort_field f) (lf_sort_order f) c e));
               fetched = sql_limit (lf_page_limit f + 1)
                 (order_by (lf_sort_field f) (lf_sort_order f) (filter hit (db_entries d)));
               has_more = lf_page_limit f < int (length fetched);
               rows = (if has_more then take (nat (lf_page_limit f)) fetched else fetched)
           in Ok \<lparr>pg_entries = rows,
                 pg_next_cursor =
                   (if has_more
                    then Some (cc_encode codec \<lparr>cu_sv = sort_value_of (last rows) (lf_sort_field f), cu_id = e_id (last rows)\<rparr>)
                    else None),
                 pg_has_more = has_more\<rparr>) d1 = (Ok pg, d')"
    using assms unfolding entries_list_def Let_def by (elim andthen_OkE) blast
  have same: "d1 = d" "d' = d1"
    using d1 rest by (auto split: option.splits)
  define hit where "hit = (\<lambda>e. matches pid f e \<and>
      (case cur of None \<Rightarrow> True | Some c \<Rightarrow> past_cursor mixed (lf_sort_field f) (lf_sort_order f) c e))"
  define fetched where "fetched = sql_limit (lf_page_limit f + 1)
      (order_by (lf_sort_field f) (lf_sort_order f) (filter hit (db_entries d)))"
  have "pg = \<lparr>pg_entries = (if lf_page_limit f < int (length fetched)
        then take (nat (lf_page_limit f)) fetched else fetched),
      pg_next_cursor = (if lf_page_limit f < int (length fetched)
        then Some (cc_encode codec
          \<lparr>cu_sv = sort_value_of (last (if lf_page_limit f < int (length fetched)
              then take (nat (lf_page_limit f)) fetched else fetched)) (lf_sort_field f),
           cu_id = e_id (last (if lf_page_limit f < int (length fetched)
              then take (nat (lf_page_limit f)) fetched else fetched))\<rparr>) else None),
      pg_has_more = (lf_page_limit f < int (length fetched))\<rparr>"
    using rest unfolding same hit_def fetched_def Let_def by simp
  then have pg: "pg_entries pg = (if lf_page_limit f < int (length fetched)
      then take (nat (lf_page_limit f)) fetched else fetched)"
    "pg_next_cursor pg \<noteq> None \<longleftrightarrow> lf_page_limit f < int (length fetched)"
    "pg_has_more pg \<longleftrightarrow> lf_page_limit f < int (length fetched)"
    by simp_all
  have "set fetched \<subseteq> {e \<in> set (db_entries d). matches pid f e}"
    using sql_limit_set unfolding fetched_def by (fastforce simp: hit_def)
  then have "\<forall>e\<in>set (pg_entries pg). e \<in> set (db_entries d) \<and> matches pid f e"
    by (auto simp: pg(1) split: if_splits dest: in_set_takeD)
  moreover have "e_project_id e = pid" if "matches pid f e" for e
    using that by (simp add: matches_def)
  moreover have "int (length (pg_entries pg)) \<le> lf_page_limit f"
    using page_limit_bounds(1) [of f] by (simp add: pg(1))
  ultimately show ?thesis using pg(2,3) same page_limit_bounds(2) [of f] by auto
qed

theorem page_is_within_project_witness:
  "\<exists>pg d'. entries_list plain_codec (\<lambda>_ _. Lt) 1 plain_filter sample_db = (Ok pg, d') \<and>
    d' = sample_db \<and> length (pg_entries pg) \<le> 1000"
proof -
  obtain pg d' where "entries_list plain_codec (\<lambda>_ _. Lt) 1 plain_filter sample_db = (Ok pg, d')"
    by (simp add: entries_list_def Let_def plain_filter_def)
  with page_is_within_project [OF this] show ?thesis by blast
qed

text \<open>
  (error). A cursor that does not decode is refused as invalid input.
\<close>

theorem bad_cursor_is_refused:
  assumes "lf_cursor f = Some text" and "cc_decode codec text = Inl why"
  shows "entries_list codec mixed pid f d = (Err (InvalidInput (''bad cursor: '' @ why)), d)"
  using assms by (simp add: entries_list_def Let_def cursor_decode_def)

theorem bad_cursor_is_refused_witness:
  "fst (entries_list plain_codec (\<lambda>_ _. Lt) 1 (plain_filter\<lparr>lf_cursor := Some ''zzz''\<rparr>) sample_db) =
   Err (InvalidInput ''bad cursor: no separator'')"
  using bad_cursor_is_refused [of "plain_filter\<lparr>lf_cursor := Some ''zzz''\<rparr>" "''zzz''" plain_codec
      "''no separator''"]
  by (simp add: plain_codec_def)

section \<open>The path filter\<close>

lemma like_percent: "like ''%'' s"
  by (induction s) simp_all

lemma skip_utf8_self: "\<exists>k. skip_utf8 c s = drop k s"
proof (cases "192 \<le> (of_char c :: nat)")
  case True
  then show ?thesis by (auto simp: skip_utf8_def dropWhile_eq_drop)
qed (simp add: skip_utf8_def exI [of _ 0])

definition ascii :: "string \<Rightarrow> bool" where
  "ascii s \<longleftrightarrow> list_all (\<lambda>c. (of_char c :: nat) < 128) s"

text \<open>
  (functional). The path filter finds every path that starts with the (ASCII) prefix.
\<close>

theorem path_prefix_finds_prefix:
  assumes "ascii prefix"
  shows "like (prefix @ ''%'') (prefix @ rest)"
  using assms
proof (induction prefix)
  case Nil
  then show ?case by (simp only: append_Nil like_percent)
next
  case (Cons c cs)
  then have "(of_char c :: nat) < 128" and "ascii cs" by (simp_all add: ascii_def)
  then have "skip_utf8 c (cs @ rest) = cs @ rest" by (simp add: skip_utf8_def)
  moreover have IH: "like (cs @ ''%'') (cs @ rest)" using Cons.IH \<open>ascii cs\<close> by simp
  moreover have "like (''%'' @ cs @ ''%'') (cs @ rest)"
    using IH by (cases "cs @ rest") simp_all
  ultimately show ?case by auto
qed

theorem path_prefix_finds_prefix_witness: "like ''core/%'' ''core/zlib.tgz''"
  using path_prefix_finds_prefix [of "''core/''" "''zlib.tgz''"] by (simp add: ascii_def del: like.simps)

lemma lower_A: "ascii_lower CHR ''A'' = CHR ''a''" "ascii_lower CHR ''a'' = CHR ''a''"
  by code_simp+

text \<open>
  (negative). It is not an exact prefix filter: \<open>_\<close> and \<open>%\<close> in the prefix are wildcards, and case
  is ignored, so \<open>a_1\<close> also finds a path that starts with \<open>AX1\<close>.
\<close>

theorem path_prefix_overmatches:
  "\<exists>f e. lf_path_prefix f = Some ''a_1'' \<and> matches 1 f e \<and> take 3 (e_path e) = ''AX1''"
proof (intro exI conjI)
  let ?f = "plain_filter\<lparr>lf_path_prefix := Some ''a_1''\<rparr>"
  let ?e = "entry_a\<lparr>e_path := ''AX1/f''\<rparr>"
  show "lf_path_prefix ?f = Some ''a_1''" by simp
  show "matches 1 ?f ?e"
    by (simp add: matches_def plain_filter_def lower_A skip_utf8_def)
  show "take 3 (e_path ?e) = ''AX1''" by simp
qed

end
