(* ===== verification/Metrics.thy ===== *)
theory Metrics
  imports Marmotte_Prelude
begin

text \<open>
  The Prometheus collectors (\<open>metrics.rs\<close>). The registry belongs to the \<open>prometheus\<close> crate and is
  seen through the calls the code makes to it: its state is the list of these calls so far. A static
  in a \<open>LazyLock\<close> is registered by the first call that touches it; \<open>with_label_values\<close> panics where
  the number of values is not the number of label names, which is what \<open>call_ok\<close> excludes.
\<close>

section \<open>Collectors\<close>

datatype metric =
    HTTP_REQUESTS
  | HTTP_DURATION
  | STORAGE_BYTES_BY_PROJECT
  | STORAGE_BYTES_GLOBAL
  | STORAGE_BLOBS
  | CACHE_HITS
  | CACHE_MISSES
  | GC_RUNS
  | GC_EVICTED_BYTES
  | GC_EVICTED_ENTRIES

fun metric_name :: "metric \<Rightarrow> string" where
  "metric_name HTTP_REQUESTS = ''marmotte_http_requests_total''"
| "metric_name HTTP_DURATION = ''marmotte_http_request_duration_seconds''"
| "metric_name STORAGE_BYTES_BY_PROJECT = ''marmotte_storage_bytes''"
| "metric_name STORAGE_BYTES_GLOBAL = ''marmotte_storage_bytes_global''"
| "metric_name STORAGE_BLOBS = ''marmotte_storage_blobs''"
| "metric_name CACHE_HITS = ''marmotte_cache_hits_total''"
| "metric_name CACHE_MISSES = ''marmotte_cache_misses_total''"
| "metric_name GC_RUNS = ''marmotte_gc_runs_total''"
| "metric_name GC_EVICTED_BYTES = ''marmotte_gc_evicted_bytes_total''"
| "metric_name GC_EVICTED_ENTRIES = ''marmotte_gc_evicted_entries_total''"

fun label_names :: "metric \<Rightarrow> string list" where
  "label_names HTTP_REQUESTS = [''method'', ''route'', ''status'']"
| "label_names HTTP_DURATION = [''route'']"
| "label_names STORAGE_BYTES_BY_PROJECT = [''project'']"
| "label_names STORAGE_BYTES_GLOBAL = []"
| "label_names STORAGE_BLOBS = []"
| "label_names CACHE_HITS = [''kind'', ''project'']"
| "label_names CACHE_MISSES = [''kind'', ''project'']"
| "label_names GC_RUNS = [''dry_run'']"
| "label_names GC_EVICTED_BYTES = [''phase'']"
| "label_names GC_EVICTED_ENTRIES = [''phase'']"

section \<open>Calls\<close>

text \<open>The last three are calls on \<open>with_label_values(labels)\<close>: nothing more, \<open>reset()\<close>, \<open>inc()\<close>.\<close>

datatype metric_call =
    Force metric
  | Labels metric "string list"
  | Reset metric "string list"
  | Inc metric "string list"

definition metrics_init :: "metric_call list" where
  "metrics_init =
     [Force HTTP_REQUESTS, Force HTTP_DURATION, Force STORAGE_BYTES_BY_PROJECT,
      Force STORAGE_BYTES_GLOBAL, Force STORAGE_BLOBS, Force CACHE_HITS, Force CACHE_MISSES,
      Force GC_RUNS, Force GC_EVICTED_BYTES, Force GC_EVICTED_ENTRIES,
      Reset HTTP_REQUESTS [[], [], []], Labels HTTP_DURATION [[]],
      Labels STORAGE_BYTES_BY_PROJECT [[]], Labels CACHE_HITS [[], []],
      Labels CACHE_MISSES [[], []], Labels GC_RUNS [[]], Labels GC_EVICTED_BYTES [[]],
      Labels GC_EVICTED_ENTRIES [[]]]"

fun call_ok :: "metric_call \<Rightarrow> bool" where
  "call_ok (Force m) = True"
| "call_ok (Labels m labels) = (length labels = length (label_names m))"
| "call_ok (Reset m labels) = (length labels = length (label_names m))"
| "call_ok (Inc m labels) = (length labels = length (label_names m))"

definition incs :: "metric \<Rightarrow> string list \<Rightarrow> metric_call list \<Rightarrow> nat" where
  "incs m labels calls = length (filter (\<lambda>c. c = Inc m labels) calls)"

lemma metric_name_inj: "metric_name m = metric_name m' \<longleftrightarrow> m = m'"
  by (cases m; cases m') simp_all

lemma metrics_init_ok: "list_all call_ok metrics_init"
  by (simp add: metrics_init_def)

lemma incs_append [simp]: "incs m labels (calls @ calls') = incs m labels calls + incs m labels calls'"
  by (simp add: incs_def)

lemma incs_Nil [simp]: "incs m labels [] = 0"
  by (simp add: incs_def)

lemma incs_init: "incs m labels metrics_init = 0"
  by (simp add: incs_def metrics_init_def)

end
