(* ===== verification/Http.thy ===== *)
theory Http
  imports Gc_Orphans Auth Db_Entry_List Metrics
begin

text \<open>
  The common part of \<open>marmotte-server\<close>: the application state (\<open>state.rs\<close>), responses, the mapping
  of errors to RFC 7807 problems (\<open>error.rs\<close>), and the two authentication middlewares
  (\<open>middleware/auth_project.rs\<close>, \<open>middleware/auth_admin.rs\<close>). A task a handler spawns is put in
  the state, to be run at any later time. Base64 is a parameter.
\<close>

section \<open>State, requests, responses\<close>

datatype task = TouchTask int | GcTask

record app =
  ap_sys :: sys
  ap_project_cache :: "project_auth cache"
  ap_admin_cache :: "admin_auth cache"
  ap_tasks :: "task list"
  ap_metrics :: "metric_call list"

text \<open>A JSON value as a handler writes it; the fields of an object in the order of the source.\<close>

datatype jv = VNull | VBool bool | VInt int | VStr string | VArr "jv list" | VObj "(string \<times> jv) list"

text \<open>What does not change while the server runs, libraries included.\<close>

record server =
  sv_config :: config
  sv_root :: path
  sv_crypto :: crypto
  sv_project_moka :: "project_auth moka"
  sv_admin_moka :: "admin_auth moka"
  sv_base64 :: "string \<Rightarrow> bytes option"
  sv_display :: "core_error \<Rightarrow> string"
  sv_codec :: cursor_codec
  sv_mixed :: "sql_value \<Rightarrow> sql_value \<Rightarrow> ord"
  sv_audit_rank :: "int \<Rightarrow> nat"
  sv_json_text :: "jv \<Rightarrow> string"
  sv_json_parse :: "string \<Rightarrow> jv option"
  sv_encode_metrics :: "metric_call list \<Rightarrow> bytes option"

text \<open>
  The clock readings of a request in order, the name of its temporary file, its random bytes, the
  file system's faults, and what a collection in the request meets.
\<close>

record req_env =
  rq_now :: "nat \<Rightarrow> int"
  rq_uuid :: string
  rq_random :: bytes
  rq_salt :: bytes
  rq_rename_fault :: "io_error option"
  rq_open_fault :: "io_error option"
  rq_gc :: gc_env

datatype body = BEmpty | BText string | BBytes bytes | BProblem string nat string | BJson jv

record response =
  rs_status :: nat
  rs_headers :: "(string \<times> string) list"
  rs_body :: body

definition on_sys :: "(sys, 'a) op \<Rightarrow> (app, 'a) op" where
  "on_sys m = (\<lambda>s. let (r, y) = m (ap_sys s) in (r, s\<lparr>ap_sys := y\<rparr>))"

definition on_app_db :: "(db, 'a) op \<Rightarrow> (app, 'a) op" where
  "on_app_db m = on_sys (on_db m)"

definition spawn :: "task \<Rightarrow> (app, unit) op" where
  "spawn t = (\<lambda>s. (Ok (), s\<lparr>ap_tasks := ap_tasks s @ [t]\<rparr>))"

text \<open>\<open>m.with_label_values(labels).inc()\<close>\<close>

definition count_metric :: "metric \<Rightarrow> string list \<Rightarrow> (app, unit) op" where
  "count_metric m labels = (\<lambda>s. (Ok (), s\<lparr>ap_metrics := ap_metrics s @ [Inc m labels]\<rparr>))"

section \<open>Errors\<close>

definition status_and_title :: "core_error \<Rightarrow> nat \<times> string" where
  "status_and_title e =
     (case e of
        NotFound _ \<Rightarrow> (404, ''not_found'')
      | Forbidden _ \<Rightarrow> (403, ''forbidden'')
      | Unauthorized \<Rightarrow> (401, ''unauthorized'')
      | Conflict _ \<Rightarrow> (409, ''conflict'')
      | InvalidInput _ \<Rightarrow> (400, ''invalid_input'')
      | Quota _ \<Rightarrow> (507, ''quota_exceeded'')
      | Migration _ \<Rightarrow> (500, ''internal'')
      | Database _ \<Rightarrow> (500, ''internal'')
      | Io _ \<Rightarrow> (500, ''internal'')
      | Crypto _ \<Rightarrow> (500, ''internal'')
      | Config _ \<Rightarrow> (500, ''internal'')
      | Internal _ \<Rightarrow> (500, ''internal''))"

definition into_response :: "server \<Rightarrow> core_error \<Rightarrow> response" where
  "into_response sv e =
     \<lparr>rs_status = fst (status_and_title e),
      rs_headers = [(''content-type'', ''application/problem+json'')],
      rs_body = BProblem (snd (status_and_title e)) (fst (status_and_title e)) (sv_display sv e)\<rparr>"

text \<open>\<open>Result<Response, ApiError>\<close> as a response; a panic ends the connection without one.\<close>

definition render :: "server \<Rightarrow> (app, response) op \<Rightarrow> app \<Rightarrow> response option \<times> app" where
  "render sv m s =
     (case m s of
        (Ok r, s') \<Rightarrow> (Some r, s')
      | (Err e, s') \<Rightarrow> (Some (into_response sv e), s')
      | (Panic, s') \<Rightarrow> (None, s'))"

text \<open>\<open>(StatusCode, &str)\<close> as a response.\<close>

definition text_response :: "nat \<Rightarrow> string \<Rightarrow> response" where
  "text_response status t =
     \<lparr>rs_status = status, rs_headers = [(''content-type'', ''text/plain; charset=utf-8'')],
      rs_body = BText (t @ [CHR 0x0A])\<rparr>"

section \<open>Credentials in headers\<close>

definition strip_prefix :: "string \<Rightarrow> string \<Rightarrow> string option" where
  "strip_prefix p s = (if take (length p) s = p then Some (drop (length p) s) else None)"

definition split_once :: "char \<Rightarrow> string \<Rightarrow> (string \<times> string) option" where
  "split_once c s =
     (if c \<in> set s then Some (takeWhile (\<lambda>x. x \<noteq> c) s, tl (dropWhile (\<lambda>x. x \<noteq> c) s)) else None)"

text \<open>\<open>HeaderValue::to_str\<close> and \<open>HeaderValue::from_str\<close> accept visible ASCII and tabs.\<close>

definition visible_ascii :: "string \<Rightarrow> bool" where
  "visible_ascii s \<longleftrightarrow>
     list_all (\<lambda>c. (32 \<le> (of_char c :: nat) \<and> (of_char c :: nat) < 127) \<or> (of_char c :: nat) = 9) s"

text \<open>\<open>std::str::from_utf8\<close>: the well-formed sequences of Unicode, table 3-7.\<close>

definition cont :: "nat \<Rightarrow> bool" where
  "cont b \<longleftrightarrow> 128 \<le> b \<and> b < 192"

fun utf8_valid :: "nat list \<Rightarrow> bool" where
  "utf8_valid [] = True"
| "utf8_valid (a # bs) =
     (if a < 128 then utf8_valid bs
      else if 194 \<le> a \<and> a < 224 then
        (case bs of b # cs \<Rightarrow> cont b \<and> utf8_valid cs | _ \<Rightarrow> False)
      else if 224 \<le> a \<and> a < 240 then
        (case bs of
           b # c # cs \<Rightarrow> cont b \<and> cont c \<and> (a = 224 \<longrightarrow> 160 \<le> b) \<and> (a = 237 \<longrightarrow> b < 160) \<and> utf8_valid cs
         | _ \<Rightarrow> False)
      else if 240 \<le> a \<and> a < 245 then
        (case bs of
           b # c # d # cs \<Rightarrow> cont b \<and> cont c \<and> cont d \<and>
             (a = 240 \<longrightarrow> 144 \<le> b) \<and> (a = 244 \<longrightarrow> b < 144) \<and> utf8_valid cs
         | _ \<Rightarrow> False)
      else False)"

definition from_utf8 :: "bytes \<Rightarrow> string option" where
  "from_utf8 bs =
     (if utf8_valid (map unat bs) then Some (map (\<lambda>b. char_of (unat b)) bs) else None)"

record basic =
  ba_user :: string
  ba_pass :: string

definition authorization :: "(string \<times> string) list \<Rightarrow> string option" where
  "authorization headers =
     (case map_of headers ''authorization'' of
        None \<Rightarrow> None
      | Some raw \<Rightarrow> if visible_ascii raw then Some raw else None)"

definition parse_basic :: "server \<Rightarrow> (string \<times> string) list \<Rightarrow> basic option" where
  "parse_basic sv headers =
     Option.bind (authorization headers) (\<lambda>raw.
     Option.bind (strip_prefix ''Basic '' raw) (\<lambda>b64.
     Option.bind (sv_base64 sv b64) (\<lambda>decoded.
     Option.bind (from_utf8 decoded) (\<lambda>s.
     Option.bind (split_once CHR '':'' s) (\<lambda>(u, p).
     Some \<lparr>ba_user = u, ba_pass = p\<rparr>)))))"

definition parse_bearer :: "(string \<times> string) list \<Rightarrow> string option" where
  "parse_bearer headers = Option.bind (authorization headers) (strip_prefix ''Bearer '')"

section \<open>Middlewares\<close>

definition basic_challenge :: response where
  "basic_challenge =
     (text_response 401 ''unauthorized'')\<lparr>rs_headers :=
        [(''content-type'', ''text/plain; charset=utf-8''),
         (''www-authenticate'', ''Basic realm='' @ [CHR 0x22] @ ''marmotte'' @ [CHR 0x22])]\<rparr>"

definition bearer_unauthorized :: response where
  "bearer_unauthorized =
     text_response 401 ''unauthorized''"

definition project_middleware ::
  "server \<Rightarrow> req_env \<Rightarrow> (string \<times> string) list \<Rightarrow>
   (project_auth \<Rightarrow> app \<Rightarrow> response option \<times> app) \<Rightarrow> app \<Rightarrow> response option \<times> app" where
  "project_middleware sv rq headers handler s =
     (case parse_basic sv headers of
        None \<Rightarrow> (Some basic_challenge, s)
      | Some creds \<Rightarrow>
          (case authenticate_project (sv_crypto sv) (sv_project_moka sv) (rq_now rq 0)
                  (ba_user creds) (ba_pass creds) (sys_db (ap_sys s)) (ap_project_cache s) of
             (Ok a, c) \<Rightarrow> handler a (s\<lparr>ap_project_cache := c\<rparr>)
           | (Err e, c) \<Rightarrow>
               (if e = Unauthorized then (Some basic_challenge, s\<lparr>ap_project_cache := c\<rparr>)
                else (Some (into_response sv e), s\<lparr>ap_project_cache := c\<rparr>))
           | (Panic, c) \<Rightarrow> (None, s\<lparr>ap_project_cache := c\<rparr>)))"

definition admin_middleware ::
  "server \<Rightarrow> req_env \<Rightarrow> (string \<times> string) list \<Rightarrow>
   (admin_auth \<Rightarrow> app \<Rightarrow> response option \<times> app) \<Rightarrow> app \<Rightarrow> response option \<times> app" where
  "admin_middleware sv rq headers handler s =
     (case parse_bearer headers of
        None \<Rightarrow> (Some bearer_unauthorized, s)
      | Some token \<Rightarrow>
          (case authenticate_admin (sv_crypto sv) (sv_admin_moka sv) (rq_now rq 0)
                  token (sys_db (ap_sys s)) (ap_admin_cache s) of
             (Ok a, c) \<Rightarrow> handler a (s\<lparr>ap_admin_cache := c\<rparr>)
           | (Err e, c) \<Rightarrow>
               (if e = Unauthorized then (Some bearer_unauthorized, s\<lparr>ap_admin_cache := c\<rparr>)
                else (Some (into_response sv e), s\<lparr>ap_admin_cache := c\<rparr>))
           | (Panic, c) \<Rightarrow> (None, s\<lparr>ap_admin_cache := c\<rparr>)))"

section \<open>Lemmas\<close>

lemma on_sys_apply [simp]: "m (ap_sys s) = (r, y) \<Longrightarrow> on_sys m s = (r, s\<lparr>ap_sys := y\<rparr>)"
  by (simp add: on_sys_def)

lemma on_app_db_apply [simp]:
  "m (sys_db (ap_sys s)) = (r, d) \<Longrightarrow> on_app_db m s = (r, s\<lparr>ap_sys := (ap_sys s)\<lparr>sys_db := d\<rparr>\<rparr>)"
  by (simp add: on_app_db_def on_sys_def on_db_def)

lemma spawn_apply [simp]: "spawn t s = (Ok (), s\<lparr>ap_tasks := ap_tasks s @ [t]\<rparr>)"
  by (simp add: spawn_def)

lemma count_metric_apply [simp]:
  "count_metric m labels s = (Ok (), s\<lparr>ap_metrics := ap_metrics s @ [Inc m labels]\<rparr>)"
  by (simp add: count_metric_def)

text \<open>What an operation keeps of the cache and its files, the request and its answer aside.\<close>

lemma keeps_count_sys [keeps_intros]: "keeps (\<lambda>s. I (ap_sys s)) (count_metric m labels)"
  by (rule keepsI) simp

lemma keeps_spawn_sys [keeps_intros]: "keeps (\<lambda>s. I (ap_sys s)) (spawn t)"
  by (rule keepsI) simp

lemma keeps_on_sys: "keeps I m \<Longrightarrow> keeps (\<lambda>s. I (ap_sys s)) (on_sys m)"
  by (simp add: keeps_def on_sys_def split: prod.split) (metis snd_conv)

lemma keeps_app_query [keeps_intros]:
  "keeps (\<lambda>s. I (ap_sys s)) (on_app_db (query q))" "keeps (\<lambda>s. I (ap_sys s)) (on_sys (on_fs (query f)))"
  by (rule keepsI; simp add: on_app_db_def on_sys_def on_db_def on_fs_def)+

lemma snd_render [simp]: "snd (render sv m s) = snd (m s)"
  by (simp add: render_def split: prod.splits outcome.splits)

lemma on_app_db_same:
  assumes "\<And>d. snd (m d) = d"
  shows "ap_sys (snd (on_app_db m s)) = ap_sys s"
proof -
  obtain r d where m: "m (sys_db (ap_sys s)) = (r, d)" by fastforce
  then have "d = sys_db (ap_sys s)" using assms [of "sys_db (ap_sys s)"] by simp
  then show ?thesis using m by simp
qed

section \<open>The interface of a middleware\<close>

text \<open>
  What the routes rely on: a request is either answered without touching the cache, its files or
  the task queue, or it is handed to the handler with the identity that was accepted.
\<close>

locale gate =
  fixes enter :: "('a \<Rightarrow> app \<Rightarrow> response option \<times> app) \<Rightarrow> app \<Rightarrow> response option \<times> app"
    and accepts :: "app \<Rightarrow> ('a \<times> app) option"
  assumes refused: "accepts s = None \<Longrightarrow> ap_sys (snd (enter h s)) = ap_sys s \<and>
      ap_tasks (snd (enter h s)) = ap_tasks s \<and> ap_metrics (snd (enter h s)) = ap_metrics s \<and>
      enter h s = enter h' s"
    and accepted: "accepts s = Some (a, s1) \<Longrightarrow> enter h s = h a s1"
    and same: "accepts s = Some (a, s1) \<Longrightarrow> ap_sys s1 = ap_sys s \<and> ap_tasks s1 = ap_tasks s \<and>
      ap_metrics s1 = ap_metrics s"
begin

lemma change_accepted:
  assumes "ap_sys (snd (enter h s)) \<noteq> ap_sys s \<or> ap_tasks (snd (enter h s)) \<noteq> ap_tasks s"
  obtains a s1 where "accepts s = Some (a, s1)" and "enter h s = h a s1"
    and "ap_sys s1 = ap_sys s" and "ap_tasks s1 = ap_tasks s"
proof (cases "accepts s")
  case None
  then show ?thesis using refused [of s h] assms by simp
next
  case (Some p)
  then show ?thesis
    using that [of "fst p" "snd p"] accepted [of s "fst p" "snd p"] same [of s "fst p" "snd p"] by simp
qed

lemma enter_keeps:
  assumes "\<And>a s. I (ap_sys s) \<Longrightarrow> I (ap_sys (snd (h a s)))" and "I (ap_sys s)"
  shows "I (ap_sys (snd (enter h s)))"
proof (cases "accepts s")
  case None
  then show ?thesis using refused [of s h] assms(2) by simp
next
  case (Some p)
  then show ?thesis
    using assms accepted [of s "fst p" "snd p"] same [of s "fst p" "snd p"] by simp
qed

end

definition project_accepts ::
  "server \<Rightarrow> req_env \<Rightarrow> (string \<times> string) list \<Rightarrow> app \<Rightarrow> (project_auth \<times> app) option" where
  "project_accepts sv rq headers s =
     (case parse_basic sv headers of
        None \<Rightarrow> None
      | Some creds \<Rightarrow>
          (case authenticate_project (sv_crypto sv) (sv_project_moka sv) (rq_now rq 0)
                  (ba_user creds) (ba_pass creds) (sys_db (ap_sys s)) (ap_project_cache s) of
             (Ok a, c) \<Rightarrow> Some (a, s\<lparr>ap_project_cache := c\<rparr>)
           | _ \<Rightarrow> None))"

definition admin_accepts ::
  "server \<Rightarrow> req_env \<Rightarrow> (string \<times> string) list \<Rightarrow> app \<Rightarrow> (admin_auth \<times> app) option" where
  "admin_accepts sv rq headers s =
     (case parse_bearer headers of
        None \<Rightarrow> None
      | Some token \<Rightarrow>
          (case authenticate_admin (sv_crypto sv) (sv_admin_moka sv) (rq_now rq 0)
                  token (sys_db (ap_sys s)) (ap_admin_cache s) of
             (Ok a, c) \<Rightarrow> Some (a, s\<lparr>ap_admin_cache := c\<rparr>)
           | _ \<Rightarrow> None))"

interpretation project_gate: gate "project_middleware sv rq headers" "project_accepts sv rq headers"
  for sv rq headers
  by unfold_locales (auto simp: project_middleware_def project_accepts_def
      split: option.splits prod.splits outcome.splits)

interpretation admin_gate: gate "admin_middleware sv rq headers" "admin_accepts sv rq headers"
  for sv rq headers
  by unfold_locales (auto simp: admin_middleware_def admin_accepts_def
      split: option.splits prod.splits outcome.splits)

end
