(* ===== verification/Yocto_Routes.thy ===== *)
theory Yocto_Routes
  imports Http
begin

text \<open>
  The cache routes of the server (\<open>routes/yocto.rs\<close>): read (\<open>GET\<close>, \<open>HEAD\<close>) and write (\<open>PUT\<close>)
  of shared-state objects and downloads, behind the project middleware. A write is the upload
  into the store (\<open>put_store\<close>) followed by its registration in the database (\<open>put_commit\<close>);
  other tasks may run in between. Prometheus counters are left out.
\<close>

section \<open>Responses\<close>

text \<open>\<open>HeaderValue::from_str(...).expect(...)\<close>\<close>

definition expect_header :: "string \<Rightarrow> ('s, string) op" where
  "expect_header v = (if visible_ascii v then ret v else (\<lambda>s. (Panic, s)))"

definition quoted :: "string \<Rightarrow> string" where
  "quoted s = [CHR 0x22] @ s @ [CHR 0x22]"

definition immutable_header :: string where
  "immutable_header = ''public, immutable, max-age=31536000''"

definition ensure_project :: "project_auth \<Rightarrow> string \<Rightarrow> (app, unit) op" where
  "ensure_project auth url_project =
     (if pa_project_name auth \<noteq> url_project
      then fail (Forbidden ''url project does not match credential'') else ret ())"

definition not_found_text :: response where
  "not_found_text = text_response 404 ''not_found''"

definition miss_response :: "project_auth \<Rightarrow> kind \<Rightarrow> (app, response) op" where
  "miss_response auth kind =
     andthen (count_metric CACHE_MISSES [kind_as_str kind, pa_project_name auth]) (\<lambda>_.
     ret not_found_text)"

section \<open>Reading\<close>

definition get_one ::
  "server \<Rightarrow> req_env \<Rightarrow> project_auth \<Rightarrow> kind \<Rightarrow> string \<Rightarrow> string \<Rightarrow> bool \<Rightarrow> (app, response) op" where
  "get_one sv rq auth kind project_in_url path head_only =
     andthen (ensure_project auth project_in_url) (\<lambda>_.
     if \<not> allows_read (pa_role auth) then fail (Forbidden ''read'')
     else
       andthen (on_app_db (entries_find (pa_project_id auth) kind path)) (\<lambda>found.
       case found of
         None \<Rightarrow> fail (NotFound (kind_as_str kind @ '' '' @ path))
       | Some entry \<Rightarrow>
           andthen (expect_header (dec_int (e_size_bytes entry))) (\<lambda>content_length.
           andthen (expect_header (quoted (e_blob_hash entry))) (\<lambda>etag.
           let headers = [(''content-length'', content_length), (''etag'', etag),
                          (''cache-control'', immutable_header)]
           in if head_only then ret \<lparr>rs_status = 200, rs_headers = headers, rs_body = BEmpty\<rparr>
              else
                andthen (on_sys (on_fs (read_blob (rq_open_fault rq) (sv_root sv) (e_blob_hash entry))))
                  (\<lambda>content.
                andthen (spawn (TouchTask (e_id entry))) (\<lambda>_.
                andthen (count_metric CACHE_HITS [kind_as_str kind, pa_project_name auth]) (\<lambda>_.
                ret \<lparr>rs_status = 200, rs_headers = headers, rs_body = BBytes content\<rparr>)))))))"

text \<open>The four read handlers differ in the kind and in \<open>head_only\<close>; every \<open>NotFound\<close> is a miss.\<close>

definition read_handler ::
  "server \<Rightarrow> req_env \<Rightarrow> kind \<Rightarrow> bool \<Rightarrow> project_auth \<Rightarrow> string \<Rightarrow> string \<Rightarrow> app \<Rightarrow> response option \<times> app"
  where
  "read_handler sv rq kind head_only auth project path s =
     (case get_one sv rq auth kind project path head_only s of
        (Ok r, s') \<Rightarrow> (Some r, s')
      | (Err (NotFound _), s') \<Rightarrow> render sv (miss_response auth kind) s'
      | (Err e, s') \<Rightarrow> (Some (into_response sv e), s')
      | (Panic, s') \<Rightarrow> (None, s'))"

definition get_sstate ::
  "server \<Rightarrow> req_env \<Rightarrow> project_auth \<Rightarrow> string \<Rightarrow> string \<Rightarrow> app \<Rightarrow> response option \<times> app" where
  "get_sstate sv rq = read_handler sv rq Sstate False"

definition head_sstate ::
  "server \<Rightarrow> req_env \<Rightarrow> project_auth \<Rightarrow> string \<Rightarrow> string \<Rightarrow> app \<Rightarrow> response option \<times> app" where
  "head_sstate sv rq = read_handler sv rq Sstate True"

definition get_downloads ::
  "server \<Rightarrow> req_env \<Rightarrow> project_auth \<Rightarrow> string \<Rightarrow> string \<Rightarrow> app \<Rightarrow> response option \<times> app" where
  "get_downloads sv rq = read_handler sv rq Downloads False"

definition head_downloads ::
  "server \<Rightarrow> req_env \<Rightarrow> project_auth \<Rightarrow> string \<Rightarrow> string \<Rightarrow> app \<Rightarrow> response option \<times> app" where
  "head_downloads sv rq = read_handler sv rq Downloads True"

section \<open>Writing\<close>

text \<open>The checks and the upload: what \<open>do_put\<close> does before it touches the database.\<close>

definition put_store ::
  "server \<Rightarrow> req_env \<Rightarrow> project_auth \<Rightarrow> string \<Rightarrow> (io_error + bytes) list \<Rightarrow> (app, written) op" where
  "put_store sv rq auth project_in_url body =
     andthen (ensure_project auth project_in_url) (\<lambda>_.
     if \<not> allows_write (pa_role auth) then fail (Forbidden ''write'')
     else on_sys (on_fs
       (write_streamed (cr_sha256 (sv_crypto sv)) (rq_uuid rq) (rq_rename_fault rq) (sv_root sv) body)))"

text \<open>\<open>global_quota_bytes * u64::from(pct) / 100\<close> wraps in a release build.\<close>

definition trigger_threshold :: "gc_config \<Rightarrow> u64" where
  "trigger_threshold cfg = global_quota_bytes cfg * ucast (trigger_threshold_pct cfg) div 100"

definition soft_trigger :: "server \<Rightarrow> (app, unit) op" where
  "soft_trigger sv =
     andthen (on_app_db total_size) (\<lambda>total.
     let usage = (if total < 0 then 0 else as_u64 total) in
     if trigger_threshold (cfg_gc (sv_config sv)) < usage then spawn GcTask else ret ())"

text \<open>The registration of the upload: entry, counters, soft trigger, response.\<close>

definition put_commit ::
  "server \<Rightarrow> req_env \<Rightarrow> project_auth \<Rightarrow> kind \<Rightarrow> string \<Rightarrow> written \<Rightarrow> (app, response) op" where
  "put_commit sv rq auth kind path w =
     andthen (on_app_db (upsert (rq_now rq 1) (rq_now rq 2) (pa_project_id auth) kind path
                (w_hash w) (w_size_bytes w))) (\<lambda>_.
     andthen (on_app_db (bump (rq_now rq 3) (Some (pa_project_id auth)) ''put'' 1 (w_size_bytes w))) (\<lambda>_.
     andthen (soft_trigger sv) (\<lambda>_.
     andthen (expect_header (quoted (w_hash w))) (\<lambda>etag.
     ret \<lparr>rs_status = 201, rs_headers = [(''etag'', etag)], rs_body = BEmpty\<rparr>))))"

definition do_put ::
  "server \<Rightarrow> req_env \<Rightarrow> project_auth \<Rightarrow> kind \<Rightarrow> string \<Rightarrow> string \<Rightarrow> (io_error + bytes) list \<Rightarrow>
   (app, response) op" where
  "do_put sv rq auth kind project_in_url path body =
     andthen (put_store sv rq auth project_in_url body) (put_commit sv rq auth kind path)"

definition put_sstate ::
  "server \<Rightarrow> req_env \<Rightarrow> project_auth \<Rightarrow> string \<Rightarrow> string \<Rightarrow> (io_error + bytes) list \<Rightarrow> app \<Rightarrow>
   response option \<times> app" where
  "put_sstate sv rq auth project path body = render sv (do_put sv rq auth Sstate project path body)"

definition put_downloads ::
  "server \<Rightarrow> req_env \<Rightarrow> project_auth \<Rightarrow> string \<Rightarrow> string \<Rightarrow> (io_error + bytes) list \<Rightarrow> app \<Rightarrow>
   response option \<times> app" where
  "put_downloads sv rq auth project filename body =
     render sv (do_put sv rq auth Downloads project filename body)"

section \<open>The router\<close>

datatype http_method = GET | HEAD | PUT "(io_error + bytes) list"

datatype target = SstateUrl string string | DownloadsUrl string string

definition yocto_handler ::
  "server \<Rightarrow> req_env \<Rightarrow> http_method \<Rightarrow> target \<Rightarrow> project_auth \<Rightarrow> app \<Rightarrow> response option \<times> app" where
  "yocto_handler sv rq m t auth =
     (case (t, m) of
        (SstateUrl project path, GET) \<Rightarrow> get_sstate sv rq auth project path
      | (SstateUrl project path, HEAD) \<Rightarrow> head_sstate sv rq auth project path
      | (SstateUrl project path, PUT body) \<Rightarrow> put_sstate sv rq auth project path body
      | (DownloadsUrl project file, GET) \<Rightarrow> get_downloads sv rq auth project file
      | (DownloadsUrl project file, HEAD) \<Rightarrow> head_downloads sv rq auth project file
      | (DownloadsUrl project file, PUT body) \<Rightarrow> put_downloads sv rq auth project file body)"

definition yocto_router ::
  "server \<Rightarrow> req_env \<Rightarrow> http_method \<Rightarrow> target \<Rightarrow> (string \<times> string) list \<Rightarrow> app \<Rightarrow>
   response option \<times> app" where
  "yocto_router sv rq m t headers = project_middleware sv rq headers (yocto_handler sv rq m t)"

text \<open>The tasks a handler spawned; their errors are only logged.\<close>

definition run_task :: "server \<Rightarrow> gc_env \<Rightarrow> task \<Rightarrow> app \<Rightarrow> app" where
  "run_task sv env t s =
     (case t of
        TouchTask i \<Rightarrow> snd (on_app_db (touch (ge_now env) i) s)
      | GcTask \<Rightarrow> snd (on_sys (gc_run env (cfg_gc (sv_config sv)) (sv_root sv) False) s))"

end
