(* ===== verification/Push.thy ===== *)
theory Push
  imports Yocto_Routes
begin

text \<open>
  The client command \<open>marmotte push\<close> (\<open>commands/push.rs\<close>): walk a directory tree, check every file
  with a conditional \<open>HEAD\<close>, upload what the server does not have, retry transient failures. What
  the client meets is a record \<open>net\<close> of functions on a world: sending a request, reading a file,
  sleeping. A directory tree is a datatype. The tasks of a run are taken one after the other, which is
  what the semaphore does for \<open>--concurrency 1\<close> (\<open>Push_Threads\<close> has them all at once); the text of a status
  and the joining of URLs are parameters.
\<close>

section \<open>Errors and outcomes\<close>

datatype cli_error =
    CliCore core_error
  | CliIo io_error
  | CliHttp string
  | CliUrlParse string
  | CliStripPrefix string
  | CliJoin string
  | CliOther string

datatype push_outcome = Pushed | Skipped

section \<open>The world\<close>

datatype client_request =
    HeadRequest string string string
  | PutRequest string string bytes

record client_response =
  cp_status :: nat
  cp_headers :: "(string \<times> string) list"

record 'w net =
  nt_send :: "client_request \<Rightarrow> 'w \<Rightarrow> (string + client_response) \<times> 'w"
  nt_read :: "path \<Rightarrow> 'w \<Rightarrow> (io_error + bytes) \<times> 'w"
  nt_sleep :: "nat \<Rightarrow> 'w \<Rightarrow> 'w"

section \<open>One file\<close>

definition RETRYABLE_STATUSES :: "nat list" where
  "RETRYABLE_STATUSES = [500, 502, 503, 504]"

definition MAX_RETRIES :: nat where
  "MAX_RETRIES = 5"

definition INITIAL_BACKOFF_MS :: nat where
  "INITIAL_BACKOFF_MS = 200"

definition is_success :: "nat \<Rightarrow> bool" where
  "is_success status \<longleftrightarrow> 200 \<le> status \<and> status < 300"

definition sha256_file :: "(bytes \<Rightarrow> string) \<Rightarrow> 'w net \<Rightarrow> path \<Rightarrow> 'w \<Rightarrow> (cli_error + string) \<times> 'w" where
  "sha256_file sha256 net p w =
     (case nt_read net p w of
        (Inl e, w') \<Rightarrow> (Inl (CliIo e), w')
      | (Inr content, w') \<Rightarrow> (Inr (sha256 content), w'))"

text \<open>What the answer to \<open>HEAD\<close> decides: \<open>True\<close> is to skip the file.\<close>

definition head_decision :: "(nat \<Rightarrow> string) \<Rightarrow> string \<Rightarrow> client_response \<Rightarrow> cli_error + bool" where
  "head_decision status_text etag resp =
     (if cp_status resp = 304 then Inr True
      else if cp_status resp = 200 then
        Inr (case map_of (cp_headers resp) ''etag'' of
               None \<Rightarrow> False
             | Some v \<Rightarrow> visible_ascii v \<and> v = etag)
      else if cp_status resp = 404 then Inr False
      else if is_success (cp_status resp) then Inr False
      else Inl (CliOther (''HEAD returned '' @ status_text (cp_status resp))))"

text \<open>The upload loop, after \<open>attempt\<close> attempts.\<close>

function put_loop ::
  "(nat \<Rightarrow> string) \<Rightarrow> 'w net \<Rightarrow> string \<Rightarrow> path \<Rightarrow> string \<Rightarrow> nat \<Rightarrow> 'w \<Rightarrow> (cli_error + push_outcome) \<times> 'w" where
  "put_loop status_text net url p auth attempt w =
     (case nt_read net p w of
        (Inl e, w1) \<Rightarrow> (Inl (CliIo e), w1)
      | (Inr body, w1) \<Rightarrow>
          (case nt_send net (PutRequest url auth body) w1 of
             (Inl e, w2) \<Rightarrow> (Inl (CliHttp e), w2)
           | (Inr resp, w2) \<Rightarrow>
               if is_success (cp_status resp) then (Inr Pushed, w2)
               else if cp_status resp \<in> set RETRYABLE_STATUSES \<and> attempt + 1 < MAX_RETRIES then
                 put_loop status_text net url p auth (attempt + 1)
                   (nt_sleep net (INITIAL_BACKOFF_MS * 2 ^ (attempt + 1)) w2)
               else (Inl (CliOther (''PUT '' @ url @ '': '' @ status_text (cp_status resp))), w2)))"
  by pat_completeness auto

termination
  by (relation "measure (\<lambda>(_, _, _, _, _, attempt, _). MAX_RETRIES - attempt)") auto

declare put_loop.simps [simp del]

definition push_one ::
  "(nat \<Rightarrow> string) \<Rightarrow> (bytes \<Rightarrow> string) \<Rightarrow> 'w net \<Rightarrow> string \<Rightarrow> path \<Rightarrow> string \<Rightarrow> bool \<Rightarrow> 'w \<Rightarrow>
   (cli_error + push_outcome) \<times> 'w" where
  "push_one status_text sha256 net url p auth dry_run w =
     (case sha256_file sha256 net p w of
        (Inl e, w1) \<Rightarrow> (Inl e, w1)
      | (Inr sha, w1) \<Rightarrow>
          (let etag = quoted sha in
           case nt_send net (HeadRequest url auth etag) w1 of
             (Inl e, w2) \<Rightarrow> (Inl (CliHttp e), w2)
           | (Inr resp, w2) \<Rightarrow>
               (case head_decision status_text etag resp of
                  Inl e \<Rightarrow> (Inl e, w2)
                | Inr True \<Rightarrow> (Inr Skipped, w2)
                | Inr False \<Rightarrow>
                    if dry_run then (Inr Pushed, w2)
                    else put_loop status_text net url p auth 0 w2)))"

section \<open>The directory tree\<close>

text \<open>
  A directory: the error of opening it, the entries it yields, the error that ends the listing. What
  is neither a file nor a directory is skipped.
\<close>

datatype node =
    FileNode
  | DirNode "io_error option" "(string \<times> node) list" "io_error option"
  | OtherNode

fun walk :: "path \<Rightarrow> node \<Rightarrow> path list \<Rightarrow> cli_error + path list"
  and walk_list :: "path \<Rightarrow> (string \<times> node) list \<Rightarrow> io_error option \<Rightarrow> path list \<Rightarrow> cli_error + path list"
where
  "walk rel (DirNode opn entries ending) out =
     (case opn of
        Some e \<Rightarrow> Inl (CliIo e)
      | None \<Rightarrow> walk_list rel entries ending out)"
| "walk rel FileNode out = Inr (out @ [rel])"
| "walk rel OtherNode out = Inr out"
| "walk_list rel [] ending out =
     (case ending of Some e \<Rightarrow> Inl (CliIo e) | None \<Rightarrow> Inr out)"
| "walk_list rel ((name, child) # entries) ending out =
     (case walk (rel @ [name]) child out of
        Inl e \<Rightarrow> Inl e
      | Inr out' \<Rightarrow> walk_list rel entries ending out')"

section \<open>A run\<close>

definition auth_header :: "(string \<Rightarrow> string) \<Rightarrow> string \<Rightarrow> string \<Rightarrow> string" where
  "auth_header encode project api_key = ''Basic '' @ encode (project @ '':'' @ api_key)"

text \<open>\<open>{kind}/{project}/{rel}\<close>, to be joined to the base URL.\<close>

definition file_url :: "string \<Rightarrow> string \<Rightarrow> path \<Rightarrow> string" where
  "file_url kind project rel = kind @ ''/'' @ project @ display_path rel"

fun push_files ::
  "(path \<Rightarrow> string + string) \<Rightarrow> (string \<Rightarrow> path \<Rightarrow> 'w \<Rightarrow> (cli_error + push_outcome) \<times> 'w) \<Rightarrow> path list \<Rightarrow>
   'w \<Rightarrow> (cli_error + (cli_error + push_outcome) list) \<times> 'w" where
  "push_files url_of push [] w = (Inr [], w)"
| "push_files url_of push (rel # rels) w =
     (case url_of rel of
        Inl e \<Rightarrow> (Inl (CliUrlParse e), w)
      | Inr url \<Rightarrow>
          (let (r, w1) = push url rel w in
           case push_files url_of push rels w1 of
             (Inl e, w2) \<Rightarrow> (Inl e, w2)
           | (Inr rs, w2) \<Rightarrow> (Inr (r # rs), w2)))"

record push_summary =
  ps_total :: nat
  ps_pushed :: u64
  ps_skipped :: u64
  ps_failed :: u64
  ps_exit :: nat

fun tally :: "(cli_error + push_outcome) list \<Rightarrow> u64 \<times> u64 \<times> u64 \<Rightarrow> u64 \<times> u64 \<times> u64" where
  "tally [] counts = counts"
| "tally (Inr Pushed # rs) (pushed, skipped, failed) = tally rs (pushed + 1, skipped, failed)"
| "tally (Inr Skipped # rs) (pushed, skipped, failed) = tally rs (pushed, skipped + 1, failed)"
| "tally (Inl e # rs) (pushed, skipped, failed) = tally rs (pushed, skipped, failed + 1)"

definition summary :: "nat \<Rightarrow> (cli_error + push_outcome) list \<Rightarrow> push_summary" where
  "summary n rs =
     (case tally rs (0, 0, 0) of
        (pushed, skipped, failed) \<Rightarrow>
          \<lparr>ps_total = n, ps_pushed = pushed, ps_skipped = skipped, ps_failed = failed,
           ps_exit = (if failed > 0 then 1 else 0)\<rparr>)"

definition push_run ::
  "(nat \<Rightarrow> string) \<Rightarrow> (bytes \<Rightarrow> string) \<Rightarrow> (string \<Rightarrow> string) \<Rightarrow> (string \<Rightarrow> string + string) \<Rightarrow> 'w net \<Rightarrow>
   string \<Rightarrow> string \<Rightarrow> string \<Rightarrow> bool \<Rightarrow> path \<Rightarrow> node \<Rightarrow> 'w \<Rightarrow> (cli_error + push_summary) \<times> 'w" where
  "push_run status_text sha256 encode join net project kind api_key dry_run dir tree w =
     (case walk [] tree [] of
        Inl e \<Rightarrow> (Inl e, w)
      | Inr files \<Rightarrow>
          (case push_files (\<lambda>rel. join (file_url kind project rel))
                  (\<lambda>url rel. push_one status_text sha256 net url (dir @ rel)
                     (auth_header encode project api_key) dry_run) files w of
             (Inl e, w') \<Rightarrow> (Inl e, w')
           | (Inr rs, w') \<Rightarrow> (Inr (summary (length files) rs), w')))"

end
