(* ===== verification/Admin_Routes.thy ===== *)
theory Admin_Routes
  imports Http Db_Credentials
begin

text \<open>
  The admin API of the server (\<open>routes/admin/*.rs\<close>), behind the admin middleware: one operation per
  handler, each with its audit row, \<open>admin_op\<close>, which picks it, and \<open>admin_router\<close>. Requests come
  parsed (axum's extractors), responses leave as JSON values; Prometheus counters are left out.
\<close>

section \<open>Responses\<close>

definition json_response :: "nat \<Rightarrow> jv \<Rightarrow> response" where
  "json_response status v =
     \<lparr>rs_status = status, rs_headers = [(''content-type'', ''application/json'')], rs_body = BJson v\<rparr>"

definition no_content :: response where
  "no_content = \<lparr>rs_status = 204, rs_headers = [], rs_body = BEmpty\<rparr>"

definition opt_jv :: "('a \<Rightarrow> jv) \<Rightarrow> 'a option \<Rightarrow> jv" where
  "opt_jv f x = (case x of None \<Rightarrow> VNull | Some a \<Rightarrow> f a)"

definition u64_jv :: "u64 \<Rightarrow> jv" where
  "u64_jv w = VInt (int (unat w))"

definition role_jv :: "role \<Rightarrow> jv" where
  "role_jv r = VStr (role_as_str r)"

section \<open>Views (\<open>dto.rs\<close>)\<close>

definition project_view :: "project \<Rightarrow> jv" where
  "project_view p = VObj
     [(''id'', VInt (p_id p)), (''name'', VStr (p_name p)),
      (''quota_bytes'', opt_jv VInt (p_quota_bytes p)),
      (''ttl_seconds'', opt_jv VInt (p_ttl_seconds p)), (''created_at'', VInt (p_created_at p))]"

definition api_key_created :: "api_key \<Rightarrow> string \<Rightarrow> jv" where
  "api_key_created k secret = VObj
     [(''id'', VInt (k_id k)), (''project_id'', VInt (k_project_id k)), (''role'', role_jv (k_role k)),
      (''label'', opt_jv VStr (k_label k)), (''created_at'', VInt (k_created_at k)),
      (''secret'', VStr secret)]"

definition api_key_view :: "api_key \<Rightarrow> jv" where
  "api_key_view k = VObj
     [(''id'', VInt (k_id k)), (''project_id'', VInt (k_project_id k)), (''role'', role_jv (k_role k)),
      (''label'', opt_jv VStr (k_label k)), (''created_at'', VInt (k_created_at k)),
      (''revoked_at'', opt_jv VInt (k_revoked_at k))]"

definition admin_token_created :: "admin_token \<Rightarrow> string \<Rightarrow> jv" where
  "admin_token_created t secret = VObj
     [(''id'', VInt (t_id t)), (''label'', opt_jv VStr (t_label t)),
      (''created_at'', VInt (t_created_at t)), (''secret'', VStr secret)]"

definition admin_token_view :: "admin_token \<Rightarrow> jv" where
  "admin_token_view t = VObj
     [(''id'', VInt (t_id t)), (''label'', opt_jv VStr (t_label t)),
      (''created_at'', VInt (t_created_at t)), (''revoked_at'', opt_jv VInt (t_revoked_at t))]"

definition entry_to_json :: "entry \<Rightarrow> jv" where
  "entry_to_json e = VObj
     [(''id'', VInt (e_id e)), (''kind'', VStr (kind_as_str (e_kind e))), (''path'', VStr (e_path e)),
      (''blob_hash'', VStr (e_blob_hash e)), (''size_bytes'', VInt (e_size_bytes e)),
      (''pinned'', VBool (e_pinned e)), (''created_at'', VInt (e_created_at e)),
      (''last_accessed'', VInt (e_last_accessed e))]"

section \<open>Handlers\<close>

text \<open>\<open>state.db.stats().audit(auth.token_label.as_deref(), action, target, detail).await?\<close>\<close>

definition audit_call ::
  "server \<Rightarrow> int \<Rightarrow> admin_auth \<Rightarrow> string \<Rightarrow> string option \<Rightarrow> jv option \<Rightarrow> (app, unit) op" where
  "audit_call sv now auth action target detail =
     on_app_db (audit now (aa_token_label auth) action target (map_option (sv_json_text sv) detail))"

text \<open>\<open>routes/admin/projects.rs\<close>\<close>

definition project_create_one ::
  "server \<Rightarrow> req_env \<Rightarrow> admin_auth \<Rightarrow> string \<Rightarrow> int option \<Rightarrow> int option \<Rightarrow> (app, response) op" where
  "project_create_one sv rq auth name quota_bytes ttl_seconds =
     andthen (on_app_db (projects_create (rq_now rq 1) name quota_bytes ttl_seconds)) (\<lambda>p.
     andthen (audit_call sv (rq_now rq 2) auth ''project.create'' (Some (dec_int (p_id p)))
                (Some (VObj [(''name'', VStr (p_name p))]))) (\<lambda>_.
     ret (json_response 201 (project_view p))))"

definition project_list_all :: "(app, response) op" where
  "project_list_all = andthen (on_app_db projects_list) (\<lambda>ps.
     ret (json_response 200 (VArr (map project_view ps))))"

definition project_get_one :: "int \<Rightarrow> (app, response) op" where
  "project_get_one i = andthen (on_app_db (projects_get i)) (\<lambda>p. ret (json_response 200 (project_view p)))"

definition project_update_one ::
  "server \<Rightarrow> req_env \<Rightarrow> admin_auth \<Rightarrow> int \<Rightarrow> string option \<Rightarrow> int option option \<Rightarrow> int option option \<Rightarrow>
   (app, response) op" where
  "project_update_one sv rq auth i name quota_bytes ttl_seconds =
     andthen (on_app_db (projects_update i name quota_bytes ttl_seconds)) (\<lambda>p.
     andthen (audit_call sv (rq_now rq 1) auth ''project.update'' (Some (dec_int i)) None) (\<lambda>_.
     ret (json_response 200 (project_view p))))"

definition project_delete_one :: "server \<Rightarrow> req_env \<Rightarrow> admin_auth \<Rightarrow> int \<Rightarrow> (app, response) op" where
  "project_delete_one sv rq auth i =
     andthen (on_app_db (projects_delete i)) (\<lambda>_.
     andthen (audit_call sv (rq_now rq 1) auth ''project.delete'' (Some (dec_int i)) None) (\<lambda>_.
     ret no_content))"

text \<open>\<open>routes/admin/keys.rs\<close>\<close>

definition key_create_one ::
  "server \<Rightarrow> req_env \<Rightarrow> admin_auth \<Rightarrow> int \<Rightarrow> role \<Rightarrow> string option \<Rightarrow> (app, response) op" where
  "key_create_one sv rq auth i r label =
     andthen (on_app_db (projects_get i)) (\<lambda>_.
     let secret = generate_secret (sv_crypto sv) (rq_random rq);
         lookup = lookup_hash (sv_crypto sv) secret in
     andthen (query (\<lambda>_. hash_argon2 (sv_crypto sv) (rq_salt rq) secret)) (\<lambda>phc.
     andthen (on_app_db (api_keys_create (rq_now rq 1) i lookup phc r label)) (\<lambda>k.
     andthen (audit_call sv (rq_now rq 2) auth ''key.create'' (Some (dec_int (k_id k)))
                (Some (VObj [(''role'', role_jv r)]))) (\<lambda>_.
     ret (json_response 201 (api_key_created k secret))))))"

definition key_list_all :: "int \<Rightarrow> (app, response) op" where
  "key_list_all i = andthen (on_app_db (api_keys_list i)) (\<lambda>ks.
     ret (json_response 200 (VArr (map api_key_view ks))))"

definition key_revoke_one :: "server \<Rightarrow> req_env \<Rightarrow> admin_auth \<Rightarrow> int \<Rightarrow> int \<Rightarrow> (app, response) op" where
  "key_revoke_one sv rq auth i kid =
     andthen (on_app_db (api_keys_revoke (rq_now rq 1) i kid)) (\<lambda>_.
     andthen (audit_call sv (rq_now rq 2) auth ''key.revoke'' (Some (dec_int kid)) None) (\<lambda>_.
     ret no_content))"

text \<open>\<open>routes/admin/tokens.rs\<close>\<close>

definition token_create_one ::
  "server \<Rightarrow> req_env \<Rightarrow> admin_auth \<Rightarrow> string option \<Rightarrow> (app, response) op" where
  "token_create_one sv rq auth label =
     (let secret = generate_secret (sv_crypto sv) (rq_random rq);
          lookup = lookup_hash (sv_crypto sv) secret in
     andthen (query (\<lambda>_. hash_argon2 (sv_crypto sv) (rq_salt rq) secret)) (\<lambda>phc.
     andthen (on_app_db (admin_tokens_create (rq_now rq 1) lookup phc label)) (\<lambda>t.
     andthen (audit_call sv (rq_now rq 2) auth ''token.create'' (Some (dec_int (t_id t)))
                (Some (VObj [(''label'', opt_jv VStr (t_label t))]))) (\<lambda>_.
     ret (json_response 201 (admin_token_created t secret))))))"

definition token_list_all :: "(app, response) op" where
  "token_list_all = andthen (on_app_db admin_tokens_list) (\<lambda>ts.
     ret (json_response 200 (VArr (map admin_token_view ts))))"

definition token_revoke_one :: "server \<Rightarrow> req_env \<Rightarrow> admin_auth \<Rightarrow> int \<Rightarrow> (app, response) op" where
  "token_revoke_one sv rq auth i =
     andthen (on_app_db (admin_tokens_revoke (rq_now rq 1) i)) (\<lambda>_.
     andthen (audit_call sv (rq_now rq 2) auth ''token.revoke'' (Some (dec_int i)) None) (\<lambda>_.
     ret no_content))"

text \<open>\<open>routes/admin/entries.rs\<close>\<close>

record list_query =
  lq_kind :: "string option"
  lq_pinned :: "bool option"
  lq_path_prefix :: "string option"
  lq_sort :: "string option"
  lq_order :: "string option"
  lq_limit :: "int option"
  lq_cursor :: "string option"
  lq_count :: "bool option"

definition parse_sort :: "string \<Rightarrow> sort_field outcome" where
  "parse_sort s =
     (if s = ''path'' then Ok ByPath
      else if s = ''last_accessed'' then Ok ByLastAccessed
      else if s = ''size'' then Ok BySize
      else if s = ''created_at'' then Ok ByCreatedAt
      else Err (InvalidInput (''sort: '' @ s)))"

definition parse_order :: "string \<Rightarrow> sort_order outcome" where
  "parse_order s =
     (if s = ''asc'' then Ok Asc
      else if s = ''desc'' then Ok Desc
      else Err (InvalidInput (''order: '' @ s)))"

text \<open>\<open>opt.map(parse).transpose()?\<close>\<close>

definition parse_opt :: "(string \<Rightarrow> 'a outcome) \<Rightarrow> string option \<Rightarrow> (app, 'a option) op" where
  "parse_opt parse x =
     (case x of
        None \<Rightarrow> ret None
      | Some s \<Rightarrow> andthen (query (\<lambda>_. parse s)) (\<lambda>v. ret (Some v)))"

definition entry_list_all :: "server \<Rightarrow> int \<Rightarrow> list_query \<Rightarrow> (app, response) op" where
  "entry_list_all sv i q =
     andthen (on_app_db (projects_get i)) (\<lambda>_.
     andthen (parse_opt kind_from_str (lq_kind q)) (\<lambda>kind.
     andthen (parse_opt parse_sort (lq_sort q)) (\<lambda>srt.
     andthen (parse_opt parse_order (lq_order q)) (\<lambda>order.
     andthen (on_app_db (entries_list (sv_codec sv) (sv_mixed sv) i
       \<lparr>lf_kind = kind, lf_pinned = lq_pinned q, lf_path_prefix = lq_path_prefix q, lf_sort = srt,
        lf_order = order, lf_limit = lq_limit q, lf_cursor = lq_cursor q\<rparr>)) (\<lambda>pg.
     let fields = [(''entries'', VArr (map entry_to_json (pg_entries pg))),
                   (''has_more'', VBool (pg_has_more pg)),
                   (''next_cursor'', opt_jv VStr (pg_next_cursor pg))] in
     if lq_count q = Some True then
       andthen (on_app_db (query (\<lambda>d. Ok (sql_count (\<lambda>e. e_project_id e = i) (db_entries d))))) (\<lambda>n.
       ret (json_response 200 (VObj (fields @ [(''total'', VInt (int n))]))))
     else ret (json_response 200 (VObj fields)))))))"

definition entry_get_one :: "int \<Rightarrow> int \<Rightarrow> (app, response) op" where
  "entry_get_one i eid =
     andthen (on_app_db (query (\<lambda>d.
        case find (\<lambda>e. e_project_id e = i \<and> e_id e = eid) (db_entries d) of
          None \<Rightarrow> Err (NotFound (''entry '' @ dec_int eid))
        | Some e \<Rightarrow> Ok e)))
     (\<lambda>e. ret (json_response 200 (entry_to_json e)))"

definition entry_delete_one :: "server \<Rightarrow> req_env \<Rightarrow> admin_auth \<Rightarrow> int \<Rightarrow> int \<Rightarrow> (app, response) op" where
  "entry_delete_one sv rq auth i eid =
     andthen (on_app_db (entries_delete i eid)) (\<lambda>_.
     andthen (audit_call sv (rq_now rq 1) auth ''entry.delete'' (Some (dec_int eid)) None) (\<lambda>_.
     ret no_content))"

definition entry_pin :: "server \<Rightarrow> req_env \<Rightarrow> admin_auth \<Rightarrow> int \<Rightarrow> int \<Rightarrow> (app, response) op" where
  "entry_pin sv rq auth i eid =
     andthen (on_app_db (set_pinned i eid True)) (\<lambda>_.
     andthen (audit_call sv (rq_now rq 1) auth ''entry.pin'' (Some (dec_int eid)) None) (\<lambda>_.
     ret no_content))"

definition entry_unpin :: "server \<Rightarrow> req_env \<Rightarrow> admin_auth \<Rightarrow> int \<Rightarrow> int \<Rightarrow> (app, response) op" where
  "entry_unpin sv rq auth i eid =
     andthen (on_app_db (set_pinned i eid False)) (\<lambda>_.
     andthen (audit_call sv (rq_now rq 1) auth ''entry.unpin'' (Some (dec_int eid)) None) (\<lambda>_.
     ret no_content))"

text \<open>\<open>routes/admin/gc.rs\<close>\<close>

definition gc_run_now :: "server \<Rightarrow> req_env \<Rightarrow> admin_auth \<Rightarrow> bool \<Rightarrow> (app, response) op" where
  "gc_run_now sv rq auth dry_run =
     andthen (on_sys (gc_run (rq_gc rq) (cfg_gc (sv_config sv)) (sv_root sv) dry_run)) (\<lambda>r.
     andthen (audit_call sv (rq_now rq 1) auth ''gc.run'' None
                (Some (VObj [(''dry_run'', VBool dry_run)]))) (\<lambda>_.
     andthen (count_metric GC_RUNS [if dry_run then ''true'' else ''false'']) (\<lambda>_.
     ret (json_response 200 (VObj
       [(''dry_run'', VBool dry_run), (''evicted_entries'', u64_jv (evicted_entries r)),
        (''evicted_bytes'', u64_jv (evicted_bytes r)), (''freed_blobs'', u64_jv (freed_blobs r)),
        (''usage_global_bytes'', VInt (usage_global_bytes r))])))))"

definition gc_orphan_scan :: "server \<Rightarrow> req_env \<Rightarrow> admin_auth \<Rightarrow> bool \<Rightarrow> (app, response) op" where
  "gc_orphan_scan sv rq auth dry_run =
     andthen (on_sys (orphan_scan (rq_gc rq) (sv_root sv) dry_run)) (\<lambda>r.
     andthen (audit_call sv (rq_now rq 1) auth ''gc.orphan_scan'' None
                (Some (VObj [(''dry_run'', VBool dry_run)]))) (\<lambda>_.
     ret (json_response 200 (VObj
       [(''dry_run'', VBool dry_run), (''disk_orphans_removed'', u64_jv (disk_orphans_removed r)),
        (''db_orphans_removed'', u64_jv (db_orphans_removed r))]))))"

text \<open>\<open>routes/admin/stats.rs\<close>\<close>

definition global_stats :: "(app, response) op" where
  "global_stats =
     andthen (on_app_db total_size) (\<lambda>total.
     andthen (on_app_db projects_list) (\<lambda>projects.
     ret (json_response 200 (VObj
       [(''global_bytes'', VInt total), (''projects'', VInt (int (length projects)))]))))"

definition project_stats :: "int \<Rightarrow> (app, response) op" where
  "project_stats i =
     andthen (on_app_db (projects_get i)) (\<lambda>p.
     andthen (on_app_db (project_usage i)) (\<lambda>usage.
     andthen (on_app_db (stats_sum (Some i) ''hit'' 0)) (\<lambda>(hits, hits_b).
     andthen (on_app_db (stats_sum (Some i) ''put'' 0)) (\<lambda>(puts, puts_b).
     ret (json_response 200 (VObj
       [(''project'', VObj [(''id'', VInt (p_id p)), (''name'', VStr (p_name p)),
                           (''quota_bytes'', opt_jv VInt (p_quota_bytes p))]),
        (''usage_bytes'', VInt usage), (''hits'', VInt hits), (''hits_bytes'', VInt hits_b),
        (''puts'', VInt puts), (''puts_bytes'', VInt puts_b)]))))))"

text \<open>The JSON object \<open>audit_since\<close> builds from a row; a detail that does not parse is dropped.\<close>

definition audit_row_json :: "server \<Rightarrow> audit_row \<Rightarrow> jv" where
  "audit_row_json sv r = VObj
     [(''id'', VInt (au_id r)), (''timestamp'', VInt (au_timestamp r)),
      (''actor_token'', opt_jv VStr (au_actor_token r)), (''action'', VStr (au_action r)),
      (''target'', opt_jv VStr (au_target r)),
      (''detail'', opt_jv (\<lambda>v. v) (Option.bind (au_detail_json r) (sv_json_parse sv)))]"

definition audit_read :: "server \<Rightarrow> int option \<Rightarrow> int option \<Rightarrow> (app, response) op" where
  "audit_read sv since limit =
     andthen (on_app_db (audit_since (sv_audit_rank sv) (case since of None \<Rightarrow> 0 | Some t \<Rightarrow> t)
                (max 1 (min 1000 (case limit of None \<Rightarrow> 100 | Some n \<Rightarrow> n))))) (\<lambda>rows.
     ret (json_response 200 (VObj [(''entries'', VArr (map (audit_row_json sv) rows))])))"

section \<open>The router\<close>

datatype admin_request =
    CreateProject string "int option" "int option"
  | ListProjects
  | GetProject int
  | UpdateProject int "string option" "int option option" "int option option"
  | DeleteProject int
  | CreateKey int role "string option"
  | ListKeys int
  | RevokeKey int int
  | CreateToken "string option"
  | ListTokens
  | RevokeToken int
  | ListEntries int list_query
  | GetEntry int int
  | DeleteEntry int int
  | PinEntry int int
  | UnpinEntry int int
  | RunGc bool
  | OrphanScan bool
  | GlobalStats
  | ProjectStats int
  | ReadAudit "int option" "int option"

fun admin_op :: "server \<Rightarrow> req_env \<Rightarrow> admin_auth \<Rightarrow> admin_request \<Rightarrow> (app, response) op" where
  "admin_op sv rq a (CreateProject name q t) = project_create_one sv rq a name q t"
| "admin_op sv rq a ListProjects = project_list_all"
| "admin_op sv rq a (GetProject i) = project_get_one i"
| "admin_op sv rq a (UpdateProject i name q t) = project_update_one sv rq a i name q t"
| "admin_op sv rq a (DeleteProject i) = project_delete_one sv rq a i"
| "admin_op sv rq a (CreateKey i r label) = key_create_one sv rq a i r label"
| "admin_op sv rq a (ListKeys i) = key_list_all i"
| "admin_op sv rq a (RevokeKey i kid) = key_revoke_one sv rq a i kid"
| "admin_op sv rq a (CreateToken label) = token_create_one sv rq a label"
| "admin_op sv rq a ListTokens = token_list_all"
| "admin_op sv rq a (RevokeToken i) = token_revoke_one sv rq a i"
| "admin_op sv rq a (ListEntries i q) = entry_list_all sv i q"
| "admin_op sv rq a (GetEntry i eid) = entry_get_one i eid"
| "admin_op sv rq a (DeleteEntry i eid) = entry_delete_one sv rq a i eid"
| "admin_op sv rq a (PinEntry i eid) = entry_pin sv rq a i eid"
| "admin_op sv rq a (UnpinEntry i eid) = entry_unpin sv rq a i eid"
| "admin_op sv rq a (RunGc dry_run) = gc_run_now sv rq a dry_run"
| "admin_op sv rq a (OrphanScan dry_run) = gc_orphan_scan sv rq a dry_run"
| "admin_op sv rq a GlobalStats = global_stats"
| "admin_op sv rq a (ProjectStats i) = project_stats i"
| "admin_op sv rq a (ReadAudit since limit) = audit_read sv since limit"

definition admin_router ::
  "server \<Rightarrow> req_env \<Rightarrow> (string \<times> string) list \<Rightarrow> admin_request \<Rightarrow> app \<Rightarrow> response option \<times> app" where
  "admin_router sv rq headers req =
     admin_middleware sv rq headers (\<lambda>a. render sv (admin_op sv rq a req))"

end
