(* ===== verification/Server.thy ===== *)
theory Server
  imports Admin_Routes Yocto_Routes
begin

text \<open>
  The whole server (\<open>lib.rs\<close>, \<open>routes/public.rs\<close>) and the state it starts in: a request goes to one
  of the three routers, the ticker runs a sweep, a task that a handler spawned runs at any later time,
  an upload may be dropped half way, and the process may be restarted. \<open>server_step\<close> is one of these; a
  request is one step, its clock, its random bytes and the faults it meets being arbitrary. How
  requests interleave is the subject of \<open>Server_Threads\<close> and \<open>Interleaving\<close>.
\<close>

section \<open>Public routes\<close>

definition healthz :: response where
  "healthz = text_response 200 ''ok''"

text \<open>
  What a probe meets: whether the ping is answered, whether the write fails and what it leaves of
  the file then, whether the removal fails.
\<close>

record probe_env =
  pr_db_up :: bool
  pr_write_fault :: "(io_error \<times> bytes option) option"
  pr_remove_fault :: "io_error option"

definition readyz :: "server \<Rightarrow> probe_env \<Rightarrow> app \<Rightarrow> response \<times> app" where
  "readyz sv pe s =
     (if \<not> pr_db_up pe then (text_response 503 ''db_unavailable'', s)
      else
        (let probe = tmp_path (sv_root sv) ''.readyz''; files = sys_fs (ap_sys s) in
         case pr_write_fault pe of
           Some (_, None) \<Rightarrow> (text_response 503 ''storage_unwritable'', s)
         | Some (_, Some left) \<Rightarrow>
             (text_response 503 ''storage_unwritable'',
              s\<lparr>ap_sys := (ap_sys s)\<lparr>sys_fs := fs_put probe left files\<rparr>\<rparr>)
         | None \<Rightarrow>
             (text_response 200 ''ready'',
              s\<lparr>ap_sys := (ap_sys s)\<lparr>sys_fs :=
                snd (remove_file (pr_remove_fault pe) probe (fs_put probe [114] files))\<rparr>\<rparr>)))"

text \<open>\<open>GET /metrics\<close>: what the text encoder makes of the registry, and 500 where it fails.\<close>

definition metrics_page :: "server \<Rightarrow> app \<Rightarrow> response" where
  "metrics_page sv s =
     (let octets = [(''content-type'', ''application/octet-stream'')] in
      case sv_encode_metrics sv (ap_metrics s) of
        None \<Rightarrow> \<lparr>rs_status = 500, rs_headers = octets, rs_body = BBytes []\<rparr>
      | Some buf \<Rightarrow> \<lparr>rs_status = 200, rs_headers = octets, rs_body = BBytes buf\<rparr>)"

section \<open>Start-up\<close>

text \<open>\<open>serve\<close>: the store is opened, which purges \<open>tmp/\<close>; both verification caches are empty.\<close>

definition serve_start :: "(path \<Rightarrow> io_error option) \<Rightarrow> server \<Rightarrow> sys \<Rightarrow> app" where
  "serve_start faults sv y =
     \<lparr>ap_sys = y\<lparr>sys_fs := snd (store_open faults (sv_root sv) (sys_fs y))\<rparr>,
      ap_project_cache = [], ap_admin_cache = [], ap_tasks = [], ap_metrics = metrics_init\<rparr>"

section \<open>The application\<close>

datatype request =
    Healthz
  | Readyz probe_env
  | Scrape
  | Cache http_method target "(string \<times> string) list"
  | Admin admin_request "(string \<times> string) list"

definition serve_request :: "server \<Rightarrow> req_env \<Rightarrow> request \<Rightarrow> app \<Rightarrow> response option \<times> app" where
  "serve_request sv rq req s =
     (case req of
        Healthz \<Rightarrow> (Some healthz, s)
      | Readyz pe \<Rightarrow> (let (r, s') = readyz sv pe s in (Some r, s'))
      | Scrape \<Rightarrow> (Some (metrics_page sv s), s)
      | Cache m t headers \<Rightarrow> yocto_router sv rq m t headers s
      | Admin areq headers \<Rightarrow> admin_router sv rq headers areq s)"

text \<open>
  The timeout layer and a client that goes away drop the future of a handler at one of its \<open>await\<close>s.
  For an upload: while the body is streamed (with what the temporary file then holds), or before one
  of the statements that follow. \<open>upsert\<close> is a transaction, which a drop rolls back.
\<close>

datatype drop_point = WhileStreaming bytes | BeforeUpsert | BeforeBump | BeforeTrigger

definition dropped_put ::
  "server \<Rightarrow> req_env \<Rightarrow> drop_point \<Rightarrow> project_auth \<Rightarrow> kind \<Rightarrow> string \<Rightarrow> string \<Rightarrow>
   (io_error + bytes) list \<Rightarrow> app \<Rightarrow> app" where
  "dropped_put sv rq point auth kind project_in_url path body s =
     (let register = (\<lambda>w. on_app_db (upsert (rq_now rq 1) (rq_now rq 2) (pa_project_id auth) kind path
                        (w_hash w) (w_size_bytes w)));
          count = (\<lambda>w. on_app_db (bump (rq_now rq 3) (Some (pa_project_id auth)) ''put'' 1 (w_size_bytes w)))
      in case point of
           WhileStreaming part \<Rightarrow>
             if pa_project_name auth \<noteq> project_in_url \<or> \<not> allows_write (pa_role auth) then s
             else s\<lparr>ap_sys := (ap_sys s)\<lparr>sys_fs :=
               fs_put (tmp_path (sv_root sv) (rq_uuid rq)) part (sys_fs (ap_sys s))\<rparr>\<rparr>
         | BeforeUpsert \<Rightarrow> snd (put_store sv rq auth project_in_url body s)
         | BeforeBump \<Rightarrow> snd (andthen (put_store sv rq auth project_in_url body) register s)
         | BeforeTrigger \<Rightarrow>
             snd (andthen (put_store sv rq auth project_in_url body) (\<lambda>w. andthen (register w) (\<lambda>_. count w)) s))"

text \<open>One tick of \<open>spawn_gc_ticker\<close>: an error is only logged.\<close>

definition gc_tick :: "server \<Rightarrow> gc_env \<Rightarrow> app \<Rightarrow> app" where
  "gc_tick sv env s = snd (on_sys (gc_run env (cfg_gc (sv_config sv)) (sv_root sv) False) s)"

definition take_task :: "nat \<Rightarrow> app \<Rightarrow> app" where
  "take_task i s = s\<lparr>ap_tasks := take i (ap_tasks s) @ drop (Suc i) (ap_tasks s)\<rparr>"

inductive server_step :: "server \<Rightarrow> app \<Rightarrow> app \<Rightarrow> bool" for sv where
  step_request: "server_step sv s (snd (serve_request sv rq req s))"
| step_dropped: "project_accepts sv rq headers s = Some (a, s1) \<Longrightarrow>
    server_step sv s (dropped_put sv rq point a k u p body s1)"
| step_task: "i < length (ap_tasks s) \<Longrightarrow>
    server_step sv s (run_task sv env (ap_tasks s ! i) (take_task i s))"
| step_tick: "server_step sv s (gc_tick sv env s)"
| step_restart: "server_step sv s (serve_start faults sv (ap_sys s))"

end
