(* ===== verification/Yocto_Properties.thy ===== *)
theory Yocto_Properties
  imports Yocto_Routes Auth_Properties Db_History Gc_Guarantees Listing_Properties
begin

text \<open>
  The properties of the cache routes: what a request can change and who can, the round trip of an
  upload through \<open>PUT\<close> and \<open>GET\<close>, the soft trigger of the garbage collector, and what a collection
  between the two halves of an upload does.
\<close>

section \<open>Header values\<close>

lemma visible_ascii_append [simp]: "visible_ascii (a @ b) \<longleftrightarrow> visible_ascii a \<and> visible_ascii b"
  by (simp add: visible_ascii_def)

lemma visible_dec_nat: "visible_ascii (dec_nat n)"
proof (induction n rule: dec_nat.induct)
  case (1 n)
  have "visible_ascii [char_of (48 + n mod 10)]" by (simp add: visible_ascii_def of_char_of)
  then show ?case
    using 1 by (subst dec_nat.simps) (auto simp: visible_ascii_def of_char_of)
qed

lemma visible_dec_int: "visible_ascii (dec_int n)"
proof -
  have "visible_ascii ''-''" by (simp add: visible_ascii_def)
  then have "visible_ascii (''-'' @ dec_nat k)" for k
    using visible_dec_nat [of k] by (simp only: visible_ascii_append)
  then show ?thesis using visible_dec_nat by (simp add: dec_int_def)
qed

lemma visible_quoted [simp]: "visible_ascii (quoted h) \<longleftrightarrow> visible_ascii h"
  by (simp add: quoted_def) (simp add: visible_ascii_def)

lemma expect_header_apply [simp]:
  "expect_header v s = ((if visible_ascii v then Ok v else Panic), s)"
  by (simp add: expect_header_def)

section \<open>Reading changes no file and no row\<close>

lemma keeps_expect_header [keeps_intros]: "keeps I (expect_header v)"
  by (rule keepsI) simp

lemma keeps_ensure_project [keeps_intros]: "keeps I (ensure_project a p)"
  by (simp add: ensure_project_def keeps_ret keeps_fail)

lemma get_one_keeps: "keeps (\<lambda>s. I (ap_sys s)) (get_one sv rq a k u p head_only)"
  unfolding get_one_def entries_find_def read_blob_def Let_def
  by (auto intro!: keeps_intros split: option.split)

lemma miss_response_apply [simp]:
  "miss_response a k s =
   (Ok not_found_text, s\<lparr>ap_metrics := ap_metrics s @ [Inc CACHE_MISSES [kind_as_str k, pa_project_name a]]\<rparr>)"
  by (simp add: miss_response_def)

lemma read_handler_sys: "ap_sys (snd (read_handler sv rq k head_only a u p s)) = ap_sys s"
proof -
  have "ap_sys (snd (get_one sv rq a k u p head_only s)) = ap_sys s"
    by (rule keepsD [OF get_one_keeps [where I = "\<lambda>y. y = ap_sys s"]]) simp
  then show ?thesis
    by (auto simp: read_handler_def split: prod.splits outcome.splits core_error.splits)
qed

section \<open>Storing an upload\<close>

lemma write_streamed_keeps:
  assumes run: "write_streamed sha256 uuid fault root body files = (r, files')"
  shows "(\<forall>h c. blob_file root h files = Some c \<longrightarrow> blob_file root h files' = Some c) \<and>
    (\<forall>w. r = Ok w \<longrightarrow> stream_ok body \<and> w_hash w = sha256 (stream_bytes body) \<and>
       w_size_bytes w = int (length (stream_bytes body)) \<and> blob_file root (w_hash w) files' \<noteq> None) \<and>
    (\<forall>h c. blob_file root h files' = Some c \<longrightarrow> blob_file root h files = Some c \<or> sha256 c = h)"
proof (cases "stream_ok body \<and> 4 \<le> length (sha256 (stream_bytes body))")
  case True
  then have ok: "stream_ok body" "4 \<le> length (sha256 (stream_bytes body))" by simp_all
  have settled: ?thesis if "write_streamed sha256 uuid None root body files = (r, files')"
    using write_streamed_Ok [of body sha256 uuid root files, OF ok] that True by auto
  show ?thesis
  proof (cases fault)
    case None
    show ?thesis by (rule settled) (use run None in simp)
  next
    case (Some e)
    from write_streamed_fault [of body sha256 root files uuid e, OF ok] show ?thesis
    proof
      assume "blob_file root (sha256 (stream_bytes body)) files \<noteq> None \<and>
        write_streamed sha256 uuid (Some e) root body files = write_streamed sha256 uuid None root body files"
      then have "write_streamed sha256 uuid None root body files = (r, files')" using run Some by simp
      then show ?thesis by (rule settled)
    next
      assume "\<exists>e' files'. write_streamed sha256 uuid (Some e) root body files = (Err (Io e'), files') \<and>
        (\<forall>h. blob_file root h files' = blob_file root h files)"
      then show ?thesis using run Some by auto
    qed
  qed
next
  case False
  then have "(\<forall>w. r \<noteq> Ok w) \<and> (\<forall>h. blob_file root h files' = blob_file root h files)"
    using write_streamed_broken [of body sha256 uuid fault root files]
      write_streamed_short_digest [of body sha256 uuid fault root files] run by force
  then show ?thesis by auto
qed

text \<open>What \<open>put_store\<close> can do.\<close>

lemma put_store_cases:
  obtains (refused) reason where "put_store sv rq a u body s = (Err (Forbidden reason), s)"
      and "pa_project_name a \<noteq> u \<or> pa_role a \<noteq> Write"
    | (stored) r f where "put_store sv rq a u body s = (r, s\<lparr>ap_sys := (ap_sys s)\<lparr>sys_fs := f\<rparr>\<rparr>)"
      and "write_streamed (cr_sha256 (sv_crypto sv)) (rq_uuid rq) (rq_rename_fault rq) (sv_root sv)
        body (sys_fs (ap_sys s)) = (r, f)"
      and "pa_project_name a = u" and "pa_role a = Write"
proof (cases "pa_project_name a = u \<and> pa_role a = Write")
  case True
  obtain r f where w: "write_streamed (cr_sha256 (sv_crypto sv)) (rq_uuid rq) (rq_rename_fault rq)
      (sv_root sv) body (sys_fs (ap_sys s)) = (r, f)" by fastforce
  then show ?thesis
    using True stored [of r f]
    by (simp add: put_store_def ensure_project_def on_sys_def on_fs_def)
next
  case False
  then obtain reason where "put_store sv rq a u body s = (Err (Forbidden reason), s)"
    by (cases "pa_project_name a = u"; cases "pa_role a")
      (auto simp: put_store_def ensure_project_def andthen_def)
  then show ?thesis using refused False by blast
qed

section \<open>Registering an upload\<close>

lemma blob_bytes_decr: "blob_bytes (snd (decr h d)) = blob_bytes d"
  by (simp add: decr_def blob_bytes_def map_sql_update split: option.split)

lemma blob_bytes_upsert_incr: "0 \<le> sz \<Longrightarrow> blob_bytes (snd (upsert_incr now h sz d)) \<le> blob_bytes d + sz"
  by (simp add: upsert_incr_def blob_bytes_def map_sql_update split: option.split)

lemma blob_bytes_upsert_state:
  assumes "0 \<le> sz"
  shows "blob_bytes (upsert_state now1 now pid k p h sz d) \<le> blob_bytes d + sz"
proof -
  have "blob_bytes (repoint now1 prev h sz d) \<le> blob_bytes d + sz" for prev
    using assms blob_bytes_upsert_incr [OF assms, of now1 h] blob_bytes_decr
    by (auto simp: repoint_def split: option.split) (metis blob_bytes_decr)
  then show ?thesis by (simp add: blob_bytes_def)
qed

lemma has_project_upsert_state [simp]:
  "has_project (upsert_state now1 now pid k p h sz d) x = has_project d x"
  by (rule has_project_accounts) simp

lemma bump_project: "has_project d pid \<Longrightarrow> bump now (Some pid) c n b d = (Ok (), snd (bump now (Some pid) c n b d))"
  by (simp add: bump_def Let_def)

definition registered ::
  "req_env \<Rightarrow> project_auth \<Rightarrow> kind \<Rightarrow> string \<Rightarrow> written \<Rightarrow> db \<Rightarrow> db" where
  "registered rq a k p w d =
     snd (bump (rq_now rq 3) (Some (pa_project_id a)) ''put'' 1 (w_size_bytes w)
       (upsert_state (rq_now rq 1) (rq_now rq 2) (pa_project_id a) k p (w_hash w) (w_size_bytes w) d))"

lemma registered_sel [simp]:
  "db_entries (registered rq a k p w d) =
   db_entries (upsert_state (rq_now rq 1) (rq_now rq 2) (pa_project_id a) k p (w_hash w) (w_size_bytes w) d)"
  "db_blobs (registered rq a k p w d) =
   db_blobs (upsert_state (rq_now rq 1) (rq_now rq 2) (pa_project_id a) k p (w_hash w) (w_size_bytes w) d)"
  "accounts (registered rq a k p w d) = accounts d"
  by (simp_all add: registered_def)

lemma wf_registered:
  "wf_db d \<Longrightarrow> has_project d (pa_project_id a) \<Longrightarrow> 0 \<le> w_size_bytes w \<Longrightarrow> wf_db (registered rq a k p w d)"
  unfolding registered_def by (intro keepsD [OF keeps_wf_bump] wf_upsert_state)

lemma put_commit_Ok:
  fixes rq :: req_env and k :: kind and p :: string
  assumes wf: "wf_db (sys_db (ap_sys s))" and proj: "has_project (sys_db (ap_sys s)) (pa_project_id a)"
    and sz: "0 \<le> w_size_bytes w"
    and fits: "blob_bytes (sys_db (ap_sys s)) + w_size_bytes w < 2 ^ 63"
    and vis: "visible_ascii (w_hash w)"
  defines "d' \<equiv> registered rq a k p w (sys_db (ap_sys s))"
  shows "put_commit sv rq a k p w s =
    (Ok \<lparr>rs_status = 201, rs_headers = [(''etag'', quoted (w_hash w))], rs_body = BEmpty\<rparr>,
     s\<lparr>ap_sys := (ap_sys s)\<lparr>sys_db := d'\<rparr>,
       ap_tasks := ap_tasks s @
         (if trigger_threshold (cfg_gc (sv_config sv)) < as_u64 (blob_bytes d') then [GcTask] else [])\<rparr>)"
proof -
  let ?d = "sys_db (ap_sys s)"
  let ?d1 = "upsert_state (rq_now rq 1) (rq_now rq 2) (pa_project_id a) k p (w_hash w) (w_size_bytes w) ?d"
  have proj1: "has_project ?d1 (pa_project_id a)" using proj by simp
  note bump = bump_project [OF proj1, of "rq_now rq 3" "''put''" 1 "w_size_bytes w"]
  have wf': "wf_db d'" unfolding d'_def using wf proj sz by (rule wf_registered)
  have "blob_bytes d' = blob_bytes ?d1" by (simp add: d'_def blob_bytes_def)
  then have "blob_bytes d' < 2 ^ 63"
    using blob_bytes_upsert_state [OF sz] fits by (smt (verit))
  moreover have "\<forall>x\<in>set (map b_size_bytes (db_blobs d')). 0 \<le> x"
    using wf' by (auto simp: wf_db_def wf_blobs_def)
  ultimately have size: "total_size d' = (Ok (blob_bytes d'), d')"
    by (simp add: total_size_def sql_sum_fits blob_bytes_def)
  have nonneg: "\<not> blob_bytes d' < 0" using blob_bytes_nonneg [OF wf'] by simp
  let ?s1 = "s\<lparr>ap_sys := (ap_sys s)\<lparr>sys_db := ?d1\<rparr>\<rparr>"
  let ?s2 = "s\<lparr>ap_sys := (ap_sys s)\<lparr>sys_db := d'\<rparr>\<rparr>"
  have "on_app_db (bump (rq_now rq 3) (Some (pa_project_id a)) ''put'' 1 (w_size_bytes w)) ?s1 = (Ok (), ?s2)"
    using bump by (simp add: d'_def registered_def)
  moreover have "on_app_db total_size ?s2 = (Ok (blob_bytes d'), ?s2)" using size by simp
  ultimately show ?thesis
    using upsert_Ok [OF wf proj, of "rq_now rq 1" "rq_now rq 2" k p "w_hash w" "w_size_bytes w"] nonneg vis
    by (simp add: put_commit_def soft_trigger_def Let_def)
qed

text \<open>Every path of the registration: the project's own entry, or nothing.\<close>

lemma put_commit_db:
  assumes wf: "wf_db (sys_db (ap_sys s))" and sz: "0 \<le> w_size_bytes w"
  shows "sys_fs (ap_sys (snd (put_commit sv rq a k p w s))) = sys_fs (ap_sys s) \<and>
    sys_db (ap_sys (snd (put_commit sv rq a k p w s))) =
      (if has_project (sys_db (ap_sys s)) (pa_project_id a)
       then registered rq a k p w (sys_db (ap_sys s)) else sys_db (ap_sys s))"
proof (cases "has_project (sys_db (ap_sys s)) (pa_project_id a)")
  case False
  then show ?thesis using upsert_no_project [OF wf] by (simp add: put_commit_def)
next
  case True
  let ?d = "sys_db (ap_sys s)"
  let ?d1 = "upsert_state (rq_now rq 1) (rq_now rq 2) (pa_project_id a) k p (w_hash w) (w_size_bytes w) ?d"
  let ?s2 = "s\<lparr>ap_sys := (ap_sys s)\<lparr>sys_db := registered rq a k p w ?d\<rparr>\<rparr>"
  let ?rest = "andthen (soft_trigger sv) (\<lambda>_. andthen (expect_header (quoted (w_hash w))) (\<lambda>etag.
     ret \<lparr>rs_status = 201, rs_headers = [(''etag'', etag)], rs_body = BEmpty\<rparr>))"
  have proj1: "has_project ?d1 (pa_project_id a)" using True by simp
  note bump = bump_project [OF proj1, of "rq_now rq 3" "''put''" 1 "w_size_bytes w"]
  have run: "put_commit sv rq a k p w s = ?rest ?s2"
    using upsert_Ok [OF wf True, of "rq_now rq 1" "rq_now rq 2" k p "w_hash w" "w_size_bytes w"] bump
    by (simp add: put_commit_def registered_def)
  have "keeps (\<lambda>s. I (ap_sys s)) ?rest" for I
    unfolding soft_trigger_def total_size_def Let_def
    by (intro keeps_andthen keeps_expect_header keeps_ret keeps_app_query)
      (auto intro: keeps_spawn_sys keeps_ret)
  from keepsD [OF this [of "\<lambda>y. y = ap_sys ?s2"]] have "ap_sys (snd (?rest ?s2)) = ap_sys ?s2" by simp
  then show ?thesis using run True by simp
qed

section \<open>A whole request\<close>

fun target_project :: "target \<Rightarrow> string" where
  "target_project (SstateUrl project path) = project"
| "target_project (DownloadsUrl project name) = project"

fun target_kind :: "target \<Rightarrow> kind" where
  "target_kind (SstateUrl project path) = Sstate"
| "target_kind (DownloadsUrl project name) = Downloads"

fun target_path :: "target \<Rightarrow> string" where
  "target_path (SstateUrl project path) = path"
| "target_path (DownloadsUrl project name) = name"

lemma yocto_handler_put:
  "yocto_handler sv rq (PUT body) t a =
   render sv (do_put sv rq a (target_kind t) (target_project t) (target_path t) body)"
  by (cases t) (simp_all add: yocto_handler_def put_sstate_def put_downloads_def fun_eq_iff)

lemma yocto_handler_reads:
  "\<not> (\<exists>body. m = PUT body) \<Longrightarrow> ap_sys (snd (yocto_handler sv rq m t a s)) = ap_sys s"
  by (cases t; cases m) (simp_all add: yocto_handler_def get_sstate_def head_sstate_def
      get_downloads_def head_downloads_def read_handler_sys)

text \<open>What a \<open>PUT\<close> leaves of the database and the files.\<close>

lemma do_put_effect:
  assumes wf: "wf_db (sys_db (ap_sys s))"
  obtains (unchanged) "ap_sys (snd (do_put sv rq a k u p body s)) = ap_sys s"
    | (files) f where "pa_project_name a = u" and "pa_role a = Write"
      and "ap_sys (snd (do_put sv rq a k u p body s)) = (ap_sys s)\<lparr>sys_fs := f\<rparr>"
      and "\<And>h c. blob_file (sv_root sv) h (sys_fs (ap_sys s)) = Some c \<Longrightarrow> blob_file (sv_root sv) h f = Some c"
      and "\<And>h c. blob_file (sv_root sv) h f = Some c \<Longrightarrow>
        blob_file (sv_root sv) h (sys_fs (ap_sys s)) = Some c \<or> cr_sha256 (sv_crypto sv) c = h"
    | (uploaded) w f where "pa_project_name a = u" and "pa_role a = Write"
      and "has_project (sys_db (ap_sys s)) (pa_project_id a)" and "0 \<le> w_size_bytes w"
      and "ap_sys (snd (do_put sv rq a k u p body s)) =
        \<lparr>sys_db = registered rq a k p w (sys_db (ap_sys s)), sys_fs = f\<rparr>"
      and "\<And>h c. blob_file (sv_root sv) h (sys_fs (ap_sys s)) = Some c \<Longrightarrow> blob_file (sv_root sv) h f = Some c"
      and "blob_file (sv_root sv) (w_hash w) f \<noteq> None"
      and "\<And>h c. blob_file (sv_root sv) h f = Some c \<Longrightarrow>
        blob_file (sv_root sv) h (sys_fs (ap_sys s)) = Some c \<or> cr_sha256 (sv_crypto sv) c = h"
proof (cases rule: put_store_cases [of sv rq a u body s])
  case (refused reason)
  then show ?thesis using unchanged by (simp add: do_put_def)
next
  case (stored r f)
  let ?s1 = "s\<lparr>ap_sys := (ap_sys s)\<lparr>sys_fs := f\<rparr>\<rparr>"
  from write_streamed_keeps [OF stored(2)]
  have kept: "blob_file (sv_root sv) h (sys_fs (ap_sys s)) = Some c \<Longrightarrow> blob_file (sv_root sv) h f = Some c"
    and new: "blob_file (sv_root sv) h f = Some c \<Longrightarrow>
      blob_file (sv_root sv) h (sys_fs (ap_sys s)) = Some c \<or> cr_sha256 (sv_crypto sv) c = h" for h c
    by blast+
  show ?thesis
  proof (cases r)
    case (Ok w)
    with write_streamed_keeps [OF stored(2)]
    have w: "0 \<le> w_size_bytes w" "blob_file (sv_root sv) (w_hash w) f \<noteq> None" by auto
    have run: "do_put sv rq a k u p body s = put_commit sv rq a k p w ?s1"
      using stored(1) Ok by (simp add: do_put_def)
    have wf1: "wf_db (sys_db (ap_sys ?s1))" using wf by simp
    note commit = put_commit_db [OF wf1 w(1), of sv rq a k p]
    have "ap_sys (snd (do_put sv rq a k u p body s)) = (if has_project (sys_db (ap_sys s)) (pa_project_id a)
        then \<lparr>sys_db = registered rq a k p w (sys_db (ap_sys s)), sys_fs = f\<rparr> else (ap_sys s)\<lparr>sys_fs := f\<rparr>)"
      unfolding run by (rule sys.equality) (use commit in simp_all)
    then show ?thesis
      using files [OF stored(3,4) _ kept new] uploaded [OF stored(3,4) _ w(1) _ kept w(2) new]
      by (cases "has_project (sys_db (ap_sys s)) (pa_project_id a)") simp_all
  qed (use files [OF stored(3,4) _ kept new] stored(1) in \<open>simp_all add: do_put_def\<close>)
qed

text \<open>A complete upload by a writer of the project.\<close>

lemma do_put_Ok:
  fixes rq :: req_env and k :: kind and p :: string
  assumes wf: "wf_db (sys_db (ap_sys s))" and proj: "has_project (sys_db (ap_sys s)) (pa_project_id a)"
    and role: "pa_role a = Write" and name: "pa_project_name a = u" and ok: "stream_ok body"
    and len: "4 \<le> length (cr_sha256 (sv_crypto sv) (stream_bytes body))"
    and vis: "visible_ascii (cr_sha256 (sv_crypto sv) (stream_bytes body))"
    and fault: "rq_rename_fault rq = None"
    and fits: "blob_bytes (sys_db (ap_sys s)) + int (length (stream_bytes body)) < 2 ^ 63"
  defines "w \<equiv> \<lparr>w_hash = cr_sha256 (sv_crypto sv) (stream_bytes body), w_size_bytes = int (length (stream_bytes body))\<rparr>"
  defines "d' \<equiv> registered rq a k p w (sys_db (ap_sys s))"
  obtains f where "do_put sv rq a k u p body s =
      (Ok \<lparr>rs_status = 201, rs_headers = [(''etag'', quoted (w_hash w))], rs_body = BEmpty\<rparr>,
       s\<lparr>ap_sys := \<lparr>sys_db = d', sys_fs = f\<rparr>, ap_tasks := ap_tasks s @
         (if trigger_threshold (cfg_gc (sv_config sv)) < as_u64 (blob_bytes d') then [GcTask] else [])\<rparr>)"
    and "\<And>h. blob_file (sv_root sv) h f = (if h = w_hash w \<and> blob_file (sv_root sv) h (sys_fs (ap_sys s)) = None
       then Some (stream_bytes body) else blob_file (sv_root sv) h (sys_fs (ap_sys s)))"
proof -
  let ?sha = "cr_sha256 (sv_crypto sv)"
  from write_streamed_Ok [of body ?sha "rq_uuid rq" "sv_root sv" "sys_fs (ap_sys s)", OF ok len]
  obtain f where f: "write_streamed ?sha (rq_uuid rq) None (sv_root sv) body (sys_fs (ap_sys s)) = (Ok w, f)"
    and files: "\<And>h. blob_file (sv_root sv) h f =
      (if h = w_hash w \<and> blob_file (sv_root sv) h (sys_fs (ap_sys s)) = None
       then Some (stream_bytes body) else blob_file (sv_root sv) h (sys_fs (ap_sys s)))"
    unfolding w_def by auto
  let ?s1 = "s\<lparr>ap_sys := (ap_sys s)\<lparr>sys_fs := f\<rparr>\<rparr>"
  have store: "put_store sv rq a u body s = (Ok w, ?s1)"
    using f role name fault by (simp add: put_store_def ensure_project_def on_sys_def on_fs_def)
  have commit: "put_commit sv rq a k p w ?s1 =
      (Ok \<lparr>rs_status = 201, rs_headers = [(''etag'', quoted (w_hash w))], rs_body = BEmpty\<rparr>,
       ?s1\<lparr>ap_sys := (ap_sys ?s1)\<lparr>sys_db := registered rq a k p w (sys_db (ap_sys ?s1))\<rparr>,
         ap_tasks := ap_tasks ?s1 @ (if trigger_threshold (cfg_gc (sv_config sv)) <
           as_u64 (blob_bytes (registered rq a k p w (sys_db (ap_sys ?s1)))) then [GcTask] else [])\<rparr>)"
    by (rule put_commit_Ok) (use wf proj vis fits in \<open>simp_all add: w_def\<close>)
  have "(ap_sys ?s1)\<lparr>sys_db := d'\<rparr> = \<lparr>sys_db = d', sys_fs = f\<rparr>" by simp
  then show ?thesis
    using that [OF _ files] commit unfolding do_put_def andthen_Ok [where m = "put_store sv rq a u body", OF store]
    by (simp add: d'_def)
qed

lemma entry_at_registered:
  assumes "wf_db d" and "has_project d (pa_project_id a)" and "0 \<le> w_size_bytes w"
  shows "entry_at (registered rq a k p w d) (pa_project_id a, k, p) =
    Some (row_after (rq_now rq 2) (pa_project_id a) k p (w_hash w) (w_size_bytes w) d)"
proof -
  have "entry_at (registered rq a k p w d) key = entry_at (upsert_state (rq_now rq 1) (rq_now rq 2)
      (pa_project_id a) k p (w_hash w) (w_size_bytes w) d) key" for key
    by (rule entry_at_cong) simp
  then show ?thesis by (simp add: entry_at_upsert_state [OF assms])
qed

text \<open>Whatever becomes of a \<open>PUT\<close>, every entry's blob stays in the store.\<close>

text \<open>
  What an upload may do to database and files, all said at once: nothing, files only, or the row of
  its own key with a blob that is there. A handler that is dropped half way does one of these, too.
\<close>

definition files_grow :: "server \<Rightarrow> fs \<Rightarrow> fs \<Rightarrow> bool" where
  "files_grow sv f f' \<longleftrightarrow>
     (\<forall>h c. blob_file (sv_root sv) h f = Some c \<longrightarrow> blob_file (sv_root sv) h f' = Some c) \<and>
     (\<forall>h c. blob_file (sv_root sv) h f' = Some c \<longrightarrow>
        blob_file (sv_root sv) h f = Some c \<or> cr_sha256 (sv_crypto sv) c = h)"

inductive put_effect :: "server \<Rightarrow> project_auth \<Rightarrow> kind \<Rightarrow> string \<Rightarrow> sys \<Rightarrow> sys \<Rightarrow> bool"
  for sv a k p y where
  effect_none: "put_effect sv a k p y y"
| effect_files: "files_grow sv (sys_fs y) f \<Longrightarrow> put_effect sv a k p y (y\<lparr>sys_fs := f\<rparr>)"
| effect_row: "\<lbrakk>files_grow sv (sys_fs y) f; blob_file (sv_root sv) (e_blob_hash r) f \<noteq> None; wf_db d';
     set (db_entries d') =
       insert r {e \<in> set (db_entries (sys_db y)). entry_key e \<noteq> (pa_project_id a, k, p)};
     entry_key r = (pa_project_id a, k, p); db_audit_log d' = db_audit_log (sys_db y)\<rbrakk> \<Longrightarrow>
     put_effect sv a k p y \<lparr>sys_db = d', sys_fs = f\<rparr>"

lemma upsert_log [simp]: "db_audit_log (upsert_state now1 now pid k p h sz d) = db_audit_log d"
  by (simp add: upsert_state_def repoint_def upsert_incr_def decr_def Let_def split: option.split)

lemma registered_log [simp]: "db_audit_log (registered rq a k p w d) = db_audit_log d"
  by (simp add: registered_def bump_def Let_def)

lemma effect_upsert:
  assumes wf: "wf_db (sys_db y)" and "has_project (sys_db y) (pa_project_id a)" and "0 \<le> w_size_bytes w"
    and "files_grow sv (sys_fs y) f" and "blob_file (sv_root sv) (w_hash w) f \<noteq> None"
    and "wf_db d'" and "db_audit_log d' = db_audit_log (sys_db y)"
    and "db_entries d' = db_entries (upsert_state now1 now (pa_project_id a) k p (w_hash w) (w_size_bytes w) (sys_db y))"
  shows "put_effect sv a k p y \<lparr>sys_db = d', sys_fs = f\<rparr>"
  by (rule effect_row [where r = "row_after now (pa_project_id a) k p (w_hash w) (w_size_bytes w) (sys_db y)"])
     (use assms in \<open>simp_all add: set_entries_upsert_state [OF wf]\<close>)

lemma do_put_put_effect:
  assumes wf: "wf_db (sys_db (ap_sys s))"
  shows "put_effect sv a k p (ap_sys s) (ap_sys (snd (do_put sv rq a k u p body s)))"
  using wf
proof (cases rule: do_put_effect [where sv = sv and rq = rq and a = a and k = k and u = u and p = p and body = body])
  case unchanged
  then show ?thesis by (simp add: effect_none)
next
  case (files f)
  then show ?thesis using files(4,5) by (simp add: effect_files files_grow_def)
next
  case (uploaded w f)
  have "files_grow sv (sys_fs (ap_sys s)) f" using uploaded(6,8) by (simp add: files_grow_def)
  then show ?thesis
    unfolding uploaded(5)
    by (intro effect_upsert [OF wf uploaded(3,4) _ uploaded(7)] wf_registered wf uploaded(3,4)) simp_all
qed

section \<open>A sample server\<close>

definition sample_config :: "u64 \<Rightarrow> config" where
  "sample_config quota =
     \<lparr>cfg_server = \<lparr>listen = ''127.0.0.1:8080'', storage_root = ''/srv'',
        request_timeout_secs = 300, upload_max_bytes = 1000\<rparr>,
      cfg_database = \<lparr>db_path = ''/srv/db'', busy_timeout_ms = 5000\<rparr>,
      cfg_gc = sample_cfg quota, cfg_auth = default_auth_config, cfg_logging = default_logging_config\<rparr>"

definition sample_server :: "u64 \<Rightarrow> server" where
  "sample_server quota =
     \<lparr>sv_config = sample_config quota, sv_root = sample_root, sv_crypto = plain_crypto,
      sv_project_moka = recall 300, sv_admin_moka = recall 300,
      sv_base64 = (\<lambda>s. Some (str_bytes s)), sv_display = core_error_display (\<lambda>_. []) (\<lambda>_. []),
      sv_codec = plain_codec, sv_mixed = (\<lambda>_ _. Eq), sv_audit_rank = nat,
      sv_json_text = (\<lambda>_. ''{}''), sv_json_parse = (\<lambda>_. None),
      sv_encode_metrics = (\<lambda>_. Some [])\<rparr>"

definition sample_req :: req_env where
  "sample_req = \<lparr>rq_now = (\<lambda>_. 1000000), rq_uuid = ''u'', rq_random = [115, 107], rq_salt = [0],
     rq_rename_fault = None, rq_open_fault = None,
     rq_gc = sample_env\<rparr>"

definition sample_app :: app where
  "sample_app = \<lparr>ap_sys = \<lparr>sys_db = keyed_db, sys_fs = sample_fs\<rparr>, ap_project_cache = [],
     ap_admin_cache = [], ap_tasks = [], ap_metrics = []\<rparr>"

definition writer :: project_auth where
  "writer = \<lparr>pa_project_id = 1, pa_project_name = ''acme'', pa_api_key_id = 1, pa_role = Write\<rparr>"

definition sample_body :: "(io_error + bytes) list" where
  "sample_body = [Inr [69, 69], Inr [69, 69]]"

lemma sample_server_sel [simp]:
  "sv_root (sample_server q) = sample_root" "sv_crypto (sample_server q) = plain_crypto"
  "cfg_gc (sv_config (sample_server q)) = sample_cfg q" "rq_rename_fault sample_req = None"
  "rq_open_fault sample_req = None" "sys_db (ap_sys sample_app) = keyed_db"
  "sys_fs (ap_sys sample_app) = sample_fs" "pa_role writer = Write" "pa_project_name writer = ''acme''"
  "pa_project_id writer = 1" "ap_tasks sample_app = []" "ap_project_cache sample_app = []"
  "sv_project_moka (sample_server q) = recall 300" "rq_now sample_req n = 1000000"
  by (simp_all add: sample_server_def sample_config_def sample_req_def sample_app_def writer_def)

lemma sample_body_facts [simp]:
  "stream_ok sample_body" "stream_bytes sample_body = [69, 69, 69, 69]"
  "cr_sha256 plain_crypto [69, 69, 69, 69] = ''EEEE''" "visible_ascii ''EEEE''"
  by (simp_all add: stream_ok_def sample_body_def plain_crypto_def visible_ascii_def char_of_def bit_iff_odd)

lemma keyed_facts [simp]: "has_project keyed_db 1" "blob_bytes keyed_db = 100"
  by (simp_all add: keyed_db_def sample_tables has_project_def blob_bytes_def blob_of_def)

lemma sample_no_EEEE: "blob_file sample_root ''EEEE'' sample_fs = None"
  by (simp add: blob_file_def blob_path_def fs_get_def sample_fs_def sample_root_def)

section \<open>Properties\<close>

text \<open>
  C28 (round trip). An upload that the project's writer completes is answered 201 with the digest
  as \<open>ETag\<close>, and from then on every reader of the project gets exactly those bytes under that
  path, with their length and digest in the headers; \<open>HEAD\<close> gets the same headers.
\<close>

theorem put_then_get:
  assumes "wf_db (sys_db (ap_sys s))" and "has_project (sys_db (ap_sys s)) (pa_project_id a)"
    and "pa_role a = Write" and "pa_project_name a = u" and "stream_ok body"
    and "hash = cr_sha256 (sv_crypto sv) (stream_bytes body)"
    and "4 \<le> length hash" and "visible_ascii hash" and "rq_rename_fault rq = None"
    and "blob_bytes (sys_db (ap_sys s)) + int (length (stream_bytes body)) < 2 ^ 63"
    and "\<forall>c. blob_file (sv_root sv) hash (sys_fs (ap_sys s)) = Some c \<longrightarrow> c = stream_bytes body"
    and "pa_project_id a' = pa_project_id a" and "pa_project_name a' = u" and "rq_open_fault rq' = None"
  shows "\<exists>s'. do_put sv rq a k u p body s =
      (Ok \<lparr>rs_status = 201, rs_headers = [(''etag'', quoted hash)], rs_body = BEmpty\<rparr>, s') \<and>
    (\<forall>head_only. fst (get_one sv rq' a' k u p head_only s') =
      Ok \<lparr>rs_status = 200,
          rs_headers = [(''content-length'', dec_int (int (length (stream_bytes body)))),
             (''etag'', quoted hash), (''cache-control'', immutable_header)],
          rs_body = (if head_only then BEmpty else BBytes (stream_bytes body))\<rparr>)"
proof -
  let ?b = "stream_bytes body"
  let ?w = "\<lparr>w_hash = hash, w_size_bytes = int (length ?b)\<rparr>"
  let ?d' = "registered rq a k p ?w (sys_db (ap_sys s))"
  have "\<exists>f s'. do_put sv rq a k u p body s =
        (Ok \<lparr>rs_status = 201, rs_headers = [(''etag'', quoted hash)], rs_body = BEmpty\<rparr>, s') \<and>
      ap_sys s' = \<lparr>sys_db = ?d', sys_fs = f\<rparr> \<and>
      (\<forall>h. blob_file (sv_root sv) h f = (if h = hash \<and> blob_file (sv_root sv) h (sys_fs (ap_sys s)) = None
        then Some ?b else blob_file (sv_root sv) h (sys_fs (ap_sys s))))"
    by (rule do_put_Ok [of s a u body sv rq k p]) (use assms(1-10) in auto)
  then obtain f s' where put: "do_put sv rq a k u p body s =
        (Ok \<lparr>rs_status = 201, rs_headers = [(''etag'', quoted hash)], rs_body = BEmpty\<rparr>, s')"
      and s': "ap_sys s' = \<lparr>sys_db = ?d', sys_fs = f\<rparr>"
      and files: "\<And>h. blob_file (sv_root sv) h f = (if h = hash \<and>
        blob_file (sv_root sv) h (sys_fs (ap_sys s)) = None then Some ?b else blob_file (sv_root sv) h (sys_fs (ap_sys s)))"
    by blast
  have blob: "blob_file (sv_root sv) hash f = Some ?b"
    using files assms(11) by (cases "blob_file (sv_root sv) hash (sys_fs (ap_sys s))") simp_all
  note row = entry_at_registered [OF assms(1,2), of ?w rq k p]
  have allowed: "allows_read (pa_role a')" by (cases "pa_role a'") simp_all
  have "fst (get_one sv rq' a' k u p head_only s') =
      Ok \<lparr>rs_status = 200,
          rs_headers = [(''content-length'', dec_int (int (length ?b))),
             (''etag'', quoted hash), (''cache-control'', immutable_header)],
          rs_body = (if head_only then BEmpty else BBytes ?b)\<rparr>" for head_only
    using row allowed read_blob_Ok [OF blob] assms(8,12,13,14) s'
    by (simp add: get_one_def ensure_project_def entries_find_def on_app_db_def on_sys_def on_db_def on_fs_def
        andthen_def visible_dec_int Let_def)
  then show ?thesis using put by blast
qed

theorem put_then_get_witness:
  "\<exists>s'. snd (do_put (sample_server 1000) sample_req writer Sstate ''acme'' ''e'' sample_body sample_app) = s' \<and>
    fst (get_one (sample_server 1000) sample_req (writer\<lparr>pa_role := Read\<rparr>) Sstate ''acme'' ''e'' False s') =
      Ok \<lparr>rs_status = 200,
          rs_headers = [(''content-length'', dec_int 4), (''etag'', quoted ''EEEE''),
             (''cache-control'', immutable_header)],
          rs_body = BBytes [69, 69, 69, 69]\<rparr>"
proof -
  obtain s' where "do_put (sample_server 1000) sample_req writer Sstate ''acme'' ''e'' sample_body sample_app =
      (Ok \<lparr>rs_status = 201, rs_headers = [(''etag'', quoted ''EEEE'')], rs_body = BEmpty\<rparr>, s')"
    and "\<forall>head_only. fst (get_one (sample_server 1000) sample_req (writer\<lparr>pa_role := Read\<rparr>) Sstate ''acme''
        ''e'' head_only s') = Ok \<lparr>rs_status = 200,
          rs_headers = [(''content-length'', dec_int (int (length (stream_bytes sample_body)))),
             (''etag'', quoted ''EEEE''), (''cache-control'', immutable_header)],
          rs_body = (if head_only then BEmpty else BBytes (stream_bytes sample_body))\<rparr>"
    using put_then_get [of sample_app writer "''acme''" sample_body "''EEEE''" "sample_server 1000" sample_req
        "writer\<lparr>pa_role := Read\<rparr>" sample_req Sstate "''e''"] keyed_wf sample_no_EEEE
    by auto
  then show ?thesis by simp
qed

text \<open>
  C29 (safety). A request on the cache routes that changes a row or a file is a \<open>PUT\<close> whose
  credentials the service accepted, for a key with the role \<open>write\<close> of the project in the URL. It
  changes no entry but the one it names, no project or credential, and no blob that was there.
\<close>

theorem only_writers_change_the_cache:
  assumes wf: "wf_db (sys_db (ap_sys s))" and run: "yocto_router sv rq m t headers s = (r, s')"
    and changed: "ap_sys s' \<noteq> ap_sys s"
  shows "\<exists>body creds a c. m = PUT body \<and> parse_basic sv headers = Some creds \<and>
    authenticate_project (sv_crypto sv) (sv_project_moka sv) (rq_now rq 0) (ba_user creds) (ba_pass creds)
      (sys_db (ap_sys s)) (ap_project_cache s) = (Ok a, c) \<and>
    pa_role a = Write \<and> pa_project_name a = target_project t \<and>
    accounts (sys_db (ap_sys s')) = accounts (sys_db (ap_sys s)) \<and>
    (\<forall>e. entry_key e \<noteq> (pa_project_id a, target_kind t, target_path t) \<longrightarrow>
       (e \<in> set (db_entries (sys_db (ap_sys s'))) \<longleftrightarrow> e \<in> set (db_entries (sys_db (ap_sys s))))) \<and>
    (\<forall>h b. blob_file (sv_root sv) h (sys_fs (ap_sys s)) = Some b \<longrightarrow>
       blob_file (sv_root sv) h (sys_fs (ap_sys s')) = Some b)"
proof -
  have "ap_sys (snd (project_middleware sv rq headers (yocto_handler sv rq m t) s)) \<noteq> ap_sys s"
    using run changed by (simp add: yocto_router_def)
  then obtain a s1 where acc: "project_accepts sv rq headers s = Some (a, s1)"
    and enter: "project_middleware sv rq headers (yocto_handler sv rq m t) s = yocto_handler sv rq m t a s1"
    and same: "ap_sys s1 = ap_sys s"
    by (elim disjE project_gate.change_accepted [OF disjI1])
  from acc obtain creds c where creds: "parse_basic sv headers = Some creds"
    and auth: "authenticate_project (sv_crypto sv) (sv_project_moka sv) (rq_now rq 0) (ba_user creds)
      (ba_pass creds) (sys_db (ap_sys s)) (ap_project_cache s) = (Ok a, c)"
    by (auto simp: project_accepts_def split: option.splits prod.splits outcome.splits)
  have s': "s' = snd (yocto_handler sv rq m t a s1)" using run enter by (simp add: yocto_router_def)
  then obtain body where body: "m = PUT body"
    using changed yocto_handler_reads [of m sv rq t a s1] same by metis
  let ?put = "do_put sv rq a (target_kind t) (target_project t) (target_path t) body"
  have put: "s' = snd (?put s1)" using s' body by (simp add: yocto_handler_put)
  have wf1: "wf_db (sys_db (ap_sys s1))" using wf same by simp
  have "pa_role a = Write \<and> pa_project_name a = target_project t \<and>
    accounts (sys_db (ap_sys s')) = accounts (sys_db (ap_sys s)) \<and>
    (\<forall>e. entry_key e \<noteq> (pa_project_id a, target_kind t, target_path t) \<longrightarrow>
       (e \<in> set (db_entries (sys_db (ap_sys s'))) \<longleftrightarrow> e \<in> set (db_entries (sys_db (ap_sys s))))) \<and>
    (\<forall>h b. blob_file (sv_root sv) h (sys_fs (ap_sys s)) = Some b \<longrightarrow>
       blob_file (sv_root sv) h (sys_fs (ap_sys s')) = Some b)"
    using wf1
  proof (cases rule: do_put_effect [where sv = sv and rq = rq and a = a and k = "target_kind t"
        and u = "target_project t" and p = "target_path t" and body = body])
    case unchanged
    then show ?thesis using put changed same by simp
  next
    case (files f)
    then show ?thesis using put same by simp
  next
    case (uploaded w f)
    then show ?thesis
      using put same by (auto simp: set_entries_upsert_state [OF wf])
  qed
  then show ?thesis using body creds auth by blast
qed

definition sample_headers :: "(string \<times> string) list" where
  "sample_headers = [(''authorization'', ''Basic acme:s3cret'')]"

lemma chars_of_str_bytes [simp]: "map (\<lambda>b. char_of (unat b)) (str_bytes s) = s"
proof -
  have "unat (word_of_nat (of_char c) :: byte) = of_char c" for c :: char
    by (simp add: unat_of_nat of_char_mod_256)
  then show ?thesis by (simp add: str_bytes_def o_def)
qed

lemma from_utf8_str_bytes:
  assumes "utf8_valid (map of_char s)"
  shows "from_utf8 (str_bytes s) = Some s"
proof -
  have "unat (word_of_nat (of_char c) :: byte) = of_char c" for c :: char
    by (simp add: unat_of_nat of_char_mod_256)
  then have "map unat (str_bytes s) = map of_char s" by (simp add: str_bytes_def o_def)
  then show ?thesis using assms by (simp add: from_utf8_def)
qed

lemma writer_accepted:
  assumes "accounts (sys_db (ap_sys s)) = accounts keyed_db" and "ap_project_cache s = []"
  obtains c where "project_accepts (sample_server q) sample_req sample_headers s =
    Some (writer, s\<lparr>ap_project_cache := c\<rparr>)"
proof -
  have "from_utf8 (str_bytes ''acme:s3cret'') = Some ''acme:s3cret''"
    by (rule from_utf8_str_bytes) simp
  then have creds: "parse_basic (sample_server q) sample_headers =
      Some \<lparr>ba_user = ''acme'', ba_pass = ''s3cret''\<rparr>"
    by (simp add: parse_basic_def authorization_def sample_headers_def visible_ascii_def strip_prefix_def
        sample_server_def split_once_def)
  have "check_project plain_crypto ''acme'' ''s3cret'' (sys_db (ap_sys s)) =
      check_project plain_crypto ''acme'' ''s3cret'' keyed_db"
    using assms(1) by (rule check_project_accounts)
  then obtain c where auth: "authenticate_project plain_crypto (recall 300) 1000000 ''acme'' ''s3cret''
      (sys_db (ap_sys s)) [] = (Ok writer, c)"
    by (simp add: authenticate_project_def get_or_insert_def Let_def keyed_check writer_def)
  show ?thesis by (rule that [of c]) (simp add: project_accepts_def creds auth assms(2))
qed

lemma sample_accepts:
  obtains c where "project_accepts (sample_server q) sample_req sample_headers sample_app =
    Some (writer, sample_app\<lparr>ap_project_cache := c\<rparr>)"
  by (rule writer_accepted [of sample_app q]) (simp_all add: that)

text \<open>The state after the sample upload.\<close>

lemma sample_put:
  obtains d' f ts where "do_put (sample_server q) sample_req writer Sstate ''acme'' ''e'' sample_body
      (sample_app\<lparr>ap_project_cache := c\<rparr>) =
      (Ok \<lparr>rs_status = 201, rs_headers = [(''etag'', quoted ''EEEE'')], rs_body = BEmpty\<rparr>,
       sample_app\<lparr>ap_project_cache := c, ap_sys := \<lparr>sys_db = d', sys_fs = f\<rparr>, ap_tasks := ts\<rparr>)"
    and "entry_at d' (1, Sstate, ''e'') \<noteq> None"
    and "ts = (if trigger_threshold (sample_cfg q) < as_u64 (blob_bytes d') then [GcTask] else [])"
    and "blob_bytes d' = 104"
proof (rule do_put_Ok [of "sample_app\<lparr>ap_project_cache := c\<rparr>" writer "''acme''" sample_body
      "sample_server q" sample_req Sstate "''e''"], goal_cases)
  case (10 f)
  let ?w = "\<lparr>w_hash = ''EEEE'', w_size_bytes = 4\<rparr>"
  let ?d' = "registered sample_req writer Sstate ''e'' ?w keyed_db"
  have "entry_at ?d' (1, Sstate, ''e'') \<noteq> None"
    using entry_at_registered [OF keyed_wf, of writer ?w sample_req Sstate "''e''"] by simp
  moreover have "blob_bytes ?d' = 104"
    by (simp add: blob_bytes_def repoint_def upsert_incr_def entry_at_def keyed_db_def sample_tables
        blob_at_def blob_of_def) (simp add: sample_entries entry_key_def)
  ultimately show ?thesis using that [OF _ _ refl] 10 by simp
qed (simp_all add: keyed_wf)

theorem only_writers_change_the_cache_witness:
  "\<exists>s' (creds :: basic) a c. yocto_router (sample_server 1000) sample_req (PUT sample_body) (SstateUrl ''acme'' ''e'')
      sample_headers sample_app = s' \<and> ap_sys (snd s') \<noteq> ap_sys sample_app \<and>
    authenticate_project plain_crypto (recall 300) 1000000 (ba_user creds) (ba_pass creds) keyed_db [] = (Ok a, c) \<and>
    pa_role a = Write \<and> pa_project_name a = ''acme''"
proof -
  let ?run = "yocto_router (sample_server 1000) sample_req (PUT sample_body) (SstateUrl ''acme'' ''e'')
      sample_headers sample_app"
  obtain c where acc: "project_accepts (sample_server 1000) sample_req sample_headers sample_app =
      Some (writer, sample_app\<lparr>ap_project_cache := c\<rparr>)"
    by (rule sample_accepts)
  obtain d' f ts where put: "do_put (sample_server 1000) sample_req writer Sstate ''acme'' ''e'' sample_body
      (sample_app\<lparr>ap_project_cache := c\<rparr>) =
      (Ok \<lparr>rs_status = 201, rs_headers = [(''etag'', quoted ''EEEE'')], rs_body = BEmpty\<rparr>,
       sample_app\<lparr>ap_project_cache := c, ap_sys := \<lparr>sys_db = d', sys_fs = f\<rparr>, ap_tasks := ts\<rparr>)"
    and row: "entry_at d' (1, Sstate, ''e'') \<noteq> None"
    by (rule sample_put)
  have "ap_sys (snd ?run) = \<lparr>sys_db = d', sys_fs = f\<rparr>"
    using project_gate.accepted [OF acc] put by (simp add: yocto_router_def yocto_handler_put)
  moreover have "entry_at keyed_db (1, Sstate, ''e'') = None"
    by (simp add: entry_at_def keyed_db_def sample_tables) (simp add: sample_entries entry_key_def)
  ultimately have changed: "ap_sys (snd ?run) \<noteq> ap_sys sample_app" using row by (auto simp: sample_app_def)
  have "wf_db (sys_db (ap_sys sample_app))" by (simp add: keyed_wf)
  from only_writers_change_the_cache [OF this surjective_pairing changed] obtain creds :: basic and a c
    where "authenticate_project (sv_crypto (sample_server 1000)) (sv_project_moka (sample_server 1000))
        (rq_now sample_req 0) (ba_user creds) (ba_pass creds) (sys_db (ap_sys sample_app))
        (ap_project_cache sample_app) = (Ok a, c)"
      and "pa_role a = Write" and "pa_project_name a = target_project (SstateUrl ''acme'' ''e'')"
    by blast
  then show ?thesis using changed by (intro exI [of _ ?run] exI [of _ creds] exI [of _ a] exI [of _ c]) simp
qed

text \<open>
  C30 (error). A \<open>PUT\<close> whose body breaks off is answered 500 and changes no row, no blob and no
  task; what it leaves is at most a file under \<open>tmp/\<close>.
\<close>

theorem broken_upload_changes_nothing:
  assumes "\<not> stream_ok body" and "pa_project_name a = u" and "pa_role a = Write"
  shows "\<exists>e s'. Inl e \<in> set body \<and> put_sstate sv rq a u p body s = (Some (into_response sv (Io e)), s') \<and>
    rs_status (into_response sv (Io e)) = 500 \<and>
    sys_db (ap_sys s') = sys_db (ap_sys s) \<and> ap_tasks s' = ap_tasks s \<and>
    (\<forall>h. blob_file (sv_root sv) h (sys_fs (ap_sys s')) = blob_file (sv_root sv) h (sys_fs (ap_sys s)))"
proof -
  obtain e f where e: "Inl e \<in> set body"
    and w: "write_streamed (cr_sha256 (sv_crypto sv)) (rq_uuid rq) (rq_rename_fault rq) (sv_root sv) body
      (sys_fs (ap_sys s)) = (Err (Io e), f)"
    and same: "\<forall>h. blob_file (sv_root sv) h f = blob_file (sv_root sv) h (sys_fs (ap_sys s))"
    using write_streamed_broken [OF assms(1)] by blast
  have "do_put sv rq a Sstate u p body s = (Err (Io e), s\<lparr>ap_sys := (ap_sys s)\<lparr>sys_fs := f\<rparr>\<rparr>)"
    using w assms(2,3) by (simp add: do_put_def put_store_def ensure_project_def on_sys_def on_fs_def)
  then have "put_sstate sv rq a u p body s =
      (Some (into_response sv (Io e)), s\<lparr>ap_sys := (ap_sys s)\<lparr>sys_fs := f\<rparr>\<rparr>)"
    by (simp add: put_sstate_def render_def)
  moreover have "rs_status (into_response sv (Io e)) = 500"
    by (simp add: into_response_def status_and_title_def)
  ultimately show ?thesis
    using e same by (intro exI [of _ e] exI [of _ "s\<lparr>ap_sys := (ap_sys s)\<lparr>sys_fs := f\<rparr>\<rparr>"]) simp
qed

theorem broken_upload_changes_nothing_witness:
  "\<exists>s'. snd (put_sstate (sample_server 1000) sample_req writer ''acme'' ''e''
      [Inr [69], Inl (IoError IoOther ''reset'')] sample_app) = s' \<and> sys_db (ap_sys s') = keyed_db \<and>
    fst (put_sstate (sample_server 1000) sample_req writer ''acme'' ''e''
      [Inr [69], Inl (IoError IoOther ''reset'')] sample_app) \<noteq> None"
proof -
  let ?body = "[Inr [69], Inl (IoError IoOther ''reset'')] :: (io_error + bytes) list"
  have "\<not> stream_ok ?body" by (simp add: stream_ok_def)
  from broken_upload_changes_nothing [of ?body writer "''acme''" "sample_server 1000" sample_req "''e''" sample_app, OF this]
  show ?thesis by auto
qed

section \<open>The collector and uploads\<close>

lemma unat_u64_of_byte: "unat (ucast (b :: byte) :: u64) = unat b"
proof -
  have "unat b < 2 ^ LENGTH(8)" by (rule unsigned_less)
  then have "unat b < 2 ^ 64" by simp
  then show ?thesis by (simp add: unsigned_ucast_eq take_bit_nat_eq_self)
qed

lemma trigger_threshold_exact:
  assumes "unat (global_quota_bytes cfg) * unat (trigger_threshold_pct cfg) < 2 ^ 64"
  shows "unat (trigger_threshold cfg) = unat (global_quota_bytes cfg) * unat (trigger_threshold_pct cfg) div 100"
  using assms by (simp add: trigger_threshold_def unat_div unat_word_ariths unat_u64_of_byte)

text \<open>
  (functional). Where the product of quota and percentage fits in 64 bits, a completed upload
  queues one collection exactly if the bytes of the store, the upload included, exceed that
  percentage of the global quota; the response does not wait for it and nothing else is queued.
\<close>

theorem put_triggers_collection:
  assumes "wf_db (sys_db (ap_sys s))" and "has_project (sys_db (ap_sys s)) (pa_project_id a)"
    and "pa_role a = Write" and "pa_project_name a = u" and "stream_ok body"
    and "4 \<le> length (cr_sha256 (sv_crypto sv) (stream_bytes body))"
    and "visible_ascii (cr_sha256 (sv_crypto sv) (stream_bytes body))" and "rq_rename_fault rq = None"
    and "blob_bytes (sys_db (ap_sys s)) + int (length (stream_bytes body)) < 2 ^ 63"
    and "cfg = cfg_gc (sv_config sv)"
    and "unat (global_quota_bytes cfg) * unat (trigger_threshold_pct cfg) < 2 ^ 64"
  shows "\<exists>resp s'. do_put sv rq a k u p body s = (Ok resp, s') \<and> rs_status resp = 201 \<and>
    ap_tasks s' = ap_tasks s @
      (if int (unat (global_quota_bytes cfg) * unat (trigger_threshold_pct cfg) div 100) <
          blob_bytes (sys_db (ap_sys s')) then [GcTask] else [])"
proof (rule do_put_Ok [OF assms(1-9), of k p], goal_cases)
  case (1 f)
  let ?w = "\<lparr>w_hash = cr_sha256 (sv_crypto sv) (stream_bytes body), w_size_bytes = int (length (stream_bytes body))\<rparr>"
  let ?d = "registered rq a k p ?w (sys_db (ap_sys s))"
  let ?t = "unat (trigger_threshold cfg)"
  have wf: "wf_db ?d" using assms(1,2) by (rule wf_registered) simp
  have "blob_bytes ?d \<le> blob_bytes (sys_db (ap_sys s)) + int (length (stream_bytes body))"
    using blob_bytes_upsert_state [of "int (length (stream_bytes body))"] by (simp add: blob_bytes_def)
  then have fits: "blob_bytes ?d < 2 ^ 64" using assms(9) by simp
  have "trigger_threshold cfg < as_u64 (blob_bytes ?d) \<longleftrightarrow> ?t < nat (blob_bytes ?d)"
    using unat_as_u64 [OF blob_bytes_nonneg [OF wf] fits] by (simp add: word_less_nat_alt)
  also have "\<dots> \<longleftrightarrow> int ?t < blob_bytes ?d"
    using blob_bytes_nonneg [OF wf] by (simp only: zless_nat_eq_int_zless)
  finally have "trigger_threshold (cfg_gc (sv_config sv)) < as_u64 (blob_bytes ?d) \<longleftrightarrow>
      int (unat (global_quota_bytes cfg) * unat (trigger_threshold_pct cfg) div 100) < blob_bytes ?d"
    by (simp only: trigger_threshold_exact [OF assms(11)] flip: assms(10))
  then show ?thesis by (simp only: 1(1)) simp
qed

theorem put_triggers_collection_witness:
  "\<exists>s'. snd (do_put (sample_server 115) sample_req writer Sstate ''acme'' ''e'' sample_body sample_app) = s' \<and>
    (GcTask \<in> set (ap_tasks s') \<longleftrightarrow> 103 < blob_bytes (sys_db (ap_sys s')))"
proof -
  have "unat (global_quota_bytes (sample_cfg 115)) * unat (trigger_threshold_pct (sample_cfg 115)) = 10350"
    by (simp add: sample_cfg_def)
  then show ?thesis
    using put_triggers_collection [of sample_app writer "''acme''" sample_body "sample_server 115" sample_req
        "sample_cfg 115" Sstate "''e''"] keyed_wf
    by (auto split: if_splits)
qed

text \<open>A store whose only blob has lost its last reference, and the same content uploaded again.\<close>

definition stale_blob :: blob where
  "stale_blob = \<lparr>b_hash = ''EEEE'', b_size_bytes = 4, b_refcount = 0, b_created_at = 0\<rparr>"

definition stale_app :: app where
  "stale_app = sample_app\<lparr>ap_sys :=
     \<lparr>sys_db = keyed_db\<lparr>db_blobs := [stale_blob], db_entries := []\<rparr>,
      sys_fs = [(sample_root @ [''blobs'', ''EE'', ''EE'', ''EEEE''], [69, 69, 69, 69])]\<rparr>\<rparr>"

lemma stale_wf: "wf_db (keyed_db\<lparr>db_blobs := [stale_blob], db_entries := []\<rparr>)"
  and stale_wf_gone: "wf_db (keyed_db\<lparr>db_blobs := [], db_entries := []\<rparr>)"
  using keyed_wf by (simp_all add: wf_db_defs has_project_def has_blob_def stale_blob_def)

text \<open>
  (safety, interleaving). The two halves of an upload are not atomic. The upload finds the
  content in the store and drops its own copy; a collection then reclaims that blob, whose
  refcount is still zero; the upload goes on to register an entry for it and answers 201. Nothing
  is left to serve: the next \<open>GET\<close> is a miss, although the client was told the object is stored.
\<close>

theorem put_racing_collection_loses_the_blob:
  "\<exists>w s1 s2 s3 resp.
    put_store (sample_server 1000) sample_req writer ''acme'' sample_body stale_app = (Ok w, s1) \<and>
    s2 = run_task (sample_server 1000) sample_env GcTask s1 \<and>
    put_commit (sample_server 1000) sample_req writer Sstate ''e'' w s2 = (Ok resp, s3) \<and>
    rs_status resp = 201 \<and>
    fst (get_sstate (sample_server 1000) sample_req writer ''acme'' ''e'' s3) = Some not_found_text"
proof -
  let ?sv = "sample_server 1000"
  let ?d = "keyed_db\<lparr>db_blobs := [stale_blob], db_entries := []\<rparr>"
  let ?w = "\<lparr>w_hash = ''EEEE'', w_size_bytes = 4\<rparr>"
  have there: "blob_file sample_root ''EEEE'' (sys_fs (ap_sys stale_app)) \<noteq> None"
    by (simp add: stale_app_def blob_file_def blob_path_def fs_get_def)
  from write_streamed_Ok [of sample_body "cr_sha256 plain_crypto" "rq_uuid sample_req" sample_root
      "sys_fs (ap_sys stale_app)"]
  obtain f where f: "write_streamed (cr_sha256 plain_crypto) (rq_uuid sample_req) None sample_root sample_body
      (sys_fs (ap_sys stale_app)) = (Ok ?w, f)" by auto
  let ?s1 = "stale_app\<lparr>ap_sys := (ap_sys stale_app)\<lparr>sys_fs := f\<rparr>\<rparr>"
  have store: "put_store ?sv sample_req writer ''acme'' sample_body stale_app = (Ok ?w, ?s1)"
    using f by (simp add: put_store_def ensure_project_def on_sys_def on_fs_def)
  have d: "sys_db (ap_sys ?s1) = ?d" by (simp add: stale_app_def)
  have wf: "wf_db ?d" by (rule stale_wf)
  have ready: "gc_ready ?d"
    using wf by (simp add: gc_ready_def bytes_fit_def blob_bytes_def stale_blob_def)
  have hash: "hashes_ok ?d" by (simp add: hashes_ok_def stale_blob_def)
  have "e \<notin> set (sweep_plan False sample_env (sample_cfg 1000) ?d)" for e
    using sweep_plan_unpinned [OF ready sample_ttl_fit [of 1000], of e] by auto
  then have "set (sweep_plan False sample_env (sample_cfg 1000) ?d) = {}" by (intro equals0I notI) (rule notE)
  then have plan: "evict_all (sweep_plan False sample_env (sample_cfg 1000) ?d) ?d = ?d" by simp
  obtain r y where gc: "gc_run sample_env (sample_cfg 1000) sample_root False (ap_sys ?s1) = (r, y)"
    by fastforce
  note run = gc_run_parts [of "ap_sys ?s1" sample_env "sample_cfg 1000" sample_root, unfolded d plan,
      OF ready sample_ttl_fit hash, unfolded gc snd_conv]
  have rows: "sys_db y = keyed_db\<lparr>db_blobs := [], db_entries := []\<rparr>"
    using run(2) by (simp add: drop_zero_def stale_blob_def)
  have gone: "blob_file sample_root ''EEEE'' (sys_fs y) = None"
    using run(3) by (simp add: files_after_def zero_rows_def stale_blob_def)
  let ?s2 = "?s1\<lparr>ap_sys := y\<rparr>"
  have task: "run_task ?sv sample_env GcTask ?s1 = ?s2"
    using gc by (simp add: run_task_def on_sys_def)
  let ?d3 = "registered sample_req writer Sstate ''e'' ?w (sys_db y)"
  have wf2: "wf_db (sys_db y)" unfolding rows by (rule stale_wf_gone)
  have proj: "has_project (sys_db y) 1" unfolding rows by (simp add: has_project_def keyed_db_def sample_tables)
  have zero: "blob_bytes (sys_db y) = 0" unfolding rows by (simp add: blob_bytes_def)
  obtain resp s3 where commit: "put_commit ?sv sample_req writer Sstate ''e'' ?w ?s2 = (Ok resp, s3)"
      "rs_status resp = 201" "ap_sys s3 = y\<lparr>sys_db := ?d3\<rparr>"
    using put_commit_Ok [of ?s2 writer ?w ?sv sample_req Sstate "''e''"] wf2 proj zero by simp
  have row: "entry_at ?d3 (1, Sstate, ''e'') = Some (row_after 1000000 1 Sstate ''e'' ''EEEE'' 4 (sys_db y))"
    using entry_at_registered [OF wf2, of writer ?w sample_req Sstate "''e''"] proj by simp
  have lost: "read_blob None sample_root ''EEEE'' (sys_fs y) = (Err (NotFound ''blob EEEE''), sys_fs y)"
    using read_blob_missing [OF _ gone] by simp
  have "get_one ?sv sample_req writer Sstate ''acme'' ''e'' False s3 = (Err (NotFound ''blob EEEE''), s3)"
    using row lost commit(3)
    by (simp add: get_one_def ensure_project_def entries_find_def on_app_db_def on_sys_def on_db_def on_fs_def
        andthen_def visible_dec_int Let_def)
  then have "fst (get_sstate ?sv sample_req writer ''acme'' ''e'' s3) = Some not_found_text"
    by (simp add: get_sstate_def read_handler_def render_def)
  then show ?thesis using store task commit(1,2) task [symmetric]
    by - (rule exI [of _ ?w], rule exI [of _ ?s1], rule exI [of _ ?s2], rule exI [of _ s3],
      rule exI [of _ resp], intro conjI)
qed

end
