(* ===== verification/Admin_Properties.thy ===== *)
theory Admin_Properties
  imports Admin_Routes Yocto_Properties "HOL-Library.Sublist"
begin

text \<open>
  The properties of the admin API: only accepted tokens change anything, every change that
  succeeds leaves its audit row, no reading request depends on a stored verifier, and a key that
  was issued opens the cache routes.
\<close>

section \<open>Handlers that read\<close>

lemma keeps_parse_opt [keeps_intros]: "keeps I (parse_opt p x)"
  by (auto simp: parse_opt_def split: option.split intro!: keeps_intros)

lemma keeps_entries_list: "keeps (\<lambda>s. I (ap_sys s)) (on_app_db (entries_list codec mixed i f))"
proof -
  have "snd (entries_list codec mixed i f d) = d" for d
    by (auto simp: entries_list_def Let_def andthen_def split: option.split prod.split outcome.split)
  then show ?thesis by (intro keepsI) (simp add: on_app_db_same)
qed

fun is_read :: "admin_request \<Rightarrow> bool" where
  "is_read ListProjects = True"
| "is_read (GetProject _) = True"
| "is_read (ListKeys _) = True"
| "is_read ListTokens = True"
| "is_read (ListEntries _ _) = True"
| "is_read (GetEntry _ _) = True"
| "is_read GlobalStats = True"
| "is_read (ProjectStats _) = True"
| "is_read (ReadAudit _ _) = True"
| "is_read _ = False"

lemma reads_keep: "is_read req \<Longrightarrow> keeps (\<lambda>s. I (ap_sys s)) (admin_op sv rq a req)"
  by (cases req)
     (auto simp: project_list_all_def projects_list_def project_get_one_def projects_get_def key_list_all_def
       api_keys_list_def token_list_all_def admin_tokens_list_def entry_list_all_def entry_get_one_def
       global_stats_def total_size_def project_stats_def project_usage_def stats_sum_def audit_read_def
       audit_since_def Let_def split: prod.split intro!: keeps_intros keeps_entries_list)


section \<open>What an admin request does to the database\<close>

text \<open>The statements that the handlers issue, each with arbitrary arguments.\<close>

inductive admin_step :: "db \<Rightarrow> db \<Rightarrow> bool" where
  admin_project_create: "admin_step d (snd (projects_create now name q t d))"
| admin_project_update: "admin_step d (snd (projects_update i nm q' t' d))"
| admin_project_delete: "admin_step d (snd (projects_delete i d))"
| admin_key_create: "admin_step d (snd (api_keys_create now pid l h r lab d))"
| admin_key_revoke: "admin_step d (snd (api_keys_revoke now pid i d))"
| admin_token_create: "admin_step d (snd (admin_tokens_create now l h lab d))"
| admin_token_revoke: "admin_step d (snd (admin_tokens_revoke now i d))"
| admin_set_pinned: "admin_step d (snd (set_pinned pid i pin d))"
| admin_entry_delete: "admin_step d (snd (entries_delete pid i d))"
| admin_audit: "admin_step d (snd (audit now act a tgt dt d))"

lemma admin_step_db_step: "admin_step d d' \<Longrightarrow> db_step d d'"
  by (induction rule: admin_step.induct) (auto intro: db_step.intros cache_step.intros)

lemma admin_step_wf: "admin_step d d' \<Longrightarrow> wf_db d \<Longrightarrow> wf_db d'"
  using admin_step_db_step db_step_wf by blast

text \<open>
  An invariant of the cache and its files that every statement, every sweep and every scan keeps is
  kept by the whole admin API.
\<close>

locale admin_invariant =
  fixes I :: "sys \<Rightarrow> bool" and root :: path
  assumes statement: "I y \<Longrightarrow> admin_step (sys_db y) d' \<Longrightarrow> I (y\<lparr>sys_db := d'\<rparr>)"
    and sweep: "keeps I (gc_run env cfg root dry_run)"
    and scan: "keeps I (orphan_scan env root dry_run)"
begin

lemma keeps_statement:
  assumes "\<And>d. admin_step d (snd (m d))"
  shows "keeps (\<lambda>s. I (ap_sys s)) (on_app_db m)"
proof
  fix s :: app
  assume "I (ap_sys s)"
  from statement [OF this assms] show "I (ap_sys (snd (on_app_db m s)))"
    by (cases "m (sys_db (ap_sys s))") simp
qed

lemmas keeps_admin = keeps_intros keeps_statement admin_step.intros keeps_on_sys sweep scan

lemma keeps_admin_op:
  assumes "sv_root sv = root"
  shows "keeps (\<lambda>s. I (ap_sys s)) (admin_op sv rq a req)"
proof (cases "is_read req")
  case True
  then show ?thesis by (rule reads_keep)
next
  case False
  then show ?thesis
    by (cases req)
       (auto simp: project_create_one_def project_update_one_def project_delete_one_def key_create_one_def
         key_revoke_one_def token_create_one_def token_revoke_one_def entry_delete_one_def entry_pin_def
         entry_unpin_def gc_run_now_def gc_orphan_scan_def audit_call_def projects_get_def Let_def assms
         intro!: keeps_admin)
qed

lemma admin_router_keeps:
  assumes "sv_root sv = root" and "I (ap_sys s)"
  shows "I (ap_sys (snd (admin_router sv rq headers req s)))"
  unfolding admin_router_def
  by (rule admin_gate.enter_keeps [where I = I])
     (use assms keeps_admin_op [OF assms(1)] in \<open>auto dest: keepsD\<close>)

end


section \<open>Entries stay readable\<close>

lemma admin_step_hashes:
  assumes "admin_step d d'" and "wf_db d"
  shows "e_blob_hash ` set (db_entries d') \<subseteq> e_blob_hash ` set (db_entries d)"
  using assms
proof (induction rule: admin_step.induct)
  case (admin_project_update d i nm q' t')
  then show ?case
    using keepsD [OF keeps_rows_update [where es = "db_entries d" and bs = "db_blobs d"], of d] by simp
next
  case (admin_entry_delete d pid i)
  then show ?case using entries_delete_subset by (intro image_mono)
qed (auto simp: projects_create_def projects_delete_def api_keys_create_def api_keys_revoke_def
    admin_tokens_create_def admin_tokens_revoke_def set_pinned_def Let_def)

lemma purge_row_readable:
  assumes "wf_db (sys_db y) \<and> blobs_present root y \<and> e_blob_hash ` set (db_entries (sys_db y)) \<subseteq> R"
  shows "wf_db (sys_db (y\<lparr>sys_db := purge H (sys_db y)\<rparr>)) \<and> blobs_present root (y\<lparr>sys_db := purge H (sys_db y)\<rparr>) \<and>
    e_blob_hash ` set (db_entries (sys_db (y\<lparr>sys_db := purge H (sys_db y)\<rparr>))) \<subseteq> R"
  using assms wf_purge [of "sys_db y" H] by (auto simp: blobs_present_def purge_def)

lemma scan_readable:
  "keeps (\<lambda>y. wf_db (sys_db y) \<and> blobs_present root y) (orphan_scan env root dry_run)"
proof
  fix y
  assume I: "wf_db (sys_db y) \<and> blobs_present root y"
  let ?R = "set (map b_hash (db_blobs (sys_db y)))"
  let ?J = "\<lambda>y. wf_db (sys_db y) \<and> blobs_present root y \<and> e_blob_hash ` set (db_entries (sys_db y)) \<subseteq> ?R"
  have J: "?J y" using I by (auto simp: wf_db_def wf_entries_def has_blob_def)
  have disk: "keeps ?J (disk_orphan env root dry_run h rep)" if "h \<notin> ?R" for h rep
  proof -
    have "keeps ?J (unlink_logged env root h)"
    proof
      fix t
      assume t: "?J t"
      have "blob_file root (e_blob_hash e) (sys_fs (snd (unlink_logged env root h t))) =
          blob_file root (e_blob_hash e) (sys_fs t)" if "e \<in> set (db_entries (sys_db t))" for e
        using that t \<open>h \<notin> ?R\<close> by (intro unlink_other) auto
      moreover have "sys_db (snd (unlink_logged env root h t)) = sys_db t"
        by (simp add: unlink_logged_def split: prod.split outcome.split)
      ultimately show "?J (snd (unlink_logged env root h t))" using t by (simp add: blobs_present_def)
    qed
    then show ?thesis by (auto simp: disk_orphan_def intro!: keeps_andthen keeps_ret)
  qed
  have rows: "keeps ?J (db_orphan dry_run h rep)" for h rep
  proof -
    have "keeps ?J (on_db (purge_row h))"
      by (rule keepsI) (use purge_row_readable [of _ root ?R "{h}"] in \<open>simp add: on_db_def purge_row_Ok\<close>)
    then show ?thesis by (auto simp: db_orphan_def intro!: keeps_andthen keeps_ret)
  qed
  have "keeps ?J (andthen (foreach (disk_orphan env root dry_run) hs rep) (foreach (db_orphan dry_run) hs'))"
    if "set hs \<inter> ?R = {}" for hs hs' rep
    by (intro keeps_andthen keeps_foreach rows, rule disk) (use that in blast)
  note loops = keepsD [OF this J]
  obtain w where w: "(if is_dir (blobs_dir root) (sys_fs y)
      then walk_blobs (ge_walk env) (sys_fs y) (blobs_dir root) [] else Ok []) = w" by blast
  show "wf_db (sys_db (snd (orphan_scan env root dry_run y))) \<and>
      blobs_present root (snd (orphan_scan env root dry_run y))"
  proof (cases w)
    case (Ok on_disk)
    let ?hs = "sort_key (ge_blob_rank env) (filter (\<lambda>h. h \<notin> set (remdups (map b_hash (db_blobs (sys_db y))))) on_disk)"
    have "orphan_scan env root dry_run y =
        andthen (foreach (disk_orphan env root dry_run) ?hs \<lparr>disk_orphans_removed = 0, db_orphans_removed = 0\<rparr>)
          (foreach (db_orphan dry_run) (sort_key (ge_blob_rank env)
            (filter (\<lambda>h. h \<notin> set on_disk) (remdups (map b_hash (db_blobs (sys_db y))))))) y"
      using w Ok by (simp add: orphan_scan_def query_def andthen_def [of "\<lambda>s. (_ s, s)"])
    moreover have "set ?hs \<inter> ?R = {}" by auto
    ultimately show ?thesis using loops by presburger
  qed (use w I in \<open>simp_all add: orphan_scan_def\<close>)
qed

interpretation readable_admin: admin_invariant "\<lambda>y. wf_db (sys_db y) \<and> blobs_present root y" root for root
proof (unfold_locales, goal_cases)
  case (1 y d')
  have "blob_file root (e_blob_hash e) (sys_fs y) \<noteq> None" if "e \<in> set (db_entries d')" for e
  proof -
    have "e_blob_hash e \<in> e_blob_hash ` set (db_entries (sys_db y))"
      using admin_step_hashes [OF 1(2)] 1(1) that by blast
    then obtain e' where "e' \<in> set (db_entries (sys_db y))" "e_blob_hash e = e_blob_hash e'" by blast
    then show ?thesis using 1(1) by (simp add: blobs_present_def)
  qed
  then show ?case using admin_step_wf [OF 1(2)] 1(1) by (simp add: blobs_present_def)
qed (rule readable_sweep.keeps_run scan_readable)+

section \<open>The audit log\<close>

lemma entries_delete_log [simp]: "db_audit_log (snd (entries_delete pid i d)) = db_audit_log d"
  by (simp add: entries_delete_def transaction_def andthen_def decr_def split: option.split)

lemma blobs_delete_log [simp]: "db_audit_log (snd (blobs_delete h d)) = db_audit_log d"
  by (simp add: blobs_delete_def)

lemma free_blob_log: "db_audit_log (sys_db (snd (free_blob env root dry_run h rep s))) = db_audit_log (sys_db s)"
proof -
  have "keeps (\<lambda>t. db_audit_log (sys_db t) = L) (free_blob env root dry_run h rep)" for L
    unfolding free_blob_def
    by (auto intro!: keeps_ret keeps_andthen keeps_unlink_logged keeps_on_db [of "\<lambda>d. db_audit_log d = L"])
      (simp add: keeps_def)
  then show ?thesis by (simp add: keeps_def)
qed

text \<open>Neither a sweep nor a scan writes to the log.\<close>

interpretation log_sweep: sweep_invariant "\<lambda>y. wf_db (sys_db y) \<and> db_audit_log (sys_db y) = L" root for L root
proof (unfold_locales, goal_cases)
  case (2 s e dry_run)
  then show ?case by (intro keepsI) (simp add: gc_delete_wf, simp add: gc_delete_def)
next
  case (3 s h env dry_run rep)
  then show ?case by (simp add: free_blob_wf free_blob_log)
qed simp

lemma keeps_wf_purge_row: "keeps wf_db (purge_row h)"
  by (rule keepsI) (simp add: purge_row_Ok wf_purge)

lemma scan_log:
  "keeps (\<lambda>y. wf_db (sys_db y) \<and> db_audit_log (sys_db y) = L) (orphan_scan env root dry_run)"
proof -
  have "keeps (\<lambda>y. wf_db (sys_db y) \<and> db_audit_log (sys_db y) = L) (db_orphan dry_run h rep)" for h rep
  proof -
    have "keeps (\<lambda>y. wf_db (sys_db y) \<and> db_audit_log (sys_db y) = L) (on_db (purge_row h))"
      by (rule keepsI) (simp add: on_db_def purge_row_Ok wf_purge, simp add: purge_def)
    then show ?thesis by (auto simp: db_orphan_def intro!: keeps_andthen keeps_ret)
  qed
  moreover have "keeps (\<lambda>y. wf_db (sys_db y) \<and> db_audit_log (sys_db y) = L) (disk_orphan env root dry_run h rep)"
    for h rep
    by (auto simp: disk_orphan_def intro!: keeps_andthen keeps_ret keeps_unlink_logged)
  ultimately show ?thesis unfolding orphan_scan_def by (intro keeps_intros)
qed

lemma projects_update_log: "db_audit_log (snd (projects_update i nm q t d)) = db_audit_log d"
proof -
  have "keeps (\<lambda>d. db_audit_log d = L) (projects_update i nm q t)" for L
    unfolding projects_update_def projects_get_def rename_project_def
    by (intro keeps_andthen keeps_transaction keeps_query)
       (auto split: option.split intro!: keeps_ret keepsI)
  then show ?thesis by (simp add: keeps_def)
qed

lemma admin_step_log: "admin_step d d' \<Longrightarrow> prefix (db_audit_log d) (db_audit_log d')"
  by (induction rule: admin_step.induct)
     (simp_all add: projects_update_log projects_create_def projects_delete_def api_keys_create_def
       api_keys_revoke_def admin_tokens_create_def admin_tokens_revoke_def set_pinned_def audit_def Let_def)

interpretation log_admin: admin_invariant "\<lambda>y. wf_db (sys_db y) \<and> prefix L (db_audit_log (sys_db y))" root for L root
proof (unfold_locales, goal_cases)
  case (1 y d')
  then show ?case
    using admin_step_wf [of "sys_db y" d'] admin_step_log [of "sys_db y" d']
    by (auto intro: prefix_order.trans)
next
  case (2 env cfg dry_run)
  show ?case
  proof
    fix y :: sys
    assume "wf_db (sys_db y) \<and> prefix L (db_audit_log (sys_db y))"
    then show "wf_db (sys_db (snd (gc_run env cfg root dry_run y))) \<and>
        prefix L (db_audit_log (sys_db (snd (gc_run env cfg root dry_run y))))"
      using keepsD [OF log_sweep.keeps_run [where L = "db_audit_log (sys_db y)"], of y] by simp
  qed
next
  case (3 env dry_run)
  show ?case
  proof
    fix y :: sys
    assume "wf_db (sys_db y) \<and> prefix L (db_audit_log (sys_db y))"
    then show "wf_db (sys_db (snd (orphan_scan env root dry_run y))) \<and>
        prefix L (db_audit_log (sys_db (snd (orphan_scan env root dry_run y))))"
      using keepsD [OF scan_log [where L = "db_audit_log (sys_db y)"], of y] by simp
  qed
qed


section \<open>Every change leaves an audit row\<close>

fun audit_action :: "admin_request \<Rightarrow> string" where
  "audit_action (CreateProject _ _ _) = ''project.create''"
| "audit_action (UpdateProject _ _ _ _) = ''project.update''"
| "audit_action (DeleteProject _) = ''project.delete''"
| "audit_action (CreateKey _ _ _) = ''key.create''"
| "audit_action (RevokeKey _ _) = ''key.revoke''"
| "audit_action (CreateToken _) = ''token.create''"
| "audit_action (RevokeToken _) = ''token.revoke''"
| "audit_action (DeleteEntry _ _) = ''entry.delete''"
| "audit_action (PinEntry _ _) = ''entry.pin''"
| "audit_action (UnpinEntry _ _) = ''entry.unpin''"
| "audit_action (RunGc _) = ''gc.run''"
| "audit_action (OrphanScan _) = ''gc.orphan_scan''"
| "audit_action _ = []"

fun is_collection :: "admin_request \<Rightarrow> bool" where
  "is_collection (RunGc dry_run) = (\<not> dry_run)"
| "is_collection (OrphanScan dry_run) = (\<not> dry_run)"
| "is_collection _ = False"

abbreviation app_log :: "app \<Rightarrow> audit_row list" where
  "app_log s \<equiv> db_audit_log (sys_db (ap_sys s))"

text \<open>One row for this action by this actor, and a response that is no error.\<close>

definition logs_row :: "string option \<Rightarrow> string \<Rightarrow> audit_row list \<Rightarrow> response outcome \<times> app \<Rightarrow> bool" where
  "logs_row actor action log0 out \<longleftrightarrow>
     (\<exists>r row. fst out = Ok r \<and> rs_status r < 400 \<and> app_log (snd out) = log0 @ [row] \<and>
        au_actor_token row = actor \<and> au_action row = action)"

definition audited :: "string option \<Rightarrow> string \<Rightarrow> (app, response) op \<Rightarrow> bool" where
  "audited actor action m \<longleftrightarrow>
     (\<forall>s. logs_row actor action (app_log s) (m s) \<or>
        (\<forall>r. fst (m s) \<noteq> Ok r) \<and> ap_sys (snd (m s)) = ap_sys s)"

text \<open>A statement that writes nothing where it fails, and never the log.\<close>

definition atomic_op :: "(db, 'a) op \<Rightarrow> bool" where
  "atomic_op m \<longleftrightarrow>
     (\<forall>d. db_audit_log (snd (m d)) = db_audit_log d \<and> ((\<forall>x. fst (m d) \<noteq> Ok x) \<longrightarrow> snd (m d) = d))"

named_theorems audit_rules \<open>which operations are atomic, which handlers are audited\<close>

lemma audit_call_logs:
  "rs_status r < 400 \<Longrightarrow> actor = aa_token_label a \<Longrightarrow> log0 = app_log s \<Longrightarrow>
   logs_row actor action log0 (andthen (audit_call sv now a action target detail) (\<lambda>_. ret r) s)"
  by (simp add: logs_row_def audit_call_def andthen_def on_app_db_def on_sys_def on_db_def audit_def)

lemma audit_call_counted:
  "rs_status r < 400 \<Longrightarrow> actor = aa_token_label a \<Longrightarrow> log0 = app_log s \<Longrightarrow>
   logs_row actor action log0 (andthen (audit_call sv now a action target detail) (\<lambda>_.
     andthen (count_metric m labels) (\<lambda>_. ret r)) s)"
  by (simp add: logs_row_def audit_call_def andthen_def on_app_db_def on_sys_def on_db_def audit_def)

lemma audited_op [audit_rules]:
  assumes m: "atomic_op m" and f: "\<And>x s. logs_row actor action (app_log s) (f x s)"
  shows "audited actor action (andthen (on_app_db m) f)"
  unfolding audited_def
proof
  fix s :: app
  obtain r d where run: "m (sys_db (ap_sys s)) = (r, d)" by fastforce
  then have log: "db_audit_log d = app_log s" and same: "(\<forall>x. r \<noteq> Ok x) \<longrightarrow> d = sys_db (ap_sys s)"
    using m [unfolded atomic_op_def, rule_format, of "sys_db (ap_sys s)"] by simp_all
  have "on_app_db m s = (r, s\<lparr>ap_sys := (ap_sys s)\<lparr>sys_db := d\<rparr>\<rparr>)" using run by simp
  then show "logs_row actor action (app_log s) (andthen (on_app_db m) f s) \<or>
      (\<forall>r. fst (andthen (on_app_db m) f s) \<noteq> Ok r) \<and> ap_sys (snd (andthen (on_app_db m) f s)) = ap_sys s"
    using f [of "s\<lparr>ap_sys := (ap_sys s)\<lparr>sys_db := d\<rparr>\<rparr>"] log same by (cases r) simp_all
qed

lemma audited_query:
  assumes "\<And>x. audited actor action (f x)"
  shows "audited actor action (andthen (query q) f)" "audited actor action (andthen (on_app_db (query p)) f)"
proof -
  have "ap_sys s\<lparr>sys_db := sys_db (ap_sys s)\<rparr> = ap_sys s" for s :: app by simp
  then have db: "on_app_db (query p) s = (p (sys_db (ap_sys s)), s)" for s
    by (simp add: on_app_db_def on_sys_def on_db_def)
  have q: "andthen (query q) f s = (case q s of Ok x \<Rightarrow> f x s | Err e \<Rightarrow> (Err e, s) | Panic \<Rightarrow> (Panic, s))" for s
    by (simp add: andthen_def)
  have p: "andthen (on_app_db (query p)) f s =
      (case p (sys_db (ap_sys s)) of Ok x \<Rightarrow> f x s | Err e \<Rightarrow> (Err e, s) | Panic \<Rightarrow> (Panic, s))" for s
    by (simp add: andthen_def db)
  show "audited actor action (andthen (query q) f)"
    using assms unfolding audited_def q by (auto split: outcome.split)
  show "audited actor action (andthen (on_app_db (query p)) f)"
    using assms unfolding audited_def p by (auto split: outcome.split)
qed

lemma atomic_transaction: "(\<And>d. db_audit_log (snd (transaction m d)) = db_audit_log d) \<Longrightarrow> atomic_op (transaction m)"
  by (simp add: atomic_op_def transaction_atomic)

lemma atomic_entries_delete [audit_rules]: "atomic_op (entries_delete pid i)"
  using atomic_transaction entries_delete_log unfolding entries_delete_def by blast

lemma atomic_then_get:
  assumes ids: "\<And>is. keeps (\<lambda>d. map p_id (db_projects d) = is) (transaction U)"
    and missing: "\<And>d. i \<notin> p_id ` set (db_projects d) \<Longrightarrow> snd (transaction U d) = d"
    and failed: "\<forall>x. fst (andthen (transaction U) (\<lambda>_. projects_get i) d) \<noteq> Ok x"
  shows "snd (andthen (transaction U) (\<lambda>_. projects_get i) d) = d"
proof -
  obtain r d1 where run: "transaction U d = (r, d1)" by fastforce
  have "map p_id (db_projects d1) = map p_id (db_projects d)"
    using keepsE [OF ids [of "map p_id (db_projects d)"] refl run] .
  then have proj: "p_id ` set (db_projects d1) = p_id ` set (db_projects d)"
    by (metis list.set_map)
  have get: "andthen (transaction U) (\<lambda>_. projects_get i) d = projects_get i d1" if "r = Ok x" for x
    using run that by simp
  have "snd (projects_get i d1) = d1" by (simp add: projects_get_def)
  moreover have "\<exists>p. fst (projects_get i d1) = Ok p" if "i \<in> p_id ` set (db_projects d1)"
    using that by (cases "find (\<lambda>p. p_id p = i) (db_projects d1)") (auto simp: projects_get_def find_None_iff)
  ultimately have "r = Ok x \<Longrightarrow> snd (andthen (transaction U) (\<lambda>_. projects_get i) d) = d" for x
    using get failed missing run proj by (metis snd_conv)
  moreover have "(\<forall>x. r \<noteq> Ok x) \<Longrightarrow> snd (andthen (transaction U) (\<lambda>_. projects_get i) d) = d"
    using run transaction_atomic [of U d] by (cases r) simp_all
  ultimately show ?thesis by blast
qed

lemma atomic_projects_update [audit_rules]: "atomic_op (projects_update i nm q t)"
  unfolding atomic_op_def
proof (intro allI conjI impI)
  fix d
  show "db_audit_log (snd (projects_update i nm q t d)) = db_audit_log d" by (rule projects_update_log)
  assume failed: "\<forall>x. fst (projects_update i nm q t d) \<noteq> Ok x"
  show "snd (projects_update i nm q t d) = d"
    unfolding projects_update_def
  proof (rule atomic_then_get [OF _ _ failed [unfolded projects_update_def]], goal_cases)
    case 1
    show ?case
      unfolding rename_project_def
      by (intro keeps_transaction keeps_andthen)
         (auto simp: map_sql_update split: option.split intro!: keeps_ret keepsI)
  next
    case (2 d)
    then have "\<forall>p\<in>set (db_projects d). p_id p \<noteq> i" by auto
    then show ?case
      by (auto simp: rename_project_def transaction_def andthen_def sql_update_none split: option.split)
  qed
qed

lemma atomic_statements [audit_rules]:
  "atomic_op (projects_create now name quota ttl)" "atomic_op (projects_delete i)"
  "atomic_op (api_keys_create now pid l h r lab)" "atomic_op (api_keys_revoke now pid i)"
  "atomic_op (admin_tokens_create now l h lab)" "atomic_op (admin_tokens_revoke now i)"
  "atomic_op (set_pinned pid i pin)"
  by (simp_all add: atomic_op_def projects_create_def projects_delete_def api_keys_create_def
      api_keys_revoke_def admin_tokens_create_def admin_tokens_revoke_def set_pinned_def Let_def)


lemma write_audited:
  assumes "\<not> is_read req" and "\<not> (\<exists>dry_run. req = RunGc dry_run)" and "\<not> (\<exists>dry_run. req = OrphanScan dry_run)"
  shows "audited (aa_token_label a) (audit_action req) (admin_op sv rq a req)"
  using assms
  by (cases req)
     (auto simp: project_create_one_def project_update_one_def project_delete_one_def key_create_one_def
       key_revoke_one_def token_create_one_def token_revoke_one_def entry_delete_one_def entry_pin_def
       entry_unpin_def projects_get_def Let_def json_response_def no_content_def
       intro!: audited_query audit_rules audit_call_logs)

text \<open>A sweep or a scan that is to report and one that succeeds.\<close>

lemma collection_audited:
  assumes m: "keeps (\<lambda>y. wf_db (sys_db y) \<and> db_audit_log (sys_db y) = app_log s) m"
    and dry: "dry_run \<Longrightarrow> snd (m (ap_sys s)) = ap_sys s"
    and f: "\<And>x s. logs_row actor action (app_log s) (f x s)" and wf: "wf_db (sys_db (ap_sys s))"
  shows "logs_row actor action (app_log s) (andthen (on_sys m) f s) \<or>
    (\<forall>r. fst (andthen (on_sys m) f s) \<noteq> Ok r) \<and>
    (dry_run \<longrightarrow> ap_sys (snd (andthen (on_sys m) f s)) = ap_sys s)"
proof -
  obtain r y where run: "m (ap_sys s) = (r, y)" by fastforce
  have "db_audit_log (sys_db y) = app_log s" using keepsE [OF m _ run] wf by simp
  moreover have "on_sys m s = (r, s\<lparr>ap_sys := y\<rparr>)" using run by simp
  ultimately show ?thesis using f [of "s\<lparr>ap_sys := y\<rparr>"] dry run by (cases r) auto
qed


lemma admin_op_audited:
  assumes wf: "wf_db (sys_db (ap_sys s))" and "\<not> is_read req"
  shows "logs_row (aa_token_label a) (audit_action req) (app_log s) (admin_op sv rq a req s) \<or>
    (\<forall>r. fst (admin_op sv rq a req s) \<noteq> Ok r) \<and>
    (\<not> is_collection req \<longrightarrow> ap_sys (snd (admin_op sv rq a req s)) = ap_sys s)"
proof -
  have gc: "keeps (\<lambda>y. wf_db (sys_db y) \<and> db_audit_log (sys_db y) = app_log s)
      (gc_run (rq_gc rq) (cfg_gc (sv_config sv)) (sv_root sv) dry_run)" for dry_run
    by (rule log_sweep.keeps_run)
  have scan: "keeps (\<lambda>y. wf_db (sys_db y) \<and> db_audit_log (sys_db y) = app_log s)
      (orphan_scan (rq_gc rq) (sv_root sv) dry_run)" for dry_run
    by (rule scan_log)
  have dry: "snd (gc_run (rq_gc rq) (cfg_gc (sv_config sv)) (sv_root sv) True y) = y"
      "snd (orphan_scan (rq_gc rq) (sv_root sv) True y) = y" for y
    using dry_run_keeps dry_scan_keeps by (simp_all add: keeps_def)
  show ?thesis
  proof (cases "(\<exists>dry_run. req = RunGc dry_run) \<or> (\<exists>dry_run. req = OrphanScan dry_run)")
    case False
    then have "audited (aa_token_label a) (audit_action req) (admin_op sv rq a req)"
      using assms(2) by (intro write_audited) auto
    then show ?thesis by (auto simp: audited_def)
  next
    case True
    then show ?thesis
    proof
      assume "\<exists>dry_run. req = RunGc dry_run"
      then obtain dry_run where req: "req = RunGc dry_run" by blast
      have "logs_row (aa_token_label a) ''gc.run'' (app_log s) (gc_run_now sv rq a dry_run s) \<or>
          (\<forall>r. fst (gc_run_now sv rq a dry_run s) \<noteq> Ok r) \<and>
          (dry_run \<longrightarrow> ap_sys (snd (gc_run_now sv rq a dry_run s)) = ap_sys s)"
        unfolding gc_run_now_def
        by (rule collection_audited [OF gc _ _ wf]) (simp_all add: dry audit_call_counted json_response_def)
      then show ?thesis using req by auto
    next
      assume "\<exists>dry_run. req = OrphanScan dry_run"
      then obtain dry_run where req: "req = OrphanScan dry_run" by blast
      have "logs_row (aa_token_label a) ''gc.orphan_scan'' (app_log s) (gc_orphan_scan sv rq a dry_run s) \<or>
          (\<forall>r. fst (gc_orphan_scan sv rq a dry_run s) \<noteq> Ok r) \<and>
          (dry_run \<longrightarrow> ap_sys (snd (gc_orphan_scan sv rq a dry_run s)) = ap_sys s)"
        unfolding gc_orphan_scan_def
        by (rule collection_audited [OF scan _ _ wf]) (simp_all add: dry audit_call_logs json_response_def)
      then show ?thesis using req by auto
    qed
  qed
qed


section \<open>Samples\<close>

definition root_token :: admin_token where
  "root_token = \<lparr>t_id = 1, t_token_lookup = lookup_hash plain_crypto ''root'', t_token_hash = ''root'',
     t_label = Some ''ops'', t_created_at = 0, t_revoked_at = None\<rparr>"

definition admin_app :: app where
  "admin_app = sample_app\<lparr>ap_sys := (ap_sys sample_app)\<lparr>sys_db :=
     keyed_db\<lparr>db_admin_tokens := [root_token], db_admin_token_seq := 1\<rparr>\<rparr>\<rparr>"

definition admin_headers :: "(string \<times> string) list" where
  "admin_headers = [(''authorization'', ''Bearer root'')]"

lemma admin_app_wf: "wf_db (sys_db (ap_sys admin_app))"
proof -
  have "wf_admin_tokens (keyed_db\<lparr>db_admin_tokens := [root_token], db_admin_token_seq := 1\<rparr>)"
    by (simp add: wf_admin_tokens_def root_token_def)
  from wf_credentials_change(2) [OF keyed_wf this] show ?thesis by (simp add: admin_app_def)
qed

definition ops :: admin_auth where
  "ops = \<lparr>aa_token_id = 1, aa_token_label = Some ''ops''\<rparr>"

lemma admin_login:
  obtains c where "parse_bearer admin_headers = Some ''root''"
    and "authenticate_admin (sv_crypto (sample_server q)) (sv_admin_moka (sample_server q)) (rq_now sample_req 0)
      ''root'' (sys_db (ap_sys admin_app)) (ap_admin_cache admin_app) = (Ok ops, c)"
    and "admin_accepts (sample_server q) sample_req admin_headers admin_app =
      Some (ops, admin_app\<lparr>ap_admin_cache := c\<rparr>)"
proof -
  have token: "parse_bearer admin_headers = Some ''root''"
    by (simp add: parse_bearer_def authorization_def admin_headers_def visible_ascii_def strip_prefix_def)
  obtain c where "authenticate_admin plain_crypto (recall 300) 1000000 ''root'' (sys_db (ap_sys admin_app)) [] =
      (Ok ops, c)"
    by (simp add: authenticate_admin_def get_or_insert_def Let_def check_admin_def admin_tokens_find_active_def
        admin_app_def root_token_def verify_argon2_def plain_crypto_def ops_def lookup_hash_def)
  moreover have "sv_admin_moka (sample_server q) = recall 300" "ap_admin_cache admin_app = []"
    by (simp_all add: sample_server_def admin_app_def sample_app_def)
  ultimately show ?thesis using that [of c] token by (simp add: admin_accepts_def)
qed

lemma entry_pin_Ok:
  assumes "set_pinned i e True (sys_db (ap_sys s)) = (Ok (), d)"
  shows "entry_pin sv rq a i e s = (Ok no_content, s\<lparr>ap_sys := (ap_sys s)\<lparr>sys_db :=
    snd (audit (rq_now rq 1) (aa_token_label a) ''entry.pin'' (Some (dec_int e)) None d)\<rparr>\<rparr>)"
  using assms by (simp add: entry_pin_def audit_call_def audit_def)

section \<open>Reads and stored verifiers\<close>

text \<open>A database without what is stored to verify secrets.\<close>

definition hide_key :: "api_key \<Rightarrow> api_key" where
  "hide_key k = k\<lparr>k_key_lookup := [], k_key_hash := []\<rparr>"

definition hide_token :: "admin_token \<Rightarrow> admin_token" where
  "hide_token t = t\<lparr>t_token_lookup := [], t_token_hash := []\<rparr>"

definition hide_secrets :: "db \<Rightarrow> db" where
  "hide_secrets d = d\<lparr>db_api_keys := map hide_key (db_api_keys d),
     db_admin_tokens := map hide_token (db_admin_tokens d)\<rparr>"

lemma hide_sel [simp]:
  "k_id (hide_key k) = k_id k" "k_project_id (hide_key k) = k_project_id k" "t_id (hide_token t) = t_id t"
  "api_key_view (hide_key k) = api_key_view k" "admin_token_view (hide_token t) = admin_token_view t"
  by (simp_all add: hide_key_def hide_token_def api_key_view_def admin_token_view_def)

lemma hide_secrets_sel [simp]:
  "db_projects (hide_secrets d) = db_projects d" "db_entries (hide_secrets d) = db_entries d"
  "db_blobs (hide_secrets d) = db_blobs d" "db_stats_counters (hide_secrets d) = db_stats_counters d"
  "db_audit_log (hide_secrets d) = db_audit_log d"
  "db_api_keys (hide_secrets d) = map hide_key (db_api_keys d)"
  "db_admin_tokens (hide_secrets d) = map hide_token (db_admin_tokens d)"
  by (simp_all add: hide_secrets_def)

lemma hide_secretsD:
  assumes "hide_secrets d = hide_secrets d'"
  shows "db_projects d = db_projects d'" "db_entries d = db_entries d'" "db_blobs d = db_blobs d'"
    "db_stats_counters d = db_stats_counters d'" "db_audit_log d = db_audit_log d'"
    "map hide_key (db_api_keys d) = map hide_key (db_api_keys d')"
    "map hide_token (db_admin_tokens d) = map hide_token (db_admin_tokens d')"
  using arg_cong [OF assms, of db_projects] arg_cong [OF assms, of db_entries] arg_cong [OF assms, of db_blobs]
    arg_cong [OF assms, of db_stats_counters] arg_cong [OF assms, of db_audit_log]
    arg_cong [OF assms, of db_api_keys] arg_cong [OF assms, of db_admin_tokens]
  by simp_all

lemma insort_key_map: "insort_key f (g x) (map g xs) = map g (insort_key (\<lambda>x. f (g x)) x xs)"
  by (induction xs) auto

lemma sort_key_map: "sort_key f (map g xs) = map g (sort_key (\<lambda>x. f (g x)) xs)"
  by (induction xs) (simp_all add: insort_key_map [of f g])

lemma views_hidden:
  "map api_key_view (sort_key k_id (filter (\<lambda>k. k_project_id k = i) ks)) =
   map api_key_view (sort_key k_id (filter (\<lambda>k. k_project_id k = i) (map hide_key ks)))"
  "map admin_token_view (sort_key t_id ts) = map admin_token_view (sort_key t_id (map hide_token ts))"
  by (simp_all add: filter_map sort_key_map o_def)

text \<open>An operation that cannot tell two states apart that differ in verifiers only.\<close>

definition blind :: "(app, 'a) op \<Rightarrow> bool" where
  "blind m \<longleftrightarrow> (\<forall>s s'. hide_secrets (sys_db (ap_sys s)) = hide_secrets (sys_db (ap_sys s')) \<longrightarrow>
     fst (m s) = fst (m s') \<and> snd (m s) = s \<and> snd (m s') = s')"

named_theorems blind_intros \<open>operations that do not depend on stored verifiers\<close>

lemma blind_ret [blind_intros]: "blind (ret a)"
  by (simp add: blind_def)

lemma blind_andthen [blind_intros]:
  assumes "blind m" and "\<And>x. blind (f x)"
  shows "blind (andthen m f)"
  unfolding blind_def
proof (intro allI impI)
  fix s s' :: app
  assume eq: "hide_secrets (sys_db (ap_sys s)) = hide_secrets (sys_db (ap_sys s'))"
  then obtain r where "m s = (r, s)" "m s' = (r, s')"
    using assms(1) unfolding blind_def by (metis prod.collapse)
  moreover have "fst (f x s) = fst (f x s') \<and> snd (f x s) = s \<and> snd (f x s') = s'" for x
    using assms(2) [of x] eq unfolding blind_def by blast
  ultimately show "fst (andthen m f s) = fst (andthen m f s') \<and> snd (andthen m f s) = s \<and> snd (andthen m f s') = s'"
    by (cases r) simp_all
qed

lemma on_app_db_query [simp]: "on_app_db (query q) s = (q (sys_db (ap_sys s)), s)"
  by (simp add: on_app_db_def on_sys_def on_db_def)

lemma blind_query [blind_intros]:
  assumes "\<And>d d'. db_projects d = db_projects d' \<Longrightarrow> db_entries d = db_entries d' \<Longrightarrow> db_blobs d = db_blobs d' \<Longrightarrow>
    db_stats_counters d = db_stats_counters d' \<Longrightarrow> db_audit_log d = db_audit_log d' \<Longrightarrow> q d = q d'"
  shows "blind (on_app_db (query q))"
  unfolding blind_def
proof (intro allI impI)
  fix s s' :: app
  assume eq: "hide_secrets (sys_db (ap_sys s)) = hide_secrets (sys_db (ap_sys s'))"
  have "q (sys_db (ap_sys s)) = q (sys_db (ap_sys s'))" by (rule assms) (rule hide_secretsD [OF eq])+
  then show "fst (on_app_db (query q) s) = fst (on_app_db (query q) s') \<and>
      snd (on_app_db (query q) s) = s \<and> snd (on_app_db (query q) s') = s'" by simp
qed

lemma blind_const [blind_intros]: "blind (query (\<lambda>_. r))"
  by (simp add: blind_def)

lemma blind_parse_opt [blind_intros]: "blind (parse_opt p x)"
  by (auto simp: parse_opt_def split: option.split intro!: blind_intros)

lemma blind_entries_list [blind_intros]: "blind (on_app_db (entries_list codec mixed i f))"
  unfolding blind_def
proof (intro allI impI)
  fix s s' :: app
  assume "hide_secrets (sys_db (ap_sys s)) = hide_secrets (sys_db (ap_sys s'))"
  then have eq: "db_entries (sys_db (ap_sys s)) = db_entries (sys_db (ap_sys s'))" by (rule hide_secretsD)
  have "\<exists>r. \<forall>d. db_entries d = db_entries (sys_db (ap_sys s')) \<longrightarrow> entries_list codec mixed i f d = (r, d)"
    by (cases "lf_cursor f"; cases "cursor_decode codec (the (lf_cursor f))")
       (auto simp: entries_list_def Let_def andthen_def)
  then obtain r where r: "db_entries d = db_entries (sys_db (ap_sys s')) \<Longrightarrow> entries_list codec mixed i f d = (r, d)" for d
    by blast
  show "fst (on_app_db (entries_list codec mixed i f) s) = fst (on_app_db (entries_list codec mixed i f) s') \<and>
      snd (on_app_db (entries_list codec mixed i f) s) = s \<and> snd (on_app_db (entries_list codec mixed i f) s') = s'"
    using r [of "sys_db (ap_sys s)"] r [of "sys_db (ap_sys s')"] eq by simp
qed

text \<open>A list that is shown through its view.\<close>

lemma blind_view:
  assumes "\<And>d d'. hide_secrets d = hide_secrets d' \<Longrightarrow> map v (q d) = map v (q d')"
  shows "blind (andthen (on_app_db (query (\<lambda>d. Ok (q d)))) (\<lambda>rows. ret (g (map v rows))))"
  unfolding blind_def
proof (intro allI impI)
  fix s s' :: app
  assume "hide_secrets (sys_db (ap_sys s)) = hide_secrets (sys_db (ap_sys s'))"
  then have "map v (q (sys_db (ap_sys s))) = map v (q (sys_db (ap_sys s')))" by (rule assms)
  then show "fst (andthen (on_app_db (query (\<lambda>d. Ok (q d)))) (\<lambda>rows. ret (g (map v rows))) s) =
      fst (andthen (on_app_db (query (\<lambda>d. Ok (q d)))) (\<lambda>rows. ret (g (map v rows))) s') \<and>
      snd (andthen (on_app_db (query (\<lambda>d. Ok (q d)))) (\<lambda>rows. ret (g (map v rows))) s) = s \<and>
      snd (andthen (on_app_db (query (\<lambda>d. Ok (q d)))) (\<lambda>rows. ret (g (map v rows))) s') = s'"
    by (simp add: andthen_def)
qed

lemma credential_lists_blind: "blind (key_list_all i)" "blind token_list_all"
proof -
  show "blind (key_list_all i)"
    unfolding key_list_all_def api_keys_list_def
    by (rule blind_view) (use views_hidden(1) hide_secretsD(6) in metis)
  show "blind token_list_all"
    unfolding token_list_all_def admin_tokens_list_def
    by (rule blind_view) (use views_hidden(2) hide_secretsD(7) in metis)
qed

lemma aggregates_blind [blind_intros]:
  "blind (on_app_db (stats_sum pid kind since))" "blind (on_app_db (project_usage i))" "blind (on_app_db total_size)"
  unfolding stats_sum_def counter_rows_def project_usage_def total_size_def by (rule blind_query, simp only:)+

lemma reads_blind: "is_read req \<Longrightarrow> blind (admin_op sv rq a req)"
  by (cases req)
     (auto simp: project_list_all_def projects_list_def project_get_one_def projects_get_def
       credential_lists_blind entry_list_all_def entry_get_one_def global_stats_def project_stats_def
       audit_read_def audit_since_def Let_def split: prod.splits intro!: blind_intros)

section \<open>Properties\<close>

lemma into_response_status [simp]: "\<not> rs_status (into_response sv e) < 400"
  by (cases e) (simp_all add: into_response_def status_and_title_def)

text \<open>
  C31 (safety). Whatever request changes a row or a file through the admin API carried a token that the
  service accepted and is not a read. If it is answered without an error the audit log has grown by
  exactly one row, with the label of that token and the action of the request; if it is answered
  with an error, only a sweep or a scan that failed half way can have changed anything.
\<close>

theorem admin_changes_are_audited:
  assumes wf: "wf_db (sys_db (ap_sys s))" and run: "admin_router sv rq headers req s = (r, s')"
    and changed: "ap_sys s' \<noteq> ap_sys s"
  shows "\<exists>token a c. parse_bearer headers = Some token \<and>
    authenticate_admin (sv_crypto sv) (sv_admin_moka sv) (rq_now rq 0) token (sys_db (ap_sys s))
      (ap_admin_cache s) = (Ok a, c) \<and> \<not> is_read req \<and>
    (if \<exists>resp. r = Some resp \<and> rs_status resp < 400
     then \<exists>row. app_log s' = app_log s @ [row] \<and> au_actor_token row = aa_token_label a \<and>
       au_action row = audit_action req
     else is_collection req)"
proof -
  let ?h = "\<lambda>a. render sv (admin_op sv rq a req)"
  have "ap_sys (snd (admin_middleware sv rq headers ?h s)) \<noteq> ap_sys s"
    using run changed by (simp add: admin_router_def)
  then obtain a s1 where acc: "admin_accepts sv rq headers s = Some (a, s1)"
    and enter: "admin_middleware sv rq headers ?h s = ?h a s1" and same: "ap_sys s1 = ap_sys s"
    by (elim disjE admin_gate.change_accepted [OF disjI1])
  have out: "render sv (admin_op sv rq a req) s1 = (r, s')" using run enter by (simp add: admin_router_def)
  then have s': "s' = snd (admin_op sv rq a req s1)" by (metis snd_conv snd_render)
  have writes: "\<not> is_read req"
    using reads_keep [of req "\<lambda>y. y = ap_sys s" sv rq a] s' changed same by (auto simp: keeps_def)
  have wf1: "wf_db (sys_db (ap_sys s1))" using wf same by simp
  have "if \<exists>resp. r = Some resp \<and> rs_status resp < 400
     then \<exists>row. app_log s' = app_log s @ [row] \<and> au_actor_token row = aa_token_label a \<and>
       au_action row = audit_action req
     else is_collection req"
    using admin_op_audited [OF wf1 writes, of a sv rq] out s' changed same
    by (auto simp: logs_row_def render_def split: prod.splits outcome.splits)
  then show ?thesis
    using acc writes by (auto simp: admin_accepts_def split: option.splits prod.splits outcome.splits)
qed

theorem admin_changes_are_audited_witness:
  "\<exists>s' row. snd (admin_router (sample_server 1000) sample_req admin_headers (PinEntry 1 1) admin_app) = s' \<and>
    app_log s' = app_log admin_app @ [row] \<and> au_actor_token row = Some ''ops'' \<and> au_action row = ''entry.pin''"
proof -
  let ?run = "admin_router (sample_server 1000) sample_req admin_headers (PinEntry 1 1) admin_app"
  obtain c where token: "parse_bearer admin_headers = Some ''root''"
    and auth: "authenticate_admin (sv_crypto (sample_server 1000)) (sv_admin_moka (sample_server 1000))
      (rq_now sample_req 0) ''root'' (sys_db (ap_sys admin_app)) (ap_admin_cache admin_app) = (Ok ops, c)"
    and acc: "admin_accepts (sample_server 1000) sample_req admin_headers admin_app =
      Some (ops, admin_app\<lparr>ap_admin_cache := c\<rparr>)"
    by (rule admin_login)
  obtain d where pin: "set_pinned 1 1 True (sys_db (ap_sys admin_app)) = (Ok (), d)"
    and log: "db_audit_log d = app_log admin_app"
    by (simp add: set_pinned_def sql_count_def admin_app_def keyed_db_def sample_tables)
  have run: "?run = (Some no_content, snd ?run)" and changed: "app_log (snd ?run) \<noteq> app_log admin_app"
    using entry_pin_Ok [of 1 1 "admin_app\<lparr>ap_admin_cache := c\<rparr>" d "sample_server 1000" sample_req ops] pin log
    by (simp_all add: admin_router_def admin_gate.accepted [OF acc] render_def audit_def)
  have "ap_sys (snd ?run) \<noteq> ap_sys admin_app" using changed by auto
  from admin_changes_are_audited [OF admin_app_wf run this] token auth
  show ?thesis by (auto simp: no_content_def ops_def)
qed


text \<open>What the code relies on: argon2 accepts the password it hashed.\<close>

definition argon2_sound :: "crypto \<Rightarrow> bool" where
  "argon2_sound cr \<longleftrightarrow>
     (\<forall>salt secret phc. hash_argon2 cr salt secret = Ok phc \<longrightarrow> verify_argon2 cr secret phc = Ok True)"

text \<open>
  (round trip). The secret in the answer to a key creation opens the cache routes: where the
  verification cache has never seen it, it is accepted at once for its project, with the id of the
  new row and the role that was asked for.
\<close>

theorem issued_key_authenticates:
  assumes "wf_db (sys_db (ap_sys s))" and "argon2_sound (sv_crypto sv)" and "moka_sound ttl moka"
    and "p \<in> set (db_projects (sys_db (ap_sys s)))"
    and "key_create_one sv rq adm (p_id p) r label s = (Ok resp, s')"
    and "secret = generate_secret (sv_crypto sv) (rq_random rq)"
    and "\<forall>t v. CacheInsert t (project_scope (p_name p), lookup_hash (sv_crypto sv) secret) v \<notin> set c"
  shows "\<exists>k. resp = json_response 201 (api_key_created k secret) \<and>
    fst (authenticate_project (sv_crypto sv) moka now (p_name p) secret (sys_db (ap_sys s')) c) =
      Ok \<lparr>pa_project_id = p_id p, pa_project_name = p_name p, pa_api_key_id = k_id k, pa_role = r\<rparr>"
proof -
  let ?d = "sys_db (ap_sys s)"
  let ?lookup = "lookup_hash (sv_crypto sv) secret"
  obtain phc where phc: "hash_argon2 (sv_crypto sv) (rq_salt rq) secret = Ok phc"
    and "\<exists>k d'. api_keys_create (rq_now rq 1) (p_id p) ?lookup phc r label ?d = (Ok k, d') \<and>
      resp = json_response 201 (api_key_created k secret) \<and> accounts (sys_db (ap_sys s')) = accounts d'"
    using assms(5) assms(6) by (auto simp: key_create_one_def Let_def audit_call_def audit_def projects_get_def on_app_db_def on_sys_def on_db_def accounts_def andthen_def split: outcome.splits prod.splits option.splits)
  then obtain k d' where create: "api_keys_create (rq_now rq 1) (p_id p) ?lookup phc r label ?d = (Ok k, d')"
    and resp: "resp = json_response 201 (api_key_created k secret)"
    and acc: "accounts (sys_db (ap_sys s')) = accounts d'"
    by blast
  have ver: "verify_argon2 (sv_crypto sv) secret phc = Ok True"
    using assms(2) phc by (simp add: argon2_sound_def)
  have wf': "wf_db d'" using keepsE [OF keeps_wf_api_keys_create assms(1) create] .
  have k: "k \<in> set (db_api_keys d')" "k_project_id k = p_id p" "k_key_lookup k = ?lookup"
      "k_key_hash k = phc" "k_role k = r" "k_revoked_at k = None" and projects: "db_projects d' = db_projects ?d"
    using create by (auto simp: api_keys_create_def Let_def split: if_splits)
  have "check_project (sv_crypto sv) (p_name p) secret d' = Ok \<lparr>pa_project_id = p_id p,
      pa_project_name = p_name p, pa_api_key_id = k_id k, pa_role = k_role k\<rparr>"
    using assms(4) ver k projects by (intro check_project_active [OF wf']) simp_all
  moreover have "check_project cr name key (sys_db (ap_sys s')) = check_project cr name key d'" for cr name key
    using acc by (rule check_project_accounts)
  moreover have "moka c now (project_scope (p_name p), ?lookup) = None"
    using assms(3,7) unfolding moka_sound_def by (metis not_None_eq)
  ultimately show ?thesis
    using k(5) resp by (intro exI [of _ k]) (simp add: authenticate_project_def get_or_insert_def Let_def)
qed

theorem issued_key_authenticates_witness:
  "\<exists>i. fst (authenticate_project plain_crypto (recall 300) 5 ''acme'' ''sk''
     (sys_db (ap_sys (snd (key_create_one (sample_server 1000) sample_req ops 1 Read None admin_app)))) []) =
   Ok \<lparr>pa_project_id = 1, pa_project_name = ''acme'', pa_api_key_id = i, pa_role = Read\<rparr>"
proof -
  let ?out = "key_create_one (sample_server 1000) sample_req ops (p_id acme) Read None admin_app"
  have secret: "generate_secret (sv_crypto (sample_server 1000)) (rq_random sample_req) = ''sk''"
    by (simp add: generate_secret_def plain_crypto_def sample_req_def char_of_def bit_iff_odd)
  have wf: "wf_db (sys_db (ap_sys admin_app))" by (rule admin_app_wf)
  have sound: "argon2_sound (sv_crypto (sample_server 1000))"
    by (simp add: argon2_sound_def) (simp add: plain_crypto_def hash_argon2_def verify_argon2_def)
  have "\<exists>d. api_keys_create 1000000 1 ''sk'' ''sk'' Read None (sys_db (ap_sys admin_app)) =
      (Ok \<lparr>k_id = 2, k_project_id = 1, k_key_lookup = ''sk'', k_key_hash = ''sk'', k_role = Read, k_label = None,
        k_created_at = 1000000, k_revoked_at = None\<rparr>, d)"
    by (simp add: api_keys_create_def Let_def admin_app_def keyed_db_def sample_key_def lookup_hash_def plain_crypto_def
        has_project_def sample_tables)
  then have "\<exists>resp. fst ?out = Ok resp"
    using secret
    by (auto simp: key_create_one_def Let_def projects_get_def on_app_db_def on_sys_def on_db_def andthen_def
        admin_app_def keyed_db_def sample_tables hash_argon2_def plain_crypto_def lookup_hash_def audit_call_def audit_def)
  then obtain resp where out: "?out = (Ok resp, snd ?out)" by (metis surjective_pairing)
  have acme: "acme \<in> set (db_projects (sys_db (ap_sys admin_app)))"
    by (simp add: admin_app_def keyed_db_def sample_tables)
  from issued_key_authenticates [OF wf sound recall_sound acme out secret [symmetric], of "[]" 300 5]
  show ?thesis by (auto simp: acme_def)
qed

text \<open>
  C32 (safety, confidentiality). The answer to a reading request is a function of what is left when
  every stored lookup digest and verifier is blanked: no listing, view, statistic or audit query
  reveals anything about them, and the state stays as it was.
\<close>

theorem reads_reveal_no_verifier:
  assumes "is_read req" and "hide_secrets (sys_db (ap_sys s)) = hide_secrets (sys_db (ap_sys s'))"
  shows "fst (render sv (admin_op sv rq a req) s) = fst (render sv (admin_op sv rq a req) s') \<and>
    snd (render sv (admin_op sv rq a req) s) = s"
proof -
  have "fst (admin_op sv rq a req s) = fst (admin_op sv rq a req s')" and "snd (admin_op sv rq a req s) = s"
    using reads_blind [OF assms(1), of sv rq a] assms(2) unfolding blind_def by blast+
  then obtain r s2 where "admin_op sv rq a req s = (r, s)" and "admin_op sv rq a req s' = (r, s2)"
    by (metis surjective_pairing)
  then show ?thesis by (cases r) (simp_all add: render_def)
qed

theorem reads_reveal_no_verifier_witness:
  "fst (render (sample_server 1000) (key_list_all 1) admin_app) =
   fst (render (sample_server 1000) (key_list_all 1) (admin_app\<lparr>ap_sys := (ap_sys admin_app)\<lparr>sys_db :=
     (sys_db (ap_sys admin_app))\<lparr>db_api_keys := [sample_key\<lparr>k_key_hash := ''other''\<rparr>]\<rparr>\<rparr>\<rparr>))"
proof -
  let ?s' = "admin_app\<lparr>ap_sys := (ap_sys admin_app)\<lparr>sys_db :=
     (sys_db (ap_sys admin_app))\<lparr>db_api_keys := [sample_key\<lparr>k_key_hash := ''other''\<rparr>]\<rparr>\<rparr>\<rparr>"
  have "hide_secrets (sys_db (ap_sys admin_app)) = hide_secrets (sys_db (ap_sys ?s'))"
    by (simp add: hide_secrets_def hide_key_def admin_app_def keyed_db_def)
  from reads_reveal_no_verifier [OF _ this, of "ListKeys 1" "sample_server 1000" sample_req ops]
  show ?thesis by simp
qed

end
