(* ===== verification/Server_Properties.thy ===== *)
theory Server_Properties
  imports Server Admin_Properties
begin

text \<open>
  Invariants of the running server: what every request, every background task and every sweep
  keeps holds of all states the server goes through. The locale \<open>server_invariant\<close> extends the
  contract of the admin API with what the other routes do; it is interpreted on the readability of
  the entries, on the integrity of the content and on the audit log.
\<close>

section \<open>The interface\<close>

lemma store_open_content: "blob_file root h (snd (store_open faults root files)) = blob_file root h files"
proof (cases "blob_path root h")
  case None
  then show ?thesis by (simp add: blob_file_def)
next
  case (Some p)
  then have p: "p \<noteq> tmp_path root (last p)" by (rule blob_path_not_tmp)
  have "map_of (filter (\<lambda>f. \<not> (fst f = tmp_path root (last (fst f)) \<and> faults (fst f) = None)) files) p =
      map_of files p"
    using p by (induction files) auto
  then show ?thesis using Some by (simp add: blob_file_def store_open_def fs_get_def)
qed

text \<open>A dropped upload does no more than an upload may.\<close>

abbreviation upserted :: "req_env \<Rightarrow> project_auth \<Rightarrow> kind \<Rightarrow> string \<Rightarrow> written \<Rightarrow> db \<Rightarrow> db" where
  "upserted rq a k p w \<equiv>
     upsert_state (rq_now rq 1) (rq_now rq 2) (pa_project_id a) k p (w_hash w) (w_size_bytes w)"

lemma dropped_late:
  assumes wf: "wf_db (sys_db (ap_sys s))" and sz: "0 \<le> w_size_bytes w"
    and store: "put_store sv rq a u body s = (Ok w, s\<lparr>ap_sys := (ap_sys s)\<lparr>sys_fs := f\<rparr>\<rparr>)"
    and late: "point = BeforeBump \<or> point = BeforeTrigger"
  shows "ap_sys (dropped_put sv rq point a k u p body s) =
    (if has_project (sys_db (ap_sys s)) (pa_project_id a)
     then \<lparr>sys_db = (if point = BeforeBump then upserted else registered) rq a k p w (sys_db (ap_sys s)), sys_fs = f\<rparr>
     else (ap_sys s)\<lparr>sys_fs := f\<rparr>)"
proof -
  let ?s1 = "s\<lparr>ap_sys := (ap_sys s)\<lparr>sys_fs := f\<rparr>\<rparr>"
  let ?d = "sys_db (ap_sys s)"
  have wf1: "wf_db (sys_db (ap_sys ?s1))" using wf by simp
  show ?thesis
  proof (cases "has_project ?d (pa_project_id a)")
    case False
    then have "on_app_db (upsert now1 now (pa_project_id a) k p h sz) ?s1 = (Err (Database ForeignKeyViolation), ?s1)"
      for now1 now h sz
      using upsert_no_project [OF wf1, of "pa_project_id a"] by simp
    then show ?thesis using False late store by (auto simp: dropped_put_def Let_def)
  next
    case True
    have "on_app_db (upsert (rq_now rq 1) (rq_now rq 2) (pa_project_id a) k p (w_hash w) (w_size_bytes w)) ?s1 =
        (Ok \<lparr>e_id = e_id (row_after (rq_now rq 2) (pa_project_id a) k p (w_hash w) (w_size_bytes w) ?d),
          e_project_id = pa_project_id a, e_kind = k, e_path = p, e_blob_hash = w_hash w,
          e_size_bytes = w_size_bytes w, e_created_at = rq_now rq 2, e_last_accessed = rq_now rq 2, e_pinned = False\<rparr>,
         s\<lparr>ap_sys := \<lparr>sys_db = upserted rq a k p w ?d, sys_fs = f\<rparr>\<rparr>)"
      using upsert_Ok [OF wf True] by simp
    note up = this
    have "has_project (upserted rq a k p w ?d) (pa_project_id a)" using True by simp
    note bump = bump_project [OF this, of "rq_now rq 3" "''put''" 1 "w_size_bytes w"]
    show ?thesis using True late store up bump
      by (auto simp: dropped_put_def Let_def registered_def)
  qed
qed

lemma dropped_put_effect:
  assumes wf: "wf_db (sys_db (ap_sys s))"
  shows "put_effect sv a k p (ap_sys s) (ap_sys (dropped_put sv rq point a k u p body s))"
proof (cases rule: put_store_cases [of sv rq a u body s])
  case (refused reason)
  then show ?thesis
    by (cases point; cases "pa_role a") (auto simp: dropped_put_def effect_none)
next
  case (stored r f)
  have grow: "files_grow sv (sys_fs (ap_sys s)) f"
    using write_streamed_keeps [OF stored(2)] by (auto simp: files_grow_def)
  have tmp: "files_grow sv g (fs_put (tmp_path (sv_root sv) u') part g)" for g u' part
  proof -
    have "blob_file (sv_root sv) h (fs_put (tmp_path (sv_root sv) u') part g) = blob_file (sv_root sv) h g" for h
      by (rule blob_file_cong [where u = u']) simp
    then show ?thesis by (simp add: files_grow_def)
  qed
  have quiet: "ap_sys (dropped_put sv rq point a k u p body s) = (ap_sys s)\<lparr>sys_fs := f\<rparr>"
    if "point = BeforeUpsert \<or> (\<nexists>w. r = Ok w) \<and> (point = BeforeBump \<or> point = BeforeTrigger)"
    using that stored(1) by (cases r) (auto simp: dropped_put_def Let_def)
  have late: ?thesis if point: "point = BeforeBump \<or> point = BeforeTrigger"
  proof (cases "\<exists>w. r = Ok w")
    case False
    then show ?thesis using quiet point grow by (simp add: effect_files)
  next
    case True
    then obtain w where r: "r = Ok w" by blast
    then have w: "0 \<le> w_size_bytes w" "blob_file (sv_root sv) (w_hash w) f \<noteq> None"
      using write_streamed_keeps [OF stored(2)] by auto
    show ?thesis
    proof (cases "has_project (sys_db (ap_sys s)) (pa_project_id a)")
      case proj: True
      have "wf_db (registered rq a k p w (sys_db (ap_sys s)))" "wf_db (upserted rq a k p w (sys_db (ap_sys s)))"
        using wf_registered wf_upsert_state wf proj w(1) by blast+
      then show ?thesis
        using point dropped_late [OF wf w(1) stored(1) [unfolded r] point, of k p]
          effect_upsert [OF wf proj w(1) grow w(2)] proj
        by auto
    qed (use dropped_late [OF wf w(1) stored(1) [unfolded r] point, of k p] grow in \<open>simp add: effect_files\<close>)
  qed
  show ?thesis
  proof (cases point)
    case (WhileStreaming part)
    then show ?thesis using tmp stored(3,4) by (simp add: dropped_put_def effect_files)
  next
    case BeforeUpsert
    then show ?thesis using quiet grow by (simp add: effect_files)
  qed (use late in simp_all)
qed

locale server_invariant = admin_invariant I root for I :: "sys \<Rightarrow> bool" and root :: path +
  fixes sha256 :: "bytes \<Rightarrow> string"
  assumes inv_wf: "I y \<Longrightarrow> wf_db (sys_db y)"
    and upload: "I y \<Longrightarrow> sv_root sv = root \<Longrightarrow> cr_sha256 (sv_crypto sv) = sha256 \<Longrightarrow>
      put_effect sv a k p y y' \<Longrightarrow> I y'"
    and touched: "I y \<Longrightarrow> I (y\<lparr>sys_db := snd (touch now i (sys_db y))\<rparr>)"
    and scratch: "I y \<Longrightarrow> \<forall>h. blob_file root h f = blob_file root h (sys_fs y) \<Longrightarrow> I (y\<lparr>sys_fs := f\<rparr>)"
begin

lemma do_put_keeps:
  assumes "sv_root sv = root" and "cr_sha256 (sv_crypto sv) = sha256" and "I (ap_sys s)"
  shows "I (ap_sys (snd (do_put sv rq a k u p body s)))"
  by (rule upload [OF assms(3,1,2)]) (rule do_put_put_effect [OF inv_wf [OF assms(3)]])

lemma yocto_handler_keeps:
  assumes "sv_root sv = root" and "cr_sha256 (sv_crypto sv) = sha256" and "I (ap_sys s)"
  shows "I (ap_sys (snd (yocto_handler sv rq m t a s)))"
proof (cases "\<exists>body. m = PUT body")
  case True
  then show ?thesis
    using do_put_keeps [OF assms] by (auto simp: yocto_handler_put)
next
  case False
  then show ?thesis using assms(3) by (simp add: yocto_handler_reads)
qed

lemma probe_keeps:
  assumes "sv_root sv = root" and "I (ap_sys s)"
  shows "I (ap_sys (snd (readyz sv pe s)))"
proof -
  have "blob_file root h (snd (remove_file fault (tmp_path root u) files)) = blob_file root h files"
    "blob_file root h (fs_put (tmp_path root u) c files) = blob_file root h files" for h fault u c files
    by (rule blob_file_cong [where u = u], simp add: remove_file_def split: option.split)+
  then show ?thesis
    using assms by (auto simp: readyz_def Let_def split: option.split intro: scratch)
qed

lemma start_keeps: "sv_root sv = root \<Longrightarrow> I y \<Longrightarrow> I (ap_sys (serve_start faults sv y))"
  by (simp add: serve_start_def scratch store_open_content)

lemma request_keeps:
  assumes "sv_root sv = root" and "cr_sha256 (sv_crypto sv) = sha256" and "I (ap_sys s)"
  shows "I (ap_sys (snd (serve_request sv rq req s)))"
proof (cases req)
  case (Cache m t headers)
  then show ?thesis
    using project_gate.enter_keeps [of I "yocto_handler sv rq m t" s sv rq headers]
      yocto_handler_keeps [OF assms(1,2)] assms(3)
    by (simp add: serve_request_def yocto_router_def)
next
  case (Admin areq headers)
  then show ?thesis using admin_router_keeps [OF assms(1,3)] by (simp add: serve_request_def)
next
  case (Readyz pe)
  then show ?thesis
    using probe_keeps [OF assms(1,3), of pe] by (cases "readyz sv pe s") (simp add: serve_request_def)
qed (use assms(3) in \<open>simp_all add: serve_request_def\<close>)

lemma step_keeps:
  assumes "server_step sv s s'" and "sv_root sv = root" and "cr_sha256 (sv_crypto sv) = sha256"
    and "I (ap_sys s)"
  shows "I (ap_sys s')"
  using assms
proof (induction rule: server_step.induct)
  case (step_request s rq req)
  then show ?case by (intro request_keeps)
next
  case (step_dropped rq headers s a s1 point k u p body)
  then have same: "ap_sys s1 = ap_sys s" using project_gate.same by blast
  then have "I (ap_sys s1)" using step_dropped by simp
  then show ?case
    using upload [OF _ step_dropped(2,3) dropped_put_effect] inv_wf by blast
next
  case (step_task i s env)
  let ?s = "take_task i s"
  have I: "I (ap_sys ?s)" using step_task by (simp add: take_task_def)
  show ?case
  proof (cases "ap_tasks s ! i")
    case (TouchTask e)
    obtain r d where "touch (ge_now env) e (sys_db (ap_sys ?s)) = (r, d)" by fastforce
    then show ?thesis using touched [OF I, of "ge_now env" e] TouchTask by (simp add: run_task_def)
  next
    case GcTask
    then show ?thesis
      using keepsD [OF keeps_on_sys [OF sweep] I] step_task by (simp add: run_task_def)
  qed
next
  case (step_tick s env)
  then show ?case using keepsD [OF keeps_on_sys [OF sweep]] by (simp add: gc_tick_def)
next
  case (step_restart s faults)
  then show ?case by (intro start_keeps) simp_all
qed

lemma steps_keep:
  assumes "(server_step sv)\<^sup>*\<^sup>* s s'" and "sv_root sv = root" and "cr_sha256 (sv_crypto sv) = sha256"
    and "I (ap_sys s)"
  shows "I (ap_sys s')"
  using assms by (induction rule: rtranclp_induct) (auto intro: step_keeps)

end


section \<open>Entries stay readable\<close>

lemma wf_touch: "wf_db d \<Longrightarrow> wf_db (snd (touch now i d))"
  using step_touch cache_step_wf by blast

lemma touch_hashes: "e_blob_hash ` set (db_entries (snd (touch now i d))) = e_blob_hash ` set (db_entries d)"
proof -
  have "map e_blob_hash (db_entries (snd (touch now i d))) = map e_blob_hash (db_entries d)"
    by (simp add: touch_def map_sql_update)
  then show ?thesis by (metis list.set_map)
qed

interpretation readable_server: server_invariant
    "\<lambda>y. wf_db (sys_db y) \<and> blobs_present root y" root sha256 for root sha256
proof (unfold_locales, goal_cases)
  case (2 y sv a k p y')
  from 2(4) show ?case
  proof cases
    case (effect_files f)
    then show ?thesis using 2(1,2) by (auto simp: blobs_present_def files_grow_def)
  next
    case (effect_row f r d')
    have "blob_file root (e_blob_hash e) f \<noteq> None" if e: "e \<in> set (db_entries d')" for e
    proof (cases "e = r")
      case False
      then have "blob_file root (e_blob_hash e) (sys_fs y) \<noteq> None"
        using e effect_row 2(1) by (simp add: blobs_present_def)
      then show ?thesis using effect_row 2(2) by (auto simp: files_grow_def)
    qed (use effect_row 2(2) in simp)
    then show ?thesis using effect_row by (simp add: blobs_present_def)
  qed (use 2(1) in simp)
next
  case (3 y now i)
  have "blob_file root (e_blob_hash e) (sys_fs y) \<noteq> None" if "e \<in> set (db_entries (snd (touch now i (sys_db y))))" for e
  proof -
    have "e_blob_hash e \<in> e_blob_hash ` set (db_entries (sys_db y))"
      using that touch_hashes [of now i "sys_db y"] by blast
    then obtain e' where "e' \<in> set (db_entries (sys_db y))" "e_blob_hash e = e_blob_hash e'" by blast
    then show ?thesis using 3 by (simp add: blobs_present_def)
  qed
  then show ?case using 3 wf_touch by (simp add: blobs_present_def)
next
  case (4 y f)
  then show ?case by (simp add: blobs_present_def)
qed simp

section \<open>The content of the store\<close>

text \<open>Unlinking never changes what is left.\<close>

lemma unlink_content:
  assumes "blob_file root h' (sys_fs (snd (unlink_logged env root h s))) = Some c"
  shows "blob_file root h' (sys_fs s) = Some c"
proof (cases "ge_unlink env h")
  case None
  then show ?thesis
    using assms delete_blob_content [of root h' h "sys_fs s"]
    by (auto simp: unlink_logged_def split: prod.splits outcome.splits if_splits)
next
  case (Some e)
  then show ?thesis
    using assms delete_blob_fault [of e root h "sys_fs s"]
    by (auto simp: unlink_logged_def split: prod.splits outcome.splits)
qed

abbreviation intact :: "(bytes \<Rightarrow> string) \<Rightarrow> path \<Rightarrow> sys \<Rightarrow> bool" where
  "intact sha256 root y \<equiv> wf_db (sys_db y) \<and> integral sha256 (blob_file root) (sys_fs y)"

lemma keeps_intact_unlink:
  "keeps (\<lambda>y. integral sha256 (blob_file root) (sys_fs y)) (unlink_logged env root h)"
  by (rule keepsI) (auto simp: integral_def dest: unlink_content)

lemma keeps_intact_db: "keeps (\<lambda>y. integral sha256 (blob_file root) (sys_fs y)) (on_db m)"
  by (rule keepsI) simp

lemma files_grow_integral:
  "files_grow sv f f' \<Longrightarrow> integral (cr_sha256 (sv_crypto sv)) (blob_file (sv_root sv)) f \<Longrightarrow>
   integral (cr_sha256 (sv_crypto sv)) (blob_file (sv_root sv)) f'"
  unfolding integral_def files_grow_def by blast

interpretation intact_sweep: sweep_invariant "intact sha256 root" root for sha256 root
proof (unfold_locales, goal_cases)
  case (2 s e dry_run)
  then show ?case by (intro keepsI) (simp add: gc_delete_wf, simp add: gc_delete_def)
next
  case (3 s h env dry_run rep)
  have "keeps (\<lambda>y. integral sha256 (blob_file root) (sys_fs y)) (free_blob env root dry_run h rep)"
    unfolding free_blob_def
    by (auto intro!: keeps_ret keeps_andthen keeps_intact_unlink keeps_intact_db)
  then show ?case using 3 by (simp add: free_blob_wf keeps_def)
qed simp

lemma scan_intact: "keeps (intact sha256 root) (orphan_scan env root dry_run)"
proof -
  have unlink: "keeps (intact sha256 root) (unlink_logged env root h)" for h
    by (rule keepsI)
      (simp add: keepsD [OF keeps_unlink_logged [of wf_db]] keepsD [OF keeps_intact_unlink])
  have purge: "keeps (intact sha256 root) (on_db (purge_row h))" for h
    by (rule keepsI) (simp add: keepsD [OF keeps_wf_purge_row])
  show ?thesis
    unfolding orphan_scan_def disk_orphan_def db_orphan_def
    by (intro keeps_andthen keeps_query keeps_foreach keeps_ret) (auto intro!: unlink purge keeps_ret)
qed

interpretation intact_server: server_invariant "intact sha256 root" root sha256 for sha256 root
proof (unfold_locales, goal_cases)
  case (1 y d')
  then show ?case using admin_step_wf [of "sys_db y" d'] by simp
next
  case 2
  show ?case by (rule intact_sweep.keeps_run)
next
  case 3
  show ?case by (rule scan_intact)
next
  case (5 y sv a k p y')
  from 5(4) show ?case
    by cases (use 5(1-3) files_grow_integral [of sv "sys_fs y"] in auto)
next
  case (6 y now i)
  then show ?case by (simp add: wf_touch)
next
  case (7 y f)
  then show ?case by (simp add: integral_def)
qed simp

section \<open>The audit log\<close>

interpretation log_server: server_invariant
    "\<lambda>y. wf_db (sys_db y) \<and> prefix L (db_audit_log (sys_db y))" root sha256 for L root sha256
proof (unfold_locales, goal_cases)
  case (2 y sv a k p y')
  from 2(4) show ?case by cases (use 2(1) in simp_all)
next
  case (3 y now i)
  then show ?case using wf_touch [of "sys_db y" now i] by (simp add: touch_def)
qed simp_all


section \<open>Properties\<close>

text \<open>A database and a store that agree, as after the first start.\<close>

definition sound :: "server \<Rightarrow> app \<Rightarrow> bool" where
  "sound sv s \<longleftrightarrow> wf_db (sys_db (ap_sys s)) \<and> blobs_present (sv_root sv) (ap_sys s) \<and>
     integral (cr_sha256 (sv_crypto sv)) (blob_file (sv_root sv)) (sys_fs (ap_sys s))"

lemma sound_steps: "(server_step sv)\<^sup>*\<^sup>* s s' \<Longrightarrow> sound sv s \<Longrightarrow> sound sv s'"
  using readable_server.steps_keep [of sv s s' "sv_root sv" "cr_sha256 (sv_crypto sv)"]
    intact_server.steps_keep [of sv s s' "sv_root sv" "cr_sha256 (sv_crypto sv)"]
  by (simp add: sound_def)

lemma request_steps: "(server_step sv)\<^sup>*\<^sup>* s (snd (serve_request sv rq req s))"
  by (rule r_into_rtranclp) (rule step_request)

text \<open>An empty cache with one project and its writer.\<close>

definition fresh_app :: app where
  "fresh_app = sample_app\<lparr>ap_sys := \<lparr>sys_db = keyed_db\<lparr>db_blobs := [], db_entries := []\<rparr>, sys_fs = []\<rparr>\<rparr>"

lemma fresh_sound: "sound sv fresh_app"
  using stale_wf_gone
  by (simp add: sound_def fresh_app_def blobs_present_def integral_def blob_file_def fs_get_def split: option.split)

text \<open>The first upload.\<close>

definition sample_upload :: request where
  "sample_upload = Cache (PUT sample_body) (SstateUrl ''acme'' ''e'') sample_headers"

definition fresh_db :: db where
  "fresh_db = keyed_db\<lparr>db_blobs := [], db_entries := []\<rparr>"

definition sample_written :: written where
  "sample_written = \<lparr>w_hash = ''EEEE'', w_size_bytes = 4\<rparr>"

lemma fresh_db_facts: "wf_db fresh_db" "has_project fresh_db 1" "blob_bytes fresh_db = 0"
  "sys_db (ap_sys fresh_app) = fresh_db" "accounts fresh_db = accounts keyed_db"
  using stale_wf_gone by (simp_all add: fresh_db_def fresh_app_def has_project_def keyed_db_def sample_tables
    blob_bytes_def accounts_def)

lemma fresh_app_cache: "ap_project_cache fresh_app = []"
  by (simp add: fresh_app_def)

lemma fresh_put:
  obtains r s' where "serve_request (sample_server 1000) sample_req sample_upload fresh_app = (Some r, s')"
    and "rs_status r = 201" and "sys_db (ap_sys s') = registered sample_req writer Sstate ''e'' sample_written fresh_db"
proof -
  let ?sv = "sample_server 1000"
  obtain c where acc: "project_accepts ?sv sample_req sample_headers fresh_app =
      Some (writer, fresh_app\<lparr>ap_project_cache := c\<rparr>)"
    by (rule writer_accepted [of fresh_app]) (simp_all add: fresh_db_facts fresh_app_cache)
  let ?s = "fresh_app\<lparr>ap_project_cache := c\<rparr>"
  have "\<exists>r s'. do_put ?sv sample_req writer Sstate ''acme'' ''e'' sample_body ?s = (Ok r, s') \<and>
      rs_status r = 201 \<and> sys_db (ap_sys s') = registered sample_req writer Sstate ''e'' sample_written fresh_db"
    by (rule do_put_Ok [of ?s writer "''acme''" sample_body ?sv sample_req Sstate "''e''"])
      (simp_all add: fresh_db_facts sample_written_def)
  then obtain r s' where put: "do_put ?sv sample_req writer Sstate ''acme'' ''e'' sample_body ?s = (Ok r, s')"
      "rs_status r = 201" "sys_db (ap_sys s') = registered sample_req writer Sstate ''e'' sample_written fresh_db"
    by blast
  have "serve_request ?sv sample_req sample_upload fresh_app = (Some r, s')"
    using put(1) by (simp add: serve_request_def sample_upload_def yocto_router_def project_gate.accepted [OF acc]
        yocto_handler_put render_def)
  then show ?thesis using that put(2,3) by blast
qed

lemma fresh_upload:
  obtains r where "r \<in> set (db_entries (sys_db (ap_sys (snd (serve_request (sample_server 1000) sample_req
      sample_upload fresh_app)))))"
    and "e_blob_hash r = ''EEEE''" and "e_size_bytes r = 4" and "entry_key r = (1, Sstate, ''e'')"
proof (rule fresh_put)
  fix resp s'
  let ?d' = "registered sample_req writer Sstate ''e'' sample_written fresh_db"
  let ?r = "row_after 1000000 1 Sstate ''e'' ''EEEE'' 4 fresh_db"
  assume "serve_request (sample_server 1000) sample_req sample_upload fresh_app = (Some resp, s')"
    and "sys_db (ap_sys s') = ?d'"
  moreover have "entry_at ?d' (1, Sstate, ''e'') = Some ?r"
    using entry_at_registered [OF fresh_db_facts(1), of writer sample_written sample_req Sstate "''e''"] fresh_db_facts(2)
    by (simp add: sample_written_def)
  then have "?r \<in> set (db_entries ?d')" using entry_at_Some by blast
  ultimately show ?thesis using that [of ?r] by simp
qed

text \<open>In a sound state every entry can be downloaded.\<close>

lemma entry_is_served:
  assumes s': "sound sv s'"
    and "e \<in> set (db_entries (sys_db (ap_sys s')))" and "visible_ascii (e_blob_hash e)"
    and "pa_project_id a = e_project_id e" and "pa_project_name a = u" and "rq_open_fault rq = None"
  shows "\<exists>c. cr_sha256 (sv_crypto sv) c = e_blob_hash e \<and>
    fst (get_one sv rq a (e_kind e) u (e_path e) False s') =
      Ok \<lparr>rs_status = 200,
          rs_headers = [(''content-length'', dec_int (e_size_bytes e)),
             (''etag'', quoted (e_blob_hash e)), (''cache-control'', immutable_header)],
          rs_body = BBytes c\<rparr>"
proof -
  from s' obtain c where c: "blob_file (sv_root sv) (e_blob_hash e) (sys_fs (ap_sys s')) = Some c"
    using assms(2) by (auto simp: sound_def blobs_present_def)
  moreover have "cr_sha256 (sv_crypto sv) c = e_blob_hash e"
    using s' c by (auto simp: sound_def integral_def)
  moreover have "entry_at (sys_db (ap_sys s')) (e_project_id e, e_kind e, e_path e) = Some e"
    using s' assms(2) entry_at_row [of "sys_db (ap_sys s')" e] by (simp add: sound_def entry_key_def)
  moreover have "allows_read (pa_role a)" by (cases "pa_role a") simp_all
  ultimately show ?thesis
    using read_blob_Ok [OF c] assms(3-6)
    by (auto simp: get_one_def ensure_project_def entries_find_def on_app_db_def on_sys_def on_db_def on_fs_def
        andthen_def visible_dec_int Let_def)
qed





text \<open>
  (safety). The audit log is append-only: whatever happens, every row that was ever written stays
  where it is and as it is.
\<close>

theorem audit_log_is_append_only:
  assumes "(server_step sv)\<^sup>*\<^sup>* s s'" and "wf_db (sys_db (ap_sys s))"
  shows "prefix (app_log s) (app_log s')"
  using log_server.steps_keep [OF assms(1), of "sv_root sv" "cr_sha256 (sv_crypto sv)" "app_log s"] assms(2)
  by simp

theorem audit_log_is_append_only_witness:
  "prefix (app_log admin_app) (app_log (snd (serve_request (sample_server 1000) sample_req
     (Admin (PinEntry 1 1) admin_headers) admin_app)))"
  by (rule audit_log_is_append_only [OF request_steps admin_app_wf])

end
