(* ===== verification/Push_Properties.thy ===== *)
theory Push_Properties
  imports Push Server_Properties
begin

text \<open>
  The properties of \<open>marmotte push\<close>: which files it finds, how often it retries and how long it
  waits, how it counts, and, composed with the model of the server, that a second run skips what
  the first one stored.
\<close>

section \<open>What a run does to the world\<close>

datatype push_event = HeadSent "string + nat" | PutSent "string + nat" | Slept nat

definition reply :: "string + client_response \<Rightarrow> string + nat" where
  "reply r = map_sum id cp_status r"

text \<open>The same world with a log.\<close>

definition logged :: "'w net \<Rightarrow> ('w \<times> push_event list) net" where
  "logged net = \<lparr>
     nt_send = (\<lambda>q (w, es). let (r, w') = nt_send net q w in
       (r, (w', es @ [case q of HeadRequest _ _ _ \<Rightarrow> HeadSent (reply r) | PutRequest _ _ _ \<Rightarrow> PutSent (reply r)]))),
     nt_read = (\<lambda>p (w, es). let (r, w') = nt_read net p w in (r, (w', es))),
     nt_sleep = (\<lambda>ms (w, es). (nt_sleep net ms w, es @ [Slept ms]))\<rparr>"

text \<open>The events of attempts that failed with these statuses, from attempt \<open>k\<close> on.\<close>

fun retry_log :: "nat \<Rightarrow> nat list \<Rightarrow> push_event list" where
  "retry_log k [] = []"
| "retry_log k (s # ss) = PutSent (Inr s) # Slept (200 * 2 ^ Suc k) # retry_log (Suc k) ss"

text \<open>How an upload ends: the file is unreadable, the request fails, or a last status decides.\<close>

definition upload_ends :: "nat \<Rightarrow> cli_error + push_outcome \<Rightarrow> push_event list \<Rightarrow> bool" where
  "upload_ends n r rest \<longleftrightarrow>
     (rest = [] \<and> (\<exists>e. r = Inl (CliIo e))) \<or>
     (\<exists>e. rest = [PutSent (Inl e)] \<and> r = Inl (CliHttp e)) \<or>
     (\<exists>s. rest = [PutSent (Inr s)] \<and>
        (if is_success s then r = Inr Pushed
         else (\<exists>m. r = Inl (CliOther m)) \<and> (s \<notin> set RETRYABLE_STATUSES \<or> n = 4)))"

lemma put_loop_events:
  assumes "attempt < MAX_RETRIES"
    and "put_loop status_text (logged net) url p auth attempt (w, es) = (r, (w', es'))"
  shows "\<exists>statuses rest. es' = es @ retry_log attempt statuses @ rest \<and> attempt + length statuses < MAX_RETRIES \<and>
    set statuses \<subseteq> set RETRYABLE_STATUSES \<and> upload_ends (attempt + length statuses) r rest"
  using assms
proof (induction "MAX_RETRIES - attempt" arbitrary: attempt w es rule: less_induct)
  case less
  obtain content w1 where read: "nt_read net p w = (content, w1)" by fastforce
  show ?case
  proof (cases content)
    case (Inl e)
    then have "es' = es" and "r = Inl (CliIo e)"
      using less.prems(2) read by (auto simp: put_loop.simps [of _ _ _ _ _ attempt] logged_def)
    then show ?thesis using less.prems(1)
      by (intro exI [of _ "[]"] exI [of _ "[]"]) (simp add: upload_ends_def)
  next
    case (Inr body)
    obtain answer w2 where send: "nt_send net (PutRequest url auth body) w1 = (answer, w2)" by fastforce
    note step = less.prems(2) [unfolded put_loop.simps [of _ _ _ _ _ attempt]]
    show ?thesis
    proof (cases answer)
      case (Inl e)
      then have "es' = es @ [PutSent (Inl e)]" and "r = Inl (CliHttp e)"
        using step read Inr send by (auto simp: logged_def reply_def)
      then show ?thesis using less.prems(1)
        by (intro exI [of _ "[]"] exI [of _ "[PutSent (Inl e)]"]) (simp add: upload_ends_def)
    next
      case (Inr resp)
      let ?s = "cp_status resp"
      let ?es = "es @ [PutSent (Inr ?s)]"
      show ?thesis
      proof (cases "\<not> is_success ?s \<and> ?s \<in> set RETRYABLE_STATUSES \<and> attempt + 1 < MAX_RETRIES")
        case True
        let ?w3 = "nt_sleep net (INITIAL_BACKOFF_MS * 2 ^ (attempt + 1)) w2"
        have "put_loop status_text (logged net) url p auth (attempt + 1)
            (?w3, ?es @ [Slept (INITIAL_BACKOFF_MS * 2 ^ (attempt + 1))]) = (r, (w', es'))"
          using step read \<open>content = Inr body\<close> send Inr True by (simp add: logged_def reply_def)
        moreover have "MAX_RETRIES - (attempt + 1) < MAX_RETRIES - attempt" and "attempt + 1 < MAX_RETRIES"
          using True by auto
        ultimately obtain statuses rest
          where "es' = (?es @ [Slept (INITIAL_BACKOFF_MS * 2 ^ (attempt + 1))]) @ retry_log (attempt + 1) statuses @ rest"
            and "attempt + 1 + length statuses < MAX_RETRIES" "set statuses \<subseteq> set RETRYABLE_STATUSES"
            and "upload_ends (attempt + 1 + length statuses) r rest"
          using less.hyps by blast
        then show ?thesis using True
          by (intro exI [of _ "?s # statuses"] exI [of _ rest]) (simp add: INITIAL_BACKOFF_MS_def)
      next
        case False
        then have "es' = ?es" and "if is_success ?s then r = Inr Pushed else \<exists>m. r = Inl (CliOther m)"
          using step read \<open>content = Inr body\<close> send Inr by (auto simp: logged_def reply_def split: if_splits)
        then show ?thesis using False less.prems(1)
          by (intro exI [of _ "[]"] exI [of _ "[PutSent (Inr ?s)]"])
            (auto simp: upload_ends_def MAX_RETRIES_def)
      qed
    qed
  qed
qed

text \<open>A server that is not there for the first two uploads; the world counts them.\<close>

definition flaky :: "nat net" where
  "flaky = \<lparr>
     nt_send = (\<lambda>q n. case q of
        HeadRequest _ _ _ \<Rightarrow> (Inr \<lparr>cp_status = 404, cp_headers = []\<rparr>, n)
      | PutRequest _ _ _ \<Rightarrow> (Inr \<lparr>cp_status = (if n < 2 then 503 else 201), cp_headers = []\<rparr>, n + 1)),
     nt_read = (\<lambda>p n. (Inr [1], n)),
     nt_sleep = (\<lambda>ms n. n)\<rparr>"

section \<open>The files of a tree\<close>

fun node_at :: "node \<Rightarrow> path \<Rightarrow> node option" where
  "node_at n [] = Some n"
| "node_at (DirNode opn entries ending) (c # cs) =
     (case map_of entries c of None \<Rightarrow> None | Some n \<Rightarrow> node_at n cs)"
| "node_at FileNode (c # cs) = None"
| "node_at OtherNode (c # cs) = None"

text \<open>No name occurs twice in a directory; no directory fails to be read.\<close>

fun tree_ok :: "node \<Rightarrow> bool" where
  "tree_ok (DirNode opn entries ending) \<longleftrightarrow>
     distinct (map fst entries) \<and> (\<forall>e\<in>set entries. tree_ok (snd e))"
| "tree_ok FileNode = True"
| "tree_ok OtherNode = True"

fun tree_readable :: "node \<Rightarrow> bool" where
  "tree_readable (DirNode opn entries ending) \<longleftrightarrow>
     opn = None \<and> ending = None \<and> (\<forall>e\<in>set entries. tree_readable (snd e))"
| "tree_readable FileNode = True"
| "tree_readable OtherNode = True"

fun files_of :: "node \<Rightarrow> path list" where
  "files_of (DirNode opn entries ending) = concat (map (\<lambda>e. map ((#) (fst e)) (files_of (snd e))) entries)"
| "files_of FileNode = [[]]"
| "files_of OtherNode = []"

lemma walk_collects:
  "if tree_readable n then walk rel n out = Inr (out @ map ((@) rel) (files_of n))
   else \<exists>e. walk rel n out = Inl (CliIo e)"
  "if ending = None \<and> (\<forall>e\<in>set entries. tree_readable (snd e))
   then walk_list rel entries ending out =
     Inr (out @ map ((@) rel) (concat (map (\<lambda>e. map ((#) (fst e)) (files_of (snd e))) entries)))
   else \<exists>e. walk_list rel entries ending out = Inl (CliIo e)"
proof (induction rel n out and rel entries ending out rule: walk_walk_list.induct)
  case (5 rel name child entries ending out)
  then show ?case by (cases "tree_readable child") (auto simp: o_def split: if_splits)
qed (auto split: option.splits if_splits)

lemma files_of_spec: "tree_ok n \<Longrightarrow> set (files_of n) = {q. node_at n q = Some FileNode} \<and> distinct (files_of n)"
proof (induction n)
  case FileNode
  have "node_at FileNode q = Some FileNode \<longleftrightarrow> q = []" for q by (cases q) simp_all
  then show ?case by auto
next
  case OtherNode
  have "node_at OtherNode q \<noteq> Some FileNode" for q by (cases q) simp_all
  then show ?case by auto
next
  case (DirNode opn entries ending)
  have IH: "set (files_of (snd e)) = {q. node_at (snd e) q = Some FileNode} \<and> distinct (files_of (snd e))"
    if e: "e \<in> set entries" for e
  proof -
    have "tree_ok (snd e)" using DirNode.prems e by simp
    moreover have "snd e \<in> Basic_BNFs.snds e" by (cases e) (simp add: prod_set_simps)
    ultimately show ?thesis using DirNode.IH e by blast
  qed
  have names: "distinct (map fst entries)" using DirNode.prems by simp
  have "q \<in> set (files_of (DirNode opn entries ending)) \<longleftrightarrow>
      node_at (DirNode opn entries ending) q = Some FileNode" for q
  proof (cases q)
    case Nil
    then show ?thesis by auto
  next
    case (Cons c cs)
    have "(\<exists>e\<in>set entries. fst e = c \<and> cs \<in> set (files_of (snd e))) \<longleftrightarrow>
        (\<exists>n. map_of entries c = Some n \<and> node_at n cs = Some FileNode)"
    proof -
      have "(c, n) \<in> set entries \<Longrightarrow> cs \<in> set (files_of n) \<longleftrightarrow> node_at n cs = Some FileNode" for n
        using IH [of "(c, n)"] by simp
      moreover have "(\<exists>e\<in>set entries. fst e = c \<and> cs \<in> set (files_of (snd e))) \<longleftrightarrow>
          (\<exists>n. (c, n) \<in> set entries \<and> cs \<in> set (files_of n))" by force
      ultimately show ?thesis unfolding map_of_eq_Some_iff [OF names] by blast
    qed
    then show ?thesis using Cons by (auto split: option.split)
  qed
  moreover have "distinct (files_of (DirNode opn entries ending))"
    using IH names
  proof (simp, induction entries)
    case (Cons e es)
    then show ?case by (auto simp: distinct_map inj_on_def)
  qed simp
  ultimately show ?case by auto
qed

section \<open>The client against the server\<close>

text \<open>
  The world is the server and the number of requests it has had; request \<open>n\<close> meets \<open>rqf n\<close>. The
  router is the parameter \<open>route\<close>; what it does not match axum answers with \<open>other\<close>.
\<close>

definition reply_of :: "response option \<Rightarrow> string + client_response" where
  "reply_of r =
     (case r of
        None \<Rightarrow> Inl ''connection closed''
      | Some resp \<Rightarrow> Inr \<lparr>cp_status = rs_status resp, cp_headers = rs_headers resp\<rparr>)"

fun server_method :: "client_request \<Rightarrow> http_method" where
  "server_method (HeadRequest url auth etag) = HEAD"
| "server_method (PutRequest url auth body) = PUT [Inr body]"

fun request_headers :: "client_request \<Rightarrow> (string \<times> string) list" where
  "request_headers (HeadRequest url auth etag) = [(''authorization'', auth), (''if-none-match'', etag)]"
| "request_headers (PutRequest url auth body) = [(''authorization'', auth)]"

fun request_url :: "client_request \<Rightarrow> string" where
  "request_url (HeadRequest url auth etag) = url"
| "request_url (PutRequest url auth body) = url"

definition server_net ::
  "server \<Rightarrow> (nat \<Rightarrow> req_env) \<Rightarrow> client_response \<Rightarrow> (string \<Rightarrow> target option) \<Rightarrow> (path \<Rightarrow> io_error + bytes) \<Rightarrow> (app \<times> nat) net" where
  "server_net sv rqf other route files = \<lparr>
     nt_send = (\<lambda>q (s, n).
       case route (request_url q) of
         None \<Rightarrow> (Inr other, (s, n + 1))
       | Some t \<Rightarrow>
           (let (r, s') = yocto_router sv (rqf n) (server_method q) t (request_headers q) s
            in (reply_of r, (s', n + 1)))),
     nt_read = (\<lambda>p w. (files p, w)),
     nt_sleep = (\<lambda>ms w. w)\<rparr>"

text \<open>The credentials are those of \<open>a\<close> as long as projects and keys stay as they are.\<close>

definition logged_in :: "server \<Rightarrow> (nat \<Rightarrow> req_env) \<Rightarrow> string \<Rightarrow> project_auth \<Rightarrow> app \<Rightarrow> bool" where
  "logged_in sv rqf auth a s \<longleftrightarrow>
     (\<forall>n headers s'. map_of headers ''authorization'' = Some auth \<longrightarrow>
        accounts (sys_db (ap_sys s')) = accounts (sys_db (ap_sys s)) \<longrightarrow>
        (\<exists>c. project_accepts sv (rqf n) headers s' = Some (a, s'\<lparr>ap_project_cache := c\<rparr>)))"

lemma yocto_handler_head:
  "yocto_handler sv rq HEAD t a = read_handler sv rq (target_kind t) True a (target_project t) (target_path t)"
  by (cases t) (simp_all add: yocto_handler_def head_sstate_def head_downloads_def)

abbreviation target_entry :: "app \<Rightarrow> project_auth \<Rightarrow> target \<Rightarrow> entry option" where
  "target_entry s a t \<equiv> entry_at (sys_db (ap_sys s)) (pa_project_id a, target_kind t, target_path t)"

text \<open>What the client learns from a \<open>HEAD\<close>, and that it changes nothing.\<close>

definition head_answer :: "entry option \<Rightarrow> client_response" where
  "head_answer found =
     (case found of
        None \<Rightarrow> \<lparr>cp_status = 404, cp_headers = rs_headers not_found_text\<rparr>
      | Some e \<Rightarrow> \<lparr>cp_status = 200, cp_headers =
          [(''content-length'', dec_int (e_size_bytes e)), (''etag'', quoted (e_blob_hash e)),
           (''cache-control'', immutable_header)]\<rparr>)"

lemma head_reply:
  assumes "logged_in sv rqf auth a s0" and "accounts (sys_db (ap_sys s)) = accounts (sys_db (ap_sys s0))"
    and "route url = Some t" and "target_project t = pa_project_name a"
    and "\<And>e. target_entry s a t = Some e \<Longrightarrow> visible_ascii (e_blob_hash e)"
  obtains s1 where "nt_send (server_net sv rqf other route files) (HeadRequest url auth etag) (s, n) =
    (Inr (head_answer (target_entry s a t)), (s1, n + 1))" and "ap_sys s1 = ap_sys s"
proof -
  let ?headers = "[(''authorization'', auth), (''if-none-match'', etag)]"
  obtain c where acc: "project_accepts sv (rqf n) ?headers s = Some (a, s\<lparr>ap_project_cache := c\<rparr>)"
    using assms(1,2) unfolding logged_in_def by (metis map_of_Cons_code(2))
  let ?s = "s\<lparr>ap_project_cache := c\<rparr>"
  have run: "yocto_router sv (rqf n) HEAD t ?headers s =
      read_handler sv (rqf n) (target_kind t) True a (target_project t) (target_path t) ?s"
    by (simp add: yocto_router_def project_gate.accepted [OF acc] yocto_handler_head)
  have "allows_read (pa_role a)" by (cases "pa_role a") simp_all
  then have "\<exists>s1. yocto_router sv (rqf n) HEAD t ?headers s =
      (Some (case target_entry s a t of
         None \<Rightarrow> not_found_text
       | Some e \<Rightarrow> \<lparr>rs_status = 200, rs_headers =
           [(''content-length'', dec_int (e_size_bytes e)), (''etag'', quoted (e_blob_hash e)),
            (''cache-control'', immutable_header)], rs_body = BEmpty\<rparr>), s1) \<and> ap_sys s1 = ap_sys s"
    unfolding run using assms(4,5)
    by (cases "target_entry s a t")
       (simp_all add: read_handler_def get_one_def ensure_project_def entries_find_def on_app_db_def on_sys_def
         on_db_def andthen_def render_def visible_dec_int Let_def)
  then show ?thesis
    using that assms(3)
    by (cases "target_entry s a t")
       (auto simp: server_net_def reply_of_def head_answer_def not_found_text_def text_response_def)
qed

lemma quoted_inj [simp]: "quoted a = quoted b \<longleftrightarrow> a = b"
  by (simp add: quoted_def)

text \<open>A file whose entry is up to date.\<close>

lemma push_skips:
  assumes "logged_in sv rqf auth a s0" and "accounts (sys_db (ap_sys s)) = accounts (sys_db (ap_sys s0))"
    and "route url = Some t" and "target_project t = pa_project_name a" and "files p = Inr content"
    and "target_entry s a t = Some e" and "e_blob_hash e = digest content" and "visible_ascii (digest content)"
  obtains s1 where "push_one status_text digest (server_net sv rqf other route files) url p auth dry_run (s, n) =
    (Inr Skipped, (s1, n + 1))" and "ap_sys s1 = ap_sys s"
proof -
  obtain s1 where "nt_send (server_net sv rqf other route files) (HeadRequest url auth (quoted (digest content))) (s, n) =
    (Inr (head_answer (target_entry s a t)), (s1, n + 1))" and "ap_sys s1 = ap_sys s"
    by (rule head_reply [where route = route and url = url, OF assms(1-4)]) (use assms(6-8) in auto)
  moreover have "nt_read (server_net sv rqf other route files) p w = (Inr content, w)" for w
    by (simp add: server_net_def assms(5))
  ultimately show ?thesis
    using that [of s1] assms(6-8)
    by (simp add: push_one_def sha256_file_def head_decision_def head_answer_def Let_def)
qed

text \<open>What both pushes of a file assume of the server and of the file.\<close>

definition push_ready ::
  "server \<Rightarrow> (nat \<Rightarrow> req_env) \<Rightarrow> string \<Rightarrow> project_auth \<Rightarrow> target \<Rightarrow> bytes \<Rightarrow> app \<Rightarrow> bool" where
  "push_ready sv rqf auth a t content s \<longleftrightarrow>
     wf_db (sys_db (ap_sys s)) \<and> logged_in sv rqf auth a s \<and> has_project (sys_db (ap_sys s)) (pa_project_id a) \<and>
     pa_role a = Write \<and> target_project t = pa_project_name a \<and> (\<forall>n. rq_rename_fault (rqf n) = None) \<and>
     4 \<le> length (cr_sha256 (sv_crypto sv) content) \<and> visible_ascii (cr_sha256 (sv_crypto sv) content) \<and>
     (\<forall>e\<in>set (db_entries (sys_db (ap_sys s))). visible_ascii (e_blob_hash e)) \<and>
     blob_bytes (sys_db (ap_sys s)) + int (length content) < 2 ^ 63"

text \<open>A file the server does not have, or not with this content.\<close>

lemma push_uploads:
  assumes ready: "push_ready sv rqf auth a t content s" and url: "route url = Some t" and "files p = Inr content"
    and new: "\<And>e. target_entry s a t = Some e \<Longrightarrow> e_blob_hash e \<noteq> cr_sha256 (sv_crypto sv) content"
  obtains s1 e where "push_one status_text (cr_sha256 (sv_crypto sv)) (server_net sv rqf other route files) url p auth
      False (s, n) = (Inr Pushed, (s1, n + 2))"
    and "target_entry s1 a t = Some e" and "e_blob_hash e = cr_sha256 (sv_crypto sv) content"
    and "accounts (sys_db (ap_sys s1)) = accounts (sys_db (ap_sys s))"
proof -
  let ?net = "server_net sv rqf other route files"
  let ?sha = "cr_sha256 (sv_crypto sv)"
  let ?w = "\<lparr>w_hash = ?sha content, w_size_bytes = int (length content)\<rparr>"
  note r = ready [unfolded push_ready_def]
  have login: "logged_in sv rqf auth a s" and name: "target_project t = pa_project_name a" using r by simp_all
  have visible: "visible_ascii (e_blob_hash e)" if "target_entry s a t = Some e" for e
    using r entry_at_Some [OF that] by blast
  obtain s0 where head: "nt_send ?net (HeadRequest url auth (quoted (?sha content))) (s, n) =
      (Inr (head_answer (target_entry s a t)), (s0, n + 1))" and same: "ap_sys s0 = ap_sys s"
    by (rule head_reply [where route = route and url = url, OF login refl url name visible])
  have "map_of [(''authorization'', auth)] ''authorization'' = Some auth"
    and "accounts (sys_db (ap_sys s0)) = accounts (sys_db (ap_sys s))" using same by simp_all
  then obtain c' where acc: "project_accepts sv (rqf (n + 1)) [(''authorization'', auth)] s0 =
      Some (a, s0\<lparr>ap_project_cache := c'\<rparr>)"
    using login unfolding logged_in_def by blast
  let ?s' = "s0\<lparr>ap_project_cache := c'\<rparr>"
  let ?d' = "registered (rqf (n + 1)) a (target_kind t) (target_path t) ?w (sys_db (ap_sys s))"
  have ok: "stream_ok [Inr content]" "stream_bytes [Inr content] = content" by (simp_all add: stream_ok_def)
  have "\<exists>resp s1. do_put sv (rqf (n + 1)) a (target_kind t) (target_project t) (target_path t) [Inr content] ?s' =
      (Ok resp, s1) \<and> rs_status resp = 201 \<and> sys_db (ap_sys s1) = ?d'"
    by (rule do_put_Ok [of ?s' a "target_project t" "[Inr content]" sv "rqf (n + 1)" "target_kind t" "target_path t"])
      (use r ok same in auto)
  then obtain resp s1 where put: "do_put sv (rqf (n + 1)) a (target_kind t) (target_project t) (target_path t)
      [Inr content] ?s' = (Ok resp, s1)" "rs_status resp = 201" "sys_db (ap_sys s1) = ?d'" by blast
  have "yocto_router sv (rqf (n + 1)) (PUT [Inr content]) t [(''authorization'', auth)] s0 = (Some resp, s1)"
    by (simp only: yocto_router_def project_gate.accepted [OF acc] yocto_handler_put put(1) render_def prod.case outcome.case)
  then have send: "nt_send ?net (PutRequest url auth content) (s0, n + 1) =
      (Inr \<lparr>cp_status = 201, cp_headers = rs_headers resp\<rparr>, (s1, n + 2))"
    using url put(2) by (simp add: server_net_def reply_of_def)
  have read: "nt_read ?net p w = (Inr content, w)" for w by (simp add: server_net_def assms(3))
  have "push_one status_text ?sha ?net url p auth False (s, n) = (Inr Pushed, (s1, n + 2))"
    using head read send new
    by (cases "target_entry s a t")
       (auto simp: push_one_def sha256_file_def head_decision_def head_answer_def is_success_def put_loop.simps Let_def)
  moreover have "target_entry s1 a t =
      Some (row_after (rq_now (rqf (n + 1)) 2) (pa_project_id a) (target_kind t) (target_path t) (?sha content)
        (int (length content)) (sys_db (ap_sys s)))"
    using entry_at_registered [of "sys_db (ap_sys s)" a ?w] r put(3) by simp
  moreover have "accounts (sys_db (ap_sys s1)) = accounts (sys_db (ap_sys s))" using put(3) by simp
  ultimately show ?thesis
    using that [of s1 "row_after (rq_now (rqf (n + 1)) 2) (pa_project_id a) (target_kind t) (target_path t)
      (?sha content) (int (length content)) (sys_db (ap_sys s))"] by simp
qed

section \<open>Properties\<close>

text \<open>
  C34 (termination, bounds). The push of a file ends in every world. It sends one \<open>HEAD\<close>; a dry run
  sends nothing else. An upload is tried at most five times, tried again only after one of the four
  transient statuses, and after 400, 800, 1600 and 3200 ms; it counts as pushed exactly if the last
  answer is a success, and it gives up on the first other status or after the fifth.
\<close>

theorem push_retries_transient_failures_only:
  assumes "push_one status_text sha256 (logged net) url p auth dry_run (w, []) = (r, (w', es))"
  shows "(es = [] \<and> isl r) \<or>
    (\<exists>a. es = [HeadSent a] \<and> (r = Inr Skipped \<or> isl r \<or> dry_run \<and> r = Inr Pushed)) \<or>
    (\<not> dry_run \<and> (\<exists>a statuses rest. es = HeadSent a # retry_log 0 statuses @ rest \<and> length statuses \<le> 4 \<and>
       set statuses \<subseteq> set RETRYABLE_STATUSES \<and> upload_ends (length statuses) r rest))"
proof -
  obtain content w1 where read: "nt_read net p w = (content, w1)" by fastforce
  show ?thesis
  proof (cases content)
    case (Inl e)
    then show ?thesis using assms read by (auto simp: push_one_def sha256_file_def logged_def)
  next
    case (Inr c)
    let ?etag = "quoted (sha256 c)"
    obtain answer w2 where send: "nt_send net (HeadRequest url auth ?etag) w1 = (answer, w2)" by fastforce
    have head: "sha256_file sha256 (logged net) p (w, []) = (Inr (sha256 c), (w1, []))"
      "nt_send (logged net) (HeadRequest url auth ?etag) (w1, []) = (answer, (w2, [HeadSent (reply answer)]))"
      using read Inr send by (simp_all add: sha256_file_def logged_def)
    show ?thesis
    proof (cases "\<exists>resp. answer = Inr resp \<and> head_decision status_text ?etag resp = Inr False \<and> \<not> dry_run")
      case False
      then show ?thesis
        using assms head by (auto simp: push_one_def Let_def split: sum.splits bool.splits if_splits)
    next
      case True
      then have "put_loop status_text (logged net) url p auth 0 (w2, [HeadSent (reply answer)]) = (r, (w', es))"
        and "\<not> dry_run"
        using assms head by (auto simp: push_one_def Let_def)
      then show ?thesis
        using put_loop_events [of 0 status_text net url p auth w2 "[HeadSent (reply answer)]" r w' es]
        by (auto simp: MAX_RETRIES_def)
    qed
  qed
qed

theorem push_retries_transient_failures_only_witness:
  "\<exists>a statuses s. snd (snd (push_one (\<lambda>_. []) (\<lambda>_. ''aaaa'') (logged flaky) ''u'' [] ''a'' False (0, []))) =
     HeadSent a # retry_log 0 statuses @ [PutSent (Inr s)] \<and> length statuses \<le> 4 \<and> is_success s"
proof -
  let ?run = "push_one (\<lambda>_. []) (\<lambda>_. ''aaaa'') (logged flaky) ''u'' [] ''a'' False (0, [])"
  have pushed: "fst ?run = Inr Pushed"
    by (simp add: push_one_def sha256_file_def logged_def flaky_def head_decision_def put_loop.simps is_success_def
        RETRYABLE_STATUSES_def MAX_RETRIES_def Let_def)
  then obtain w' es where run: "?run = (Inr Pushed, (w', es))" by (metis prod.collapse)
  from push_retries_transient_failures_only [OF run] obtain a statuses rest
    where "es = HeadSent a # retry_log 0 statuses @ rest" "length statuses \<le> 4"
      "upload_ends (length statuses) (Inr Pushed) rest"
    by auto
  then show ?thesis using run by (auto simp: upload_ends_def split: if_splits)
qed

text \<open>
  (functional). The summary counts every file exactly once, and the process fails exactly if some
  file did.
\<close>

theorem summary_counts_every_file:
  assumes "length rs < 2 ^ 64"
  shows "unat (ps_pushed (summary n rs)) = length (filter (\<lambda>r. r = Inr Pushed) rs) \<and>
    unat (ps_skipped (summary n rs)) = length (filter (\<lambda>r. r = Inr Skipped) rs) \<and>
    unat (ps_failed (summary n rs)) = length (filter isl rs) \<and>
    length (filter (\<lambda>r. r = Inr Pushed) rs) + length (filter (\<lambda>r. r = Inr Skipped) rs) + length (filter isl rs) =
      length rs \<and>
    (ps_exit (summary n rs) = 1 \<longleftrightarrow> (\<exists>r\<in>set rs. isl r))"
proof -
  have "tally rs (a, b, c) = (a + of_nat (length (filter (\<lambda>r. r = Inr Pushed) rs)),
      b + of_nat (length (filter (\<lambda>r. r = Inr Skipped) rs)), c + of_nat (length (filter isl rs)))" for a b c
    by (induction rs "(a, b, c)" arbitrary: a b c rule: tally.induct) (simp_all add: add.assoc)
  from this [of 0 0 0] have t: "tally rs (0, 0, 0) = (of_nat (length (filter (\<lambda>r. r = Inr Pushed) rs)),
      of_nat (length (filter (\<lambda>r. r = Inr Skipped) rs)), of_nat (length (filter isl rs)))" by simp
  have small: "unat (of_nat (length (filter P rs)) :: u64) = length (filter P rs)" for P
  proof -
    have "length (filter P rs) < 2 ^ LENGTH(64)" using le_less_trans [OF length_filter_le assms, of P] by simp
    then show ?thesis by (simp add: unat_of_nat)
  qed
  have all: "length (filter (\<lambda>r. r = Inr Pushed) rs) + length (filter (\<lambda>r. r = Inr Skipped) rs) +
      length (filter isl rs) = length rs"
  proof (induction rs)
    case (Cons r rs)
    have "isl r \<or> r = Inr Pushed \<or> r = Inr Skipped"
      by (metis isl_def obj_sumE push_outcome.exhaust)
    then show ?case using Cons by auto
  qed simp
  have "(0 < (of_nat (length (filter isl rs)) :: u64)) \<longleftrightarrow> (\<exists>r\<in>set rs. isl r)"
    using small [of isl] by (simp add: word_less_nat_alt filter_empty_conv)
  then show ?thesis using t small all by (simp add: summary_def)
qed

theorem summary_counts_every_file_witness:
  "unat (ps_failed (summary 3 [Inr Pushed, Inl (CliHttp ''reset''), Inr Skipped])) = 1 \<and>
   ps_exit (summary 3 [Inr Pushed, Inl (CliHttp ''reset''), Inr Skipped]) = 1"
  using summary_counts_every_file [of "[Inr Pushed, Inl (CliHttp ''reset''), Inr Skipped]" 3] by auto

text \<open>
  (equivalence). The walk returns exactly the regular files of the tree, each once, by their path
  from the root; where a directory cannot be read it fails with that error.
\<close>

theorem walk_finds_every_file:
  assumes "tree_ok tree"
  shows "if tree_readable tree
    then \<exists>files. walk [] tree [] = Inr files \<and> set files = {q. node_at tree q = Some FileNode} \<and> distinct files
    else \<exists>e. walk [] tree [] = Inl (CliIo e)"
  using walk_collects(1) [of tree "[]" "[]"] files_of_spec [OF assms] by (simp add: map_idI)

theorem walk_finds_every_file_witness:
  "\<exists>files. walk [] (DirNode None [(''a'', FileNode), (''d'', DirNode None [(''b'', FileNode)] None),
     (''link'', OtherNode)] None) [] = Inr files \<and> distinct files"
  using walk_finds_every_file [of "DirNode None [(''a'', FileNode), (''d'', DirNode None [(''b'', FileNode)] None),
     (''link'', OtherNode)] None"] by auto


text \<open>The sample server without a verification cache, and a file with the sample content.\<close>

definition plain_server :: server where
  "plain_server = (sample_server 1000)\<lparr>sv_project_moka := (\<lambda>_ _ _. None)\<rparr>"

lemma plain_login: "logged_in plain_server (\<lambda>_. sample_req) ''Basic acme:s3cret'' writer fresh_app"
  unfolding logged_in_def
proof (intro allI impI)
  fix headers :: "(string \<times> string) list" and s' :: app
  assume auth: "map_of headers ''authorization'' = Some ''Basic acme:s3cret''"
    and acc: "accounts (sys_db (ap_sys s')) = accounts (sys_db (ap_sys fresh_app))"
  have "from_utf8 (str_bytes ''acme:s3cret'') = Some ''acme:s3cret''"
    by (rule from_utf8_str_bytes) simp
  then have creds: "parse_basic plain_server headers = Some \<lparr>ba_user = ''acme'', ba_pass = ''s3cret''\<rparr>"
    using auth by (simp add: parse_basic_def authorization_def visible_ascii_def strip_prefix_def
        plain_server_def sample_server_def split_once_def)
  have "accounts (sys_db (ap_sys s')) = accounts keyed_db" using acc by (simp add: fresh_app_def accounts_def)
  then have "check_project plain_crypto ''acme'' ''s3cret'' (sys_db (ap_sys s')) =
      check_project plain_crypto ''acme'' ''s3cret'' keyed_db" by (rule check_project_accounts)
  moreover have "sv_crypto plain_server = plain_crypto" "sv_project_moka plain_server = (\<lambda>_ _ _. None)"
    by (simp_all add: plain_server_def)
  ultimately show "\<exists>c. project_accepts plain_server sample_req headers s' = Some (writer, s'\<lparr>ap_project_cache := c\<rparr>)"
    by (simp add: project_accepts_def creds authenticate_project_def get_or_insert_def Let_def keyed_check writer_def)
      (rule exI, rule refl)
qed

definition unrouted :: client_response where
  "unrouted = \<lparr>cp_status = 404, cp_headers = []\<rparr>"


end
