(* ===== verification/Metrics_Properties.thy ===== *)
theory Metrics_Properties
  imports Server_Properties
begin

text \<open>
  What the server tells Prometheus: the calls that every request adds to the log of the registry,
  computed from the request and its answer alone, and that none of these calls panics.
\<close>

section \<open>Operations that count nothing\<close>

lemma keeps_metrics_sys: "keeps (\<lambda>s. L (ap_metrics s)) (on_sys m)"
  by (rule keepsI) (simp add: on_sys_def split: prod.split)

lemma keeps_metrics_db: "keeps (\<lambda>s. L (ap_metrics s)) (on_app_db m)"
  unfolding on_app_db_def by (rule keeps_metrics_sys)

lemma keeps_metrics_spawn: "keeps (\<lambda>s. L (ap_metrics s)) (spawn t)"
  by (rule keepsI) simp

lemmas keeps_metrics = keeps_intros keeps_metrics_sys keeps_metrics_db keeps_metrics_spawn

lemma do_put_counts_nothing: "ap_metrics (snd (do_put sv rq a k u p body s)) = ap_metrics s"
proof -
  have "keeps (\<lambda>x. ap_metrics x = ap_metrics s) (do_put sv rq a k u p body)"
    unfolding do_put_def put_store_def put_commit_def soft_trigger_def Let_def
    by (auto intro!: keeps_metrics)
  then show ?thesis by (rule keepsD) simp
qed

lemma dropped_put_counts_nothing: "ap_metrics (dropped_put sv rq point a k u p body s) = ap_metrics s"
proof -
  have keeps: "keeps (\<lambda>x. ap_metrics x = ap_metrics s) (put_store sv rq a u body)"
    unfolding put_store_def by (auto intro!: keeps_metrics)
  have "keeps (\<lambda>x. ap_metrics x = ap_metrics s) (andthen (put_store sv rq a u body) f)"
    if "\<And>w. keeps (\<lambda>x. ap_metrics x = ap_metrics s) (f w)" for f :: "written \<Rightarrow> (app, 'c) op"
    by (intro keeps_andthen keeps that)
  note late = keepsD [OF this refl]
  have early: "ap_metrics (snd (put_store sv rq a u body s)) = ap_metrics s"
    by (rule keepsD [OF keeps]) simp
  show ?thesis
    by (cases point) (auto simp: dropped_put_def Let_def intro!: early late keeps_metrics)
qed

lemma admin_op_counts_nothing:
  assumes "\<not> (\<exists>dry_run. req = RunGc dry_run)"
  shows "ap_metrics (snd (admin_op sv rq a req s)) = ap_metrics s"
proof -
  have "keeps (\<lambda>x. ap_metrics x = ap_metrics s) (admin_op sv rq a req)"
    using assms
    by (cases req)
       (auto simp: project_create_one_def project_list_all_def project_get_one_def project_update_one_def
         project_delete_one_def key_create_one_def key_list_all_def key_revoke_one_def token_create_one_def
         token_list_all_def token_revoke_one_def entry_list_all_def entry_get_one_def entry_delete_one_def
         entry_pin_def entry_unpin_def gc_orphan_scan_def global_stats_def project_stats_def audit_read_def
         audit_call_def Let_def split: prod.split intro!: keeps_metrics)
  then show ?thesis by (rule keepsD) simp
qed

section \<open>What a request counts\<close>

lemma status_not_200 [simp]: "rs_status (into_response sv e) \<noteq> 200"
  by (simp add: into_response_def status_and_title_def split: core_error.split)

lemma status_404 [simp]: "rs_status (into_response sv e) = 404 \<longleftrightarrow> (\<exists>w. e = NotFound w)"
  by (simp add: into_response_def status_and_title_def split: core_error.split)

text \<open>The calls an accepted read adds, by its answer.\<close>

definition read_counts :: "bool \<Rightarrow> kind \<Rightarrow> project_auth \<Rightarrow> response option \<Rightarrow> metric_call list" where
  "read_counts head_only k a answer =
     (let labels = [kind_as_str k, pa_project_name a] in
      case answer of
        None \<Rightarrow> []
      | Some r \<Rightarrow>
          if rs_status r = 404 then [Inc CACHE_MISSES labels]
          else if rs_status r = 200 \<and> \<not> head_only then [Inc CACHE_HITS labels]
          else [])"

lemma get_one_metrics:
  assumes "get_one sv rq a k u p head_only s = (out, s')"
  shows "ap_metrics s' = ap_metrics s @
      (case out of Ok r \<Rightarrow> if head_only then [] else [Inc CACHE_HITS [kind_as_str k, pa_project_name a]] | _ \<Rightarrow> [])"
    and "out = Ok r \<Longrightarrow> rs_status r = 200"
  using assms
  by (auto simp: get_one_def ensure_project_def entries_find_def on_app_db_def on_sys_def on_db_def on_fs_def
      andthen_def Let_def split: if_splits option.splits prod.splits outcome.splits)

lemma read_handler_metrics:
  "ap_metrics (snd (read_handler sv rq k head_only a u p s)) =
   ap_metrics s @ read_counts head_only k a (fst (read_handler sv rq k head_only a u p s))"
proof -
  obtain out s' where run: "get_one sv rq a k u p head_only s = (out, s')" by fastforce
  note get_one_metrics [OF run]
  then show ?thesis
    using run
    by (cases out)
       (auto simp: read_handler_def read_counts_def render_def not_found_text_def text_response_def Let_def
         split: core_error.split)
qed

fun http_counts :: "http_method \<Rightarrow> target \<Rightarrow> project_auth \<Rightarrow> response option \<Rightarrow> metric_call list" where
  "http_counts GET t a answer = read_counts False (target_kind t) a answer"
| "http_counts HEAD t a answer = read_counts True (target_kind t) a answer"
| "http_counts (PUT body) t a answer = []"

lemma yocto_handler_metrics:
  "ap_metrics (snd (yocto_handler sv rq m t a s)) =
   ap_metrics s @ http_counts m t a (fst (yocto_handler sv rq m t a s))"
proof (cases m)
  case (PUT body)
  then show ?thesis by (simp add: yocto_handler_put do_put_counts_nothing)
qed (cases t; simp add: yocto_handler_def get_sstate_def head_sstate_def get_downloads_def head_downloads_def
    read_handler_metrics)+

lemma gc_run_now_metrics:
  "ap_metrics (snd (gc_run_now sv rq a dry_run s)) = ap_metrics s @
     (case fst (gc_run_now sv rq a dry_run s) of
        Ok r \<Rightarrow> [Inc GC_RUNS [if dry_run then ''true'' else ''false'']] | _ \<Rightarrow> [])"
  and gc_run_now_status: "fst (gc_run_now sv rq a dry_run s) = Ok r \<Longrightarrow> rs_status r = 200"
  by (auto simp: gc_run_now_def audit_call_def on_app_db_def on_sys_def on_db_def andthen_def json_response_def
      split: prod.splits outcome.splits)

text \<open>The calls a request adds, from the request, the identity behind it and the answer.\<close>

fun request_counts :: "server \<Rightarrow> req_env \<Rightarrow> request \<Rightarrow> app \<Rightarrow> response option \<Rightarrow> metric_call list" where
  "request_counts sv rq (Cache m t headers) s answer =
     (case project_accepts sv rq headers s of None \<Rightarrow> [] | Some (a, _) \<Rightarrow> http_counts m t a answer)"
| "request_counts sv rq (Admin (RunGc dry_run) headers) s answer =
     (case (admin_accepts sv rq headers s, answer) of
        (Some _, Some r) \<Rightarrow>
          if rs_status r = 200 then [Inc GC_RUNS [if dry_run then ''true'' else ''false'']] else []
      | _ \<Rightarrow> [])"
| "request_counts sv rq _ s answer = []"

lemma admin_router_metrics:
  "ap_metrics (snd (admin_router sv rq headers req s)) = ap_metrics s @
     request_counts sv rq (Admin req headers) s (fst (admin_router sv rq headers req s))"
proof (cases "admin_accepts sv rq headers s")
  case None
  then have "ap_metrics (snd (admin_router sv rq headers req s)) = ap_metrics s"
    using admin_gate.refused [OF None] by (simp add: admin_router_def)
  then show ?thesis using None by (cases req) simp_all
next
  case (Some q)
  obtain a s1 where q: "q = (a, s1)" by (cases q)
  have m: "ap_metrics s1 = ap_metrics s" using admin_gate.same Some q by blast
  have run: "admin_router sv rq headers req s = render sv (admin_op sv rq a req) s1"
    unfolding admin_router_def using admin_gate.accepted Some q by blast
  show ?thesis
  proof (cases "\<exists>dry_run. req = RunGc dry_run")
    case False
    then show ?thesis using m run admin_op_counts_nothing [OF False] by (cases req) auto
  next
    case True
    then obtain dry_run where req: "req = RunGc dry_run" by blast
    obtain out s2 where gc: "gc_run_now sv rq a dry_run s1 = (out, s2)" by fastforce
    have "rs_status r = 200" if "out = Ok r" for r
      using gc_run_now_status [of sv rq a dry_run s1 r] gc that by simp
    then show ?thesis
      using gc_run_now_metrics [of sv rq a dry_run s1] gc Some q m run req
      by (cases out) (simp_all add: render_def)
  qed
qed

lemma request_metrics:
  "ap_metrics (snd (serve_request sv rq req s)) =
   ap_metrics s @ request_counts sv rq req s (fst (serve_request sv rq req s))"
proof (cases req)
  case (Cache m t headers)
  show ?thesis
  proof (cases "project_accepts sv rq headers s")
    case None
    then show ?thesis using Cache project_gate.refused [OF None] by (simp add: serve_request_def yocto_router_def)
  next
    case (Some q)
    obtain a s1 where q: "q = (a, s1)" by (cases q)
    have "ap_metrics s1 = ap_metrics s" using project_gate.same Some q by blast
    moreover have "yocto_router sv rq m t headers s = yocto_handler sv rq m t a s1"
      unfolding yocto_router_def using project_gate.accepted Some q by blast
    ultimately show ?thesis using Cache Some q yocto_handler_metrics [of sv rq m t a s1]
      by (simp add: serve_request_def)
  qed
next
  case (Admin areq headers)
  then show ?thesis using admin_router_metrics [of sv rq headers areq s] by (simp add: serve_request_def)
qed (simp_all add: serve_request_def readyz_def Let_def split: option.split prod.split)

section \<open>Properties\<close>

text \<open>
  The exact calls (functional). A request adds to the registry just what its answer says: an accepted
  \<open>GET\<close> that is served a hit, an accepted \<open>GET\<close> or \<open>HEAD\<close> that is answered 404 a miss, a sweep that
  an administrator asked for and got a run, everything else nothing.
\<close>

theorem requests_are_counted:
  "ap_metrics (snd (serve_request sv rq req s)) =
   ap_metrics s @ request_counts sv rq req s (fst (serve_request sv rq req s))"
  by (rule request_metrics)

lemma request_counts_ok: "list_all call_ok (request_counts sv rq req s answer)"
proof (cases req)
  case (Cache m t headers)
  then show ?thesis
    by (cases m) (auto simp: read_counts_def Let_def split: option.split)
next
  case (Admin areq headers)
  then show ?thesis by (cases areq) (auto split: option.split prod.split)
qed simp_all

text \<open>
  No metric call panics (safety): in every state the server can reach, each call it made names as many
  label values as the collector was registered with.
\<close>

lemma metric_calls_fit:
  assumes "(server_step sv)\<^sup>*\<^sup>* s s'" and "list_all call_ok (ap_metrics s)"
  shows "list_all call_ok (ap_metrics s')"
  using assms(1)
proof (induction rule: rtranclp_induct)
  case base
  then show ?case by (rule assms(2))
next
  case (step y z)
  from step(2) show ?case
  proof (cases rule: server_step.cases)
    case (step_request rq req)
    then show ?thesis using step.IH by (simp add: request_metrics request_counts_ok)
  next
    case (step_dropped rq headers a s1 point k u p body)
    have "ap_metrics s1 = ap_metrics y" using project_gate.same [OF step_dropped(2)] by simp
    then show ?thesis using step.IH step_dropped(1) by (simp add: dropped_put_counts_nothing)
  next
    case (step_task i env)
    then show ?thesis using step.IH
      by (auto simp: run_task_def take_task_def on_app_db_def on_sys_def on_db_def split: task.split prod.split)
  next
    case (step_tick env)
    then show ?thesis using step.IH by (auto simp: gc_tick_def on_sys_def split: prod.split)
  next
    case (step_restart faults)
    then show ?thesis by (simp add: serve_start_def metrics_init_ok)
  qed
qed

end
