(* ===== verification/Cache_Spec.thy ===== *)
theory Cache_Spec
  imports Server_Properties
begin

text \<open>
  The specification of the whole server: it is a map from keys (project, kind, path) to digests that
  may lose bindings at any time and gains them only by uploads. A run is a sequence of server steps
  together with the uploads that reached their registration, in order; \<open>served d\<close> is the map a
  database stands for. The simulation is by map inclusion.
\<close>

section \<open>The abstract cache\<close>

type_synonym cache_index = "int \<times> kind \<times> string"
type_synonym cache_map = "cache_index \<rightharpoonup> string"

definition served :: "db \<Rightarrow> cache_map" where
  "served d key = map_option e_blob_hash (entry_at d key)"

definition store_upload :: "cache_index \<times> string \<Rightarrow> cache_map \<Rightarrow> cache_map" where
  "store_upload = (\<lambda>(key, h) m. m(key \<mapsto> h))"

abbreviation store_all :: "(cache_index \<times> string) list \<Rightarrow> cache_map \<Rightarrow> cache_map" where
  "store_all ups m \<equiv> fold store_upload ups m"

text \<open>The latest upload of a key wins.\<close>

lemma store_all_lookup:
  "store_all ups m key = (case map_of (rev ups) key of None \<Rightarrow> m key | Some h \<Rightarrow> Some h)"
  by (induction ups arbitrary: m rule: rev_induct)
     (auto simp: store_upload_def split: option.split prod.split)

lemma store_upload_mono: "m \<subseteq>\<^sub>m m' \<Longrightarrow> store_upload u m \<subseteq>\<^sub>m store_upload u m'"
  by (simp add: store_upload_def split: prod.split)

text \<open>Databases that stay below a map: a property of every single row, so every deletion keeps it.\<close>

definition below_map :: "cache_map \<Rightarrow> db \<Rightarrow> bool" where
  "below_map m d \<longleftrightarrow> (\<forall>e\<in>set (db_entries d). m (entry_key e) = Some (e_blob_hash e))"

lemma served_row: "wf_db d \<Longrightarrow> e \<in> set (db_entries d) \<Longrightarrow> served d (entry_key e) = Some (e_blob_hash e)"
  by (simp add: served_def entry_at_row)

lemma below_map_iff:
  assumes wf: "wf_db d"
  shows "below_map m d \<longleftrightarrow> served d \<subseteq>\<^sub>m m"
proof
  assume below: "below_map m d"
  have "m key = served d key" if dom: "key \<in> dom (served d)" for key
  proof -
    obtain e where "entry_at d key = Some e"
      using dom by (cases "entry_at d key") (simp_all add: served_def dom_def)
    with entry_at_Some [OF this] show ?thesis using below by (auto simp: below_map_def served_def)
  qed
  then show "served d \<subseteq>\<^sub>m m" by (simp add: map_le_def)
next
  assume le: "served d \<subseteq>\<^sub>m m"
  have "m (entry_key e) = Some (e_blob_hash e)" if "e \<in> set (db_entries d)" for e
    using le served_row [OF wf that] unfolding map_le_def by (metis domI)
  then show "below_map m d" by (simp add: below_map_def)
qed

lemma below_served: "wf_db d \<Longrightarrow> below_map (served d) d"
  by (simp add: below_map_iff)

lemma below_subset: "set (db_entries d') \<subseteq> set (db_entries d) \<Longrightarrow> below_map m d \<Longrightarrow> below_map m d'"
  by (auto simp: below_map_def)

lemma below_same: "db_entries d' = db_entries d \<Longrightarrow> below_map m d' = below_map m d"
  by (simp add: below_map_def)

lemma below_sql_update:
  assumes "\<And>e. entry_key (f e) = entry_key e" and "\<And>e. e_blob_hash (f e) = e_blob_hash e"
    and "db_entries d' = sql_update p f (db_entries d)" and "below_map m d"
  shows "below_map m d'"
  using assms by (auto simp: below_map_def sql_update_def)

section \<open>Everything but an upload only loses bindings\<close>

lemma admin_step_below:
  assumes "admin_step d d'" and "wf_db d" and "below_map m d"
  shows "below_map m d'"
  using assms
proof (induction rule: admin_step.induct)
  case (admin_set_pinned d pid i pin)
  then show ?case
    by (auto simp: set_pinned_def Let_def entry_key_def
        intro: below_sql_update [where f = "e_pinned_update (\<lambda>_. pin)"])
next
  case (admin_entry_delete d pid i)
  then show ?case using entries_delete_subset by (blast intro: below_subset)
next
  case (admin_project_delete d i)
  then show ?case
    by (auto simp: projects_delete_def sql_delete_def Let_def intro!: below_subset [of _ d])
next
  case (admin_project_update d i name q t)
  have "keeps (\<lambda>d. db_entries d = es) (projects_update i name q t)" for es
    unfolding projects_update_def projects_get_def rename_project_def
    by (intro keeps_andthen keeps_transaction keeps_query)
       (auto split: option.split intro!: keeps_ret keepsI)
  then have "db_entries (snd (projects_update i name q t d)) = db_entries d" by (auto simp: keeps_def)
  then show ?case using admin_project_update below_same by blast
qed (auto simp: projects_create_def api_keys_create_def api_keys_revoke_def admin_tokens_create_def
    admin_tokens_revoke_def audit_def Let_def below_map_def)

lemma purge_below: "below_map m d \<Longrightarrow> below_map m (purge H d)"
  by (simp add: below_map_def purge_def)

interpretation shrink_sweep: sweep_invariant "\<lambda>y. wf_db (sys_db y) \<and> below_map m (sys_db y)" root for m root
proof (unfold_locales, goal_cases)
  case (2 s e dry_run)
  have "below_map m (snd (entries_delete pid i d))" if "wf_db d" "below_map m d" for pid i d
    using that entries_delete_subset below_subset by blast
  then show ?case by (intro keepsI) (simp add: gc_delete_wf, simp add: gc_delete_def)
next
  case (3 s h env dry_run rep)
  then show ?case by (simp add: free_blob_wf below_map_def free_blob_frame)
qed simp

lemma scan_below: "keeps (\<lambda>y. wf_db (sys_db y) \<and> below_map m (sys_db y)) (orphan_scan env root dry_run)"
proof -
  have "keeps (\<lambda>y. wf_db (sys_db y) \<and> below_map m (sys_db y)) (db_orphan dry_run h rep)" for h rep
  proof -
    have "keeps (\<lambda>y. wf_db (sys_db y) \<and> below_map m (sys_db y)) (on_db (purge_row h))"
      by (rule keepsI) (simp add: on_db_def purge_row_Ok wf_purge purge_below)
    then show ?thesis by (auto simp: db_orphan_def intro!: keeps_andthen keeps_ret)
  qed
  moreover have "keeps (\<lambda>y. wf_db (sys_db y) \<and> below_map m (sys_db y)) (disk_orphan env root dry_run h rep)"
    for h rep
    by (auto simp: disk_orphan_def intro!: keeps_andthen keeps_ret
        keeps_unlink_logged [of "\<lambda>d. wf_db d \<and> below_map m d"])
  ultimately show ?thesis unfolding orphan_scan_def by (intro keeps_intros)
qed

interpretation shrink_admin: admin_invariant "\<lambda>y. wf_db (sys_db y) \<and> below_map m (sys_db y)" root for m root
proof (unfold_locales, goal_cases)
  case (1 y d')
  then show ?case using admin_step_wf admin_step_below by simp
next
  case 2
  show ?case by (rule shrink_sweep.keeps_run)
next
  case 3
  show ?case by (rule scan_below)
qed

section \<open>Runs with the uploads they register\<close>

text \<open>The binding an upload registers: its blob is stored and the project is there.\<close>

definition stored_by ::
  "server \<Rightarrow> req_env \<Rightarrow> project_auth \<Rightarrow> kind \<Rightarrow> string \<Rightarrow> string \<Rightarrow> (io_error + bytes) list \<Rightarrow> app \<Rightarrow>
   (cache_index \<times> string) list" where
  "stored_by sv rq a k u p body s =
     (case fst (put_store sv rq a u body s) of
        Ok w \<Rightarrow>
          if has_project (sys_db (ap_sys s)) (pa_project_id a)
          then [((pa_project_id a, k, p), w_hash w)] else []
      | _ \<Rightarrow> [])"

fun request_stores :: "server \<Rightarrow> req_env \<Rightarrow> request \<Rightarrow> app \<Rightarrow> (cache_index \<times> string) list" where
  "request_stores sv rq (Cache (PUT body) t headers) s =
     (case project_accepts sv rq headers s of
        None \<Rightarrow> []
      | Some (a, s1) \<Rightarrow> stored_by sv rq a (target_kind t) (target_project t) (target_path t) body s1)"
| "request_stores sv rq _ s = []"

inductive server_run :: "server \<Rightarrow> app \<Rightarrow> (cache_index \<times> string) list \<Rightarrow> app \<Rightarrow> bool" for sv s where
  run_start: "server_run sv s [] s"
| run_request: "server_run sv s ups s1 \<Longrightarrow>
    server_run sv s (ups @ request_stores sv rq req s1) (snd (serve_request sv rq req s1))"
| run_dropped: "server_run sv s ups s1 \<Longrightarrow> project_accepts sv rq headers s1 = Some (a, s2) \<Longrightarrow>
    server_run sv s
      (ups @ (if point = BeforeBump \<or> point = BeforeTrigger then stored_by sv rq a k u p body s2 else []))
      (dropped_put sv rq point a k u p body s2)"
| run_task: "server_run sv s ups s1 \<Longrightarrow> i < length (ap_tasks s1) \<Longrightarrow>
    server_run sv s ups (run_task sv env (ap_tasks s1 ! i) (take_task i s1))"
| run_tick: "server_run sv s ups s1 \<Longrightarrow> server_run sv s ups (gc_tick sv env s1)"
| run_restart: "server_run sv s ups s1 \<Longrightarrow> server_run sv s ups (serve_start faults sv (ap_sys s1))"

lemma run_steps: "server_run sv s ups s' \<Longrightarrow> (server_step sv)\<^sup>*\<^sup>* s s'"
  by (induction rule: server_run.induct) (auto intro: rtranclp.rtrancl_into_rtrancl server_step.intros)

lemma steps_run: "(server_step sv)\<^sup>*\<^sup>* s s' \<Longrightarrow> \<exists>ups. server_run sv s ups s'"
proof (induction rule: rtranclp_induct)
  case base
  show ?case using run_start by blast
next
  case (step y z)
  then obtain ups where "server_run sv s ups y" by blast
  with step(2) show ?case
    by (cases rule: server_step.cases) (blast intro: server_run.intros)+
qed

section \<open>Every step is simulated\<close>

lemma stored_below:
  assumes wf: "wf_db (sys_db (ap_sys s))" and below: "below_map m (sys_db (ap_sys s))"
    and "stored_by sv rq a k u p body s = [((pa_project_id a, k, p), w_hash w)]"
    and "db_entries d' =
      db_entries (upsert_state now1 now (pa_project_id a) k p (w_hash w) (w_size_bytes w) (sys_db (ap_sys s)))"
  shows "below_map (store_all (stored_by sv rq a k u p body s) m) d'"
  using assms by (auto simp: below_map_def set_entries_upsert_state [OF wf] store_upload_def)

lemma do_put_below:
  assumes wf: "wf_db (sys_db (ap_sys s))" and below: "below_map m (sys_db (ap_sys s))"
  shows "below_map (store_all (stored_by sv rq a k u p body s) m)
    (sys_db (ap_sys (snd (do_put sv rq a k u p body s))))"
proof (cases rule: put_store_cases [of sv rq a u body s])
  case (refused reason)
  then show ?thesis using below by (simp add: do_put_def stored_by_def)
next
  case (stored r f)
  let ?s1 = "s\<lparr>ap_sys := (ap_sys s)\<lparr>sys_fs := f\<rparr>\<rparr>"
  show ?thesis
  proof (cases r)
    case (Ok w)
    have sz: "0 \<le> w_size_bytes w" using write_streamed_keeps [OF stored(2)] Ok by auto
    have run: "do_put sv rq a k u p body s = put_commit sv rq a k p w ?s1"
      using stored(1) Ok by (simp add: do_put_def)
    have wf1: "wf_db (sys_db (ap_sys ?s1))" using wf by simp
    note commit = put_commit_db [OF wf1 sz, of sv rq a k p]
    show ?thesis
    proof (cases "has_project (sys_db (ap_sys s)) (pa_project_id a)")
      case True
      then have "stored_by sv rq a k u p body s = [((pa_project_id a, k, p), w_hash w)]"
        using stored(1) Ok by (simp add: stored_by_def)
      from stored_below [OF wf below this] show ?thesis using commit run True by simp
    next
      case False
      then show ?thesis using commit run below stored(1) Ok by (simp add: stored_by_def)
    qed
  qed (use stored(1) below in \<open>simp_all add: do_put_def stored_by_def\<close>)
qed

lemma dropped_below:
  assumes wf: "wf_db (sys_db (ap_sys s))" and below: "below_map m (sys_db (ap_sys s))"
  shows "below_map (store_all (if point = BeforeBump \<or> point = BeforeTrigger then stored_by sv rq a k u p body s else []) m)
    (sys_db (ap_sys (dropped_put sv rq point a k u p body s)))"
proof (cases rule: put_store_cases [of sv rq a u body s])
  case (refused reason)
  then show ?thesis using below
    by (cases point) (auto simp: dropped_put_def stored_by_def Let_def)
next
  case (stored r f)
  show ?thesis
  proof (cases "(point = BeforeBump \<or> point = BeforeTrigger) \<and> (\<exists>w. r = Ok w)")
    case False
    then show ?thesis using stored below
      by (cases point; cases r) (auto simp: dropped_put_def stored_by_def Let_def)
  next
    case True
    then obtain w where late: "point = BeforeBump \<or> point = BeforeTrigger" and r: "r = Ok w" by blast
    have sz: "0 \<le> w_size_bytes w" using write_streamed_keeps [OF stored(2)] r by auto
    note sys = dropped_late [OF wf sz stored(1) [unfolded r] late, of k p]
    show ?thesis
    proof (cases "has_project (sys_db (ap_sys s)) (pa_project_id a)")
      case True
      then have "stored_by sv rq a k u p body s = [((pa_project_id a, k, p), w_hash w)]"
        using stored(1) r by (simp add: stored_by_def)
      from stored_below [OF wf below this] show ?thesis using sys True late by auto
    next
      case False
      then show ?thesis using sys below stored(1) r by (simp add: stored_by_def)
    qed
  qed
qed

lemma request_below:
  assumes wf: "wf_db (sys_db (ap_sys s))" and below: "below_map m (sys_db (ap_sys s))"
  shows "below_map (store_all (request_stores sv rq req s) m) (sys_db (ap_sys (snd (serve_request sv rq req s))))"
proof (cases req)
  case (Cache meth t headers)
  show ?thesis
  proof (cases "project_accepts sv rq headers s")
    case None
    then have "request_stores sv rq req s = []" using Cache by (cases meth) simp_all
    then show ?thesis
      using Cache below project_gate.refused [OF None] by (simp add: serve_request_def yocto_router_def)
  next
    case (Some q)
    obtain a s1 where q: "q = (a, s1)" by (cases q)
    have same: "ap_sys s1 = ap_sys s" using project_gate.same Some q by blast
    have run: "yocto_router sv rq meth t headers s = yocto_handler sv rq meth t a s1"
      unfolding yocto_router_def using project_gate.accepted Some q by blast
    show ?thesis
    proof (cases meth)
      case (PUT body)
      then show ?thesis
        using do_put_below [where s = s1 and m = m and sv = sv and rq = rq and a = a and k = "target_kind t" and
            u = "target_project t" and p = "target_path t" and body = body]
          Cache Some q run same wf below
        by (simp add: serve_request_def yocto_handler_put)
    qed (use Cache run same below in \<open>simp_all add: serve_request_def yocto_handler_reads\<close>)
  qed
next
  case (Admin areq headers)
  then show ?thesis
    using shrink_admin.admin_router_keeps [where sv = sv and root = "sv_root sv" and m = m and s = s and
        rq = rq and headers = headers and req = areq] wf below
    by (simp add: serve_request_def)
next
  case (Readyz pe)
  then show ?thesis
    using below by (simp add: serve_request_def readyz_def Let_def split: prod.split option.split)
qed (use below in \<open>simp_all add: serve_request_def\<close>)

lemma task_below:
  assumes "wf_db (sys_db (ap_sys s)) \<and> below_map m (sys_db (ap_sys s))"
  shows "below_map m (sys_db (ap_sys (run_task sv env t s)))"
proof (cases t)
  case (TouchTask i)
  have "below_map m (snd (touch now i d))" if "below_map m d" for now d
    using that by (auto simp: touch_def entry_key_def
        intro: below_sql_update [where f = "\<lambda>r. r\<lparr>e_last_accessed := now\<rparr>"])
  then show ?thesis using assms TouchTask
    by (cases "touch (ge_now env) i (sys_db (ap_sys s))") (simp add: run_task_def, metis snd_conv)
next
  case GcTask
  then show ?thesis
    using keepsD [OF keeps_on_sys [OF shrink_sweep.keeps_run] assms] by (simp add: run_task_def)
qed

lemma run_below:
  assumes "server_run sv s ups s'" and "sound sv s"
  shows "below_map (store_all ups (served (sys_db (ap_sys s)))) (sys_db (ap_sys s'))"
  using assms(1)
proof (induction rule: server_run.induct)
  case run_start
  then show ?case using assms(2) by (simp add: below_served sound_def)
next
  case (run_request ups s1 rq req)
  have "wf_db (sys_db (ap_sys s1))" using sound_steps [OF run_steps [OF run_request(1)] assms(2)] by (simp add: sound_def)
  from request_below [OF this run_request.IH, where rq = rq and req = req] show ?case by simp
next
  case (run_dropped ups s1 rq headers a s2 point k u p body)
  have "wf_db (sys_db (ap_sys s1))" using sound_steps [OF run_steps [OF run_dropped(1)] assms(2)] by (simp add: sound_def)
  moreover have "ap_sys s2 = ap_sys s1" using project_gate.same [OF run_dropped(2)] by simp
  ultimately show ?case
    using dropped_below [where s = s2 and point = point and sv = sv and rq = rq and a = a and k = k and u = u and
        p = p and body = body] run_dropped.IH by simp
next
  case (run_task ups s1 i env)
  have "wf_db (sys_db (ap_sys s1))" using sound_steps [OF run_steps [OF run_task(1)] assms(2)] by (simp add: sound_def)
  then show ?case using run_task.IH by (intro task_below) (simp add: take_task_def)
next
  case (run_tick ups s1 env)
  have "wf_db (sys_db (ap_sys s1))" using sound_steps [OF run_steps [OF run_tick(1)] assms(2)] by (simp add: sound_def)
  then show ?case
    using keepsD [OF keeps_on_sys [OF shrink_sweep.keeps_run]] run_tick.IH by (simp add: gc_tick_def)
next
  case (run_restart ups s1 faults)
  then show ?case by (simp add: serve_start_def)
qed

lemma cache_refined:
  assumes "server_run sv s ups s'" and "sound sv s"
  shows "served (sys_db (ap_sys s')) \<subseteq>\<^sub>m store_all ups (served (sys_db (ap_sys s)))"
proof -
  have "wf_db (sys_db (ap_sys s'))"
    using sound_steps [OF run_steps [OF assms(1)] assms(2)] by (simp add: sound_def)
  with run_below [OF assms] show ?thesis by (simp add: below_map_iff)
qed

text \<open>What an upload answered with 201 did.\<close>

lemma into_response_201 [simp]: "rs_status (into_response sv e) \<noteq> 201"
  by (simp add: into_response_def status_and_title_def split: core_error.split)

lemma refused_not_201:
  assumes "project_accepts sv rq headers s = None" and "fst (project_middleware sv rq headers h s) = Some r"
  shows "rs_status r \<noteq> 201"
  using assms
  by (auto simp: project_accepts_def project_middleware_def basic_challenge_def text_response_def
      split: option.splits prod.splits outcome.splits if_splits)

lemma do_put_201:
  assumes wf: "wf_db (sys_db (ap_sys s))" and run: "do_put sv rq a k u p body s = (Ok r, s')"
  shows "stream_ok body \<and> rs_headers r = [(''etag'', quoted (cr_sha256 (sv_crypto sv) (stream_bytes body)))] \<and>
    stored_by sv rq a k u p body s = [((pa_project_id a, k, p), cr_sha256 (sv_crypto sv) (stream_bytes body))] \<and>
    served (sys_db (ap_sys s')) (pa_project_id a, k, p) = Some (cr_sha256 (sv_crypto sv) (stream_bytes body))"
proof (cases rule: put_store_cases [of sv rq a u body s])
  case (refused reason)
  then show ?thesis using run by (simp add: do_put_def)
next
  case (stored out f)
  let ?s1 = "s\<lparr>ap_sys := (ap_sys s)\<lparr>sys_fs := f\<rparr>\<rparr>"
  from stored(1) run obtain w where out: "out = Ok w"
    by (cases out) (simp_all add: do_put_def)
  then have w: "stream_ok body" "w_hash w = cr_sha256 (sv_crypto sv) (stream_bytes body)" "0 \<le> w_size_bytes w"
    using write_streamed_keeps [OF stored(2)] by auto
  have commit: "put_commit sv rq a k p w ?s1 = (Ok r, s')"
    using stored(1) out run by (simp add: do_put_def)
  have wf1: "wf_db (sys_db (ap_sys ?s1))" using wf by simp
  have proj: "has_project (sys_db (ap_sys s)) (pa_project_id a)"
  proof (rule ccontr)
    assume "\<not> ?thesis"
    then show False using upsert_no_project [OF wf1] commit by (simp add: put_commit_def)
  qed
  have "rs_headers r = [(''etag'', quoted (w_hash w))]"
    using commit unfolding put_commit_def by (auto elim!: andthen_OkE split: if_splits)
  moreover have "sys_db (ap_sys s') = registered rq a k p w (sys_db (ap_sys s))"
    using put_commit_db [OF wf1 w(3), of sv rq a k p] commit proj by simp
  then have "served (sys_db (ap_sys s')) (pa_project_id a, k, p) = Some (w_hash w)"
    using entry_at_registered [OF wf proj w(3)] by (simp add: served_def)
  ultimately show ?thesis using w stored(1) out proj by (simp add: stored_by_def)
qed

lemma put_201:
  assumes "sound sv s" and "serve_request sv rq (Cache (PUT body) t headers) s = (Some r, s')"
    and "rs_status r = 201"
  shows "\<exists>a s1 h key. project_accepts sv rq headers s = Some (a, s1) \<and> stream_ok body \<and>
    h = cr_sha256 (sv_crypto sv) (stream_bytes body) \<and> rs_headers r = [(''etag'', quoted h)] \<and>
    key = (pa_project_id a, target_kind t, target_path t) \<and>
    request_stores sv rq (Cache (PUT body) t headers) s = [(key, h)] \<and>
    served (sys_db (ap_sys s')) key = Some h"
proof -
  from assms(2) have run: "project_middleware sv rq headers (yocto_handler sv rq (PUT body) t) s = (Some r, s')"
    by (simp add: serve_request_def yocto_router_def)
  then have "project_accepts sv rq headers s \<noteq> None"
    using refused_not_201 [of sv rq headers s "yocto_handler sv rq (PUT body) t" r] assms(3) by (metis fst_conv)
  then obtain a s1 where acc: "project_accepts sv rq headers s = Some (a, s1)"
    by (cases "project_accepts sv rq headers s") auto
  have wf: "wf_db (sys_db (ap_sys s1))" using project_gate.same [OF acc] assms(1) by (simp add: sound_def)
  have put: "render sv (do_put sv rq a (target_kind t) (target_project t) (target_path t) body) s1 = (Some r, s')"
    using run project_gate.accepted [OF acc] by (simp add: yocto_handler_put)
  then have "do_put sv rq a (target_kind t) (target_project t) (target_path t) body s1 = (Ok r, s')"
    using assms(3) by (auto simp: render_def split: prod.splits outcome.splits)
  from do_put_201 [OF wf this] acc show ?thesis by auto
qed

text \<open>What a download that succeeds found.\<close>

lemma get_one_hit:
  assumes "fst (get_one sv rq a k u p False s) = Ok r"
  shows "\<exists>e c. entry_at (sys_db (ap_sys s)) (pa_project_id a, k, p) = Some e \<and>
    blob_file (sv_root sv) (e_blob_hash e) (sys_fs (ap_sys s)) = Some c \<and>
    rs_status r = 200 \<and> rs_body r = BBytes c \<and> map_of (rs_headers r) ''etag'' = Some (quoted (e_blob_hash e))"
proof -
  from assms obtain e c where e: "entry_at (sys_db (ap_sys s)) (pa_project_id a, k, p) = Some e"
    and c: "fst (read_blob (rq_open_fault rq) (sv_root sv) (e_blob_hash e) (sys_fs (ap_sys s))) = Ok c"
    and r: "rs_status r = 200" "rs_body r = BBytes c" "map_of (rs_headers r) ''etag'' = Some (quoted (e_blob_hash e))"
    by (auto simp: get_one_def ensure_project_def entries_find_def on_app_db_def on_sys_def on_db_def on_fs_def
        andthen_def Let_def split: if_splits option.splits prod.splits outcome.splits)
  have "blob_file (sv_root sv) (e_blob_hash e) (sys_fs (ap_sys s)) = Some c"
    using c by (auto simp: read_blob_def blob_file_def open_file_def
        split: option.splits sum.splits io_kind.splits if_splits)
  with e r show ?thesis by blast
qed

section \<open>Properties\<close>

text \<open>
  C3 The server refines the abstract cache (refinement): whatever requests, dropped uploads, background
  tasks, sweeps and restarts happen, in any order, the keys the database answers for are bound to what
  their latest registered upload, or the initial state, bound them to. Bindings get lost; none is made up.
\<close>

theorem server_refines_cache:
  assumes "server_run sv s ups s'" and "sound sv s"
  shows "served (sys_db (ap_sys s')) \<subseteq>\<^sub>m store_all ups (served (sys_db (ap_sys s)))"
  using assms by (rule cache_refined)

theorem server_refines_cache_witness:
  "served (sys_db (ap_sys (snd (serve_request (sample_server 1000) sample_req sample_upload fresh_app)))) \<subseteq>\<^sub>m
   store_all ([] @ request_stores (sample_server 1000) sample_req sample_upload fresh_app)
     (served (sys_db (ap_sys fresh_app)))"
  by (rule server_refines_cache [OF run_request [OF run_start] fresh_sound])

text \<open>
  C5 A hit serves the latest upload (safety): the bytes of a \<open>GET\<close> that succeeds have the digest that the
  latest registered upload of that key had, or, where there was none, that of the initial state.
\<close>

theorem hit_serves_latest_upload:
  assumes "server_run sv s ups s'" and "sound sv s"
    and "fst (get_one sv rq a k u p False s') = Ok r"
  shows "\<exists>c. rs_status r = 200 \<and> rs_body r = BBytes c \<and>
    map_of (rs_headers r) ''etag'' = Some (quoted (cr_sha256 (sv_crypto sv) c)) \<and>
    store_all ups (served (sys_db (ap_sys s))) (pa_project_id a, k, p) = Some (cr_sha256 (sv_crypto sv) c)"
proof -
  let ?key = "(pa_project_id a, k, p)"
  have sound: "sound sv s'" using sound_steps [OF run_steps [OF assms(1)] assms(2)] .
  from get_one_hit [OF assms(3)] obtain e c where e: "entry_at (sys_db (ap_sys s')) ?key = Some e"
    and c: "blob_file (sv_root sv) (e_blob_hash e) (sys_fs (ap_sys s')) = Some c"
    and r: "rs_status r = 200" "rs_body r = BBytes c" "map_of (rs_headers r) ''etag'' = Some (quoted (e_blob_hash e))"
    by blast
  have "cr_sha256 (sv_crypto sv) c = e_blob_hash e" using sound c by (simp add: sound_def integral_def)
  moreover have "served (sys_db (ap_sys s')) ?key = Some (e_blob_hash e)" using e by (simp add: served_def)
  then have "store_all ups (served (sys_db (ap_sys s))) ?key = Some (e_blob_hash e)"
    using cache_refined [OF assms(1,2)] by (metis domI map_le_def)
  ultimately show ?thesis using r by auto
qed

theorem hit_serves_latest_upload_witness:
  "\<exists>r c. fst (get_one (sample_server 1000) sample_req (writer\<lparr>pa_role := Read\<rparr>) Sstate ''acme'' ''e'' False
      (snd (serve_request (sample_server 1000) sample_req sample_upload fresh_app))) = Ok r \<and> rs_body r = BBytes c \<and>
    store_all ([] @ request_stores (sample_server 1000) sample_req sample_upload fresh_app)
      (served (sys_db (ap_sys fresh_app))) (1, Sstate, ''e'') = Some (cr_sha256 plain_crypto c)"
proof (rule fresh_upload)
  let ?s' = "snd (serve_request (sample_server 1000) sample_req sample_upload fresh_app)"
  fix e
  assume e: "e \<in> set (db_entries (sys_db (ap_sys ?s')))"
    and cols: "e_blob_hash e = ''EEEE''" "e_size_bytes e = 4" "entry_key e = (1, Sstate, ''e'')"
  have "visible_ascii (e_blob_hash e)" by (simp add: cols)
  from entry_is_served [OF sound_steps [OF request_steps fresh_sound] e this, of "writer\<lparr>pa_role := Read\<rparr>" "''acme''" sample_req]
  obtain r where r: "fst (get_one (sample_server 1000) sample_req (writer\<lparr>pa_role := Read\<rparr>) Sstate ''acme'' ''e'' False ?s') = Ok r"
    using cols by (auto simp: entry_key_def)
  from hit_serves_latest_upload [OF run_request [OF run_start] fresh_sound this] r show ?thesis by auto
qed

text \<open>
  C4 An upload that is acknowledged is registered (functional): a \<open>PUT\<close> answered 201 was complete, its
  \<open>ETag\<close> is the digest of its body, and that digest is what its key is bound to from then on.
\<close>

theorem acknowledged_upload_is_registered:
  assumes "sound sv s" and "serve_request sv rq (Cache (PUT body) t headers) s = (Some r, s')"
    and "rs_status r = 201"
  shows "\<exists>a s1 h key. project_accepts sv rq headers s = Some (a, s1) \<and> stream_ok body \<and>
    h = cr_sha256 (sv_crypto sv) (stream_bytes body) \<and> rs_headers r = [(''etag'', quoted h)] \<and>
    key = (pa_project_id a, target_kind t, target_path t) \<and>
    request_stores sv rq (Cache (PUT body) t headers) s = [(key, h)] \<and>
    served (sys_db (ap_sys s')) key = Some h"
  using assms by (rule put_201)

theorem acknowledged_upload_is_registered_witness:
  "request_stores (sample_server 1000) sample_req sample_upload fresh_app = [((1, Sstate, ''e''), ''EEEE'')]"
proof (rule fresh_put)
  fix r s'
  assume run: "serve_request (sample_server 1000) sample_req sample_upload fresh_app = (Some r, s')"
    and "rs_status r = 201"
  from acknowledged_upload_is_registered [OF fresh_sound run [unfolded sample_upload_def] this(2)]
  obtain a s1 where "project_accepts (sample_server 1000) sample_req sample_headers fresh_app = Some (a, s1)"
    and *: "request_stores (sample_server 1000) sample_req sample_upload fresh_app =
      [((pa_project_id a, Sstate, ''e''), ''EEEE'')]"
    unfolding sample_upload_def by auto
  moreover obtain c where "project_accepts (sample_server 1000) sample_req sample_headers fresh_app =
      Some (writer, fresh_app\<lparr>ap_project_cache := c\<rparr>)"
    by (rule writer_accepted [of fresh_app]) (simp_all add: fresh_db_facts fresh_app_cache)
  ultimately show ?thesis by simp
qed

end
