(* ===== verification/Routes.thy ===== *)
theory Routes
  imports Server
begin

text \<open>
  From a parsed HTTP message to a request of the model: the route tables (\<open>router()\<close> in
  \<open>routes/*.rs\<close>) and the payloads of the admin API (\<open>routes/admin/dto.rs\<close>). The path comes as its
  decoded segments, as axum's matcher compares them: a parameter takes one segment that is not
  empty, \<open>{*path}\<close> one or more. JSON and query strings are parsed by serde, a record of parameters;
  what the derived \<open>Deserialize\<close> does with a parsed JSON value is written out. \<open>None\<close> is a message
  that axum answers by itself (404, 405, 400, 415 or 422), after the middleware, without any handler.
\<close>

section \<open>Numbers in paths\<close>

definition is_digit :: "char \<Rightarrow> bool" where
  "is_digit c \<longleftrightarrow> 48 \<le> (of_char c :: nat) \<and> (of_char c :: nat) \<le> 57"

fun digits_value :: "nat \<Rightarrow> string \<Rightarrow> nat" where
  "digits_value acc [] = acc"
| "digits_value acc (c # cs) = digits_value (10 * acc + (of_char c - 48)) cs"

text \<open>\<open>i64::from_str\<close>: an optional sign, at least one digit, nothing else, and no overflow.\<close>

definition parse_digits :: "string \<Rightarrow> nat option" where
  "parse_digits s = (if s \<noteq> [] \<and> list_all is_digit s then Some (digits_value 0 s) else None)"

definition parse_i64 :: "string \<Rightarrow> int option" where
  "parse_i64 s =
     Option.bind
       (case s of
          [] \<Rightarrow> None
        | c # cs \<Rightarrow>
            if c = CHR ''-'' then map_option (\<lambda>n. - int n) (parse_digits cs)
            else if c = CHR ''+'' then map_option int (parse_digits cs)
            else map_option int (parse_digits s))
       (\<lambda>i. if in_i64 i then Some i else None)"

section \<open>Payloads\<close>

text \<open>
  A derived \<open>Deserialize\<close> looks its fields up by name, ignores fields it does not know and refuses an
  object that has one it knows twice.
\<close>

definition json_field :: "string \<Rightarrow> jv \<Rightarrow> jv option" where
  "json_field name v = (case v of VObj kvs \<Rightarrow> map_of kvs name | _ \<Rightarrow> None)"

definition json_struct :: "string list \<Rightarrow> jv \<Rightarrow> bool" where
  "json_struct known v =
     (case v of VObj kvs \<Rightarrow> distinct (filter (\<lambda>n. n \<in> set known) (map fst kvs)) | _ \<Rightarrow> False)"

fun json_i64 :: "jv \<Rightarrow> int option" where
  "json_i64 (VInt i) = (if in_i64 i then Some i else None)"
| "json_i64 _ = None"

fun json_str :: "jv \<Rightarrow> string option" where
  "json_str (VStr s) = Some s"
| "json_str _ = None"

fun json_role :: "jv \<Rightarrow> role option" where
  "json_role (VStr s) = (case role_from_str s of Ok r \<Rightarrow> Some r | _ \<Rightarrow> None)"
| "json_role _ = None"

text \<open>An \<open>Option\<close> field: absent and \<open>null\<close> are \<open>None\<close>. The outer option is the failure.\<close>

definition option_field :: "(jv \<Rightarrow> 'a option) \<Rightarrow> jv option \<Rightarrow> 'a option option" where
  "option_field parse f =
     (case f of None \<Rightarrow> Some None | Some VNull \<Rightarrow> Some None | Some v \<Rightarrow> map_option Some (parse v))"

text \<open>\<open>deserialize_double_option\<close> behind \<open>serde(default)\<close>: absent is \<open>None\<close>, \<open>null\<close> is \<open>Some(None)\<close>.\<close>

definition double_option :: "(jv \<Rightarrow> 'a option) \<Rightarrow> jv option \<Rightarrow> 'a option option option" where
  "double_option parse f =
     (case f of None \<Rightarrow> Some None | Some v \<Rightarrow> map_option Some (option_field parse (Some v)))"

definition create_project_body :: "jv \<Rightarrow> admin_request option" where
  "create_project_body v =
     (if \<not> json_struct [''name'', ''quota_bytes'', ''ttl_seconds''] v then None
      else
        Option.bind (Option.bind (json_field ''name'' v) json_str) (\<lambda>name.
        Option.bind (option_field json_i64 (json_field ''quota_bytes'' v)) (\<lambda>quota.
        Option.bind (option_field json_i64 (json_field ''ttl_seconds'' v)) (\<lambda>ttl.
        Some (CreateProject name quota ttl)))))"

definition update_project_body :: "int \<Rightarrow> jv \<Rightarrow> admin_request option" where
  "update_project_body i v =
     (if \<not> json_struct [''name'', ''quota_bytes'', ''ttl_seconds''] v then None
      else
        Option.bind (option_field json_str (json_field ''name'' v)) (\<lambda>name.
        Option.bind (double_option json_i64 (json_field ''quota_bytes'' v)) (\<lambda>quota.
        Option.bind (double_option json_i64 (json_field ''ttl_seconds'' v)) (\<lambda>ttl.
        Some (UpdateProject i name quota ttl)))))"

definition create_key_body :: "int \<Rightarrow> jv \<Rightarrow> admin_request option" where
  "create_key_body i v =
     (if \<not> json_struct [''role'', ''label''] v then None
      else
        Option.bind (Option.bind (json_field ''role'' v) json_role) (\<lambda>r.
        Option.bind (option_field json_str (json_field ''label'' v)) (\<lambda>label.
        Some (CreateKey i r label))))"

definition create_token_body :: "jv \<Rightarrow> admin_request option" where
  "create_token_body v =
     (if \<not> json_struct [''label''] v then None
      else
        Option.bind (option_field json_str (json_field ''label'' v)) (\<lambda>label.
        Some (CreateToken label)))"

section \<open>Route tables\<close>

datatype verb = Vget | Vhead | Vput | Vpost | Vpatch | Vdelete

record extractors =
  ex_json :: "bytes \<Rightarrow> jv option"
  ex_list_query :: "string \<Rightarrow> list_query option"
  ex_dry_run :: "string \<Rightarrow> bool option"
  ex_audit_query :: "string \<Rightarrow> (int option \<times> int option) option"

text \<open>A route for \<open>GET\<close> answers \<open>HEAD\<close> as well, unless it has a handler of its own for it.\<close>

definition reads :: "verb \<Rightarrow> bool" where
  "reads v \<longleftrightarrow> v = Vget \<or> v = Vhead"

text \<open>\<open>projects::router\<close>, \<open>keys::router\<close>, \<open>tokens::router\<close>\<close>

definition projects_route :: "extractors \<Rightarrow> verb \<Rightarrow> string list \<Rightarrow> bytes \<Rightarrow> admin_request option" where
  "projects_route ex v segs body =
     (case segs of
        [a] \<Rightarrow>
          if a \<noteq> ''projects'' then None
          else if v = Vpost then Option.bind (ex_json ex body) create_project_body
          else if reads v then Some ListProjects else None
      | [a, i] \<Rightarrow>
          if a \<noteq> ''projects'' then None
          else Option.bind (parse_i64 i) (\<lambda>i.
            if reads v then Some (GetProject i)
            else if v = Vpatch then Option.bind (ex_json ex body) (update_project_body i)
            else if v = Vdelete then Some (DeleteProject i) else None)
      | _ \<Rightarrow> None)"

definition keys_route :: "extractors \<Rightarrow> verb \<Rightarrow> string list \<Rightarrow> bytes \<Rightarrow> admin_request option" where
  "keys_route ex v segs body =
     (case segs of
        [a, i, b] \<Rightarrow>
          if a \<noteq> ''projects'' \<or> b \<noteq> ''keys'' then None
          else Option.bind (parse_i64 i) (\<lambda>i.
            if v = Vpost then Option.bind (ex_json ex body) (create_key_body i)
            else if reads v then Some (ListKeys i) else None)
      | [a, i, b, kid] \<Rightarrow>
          if a \<noteq> ''projects'' \<or> b \<noteq> ''keys'' \<or> v \<noteq> Vdelete then None
          else Option.bind (parse_i64 i) (\<lambda>i. Option.bind (parse_i64 kid) (\<lambda>kid. Some (RevokeKey i kid)))
      | _ \<Rightarrow> None)"

definition tokens_route :: "extractors \<Rightarrow> verb \<Rightarrow> string list \<Rightarrow> bytes \<Rightarrow> admin_request option" where
  "tokens_route ex v segs body =
     (case segs of
        [a] \<Rightarrow>
          if a \<noteq> ''tokens'' then None
          else if v = Vpost then Option.bind (ex_json ex body) create_token_body
          else if reads v then Some ListTokens else None
      | [a, i] \<Rightarrow>
          if a \<noteq> ''tokens'' \<or> v \<noteq> Vdelete then None
          else Option.bind (parse_i64 i) (\<lambda>i. Some (RevokeToken i))
      | _ \<Rightarrow> None)"

text \<open>\<open>entries::router\<close>, \<open>gc::router\<close>, \<open>stats::router\<close>\<close>

definition entries_route :: "extractors \<Rightarrow> verb \<Rightarrow> string list \<Rightarrow> string \<Rightarrow> admin_request option" where
  "entries_route ex v segs qs =
     (case segs of
        [a, i, b] \<Rightarrow>
          if a \<noteq> ''projects'' \<or> b \<noteq> ''entries'' \<or> \<not> reads v then None
          else Option.bind (parse_i64 i) (\<lambda>i. Option.bind (ex_list_query ex qs) (\<lambda>q. Some (ListEntries i q)))
      | [a, i, b, eid] \<Rightarrow>
          if a \<noteq> ''projects'' \<or> b \<noteq> ''entries'' then None
          else Option.bind (parse_i64 i) (\<lambda>i. Option.bind (parse_i64 eid) (\<lambda>eid.
            if reads v then Some (GetEntry i eid) else if v = Vdelete then Some (DeleteEntry i eid) else None))
      | [a, i, b, eid, c] \<Rightarrow>
          if a \<noteq> ''projects'' \<or> b \<noteq> ''entries'' \<or> c \<noteq> ''pin'' then None
          else Option.bind (parse_i64 i) (\<lambda>i. Option.bind (parse_i64 eid) (\<lambda>eid.
            if v = Vpost then Some (PinEntry i eid) else if v = Vdelete then Some (UnpinEntry i eid) else None))
      | _ \<Rightarrow> None)"

definition gc_route :: "extractors \<Rightarrow> verb \<Rightarrow> string list \<Rightarrow> string \<Rightarrow> admin_request option" where
  "gc_route ex v segs qs =
     (case segs of
        [a, b] \<Rightarrow>
          if a \<noteq> ''gc'' \<or> v \<noteq> Vpost then None
          else if b = ''run'' then map_option RunGc (ex_dry_run ex qs)
          else if b = ''orphan-scan'' then map_option OrphanScan (ex_dry_run ex qs)
          else None
      | _ \<Rightarrow> None)"

definition stats_route :: "extractors \<Rightarrow> verb \<Rightarrow> string list \<Rightarrow> string \<Rightarrow> admin_request option" where
  "stats_route ex v segs qs =
     (if \<not> reads v then None
      else
        (case segs of
           [a] \<Rightarrow>
             if a = ''stats'' then Some GlobalStats
             else if a = ''audit'' then map_option (\<lambda>(since, limit). ReadAudit since limit) (ex_audit_query ex qs)
             else None
         | [a, b, i] \<Rightarrow>
             if a \<noteq> ''stats'' \<or> b \<noteq> ''projects'' then None else map_option ProjectStats (parse_i64 i)
         | _ \<Rightarrow> None))"

text \<open>\<open>merge\<close>: no path is in two tables (\<open>routes_disjoint\<close> below), so their order does not matter.\<close>

fun first_match :: "'a option list \<Rightarrow> 'a option" where
  "first_match [] = None"
| "first_match (None # xs) = first_match xs"
| "first_match (Some x # xs) = Some x"

definition admin_route :: "extractors \<Rightarrow> verb \<Rightarrow> string list \<Rightarrow> string \<Rightarrow> bytes \<Rightarrow> admin_request option" where
  "admin_route ex v segs qs body =
     first_match
       [projects_route ex v segs body, keys_route ex v segs body, tokens_route ex v segs body,
        entries_route ex v segs qs, gc_route ex v segs qs, stats_route ex v segs qs]"

text \<open>\<open>yocto::router\<close>\<close>

definition yocto_method :: "verb \<Rightarrow> (io_error + bytes) list \<Rightarrow> http_method option" where
  "yocto_method v body =
     (if v = Vget then Some GET else if v = Vhead then Some HEAD
      else if v = Vput then Some (PUT body) else None)"

fun join_segments :: "string list \<Rightarrow> string" where
  "join_segments [] = []"
| "join_segments [s] = s"
| "join_segments (s # t # ts) = s @ ''/'' @ join_segments (t # ts)"

definition yocto_target :: "string list \<Rightarrow> target option" where
  "yocto_target segs =
     (case segs of
        a # project # rest \<Rightarrow>
          if project = [] then None
          else if a = ''sstate'' then
            (if join_segments rest = [] then None else Some (SstateUrl project (join_segments rest)))
          else if a = ''downloads'' then
            (case rest of [name] \<Rightarrow> if name = [] then None else Some (DownloadsUrl project name) | _ \<Rightarrow> None)
          else None
      | _ \<Rightarrow> None)"

text \<open>\<open>public::router\<close> and the composition in \<open>build_app\<close>\<close>

definition public_route :: "probe_env \<Rightarrow> verb \<Rightarrow> string list \<Rightarrow> request option" where
  "public_route pe v segs =
     (if \<not> reads v then None
      else if segs = [''healthz''] then Some Healthz
      else if segs = [''readyz''] then Some (Readyz pe)
      else if segs = [''metrics''] then Some Scrape
      else None)"

record message =
  ms_verb :: verb
  ms_path :: "string list"
  ms_query :: string
  ms_headers :: "(string \<times> string) list"
  ms_body :: "(io_error + bytes) list"

definition route :: "extractors \<Rightarrow> probe_env \<Rightarrow> message \<Rightarrow> request option" where
  "route ex pe m =
     first_match
       [public_route pe (ms_verb m) (ms_path m),
        Option.bind (yocto_target (ms_path m)) (\<lambda>t.
        Option.bind (yocto_method (ms_verb m) (ms_body m)) (\<lambda>meth.
        Some (Cache meth t (ms_headers m)))),
        (if take 3 (ms_path m) = [''api'', ''v1'', ''admin''] \<and> stream_ok (ms_body m)
         then map_option (\<lambda>r. Admin r (ms_headers m))
                (admin_route ex (ms_verb m) (drop 3 (ms_path m)) (ms_query m) (stream_bytes (ms_body m)))
         else None)]"

section \<open>The body limit\<close>

text \<open>
  \<open>RequestBodyLimitLayer\<close> (tower-http) stands before the router. It is a parameter: either it answers by
  itself, with 413 where the announced length is over the limit, or it passes a body on that breaks off
  at the limit. \<open>upload_max_bytes as usize\<close> is exact on a 64-bit target. \<open>other\<close> is what axum and the
  middlewares make of a message no route takes.
\<close>

type_synonym body_limit = "nat \<Rightarrow> message \<Rightarrow> response + (io_error + bytes) list"

definition limit_ok :: "body_limit \<Rightarrow> bool" where
  "limit_ok layer \<longleftrightarrow>
     (\<forall>n m. case layer n m of
        Inl r \<Rightarrow> rs_status r = 413
      | Inr body \<Rightarrow> stream_ok body \<longrightarrow>
          stream_ok (ms_body m) \<and> stream_bytes body = stream_bytes (ms_body m) \<and> length (stream_bytes body) \<le> n)"

definition upload_limit :: "server \<Rightarrow> nat" where
  "upload_limit sv = unat (upload_max_bytes (cfg_server (sv_config sv)))"

definition app_answer ::
  "body_limit \<Rightarrow> server \<Rightarrow> req_env \<Rightarrow> extractors \<Rightarrow> probe_env \<Rightarrow>
   (message \<Rightarrow> app \<Rightarrow> response option \<times> app) \<Rightarrow> message \<Rightarrow> app \<Rightarrow> response option \<times> app" where
  "app_answer layer sv rq ex pe other m s =
     (case layer (upload_limit sv) m of
        Inl r \<Rightarrow> (Some r, s)
      | Inr body \<Rightarrow>
          (let m' = m\<lparr>ms_body := body\<rparr> in
           case route ex pe m' of
             Some req \<Rightarrow> serve_request sv rq req s
           | None \<Rightarrow> other m' s))"

end
