(* ===== verification/Routes_Properties.thy ===== *)
theory Routes_Properties
  imports Routes Push_Properties Cache_Spec
begin

text \<open>
  The route tables: every handler of the admin API is reached by its own message and by nothing
  else, and what the client's paths come to under the tables of the cache routes.
\<close>

section \<open>Numbers\<close>

lemma digits_value_snoc: "digits_value acc (cs @ [c]) = 10 * digits_value acc cs + (of_char c - 48)"
  by (induction cs arbitrary: acc) simp_all

lemma digit_char: "k < 10 \<Longrightarrow> is_digit (char_of (48 + k)) \<and> of_char (char_of (48 + k) :: char) - (48 :: nat) = k"
  by (simp add: is_digit_def of_char_of)

lemma dec_nat_digits: "list_all is_digit (dec_nat n) \<and> dec_nat n \<noteq> [] \<and> digits_value 0 (dec_nat n) = n"
proof (induction n rule: dec_nat.induct)
  case (1 n)
  show ?case
  proof (cases "n < 10")
    case True
    then have "dec_nat n = [char_of (48 + n)]" by (subst dec_nat.simps) simp
    then show ?thesis using digit_char [OF True] by simp
  next
    case False
    then have step: "dec_nat n = dec_nat (n div 10) @ [char_of (48 + n mod 10)]" by (subst dec_nat.simps) simp
    have "n mod 10 < 10" "10 * (n div 10) + n mod 10 = n" by simp_all
    then show ?thesis using 1 [OF False] digit_char [of "n mod 10"] by (simp add: step digits_value_snoc)
  qed
qed

lemma parse_digits_dec_nat [simp]: "parse_digits (dec_nat n) = Some n"
  using dec_nat_digits [of n] by (simp add: parse_digits_def)

lemma dec_nat_head:
  obtains c cs where "dec_nat n = c # cs" and "is_digit c"
  using dec_nat_digits [of n] by (cases "dec_nat n") auto

lemma parse_i64_dec_int [simp]: "in_i64 i \<Longrightarrow> parse_i64 (dec_int i) = Some i"
proof (rule dec_nat_head [of "nat i"])
  fix c cs
  assume i: "in_i64 i" and "dec_nat (nat i) = c # cs" and "is_digit c"
  moreover have "c \<noteq> CHR ''-''" "c \<noteq> CHR ''+''" using \<open>is_digit c\<close> by (auto simp: is_digit_def)
  ultimately show ?thesis
    using parse_digits_dec_nat [of "nat i"] by (simp add: parse_i64_def dec_int_def)
qed

section \<open>The message of a request\<close>

fun admin_address :: "admin_request \<Rightarrow> verb \<times> string list" where
  "admin_address (CreateProject name q t) = (Vpost, [''projects''])"
| "admin_address ListProjects = (Vget, [''projects''])"
| "admin_address (GetProject i) = (Vget, [''projects'', dec_int i])"
| "admin_address (UpdateProject i name q t) = (Vpatch, [''projects'', dec_int i])"
| "admin_address (DeleteProject i) = (Vdelete, [''projects'', dec_int i])"
| "admin_address (CreateKey i r label) = (Vpost, [''projects'', dec_int i, ''keys''])"
| "admin_address (ListKeys i) = (Vget, [''projects'', dec_int i, ''keys''])"
| "admin_address (RevokeKey i kid) = (Vdelete, [''projects'', dec_int i, ''keys'', dec_int kid])"
| "admin_address (CreateToken label) = (Vpost, [''tokens''])"
| "admin_address ListTokens = (Vget, [''tokens''])"
| "admin_address (RevokeToken i) = (Vdelete, [''tokens'', dec_int i])"
| "admin_address (ListEntries i q) = (Vget, [''projects'', dec_int i, ''entries''])"
| "admin_address (GetEntry i eid) = (Vget, [''projects'', dec_int i, ''entries'', dec_int eid])"
| "admin_address (DeleteEntry i eid) = (Vdelete, [''projects'', dec_int i, ''entries'', dec_int eid])"
| "admin_address (PinEntry i eid) = (Vpost, [''projects'', dec_int i, ''entries'', dec_int eid, ''pin''])"
| "admin_address (UnpinEntry i eid) = (Vdelete, [''projects'', dec_int i, ''entries'', dec_int eid, ''pin''])"
| "admin_address (RunGc d) = (Vpost, [''gc'', ''run''])"
| "admin_address (OrphanScan d) = (Vpost, [''gc'', ''orphan-scan''])"
| "admin_address GlobalStats = (Vget, [''stats''])"
| "admin_address (ProjectStats i) = (Vget, [''stats'', ''projects'', dec_int i])"
| "admin_address (ReadAudit since limit) = (Vget, [''audit''])"

text \<open>The JSON body of a request; a field to be left alone is absent.\<close>

definition absent_or :: "string \<Rightarrow> jv option \<Rightarrow> (string \<times> jv) list" where
  "absent_or name v = (case v of None \<Rightarrow> [] | Some x \<Rightarrow> [(name, x)])"

fun admin_json :: "admin_request \<Rightarrow> jv" where
  "admin_json (CreateProject name q t) =
     VObj ([(''name'', VStr name)] @ absent_or ''quota_bytes'' (map_option VInt q) @
       absent_or ''ttl_seconds'' (map_option VInt t))"
| "admin_json (UpdateProject i name q t) =
     VObj (absent_or ''name'' (map_option VStr name) @ absent_or ''quota_bytes'' (map_option (opt_jv VInt) q) @
       absent_or ''ttl_seconds'' (map_option (opt_jv VInt) t))"
| "admin_json (CreateKey i r label) =
     VObj ([(''role'', VStr (role_as_str r))] @ absent_or ''label'' (map_option VStr label))"
| "admin_json (CreateToken label) = VObj (absent_or ''label'' (map_option VStr label))"
| "admin_json _ = VNull"

text \<open>The numbers fit, and the extractors read the payload as it was meant.\<close>

definition opt_i64 :: "int option \<Rightarrow> bool" where
  "opt_i64 x \<longleftrightarrow> (case x of None \<Rightarrow> True | Some i \<Rightarrow> in_i64 i)"

fun sendable :: "extractors \<Rightarrow> string \<Rightarrow> bytes \<Rightarrow> admin_request \<Rightarrow> bool" where
  "sendable ex qs body (CreateProject name q t) =
     (opt_i64 q \<and> opt_i64 t \<and> ex_json ex body = Some (admin_json (CreateProject name q t)))"
| "sendable ex qs body (GetProject i) = in_i64 i"
| "sendable ex qs body (UpdateProject i name q t) =
     (in_i64 i \<and> opt_i64 (Option.bind q (\<lambda>x. x)) \<and> opt_i64 (Option.bind t (\<lambda>x. x)) \<and>
      ex_json ex body = Some (admin_json (UpdateProject i name q t)))"
| "sendable ex qs body (DeleteProject i) = in_i64 i"
| "sendable ex qs body (CreateKey i r label) =
     (in_i64 i \<and> ex_json ex body = Some (admin_json (CreateKey i r label)))"
| "sendable ex qs body (ListKeys i) = in_i64 i"
| "sendable ex qs body (RevokeKey i kid) = (in_i64 i \<and> in_i64 kid)"
| "sendable ex qs body (CreateToken label) = (ex_json ex body = Some (admin_json (CreateToken label)))"
| "sendable ex qs body (RevokeToken i) = in_i64 i"
| "sendable ex qs body (ListEntries i q) = (in_i64 i \<and> ex_list_query ex qs = Some q)"
| "sendable ex qs body (GetEntry i eid) = (in_i64 i \<and> in_i64 eid)"
| "sendable ex qs body (DeleteEntry i eid) = (in_i64 i \<and> in_i64 eid)"
| "sendable ex qs body (PinEntry i eid) = (in_i64 i \<and> in_i64 eid)"
| "sendable ex qs body (UnpinEntry i eid) = (in_i64 i \<and> in_i64 eid)"
| "sendable ex qs body (RunGc d) = (ex_dry_run ex qs = Some d)"
| "sendable ex qs body (OrphanScan d) = (ex_dry_run ex qs = Some d)"
| "sendable ex qs body (ProjectStats i) = in_i64 i"
| "sendable ex qs body (ReadAudit since limit) = (ex_audit_query ex qs = Some (since, limit))"
| "sendable ex qs body _ = True"

section \<open>Bodies\<close>

lemma option_field_simps [simp]:
  "option_field p None = Some None" "option_field p (Some VNull) = Some None"
  "option_field json_i64 (Some (VInt i)) = (if in_i64 i then Some (Some i) else None)"
  "option_field json_str (Some (VStr s)) = Some (Some s)"
  by (simp_all add: option_field_def)

lemmas body_defs = json_struct_def json_field_def absent_or_def double_option_def opt_jv_def opt_i64_def

lemma create_project_body_json:
  "opt_i64 q \<Longrightarrow> opt_i64 t \<Longrightarrow>
   create_project_body (admin_json (CreateProject name q t)) = Some (CreateProject name q t)"
  by (cases q; cases t) (simp_all add: create_project_body_def body_defs)

lemma double_option_simps [simp]:
  "double_option json_i64 None = Some None"
  "opt_i64 x \<Longrightarrow> double_option json_i64 (Some (opt_jv VInt x)) = Some (Some x)"
  by (cases x; simp add: double_option_def opt_jv_def opt_i64_def)+

lemma absent_or_simps [simp]: "absent_or name None = []" "absent_or name (Some v) = [(name, v)]"
  by (simp_all add: absent_or_def)

lemma update_project_body_json:
  assumes "opt_i64 (Option.bind q (\<lambda>x. x))" and "opt_i64 (Option.bind t (\<lambda>x. x))"
  shows "update_project_body i (admin_json (UpdateProject i name q t)) = Some (UpdateProject i name q t)"
  using assms
  by (cases name; cases q; cases t) (simp_all add: update_project_body_def json_struct_def json_field_def)

lemma create_key_body_json: "create_key_body i (admin_json (CreateKey i r label)) = Some (CreateKey i r label)"
  by (cases label) (simp_all add: create_key_body_def body_defs role_from_as_str)

lemma create_token_body_json: "create_token_body (admin_json (CreateToken label)) = Some (CreateToken label)"
  by (cases label) (simp_all add: create_token_body_def body_defs)

section \<open>Tables\<close>

lemmas route_defs = projects_route_def keys_route_def tokens_route_def entries_route_def gc_route_def
  stats_route_def reads_def

text \<open>No two tables of the admin API match the same message.\<close>

lemma routes_disjoint:
  "length (filter (\<lambda>r. r \<noteq> None)
     [projects_route ex v segs body, keys_route ex v segs body, tokens_route ex v segs body,
      entries_route ex v segs qs, gc_route ex v segs qs, stats_route ex v segs qs]) \<le> 1"
proof -
  consider (a) "segs = []" | (b) a where "segs = [a]" | (c) a b where "segs = [a, b]"
    | (d) a b c where "segs = [a, b, c]" | (e) a b c d where "segs = [a, b, c, d]"
    | (f) a b c d e where "segs = [a, b, c, d, e]" | (g) a b c d e f rest where "segs = a # b # c # d # e # f # rest"
    by (metis list.exhaust)
  then show ?thesis
    by cases (auto simp: route_defs)
qed

section \<open>Properties\<close>

text \<open>
  C39 The tables and the payloads fit together (round trip): the message of every request of the admin API,
  its numbers in decimal and its fields in JSON, is routed to the handler of that request with just
  those arguments, absent and \<open>null\<close> fields kept apart.
\<close>

theorem every_handler_is_routed:
  assumes "sendable ex qs body r"
  shows "admin_route ex (fst (admin_address r)) (snd (admin_address r)) qs body = Some r"
  using assms
  by (cases r)
     (simp_all add: admin_route_def route_defs create_project_body_json update_project_body_json
       create_key_body_json create_token_body_json del: admin_json.simps)

theorem every_handler_is_routed_witness:
  "admin_route \<lparr>ex_json = (\<lambda>_. Some (admin_json (UpdateProject 7 None (Some None) None))),
     ex_list_query = (\<lambda>_. None), ex_dry_run = (\<lambda>_. None), ex_audit_query = (\<lambda>_. None)\<rparr>
     Vpatch [''projects'', dec_int 7] [] [] = Some (UpdateProject 7 None (Some None) None)"
  using every_handler_is_routed [of "\<lparr>ex_json = (\<lambda>_. Some (admin_json (UpdateProject 7 None (Some None) None))),
     ex_list_query = (\<lambda>_. None), ex_dry_run = (\<lambda>_. None), ex_audit_query = (\<lambda>_. None)\<rparr>" "[]" "[]"
     "UpdateProject 7 None (Some None) None"]
  by (simp add: in_i64_def opt_i64_def i64_min_def i64_max_def)

section \<open>The client's paths\<close>

text \<open>Different files get different keys: joining names without a slash is injective.\<close>

lemma split_at_char:
  assumes "c \<notin> set a" and "c \<notin> set b" and "a @ c # xs = b @ c # ys"
  shows "a = b \<and> xs = ys"
proof -
  have "takeWhile (\<lambda>x. x \<noteq> c) (a @ c # xs) = a" "takeWhile (\<lambda>x. x \<noteq> c) (b @ c # ys) = b"
    using assms(1,2) by (auto simp: takeWhile_append)
  then show ?thesis using assms(3) by auto
qed

definition plain_name :: "string \<Rightarrow> bool" where
  "plain_name n \<longleftrightarrow> n \<noteq> [] \<and> CHR ''/'' \<notin> set n"

lemma plain_name_slash: "plain_name n \<Longrightarrow> CHR ''/'' \<notin> set n"
  by (simp add: plain_name_def)

lemma join_segments_cases:
  "join_segments (s # ts) = (if ts = [] then s else s @ CHR ''/'' # join_segments ts)"
  by (cases ts) simp_all

lemma join_segments_inj:
  assumes "list_all plain_name p" and "list_all plain_name q" and "join_segments p = join_segments q"
  shows "p = q"
  using assms
proof (induction p arbitrary: q)
  case Nil
  then show ?case by (cases q) (auto simp: join_segments_cases plain_name_def split: if_splits)
next
  case (Cons a p)
  obtain b r where q: "q = b # r"
    using Cons.prems by (cases q) (auto simp: join_segments_cases plain_name_def split: if_splits)
  have ab: "CHR ''/'' \<notin> set a" "CHR ''/'' \<notin> set b" "list_all plain_name p" "list_all plain_name r"
    using Cons.prems q by (auto dest: plain_name_slash)
  have eq: "join_segments (a # p) = join_segments (b # r)" using Cons.prems q by simp
  show ?case
  proof (cases "p = [] \<or> r = []")
    case True
    then have "p = [] \<and> r = []" using eq ab by (auto simp: join_segments_cases split: if_splits)
    then show ?thesis using eq q by simp
  next
    case False
    then have "a @ CHR ''/'' # join_segments p = b @ CHR ''/'' # join_segments r"
      using eq by (simp add: join_segments_cases)
    from split_at_char [OF ab(1,2) this] Cons.IH [OF ab(3,4)] show ?thesis using q by simp
  qed
qed

lemma sstate_target:
  assumes "project \<noteq> []" and "rel \<noteq> []" and "list_all plain_name rel"
  shows "yocto_target (''sstate'' # project # rel) = Some (SstateUrl project (join_segments rel))"
proof -
  have "join_segments rel \<noteq> []" using assms by (cases rel) (auto simp: join_segments_cases plain_name_def)
  then show ?thesis using assms by (simp add: yocto_target_def)
qed

lemma nested_download_target: "length rel \<noteq> 1 \<Longrightarrow> yocto_target (''downloads'' # project # rel) = None"
  by (cases rel; cases "tl rel") (auto simp: yocto_target_def split: list.splits)

text \<open>
  C37 Files in subdirectories cannot be pushed as downloads (error): the walk finds them, but the route
  takes a single segment, so axum refuses the \<open>HEAD\<close> and, where that was a 404, the \<open>PUT\<close>. The push of
  the file fails, after at most two requests, and the server's state is what it was.
\<close>

theorem nested_download_is_never_pushed:
  assumes "segments url = ''downloads'' # project # rel" and "length rel \<noteq> 1" and "files p = Inr content"
    and "400 \<le> cp_status other" and "cp_status other < 500"
  shows "\<exists>e n'. n' \<le> n + 2 \<and>
    push_one status_text digest (server_net sv rqf other (\<lambda>u. yocto_target (segments u)) files) url p auth False (s, n) =
      (Inl e, (s, n'))"
proof -
  have none: "yocto_target (segments url) = None"
    using assms(1) nested_download_target [OF assms(2)] by simp
  have "\<not> is_success (cp_status other)" "cp_status other \<notin> set RETRYABLE_STATUSES" "cp_status other \<noteq> 304"
    "cp_status other \<noteq> 200"
    using assms(4,5) by (auto simp: is_success_def RETRYABLE_STATUSES_def)
  then show ?thesis
    using none assms(3)
    by (cases "cp_status other = 404")
       (auto simp: push_one_def sha256_file_def server_net_def head_decision_def put_loop.simps Let_def)
qed

theorem nested_download_is_never_pushed_witness:
  "\<exists>e n'. n' \<le> 2 \<and>
    push_one (\<lambda>_. []) (cr_sha256 plain_crypto)
      (server_net plain_server (\<lambda>_. sample_req) unrouted
        (\<lambda>u. yocto_target ((\<lambda>_. [''downloads'', ''acme'', ''git2'', ''repo.tar'']) u)) (\<lambda>_. Inr [69, 69, 69, 69]))
      ''u'' [] ''Basic acme:s3cret'' False (fresh_app, 0) = (Inl e, (fresh_app, n'))"
  using nested_download_is_never_pushed [where segments = "\<lambda>_. [''downloads'', ''acme'', ''git2'', ''repo.tar'']"
      and url = "''u''" and project = "''acme''" and rel = "[''git2'', ''repo.tar'']" and p = "[]"
      and files = "\<lambda>_. Inr [69, 69, 69, 69]" and content = "[69, 69, 69, 69]" and other = unrouted and n = 0
      and status_text = "\<lambda>_. []" and digest = "cr_sha256 plain_crypto" and sv = plain_server
      and rqf = "\<lambda>_. sample_req" and auth = "''Basic acme:s3cret''" and s = fresh_app]
  by (simp add: unrouted_def numeral_2_eq_2)

section \<open>The body limit\<close>

lemma route_put:
  assumes "yocto_target (ms_path m) = Some t" and "ms_verb m = Vput"
  shows "route ex pe m = Some (Cache (PUT (ms_body m)) t (ms_headers m))"
  using assms by (simp add: route_def public_route_def reads_def yocto_method_def)

text \<open>An upload whose body breaks off changes nothing, whoever sent it.\<close>

lemma broken_put:
  assumes "\<not> stream_ok body"
  shows "sys_db (ap_sys (snd (serve_request sv rq (Cache (PUT body) t headers) s))) = sys_db (ap_sys s) \<and>
    (\<forall>x. blob_file (sv_root sv) x (sys_fs (ap_sys (snd (serve_request sv rq (Cache (PUT body) t headers) s)))) =
      blob_file (sv_root sv) x (sys_fs (ap_sys s)))"
proof (cases "project_accepts sv rq headers s")
  case None
  then show ?thesis using project_gate.refused [OF None] by (simp add: serve_request_def yocto_router_def)
next
  case (Some q)
  obtain a s1 where acc: "project_accepts sv rq headers s = Some (a, s1)" using Some by (cases q) simp
  note same = project_gate.same [OF acc]
  have run: "serve_request sv rq (Cache (PUT body) t headers) s =
      render sv (do_put sv rq a (target_kind t) (target_project t) (target_path t) body) s1"
    using project_gate.accepted [OF acc] by (simp add: serve_request_def yocto_router_def yocto_handler_put)
  show ?thesis
  proof (cases rule: put_store_cases [of sv rq a "target_project t" body s1])
    case (refused reason)
    then show ?thesis using run same by (simp add: do_put_def render_def)
  next
    case (stored r f)
    obtain e f' where w: "write_streamed (cr_sha256 (sv_crypto sv)) (rq_uuid rq) (rq_rename_fault rq) (sv_root sv) body
        (sys_fs (ap_sys s1)) = (Err (Io e), f')"
      and blobs: "\<forall>x. blob_file (sv_root sv) x f' = blob_file (sv_root sv) x (sys_fs (ap_sys s1))"
      using write_streamed_broken [OF assms] by blast
    have "put_store sv rq a (target_project t) body s1 = (Err (Io e), s1\<lparr>ap_sys := (ap_sys s1)\<lparr>sys_fs := f'\<rparr>\<rparr>)"
      using stored(1,2) w by simp
    then show ?thesis using blobs run same by (simp add: do_put_def render_def)
  qed
qed

lemma limit_okD:
  assumes "limit_ok layer"
  shows "layer n m = Inl r \<Longrightarrow> rs_status r = 413"
    and "layer n m = Inr body \<Longrightarrow> stream_ok body \<Longrightarrow>
      stream_ok (ms_body m) \<and> stream_bytes body = stream_bytes (ms_body m) \<and> length (stream_bytes body) \<le> n"
proof -
  have "case layer n m of
        Inl r \<Rightarrow> rs_status r = 413
      | Inr body \<Rightarrow> stream_ok body \<longrightarrow>
          stream_ok (ms_body m) \<and> stream_bytes body = stream_bytes (ms_body m) \<and> length (stream_bytes body) \<le> n"
    using assms unfolding limit_ok_def by blast
  then show "layer n m = Inl r \<Longrightarrow> rs_status r = 413"
    and "layer n m = Inr body \<Longrightarrow> stream_ok body \<Longrightarrow>
      stream_ok (ms_body m) \<and> stream_bytes body = stream_bytes (ms_body m) \<and> length (stream_bytes body) \<le> n"
    by auto
qed

text \<open>
  C38 Uploads are bounded (bounds): through the body limit, an upload that is acknowledged has at most
  \<open>upload_max_bytes\<close> bytes and is registered whole; a longer one is refused and changes neither a row nor a blob.
\<close>

theorem uploads_are_bounded:
  assumes "limit_ok layer" and "sound sv s" and "yocto_target (ms_path m) = Some t" and "ms_verb m = Vput"
    and "app_answer layer sv rq ex pe other m s = (Some r, s')"
  shows "(rs_status r = 201 \<longrightarrow> length (stream_bytes (ms_body m)) \<le> upload_limit sv \<and>
      (\<exists>i. served (sys_db (ap_sys s')) (i, target_kind t, target_path t) = Some (cr_sha256 (sv_crypto sv) (stream_bytes (ms_body m))))) \<and>
    (upload_limit sv < length (stream_bytes (ms_body m)) \<longrightarrow> sys_db (ap_sys s') = sys_db (ap_sys s) \<and>
      (\<forall>x. blob_file (sv_root sv) x (sys_fs (ap_sys s')) = blob_file (sv_root sv) x (sys_fs (ap_sys s))))"
proof (cases "layer (upload_limit sv) m")
  case (Inl answer)
  then have "rs_status answer = 413" using limit_okD(1) [OF assms(1)] by blast
  then show ?thesis using Inl assms(5) by (auto simp: app_answer_def)
next
  case (Inr body)
  have whole: "stream_ok body \<Longrightarrow> stream_bytes body = stream_bytes (ms_body m) \<and>
      length (stream_bytes body) \<le> upload_limit sv"
    using limit_okD(2) [OF assms(1) Inr] by auto
  have "route ex pe (m\<lparr>ms_body := body\<rparr>) = Some (Cache (PUT body) t (ms_headers m))"
    using route_put [of "m\<lparr>ms_body := body\<rparr>" t ex pe] assms(3,4) by simp
  then have run: "serve_request sv rq (Cache (PUT body) t (ms_headers m)) s = (Some r, s')"
    using assms(5) Inr by (simp add: app_answer_def)
  have "length (stream_bytes (ms_body m)) \<le> upload_limit sv \<and>
      (\<exists>i. served (sys_db (ap_sys s')) (i, target_kind t, target_path t) = Some (cr_sha256 (sv_crypto sv) (stream_bytes (ms_body m))))"
    if "rs_status r = 201"
    using put_201 [OF assms(2) run that] whole by auto
  moreover have "sys_db (ap_sys s') = sys_db (ap_sys s) \<and>
      (\<forall>x. blob_file (sv_root sv) x (sys_fs (ap_sys s')) = blob_file (sv_root sv) x (sys_fs (ap_sys s)))"
    if "upload_limit sv < length (stream_bytes (ms_body m))"
  proof -
    have "\<not> stream_ok body" using whole that by auto
    from broken_put [OF this, of sv rq t "ms_headers m" s] run show ?thesis by simp
  qed
  ultimately show ?thesis by blast
qed

text \<open>A limit that cuts the body off.\<close>

definition cut_off :: body_limit where
  "cut_off n m =
     Inr (if length (stream_bytes (ms_body m)) \<le> n then ms_body m else [Inl (IoError IoOther ''length limit exceeded'')])"

lemma cut_off_ok: "limit_ok cut_off"
  by (auto simp: limit_ok_def cut_off_def stream_ok_def)

definition sample_put :: message where
  "sample_put =
     \<lparr>ms_verb = Vput, ms_path = [''sstate'', ''acme'', ''e''], ms_query = [], ms_headers = sample_headers,
      ms_body = sample_body\<rparr>"

definition sample_extractors :: extractors where
  "sample_extractors =
     \<lparr>ex_json = (\<lambda>_. None), ex_list_query = (\<lambda>_. None), ex_dry_run = (\<lambda>_. None), ex_audit_query = (\<lambda>_. None)\<rparr>"

definition sample_probe :: probe_env where
  "sample_probe = \<lparr>pr_db_up = True, pr_write_fault = None, pr_remove_fault = None\<rparr>"

theorem uploads_are_bounded_witness:
  "\<exists>r s' i. app_answer cut_off (sample_server 1000) sample_req sample_extractors sample_probe (\<lambda>_ s. (None, s)) sample_put fresh_app = (Some r, s') \<and>
     rs_status r = 201 \<and> served (sys_db (ap_sys s')) (i, Sstate, ''e'') = Some ''EEEE''"
proof (rule fresh_put)
  fix r s'
  assume run: "serve_request (sample_server 1000) sample_req sample_upload fresh_app = (Some r, s')" and ok: "rs_status r = 201"
  have target: "yocto_target (ms_path sample_put) = Some (SstateUrl ''acme'' ''e'')"
    by (simp add: sample_put_def yocto_target_def)
  have body: "ms_body sample_put = sample_body" "stream_bytes sample_body = [69, 69, 69, 69]"
    by (simp_all add: sample_put_def sample_body_def stream_bytes_def)
  have limit: "upload_limit (sample_server 1000) = 1000"
    by (simp add: upload_limit_def sample_server_def sample_config_def)
  have answer: "app_answer cut_off (sample_server 1000) sample_req sample_extractors sample_probe (\<lambda>_ s. (None, s)) sample_put fresh_app = (Some r, s')"
    using run route_put [of sample_put "SstateUrl ''acme'' ''e''" sample_extractors sample_probe] target
    by (simp add: app_answer_def cut_off_def body limit sample_put_def sample_upload_def)
  have verb: "ms_verb sample_put = Vput" by (simp add: sample_put_def)
  have digest: "cr_sha256 (sv_crypto (sample_server 1000)) [69, 69, 69, 69] = ''EEEE''" by simp
  from uploads_are_bounded [OF cut_off_ok fresh_sound target verb answer] ok
  obtain i where "served (sys_db (ap_sys s')) (i, Sstate, ''e'') = Some ''EEEE''"
    unfolding body digest by auto
  with ok answer show ?thesis by blast
qed

end
