(* ===== verification/Db_Rows.thy ===== *)
theory Db_Rows
  imports Db_Schema
begin

text \<open>
  How \<open>sqlx\<close> rows become the structs of \<open>models.rs\<close> (the \<open>FromRow\<close> implementations of the
  repositories). A raw row gives a cell for every column of its \<open>SELECT\<close>; \<open>try_get\<close> refuses a cell
  that is not of the type asked for with a \<open>ColumnDecode\<close> whose text is the parameter \<open>mismatch\<close>.
\<close>

section \<open>Cells\<close>

datatype cell = CNull | CInteger int | CText string

type_synonym raw_row = "string \<Rightarrow> cell"

definition try_get :: "(cell \<Rightarrow> 'a option) \<Rightarrow> string \<Rightarrow> string \<Rightarrow> raw_row \<Rightarrow> sqlx_error + 'a" where
  "try_get decode mismatch col row =
     (case decode (row col) of None \<Rightarrow> Inl (ColumnDecode col mismatch) | Some v \<Rightarrow> Inr v)"

fun as_int :: "cell \<Rightarrow> int option" where
  "as_int (CInteger i) = Some i"
| "as_int _ = None"

fun as_text :: "cell \<Rightarrow> string option" where
  "as_text (CText s) = Some s"
| "as_text _ = None"

definition nullable :: "(cell \<Rightarrow> 'a option) \<Rightarrow> cell \<Rightarrow> 'a option option" where
  "nullable decode c = (if c = CNull then Some None else map_option Some (decode c))"

definition and_then :: "sqlx_error + 'a \<Rightarrow> ('a \<Rightarrow> sqlx_error + 'b) \<Rightarrow> sqlx_error + 'b" where
  "and_then r f = (case r of Inl e \<Rightarrow> Inl e | Inr v \<Rightarrow> f v)"

lemma and_then_simps [simp]: "and_then (Inr v) f = f v" "and_then (Inl e) f = Inl e"
  by (simp_all add: and_then_def)

section \<open>Rows\<close>

text \<open>\<open>map_err(|e| ColumnDecode { .. e.to_string() .. })\<close> on \<open>Kind::from_str\<close> and \<open>Role::from_str\<close>\<close>

definition parse_column ::
  "(core_error \<Rightarrow> string) \<Rightarrow> string \<Rightarrow> 'a outcome \<Rightarrow> sqlx_error + 'a" where
  "parse_column display col r =
     (case r of Ok v \<Rightarrow> Inr v | Err e \<Rightarrow> Inl (ColumnDecode col (display e)) | Panic \<Rightarrow> Inl (ColumnDecode col []))"

definition project_from_row :: "string \<Rightarrow> raw_row \<Rightarrow> sqlx_error + project" where
  "project_from_row m row =
     and_then (try_get as_int m ''id'' row) (\<lambda>i.
     and_then (try_get as_text m ''name'' row) (\<lambda>name.
     and_then (try_get (nullable as_int) m ''quota_bytes'' row) (\<lambda>quota.
     and_then (try_get (nullable as_int) m ''ttl_seconds'' row) (\<lambda>ttl.
     and_then (try_get as_int m ''created_at'' row) (\<lambda>created.
     Inr \<lparr>p_id = i, p_name = name, p_quota_bytes = quota, p_ttl_seconds = ttl, p_created_at = created\<rparr>)))))"

definition blob_from_row :: "string \<Rightarrow> raw_row \<Rightarrow> sqlx_error + blob" where
  "blob_from_row m row =
     and_then (try_get as_text m ''hash'' row) (\<lambda>h.
     and_then (try_get as_int m ''size_bytes'' row) (\<lambda>size_bytes.
     and_then (try_get as_int m ''refcount'' row) (\<lambda>refcount.
     and_then (try_get as_int m ''created_at'' row) (\<lambda>created.
     Inr \<lparr>b_hash = h, b_size_bytes = size_bytes, b_refcount = refcount, b_created_at = created\<rparr>))))"

definition admin_token_from_row :: "string \<Rightarrow> raw_row \<Rightarrow> sqlx_error + admin_token" where
  "admin_token_from_row m row =
     and_then (try_get as_int m ''id'' row) (\<lambda>i.
     and_then (try_get as_text m ''token_lookup'' row) (\<lambda>lookup.
     and_then (try_get as_text m ''token_hash'' row) (\<lambda>h.
     and_then (try_get (nullable as_text) m ''label'' row) (\<lambda>label.
     and_then (try_get as_int m ''created_at'' row) (\<lambda>created.
     and_then (try_get (nullable as_int) m ''revoked_at'' row) (\<lambda>revoked.
     Inr \<lparr>t_id = i, t_token_lookup = lookup, t_token_hash = h, t_label = label, t_created_at = created,
          t_revoked_at = revoked\<rparr>))))))"

definition api_key_from_row :: "(core_error \<Rightarrow> string) \<Rightarrow> string \<Rightarrow> raw_row \<Rightarrow> sqlx_error + api_key" where
  "api_key_from_row display m row =
     and_then (try_get as_text m ''role'' row) (\<lambda>role_str.
     and_then (parse_column display ''role'' (role_from_str role_str)) (\<lambda>r.
     and_then (try_get as_int m ''id'' row) (\<lambda>i.
     and_then (try_get as_int m ''project_id'' row) (\<lambda>project_id.
     and_then (try_get as_text m ''key_lookup'' row) (\<lambda>lookup.
     and_then (try_get as_text m ''key_hash'' row) (\<lambda>h.
     and_then (try_get (nullable as_text) m ''label'' row) (\<lambda>label.
     and_then (try_get as_int m ''created_at'' row) (\<lambda>created.
     and_then (try_get (nullable as_int) m ''revoked_at'' row) (\<lambda>revoked.
     Inr \<lparr>k_id = i, k_project_id = project_id, k_key_lookup = lookup, k_key_hash = h, k_role = r,
          k_label = label, k_created_at = created, k_revoked_at = revoked\<rparr>)))))))))"

definition entry_from_row :: "(core_error \<Rightarrow> string) \<Rightarrow> string \<Rightarrow> raw_row \<Rightarrow> sqlx_error + entry" where
  "entry_from_row display m row =
     and_then (try_get as_text m ''kind'' row) (\<lambda>kind_str.
     and_then (parse_column display ''kind'' (kind_from_str kind_str)) (\<lambda>kind.
     and_then (try_get as_int m ''pinned'' row) (\<lambda>pinned_i.
     and_then (try_get as_int m ''id'' row) (\<lambda>i.
     and_then (try_get as_int m ''project_id'' row) (\<lambda>project_id.
     and_then (try_get as_text m ''path'' row) (\<lambda>path.
     and_then (try_get as_text m ''blob_hash'' row) (\<lambda>h.
     and_then (try_get as_int m ''size_bytes'' row) (\<lambda>size_bytes.
     and_then (try_get as_int m ''created_at'' row) (\<lambda>created.
     and_then (try_get as_int m ''last_accessed'' row) (\<lambda>accessed.
     Inr \<lparr>e_id = i, e_project_id = project_id, e_kind = kind, e_path = path, e_blob_hash = h,
          e_size_bytes = size_bytes, e_created_at = created, e_last_accessed = accessed,
          e_pinned = (pinned_i \<noteq> 0)\<rparr>))))))))))"

section \<open>What the repositories write\<close>

text \<open>The cells of a row as the statements bind them: \<open>as_str()\<close>, \<open>i64::from(bool)\<close>, options as \<open>NULL\<close>.\<close>

definition opt_cell :: "('a \<Rightarrow> cell) \<Rightarrow> 'a option \<Rightarrow> cell" where
  "opt_cell f x = (case x of None \<Rightarrow> CNull | Some v \<Rightarrow> f v)"

definition cells :: "(string \<times> cell) list \<Rightarrow> raw_row" where
  "cells kvs col = (case map_of kvs col of None \<Rightarrow> CNull | Some c \<Rightarrow> c)"

definition project_cells :: "project \<Rightarrow> raw_row" where
  "project_cells p = cells
     [(''id'', CInteger (p_id p)), (''name'', CText (p_name p)),
      (''quota_bytes'', opt_cell CInteger (p_quota_bytes p)),
      (''ttl_seconds'', opt_cell CInteger (p_ttl_seconds p)), (''created_at'', CInteger (p_created_at p))]"

definition blob_cells :: "blob \<Rightarrow> raw_row" where
  "blob_cells b = cells
     [(''hash'', CText (b_hash b)), (''size_bytes'', CInteger (b_size_bytes b)),
      (''refcount'', CInteger (b_refcount b)), (''created_at'', CInteger (b_created_at b))]"

definition admin_token_cells :: "admin_token \<Rightarrow> raw_row" where
  "admin_token_cells t = cells
     [(''id'', CInteger (t_id t)), (''token_lookup'', CText (t_token_lookup t)),
      (''token_hash'', CText (t_token_hash t)), (''label'', opt_cell CText (t_label t)),
      (''created_at'', CInteger (t_created_at t)), (''revoked_at'', opt_cell CInteger (t_revoked_at t))]"

definition api_key_cells :: "api_key \<Rightarrow> raw_row" where
  "api_key_cells k = cells
     [(''id'', CInteger (k_id k)), (''project_id'', CInteger (k_project_id k)),
      (''key_lookup'', CText (k_key_lookup k)), (''key_hash'', CText (k_key_hash k)),
      (''role'', CText (role_as_str (k_role k))), (''label'', opt_cell CText (k_label k)),
      (''created_at'', CInteger (k_created_at k)), (''revoked_at'', opt_cell CInteger (k_revoked_at k))]"

definition entry_cells :: "entry \<Rightarrow> raw_row" where
  "entry_cells e = cells
     [(''id'', CInteger (e_id e)), (''project_id'', CInteger (e_project_id e)),
      (''kind'', CText (kind_as_str (e_kind e))), (''path'', CText (e_path e)),
      (''blob_hash'', CText (e_blob_hash e)), (''size_bytes'', CInteger (e_size_bytes e)),
      (''created_at'', CInteger (e_created_at e)), (''last_accessed'', CInteger (e_last_accessed e)),
      (''pinned'', CInteger (if e_pinned e then 1 else 0))]"

lemma nullable_opt_cell [simp]:
  "nullable as_int (opt_cell CInteger x) = Some x" "nullable as_text (opt_cell CText y) = Some y"
  by (cases x; cases y; simp add: nullable_def opt_cell_def)+

section \<open>Properties\<close>


text \<open>A \<open>kind\<close> that is neither of the two is an error of that column, and nothing else is read.\<close>

lemma unknown_kind_is_refused:
  assumes "row ''kind'' = CText s" and "s \<noteq> ''sstate''" and "s \<noteq> ''downloads''"
  shows "entry_from_row display m row = Inl (ColumnDecode ''kind'' (display (InvalidInput (''unknown kind: '' @ s))))"
  using assms by (simp add: entry_from_row_def try_get_def parse_column_def kind_from_str_def)

end
