(* ===== verification/Db_Connect.thy ===== *)
theory Db_Connect
  imports Db_Schema Storage Marmotte_Config
begin

text \<open>
  Opening the database (\<open>db/mod.rs\<close>). What lies in a SQLite file is the versions of the migrations
  that were applied to it and the tables. The driver, which opens files and runs the migrations that
  \<open>sqlx::migrate!\<close> embeds (there is one, \<open>0001_init.sql\<close>), is a record of parameters;
  \<open>driver_ok\<close> is what its documentation promises. A \<open>Db\<close> is the handle \<open>db_handle\<close>: the options it
  was opened with and the size of its pool.
\<close>

section \<open>Options\<close>

datatype location = OnDisk path | InMemory

datatype journal_mode = Wal

datatype synchronous = NormalSync

text \<open>\<open>SqliteConnectOptions\<close>: what the code sets, \<open>None\<close> where the library's default stays.\<close>

record connect_options =
  co_location :: location
  co_create_if_missing :: bool
  co_journal_mode :: "journal_mode option"
  co_synchronous :: "synchronous option"
  co_busy_timeout_ms :: "u64 option"
  co_foreign_keys :: "bool option"

record db_handle =
  dh_options :: connect_options
  dh_max_connections :: nat
  dh_acquire_timeout_secs :: nat

section \<open>The driver\<close>

record sqlite_file =
  sf_versions :: "int list"
  sf_db :: db

type_synonym sqlite_files = "location \<Rightarrow> sqlite_file option"

record driver =
  dr_create_dir_all :: "path \<Rightarrow> io_error option"
  dr_connect_with :: "db_handle \<Rightarrow> sqlite_file option \<Rightarrow> sqlx_error + sqlite_file"
  dr_migrate :: "sqlite_file \<Rightarrow> string option \<times> sqlite_file"

definition MIGRATOR :: "int list" where
  "MIGRATOR = [1]"

definition new_file :: sqlite_file where
  "new_file = \<lparr>sf_versions = [], sf_db = db_empty\<rparr>"

text \<open>
  A file that is there is opened as it is; a new one is empty. A successful migration brings the
  versions up to date: on a new file it creates the tables, on a current one it does nothing. Every
  migration runs in a transaction, so that one that fails leaves the file as it was.
\<close>

definition driver_ok :: "driver \<Rightarrow> bool" where
  "driver_ok drv \<longleftrightarrow>
     (\<forall>h f g. dr_connect_with drv h (Some f) = Inr g \<longrightarrow> g = f) \<and>
     (\<forall>h g. dr_connect_with drv h None = Inr g \<longrightarrow> g = new_file) \<and>
     (\<forall>f g. sf_versions f = MIGRATOR \<longrightarrow> dr_migrate drv f = (None, g) \<longrightarrow> g = f) \<and>
     (\<forall>g. dr_migrate drv new_file = (None, g) \<longrightarrow> g = \<lparr>sf_versions = MIGRATOR, sf_db = db_empty\<rparr>) \<and>
     (\<forall>f m g. dr_migrate drv f = (Some m, g) \<longrightarrow> g = f)"

section \<open>\<open>Db\<close>\<close>

text \<open>An in-memory database belongs to its connection: a new one never finds an old one.\<close>

definition existing :: "sqlite_files \<Rightarrow> location \<Rightarrow> sqlite_file option" where
  "existing files loc = (case loc of InMemory \<Rightarrow> None | OnDisk p \<Rightarrow> files loc)"

definition from_options :: "driver \<Rightarrow> connect_options \<Rightarrow> nat \<Rightarrow> (sqlite_files, db_handle) op" where
  "from_options drv opts max_connections = (\<lambda>files.
     let loc = co_location opts;
         pool = \<lparr>dh_options = opts, dh_max_connections = max_connections, dh_acquire_timeout_secs = 60\<rparr>
     in case dr_connect_with drv pool (existing files loc) of
          Inl e \<Rightarrow> (Err (Database e), files)
        | Inr f \<Rightarrow>
            (case dr_migrate drv f of
               (Some m, g) \<Rightarrow> (Err (Migration m), files(loc \<mapsto> g))
             | (None, g) \<Rightarrow> (Ok pool, files(loc \<mapsto> g))))"

text \<open>\<open>Path::parent\<close>: nothing is above the root. \<open>create_dir_all\<close> of the empty path succeeds.\<close>

definition parent :: "path \<Rightarrow> path option" where
  "parent p = (if p = [] then None else Some (butlast p))"

definition create_parent :: "driver \<Rightarrow> path \<Rightarrow> ('s, unit) op" where
  "create_parent drv p =
     (case parent p of
        None \<Rightarrow> ret ()
      | Some dir \<Rightarrow>
          if dir = [] then ret ()
          else (case dr_create_dir_all drv dir of None \<Rightarrow> ret () | Some e \<Rightarrow> fail (Io e)))"

definition disk_options :: "path \<Rightarrow> u64 \<Rightarrow> connect_options" where
  "disk_options p busy =
     \<lparr>co_location = OnDisk p, co_create_if_missing = True, co_journal_mode = Some Wal,
      co_synchronous = Some NormalSync, co_busy_timeout_ms = Some busy, co_foreign_keys = Some True\<rparr>"

text \<open>\<open>path_of\<close> splits a path of the configuration into its components.\<close>

definition db_connect ::
  "driver \<Rightarrow> (string \<Rightarrow> path) \<Rightarrow> database_config \<Rightarrow> (sqlite_files, db_handle) op" where
  "db_connect drv path_of cfg =
     (let p = path_of (db_path cfg) in
      andthen (create_parent drv p) (\<lambda>_. from_options drv (disk_options p (busy_timeout_ms cfg)) 8))"

definition connect_memory :: "driver \<Rightarrow> (sqlite_files, db_handle) op" where
  "connect_memory drv =
     from_options drv
       \<lparr>co_location = InMemory, co_create_if_missing = False, co_journal_mode = None,
        co_synchronous = None, co_busy_timeout_ms = None, co_foreign_keys = Some True\<rparr> 1"

definition migrate_at :: "driver \<Rightarrow> (string \<Rightarrow> path) \<Rightarrow> string \<Rightarrow> (sqlite_files, unit) op" where
  "migrate_at drv path_of p =
     andthen (db_connect drv path_of \<lparr>db_path = p, busy_timeout_ms = 5000\<rparr>) (\<lambda>_. ret ())"

text \<open>\<open>now_unix\<close>: the seconds since the epoch cast to \<open>i64\<close>; 0 where the clock is before the epoch.\<close>

definition now_unix :: "u64 option \<Rightarrow> int" where
  "now_unix since_epoch = (case since_epoch of None \<Rightarrow> 0 | Some secs \<Rightarrow> as_i64 secs)"

section \<open>Lemmas\<close>

text \<open>A file that only this program has written: new, or migrated.\<close>

definition current :: "sqlite_file option \<Rightarrow> bool" where
  "current f = (case f of None \<Rightarrow> True | Some g \<Rightarrow> g = new_file \<or> sf_versions g = MIGRATOR)"

definition rows_of :: "sqlite_file option \<Rightarrow> db" where
  "rows_of f = (case f of None \<Rightarrow> db_empty | Some g \<Rightarrow> sf_db g)"

lemma driver_connected:
  assumes "driver_ok drv" and "dr_connect_with drv h f = Inr g" and "current f"
  shows "(g = new_file \<or> sf_versions g = MIGRATOR) \<and> sf_db g = rows_of f"
proof (cases f)
  case None
  then have "g = new_file" using assms(1,2) by (simp add: driver_ok_def)
  then show ?thesis using None by (simp add: rows_of_def new_file_def)
next
  case (Some f')
  then have "g = f'" using assms(1,2) by (simp add: driver_ok_def)
  then show ?thesis using Some assms(3) by (simp add: rows_of_def current_def)
qed

lemma driver_open:
  assumes "driver_ok drv" and "dr_connect_with drv h f = Inr g" and "dr_migrate drv g = (None, g')"
    and "current f"
  shows "g' = \<lparr>sf_versions = MIGRATOR, sf_db = rows_of f\<rparr>"
proof (cases "g = new_file")
  case True
  then have "g' = \<lparr>sf_versions = MIGRATOR, sf_db = db_empty\<rparr>" using assms(1,3) by (simp add: driver_ok_def)
  moreover have "rows_of f = db_empty"
    using driver_connected [OF assms(1,2,4)] True by (simp add: new_file_def)
  ultimately show ?thesis by simp
next
  case False
  then have v: "sf_versions g = MIGRATOR" and "sf_db g = rows_of f"
    using driver_connected [OF assms(1,2,4)] by simp_all
  moreover have "g' = g" using v assms(1,3) by (simp add: driver_ok_def)
  ultimately show ?thesis by simp
qed

lemma from_options_Ok:
  assumes "driver_ok drv" and "from_options drv opts n files = (Ok h, files')"
    and "current (existing files (co_location opts))"
  shows "dh_options h = opts \<and> dh_max_connections h = n \<and>
    files' = files(co_location opts \<mapsto>
      \<lparr>sf_versions = MIGRATOR, sf_db = rows_of (existing files (co_location opts))\<rparr>)"
proof -
  let ?pool = "\<lparr>dh_options = opts, dh_max_connections = n, dh_acquire_timeout_secs = 60\<rparr>"
  from assms(2) obtain g g' where g: "dr_connect_with drv ?pool (existing files (co_location opts)) = Inr g"
    "dr_migrate drv g = (None, g')" "h = ?pool" "files' = files(co_location opts \<mapsto> g')"
    by (auto simp: from_options_def Let_def split: sum.splits prod.splits option.splits)
  with driver_open [OF assms(1) g(1,2) assms(3)] show ?thesis by simp
qed

lemma create_parent_cases:
  "(create_parent drv p :: ('s, unit) op) = ret () \<or>
   (\<exists>e dir. parent p = Some dir \<and> dr_create_dir_all drv dir = Some e \<and>
      (create_parent drv p :: ('s, unit) op) = fail (Io e))"
  by (simp add: create_parent_def split: option.split)

lemma db_connect_Ok:
  assumes "driver_ok drv" and "db_connect drv path_of cfg files = (Ok h, files')"
    and "current (files (OnDisk (path_of (db_path cfg))))"
  shows "dh_options h = disk_options (path_of (db_path cfg)) (busy_timeout_ms cfg) \<and>
    dh_max_connections h = 8 \<and>
    files' = files(OnDisk (path_of (db_path cfg)) \<mapsto>
      \<lparr>sf_versions = MIGRATOR, sf_db = rows_of (files (OnDisk (path_of (db_path cfg))))\<rparr>)"
proof -
  from assms(2) have
    "from_options drv (disk_options (path_of (db_path cfg)) (busy_timeout_ms cfg)) 8 files = (Ok h, files')"
    using create_parent_cases [where 's = sqlite_files, of drv "path_of (db_path cfg)"]
    by (auto simp: db_connect_def Let_def)
  from from_options_Ok [OF assms(1) this] assms(3) show ?thesis
    by (simp add: disk_options_def existing_def)
qed

text \<open>Whatever becomes of it, an attempt to connect keeps the rows.\<close>

lemma from_options_keeps:
  assumes "driver_ok drv" and "from_options drv opts n files = (r, files')"
    and "current (existing files (co_location opts))"
  shows "files' = files \<or> (\<exists>g. files' = files(co_location opts \<mapsto> g) \<and> current (Some g) \<and>
    sf_db g = rows_of (existing files (co_location opts)))"
proof -
  let ?pool = "\<lparr>dh_options = opts, dh_max_connections = n, dh_acquire_timeout_secs = 60\<rparr>"
  show ?thesis
  proof (cases "dr_connect_with drv ?pool (existing files (co_location opts))")
    case (Inl e)
    then show ?thesis using assms(2) by (simp add: from_options_def Let_def)
  next
    case (Inr g)
    obtain err g' where m: "dr_migrate drv g = (err, g')" by fastforce
    have files': "files' = files(co_location opts \<mapsto> g')"
      using assms(2) Inr m by (cases err) (simp_all add: from_options_def Let_def)
    show ?thesis
    proof (cases err)
      case None
      from driver_open [OF assms(1) Inr m [unfolded None] assms(3)]
      have "current (Some g') \<and> sf_db g' = rows_of (existing files (co_location opts))"
        by (simp add: current_def)
      with files' show ?thesis by blast
    next
      case (Some msg)
      then have "g' = g" using assms(1) m unfolding driver_ok_def by blast
      with driver_connected [OF assms(1) Inr assms(3)]
      have "current (Some g') \<and> sf_db g' = rows_of (existing files (co_location opts))"
        by (simp add: current_def)
      with files' show ?thesis by blast
    qed
  qed
qed

lemma db_connect_keeps:
  assumes "driver_ok drv" and "db_connect drv path_of cfg files = (r, files')"
    and loc: "loc = OnDisk (path_of (db_path cfg))" and "current (files loc)"
  shows "current (files' loc)" and "rows_of (files' loc) = rows_of (files loc)"
    and "loc' \<noteq> loc \<Longrightarrow> files' loc' = files loc'"
proof -
  have "files' = files \<or> (\<exists>g. files' = files(loc \<mapsto> g) \<and> current (Some g) \<and> sf_db g = rows_of (files loc))"
    using create_parent_cases [where 's = sqlite_files, of drv "path_of (db_path cfg)"] assms(2,4) loc
      from_options_keeps [OF assms(1), of "disk_options (path_of (db_path cfg)) (busy_timeout_ms cfg)" 8 files r files']
    by (auto simp: db_connect_def Let_def disk_options_def existing_def)
  then show "current (files' loc)" and "rows_of (files' loc) = rows_of (files loc)"
    and "loc' \<noteq> loc \<Longrightarrow> files' loc' = files loc'"
    using assms(4) by (auto simp: rows_of_def)
qed

end
