(* ===== verification/Startup.thy ===== *)
theory Startup
  imports Server Db_Connect Push "HOL-Library.Sublist"
begin

text \<open>
  The commands \<open>init\<close> and \<open>serve\<close> (\<open>commands/init.rs\<close>, \<open>commands/serve.rs\<close>) on a machine: its SQLite
  files, its other files and what was printed. The configuration is loaded first, by both from the
  same sources; the server that \<open>serve\<close> assembles out of it is the \<open>server\<close> of the other theories
  (\<open>AppState::new\<close>, \<open>AuthSvc::new\<close>, \<open>GcSvc::new\<close>). \<open>lifecycle\<close> is any sequence of the two commands,
  with anything a running server may do in between.
\<close>

section \<open>Commands\<close>

datatype 'a cli_outcome = CliOk 'a | CliErr cli_error | CliPanic

type_synonym ('s, 'a) cli = "'s \<Rightarrow> 'a cli_outcome \<times> 's"

text \<open>\<open>CliError::from\<close> at the \<open>?\<close> of a call into \<open>marmotte-core\<close>, and sequencing.\<close>

definition core_call :: "('s, 'a) op \<Rightarrow> ('s, 'a) cli" where
  "core_call m = (\<lambda>s. case m s of
      (Ok a, s') \<Rightarrow> (CliOk a, s')
    | (Err e, s') \<Rightarrow> (CliErr (CliCore e), s')
    | (Panic, s') \<Rightarrow> (CliPanic, s'))"

definition cli_then :: "('s, 'a) cli \<Rightarrow> ('a \<Rightarrow> ('s, 'b) cli) \<Rightarrow> ('s, 'b) cli" where
  "cli_then m f = (\<lambda>s. case m s of
      (CliOk a, s') \<Rightarrow> f a s'
    | (CliErr e, s') \<Rightarrow> (CliErr e, s')
    | (CliPanic, s') \<Rightarrow> (CliPanic, s'))"

section \<open>The machine\<close>

record host =
  ho_dbs :: sqlite_files
  ho_fs :: fs
  ho_stdout :: "string list"

definition on_dbs :: "(sqlite_files, 'a) op \<Rightarrow> (host, 'a) op" where
  "on_dbs m = (\<lambda>h. let (r, d) = m (ho_dbs h) in (r, h\<lparr>ho_dbs := d\<rparr>))"

definition on_files :: "(fs, 'a) op \<Rightarrow> (host, 'a) op" where
  "on_files m = (\<lambda>h. let (r, f) = m (ho_fs h) in (r, h\<lparr>ho_fs := f\<rparr>))"

text \<open>A statement on the database behind a handle.\<close>

definition on_handle :: "db_handle \<Rightarrow> (db, 'a) op \<Rightarrow> (host, 'a) op" where
  "on_handle pool m = (\<lambda>h.
     let loc = co_location (dh_options pool) in
     case ho_dbs h loc of
       None \<Rightarrow> (Err (Database (CannotOpen ''no such file'')), h)
     | Some f \<Rightarrow>
         (let (r, d) = m (sf_db f) in (r, h\<lparr>ho_dbs := (ho_dbs h)(loc \<mapsto> f\<lparr>sf_db := d\<rparr>)\<rparr>)))"

definition println :: "string \<Rightarrow> (host, unit) cli" where
  "println line = (\<lambda>h. (CliOk (), h\<lparr>ho_stdout := ho_stdout h @ [line]\<rparr>))"

text \<open>
  \<open>OpenOptions::create_new(true).open\<close> and the two \<open>write_all\<close>s; a fault is that of opening the file, or
  that of writing it with what it then holds.
\<close>

definition write_new ::
  "(io_error \<times> bytes option) option \<Rightarrow> path \<Rightarrow> bytes \<Rightarrow> (host, unit) cli" where
  "write_new fault p content = (\<lambda>h.
     if fs_get (ho_fs h) p \<noteq> None then (CliErr (CliIo (IoError IoAlreadyExists ''file exists'')), h)
     else
       (case fault of
          Some (e, None) \<Rightarrow> (CliErr (CliIo e), h)
        | Some (e, Some part) \<Rightarrow> (CliErr (CliIo e), h\<lparr>ho_fs := fs_put p part (ho_fs h)\<rparr>)
        | None \<Rightarrow> (CliOk (), h\<lparr>ho_fs := fs_put p content (ho_fs h)\<rparr>)))"

section \<open>Assembly\<close>

text \<open>
  What a process finds and the libraries it is built with: the sources of the configuration, the
  split of a path into components, the driver, moka's \<open>Cache::builder\<close> from a capacity and a time to
  live, and a server record that carries the remaining library functions.
\<close>

record environment =
  en_toml :: "string + dict"
  en_env :: dict
  en_is_addr :: "string \<Rightarrow> bool"
  en_path_of :: "string \<Rightarrow> path"
  en_driver :: driver
  en_project_cache :: "u64 \<Rightarrow> u64 \<Rightarrow> project_auth moka"
  en_admin_cache :: "u64 \<Rightarrow> u64 \<Rightarrow> admin_auth moka"
  en_libraries :: server

definition from_config :: "(u64 \<Rightarrow> u64 \<Rightarrow> 'v moka) \<Rightarrow> auth_config \<Rightarrow> 'v moka" where
  "from_config builder cfg = builder (verify_cache_size cfg) (verify_cache_ttl_secs cfg)"

definition storage_path :: "environment \<Rightarrow> config \<Rightarrow> path" where
  "storage_path en cfg = en_path_of en (storage_root (cfg_server cfg))"

definition auth_svc :: "environment \<Rightarrow> auth_config \<Rightarrow> server \<Rightarrow> server" where
  "auth_svc en cfg sv =
     sv\<lparr>sv_project_moka := from_config (en_project_cache en) cfg,
        sv_admin_moka := from_config (en_admin_cache en) cfg\<rparr>"

definition app_state :: "environment \<Rightarrow> config \<Rightarrow> server" where
  "app_state en cfg =
     auth_svc en (cfg_auth cfg) ((en_libraries en)\<lparr>sv_config := cfg, sv_root := storage_path en cfg\<rparr>)"

definition load_config :: "environment \<Rightarrow> (host, config) cli" where
  "load_config en = core_call (query (\<lambda>_. config_load (en_is_addr en) (en_toml en) (en_env en)))"

definition open_db :: "environment \<Rightarrow> config \<Rightarrow> (host, db_handle) cli" where
  "open_db en cfg = core_call (on_dbs (db_connect (en_driver en) (en_path_of en) (cfg_database cfg)))"

section \<open>\<open>init\<close> and \<open>serve\<close>\<close>

text \<open>The clock, the random bytes and the faults that one run of \<open>init\<close> meets, and its argument.\<close>

record init_args =
  ia_faults :: "path \<Rightarrow> io_error option"
  ia_random :: bytes
  ia_salt :: bytes
  ia_now :: int
  ia_token_out :: "path option"
  ia_out_fault :: "(io_error \<times> bytes option) option"

definition init_run :: "environment \<Rightarrow> init_args \<Rightarrow> (host, unit) cli" where
  "init_run en ia =
     cli_then (load_config en) (\<lambda>cfg.
     cli_then (core_call (on_files (store_open (ia_faults ia) (storage_path en cfg)))) (\<lambda>_.
     cli_then (open_db en cfg) (\<lambda>pool.
     let cr = sv_crypto (en_libraries en);
         secret = generate_secret cr (ia_random ia);
         lookup = lookup_hash cr secret
     in
     cli_then (core_call (query (\<lambda>_. hash_argon2 cr (ia_salt ia) secret))) (\<lambda>phc.
     cli_then (core_call (on_handle pool (admin_tokens_create (ia_now ia) lookup phc (Some ''init'')))) (\<lambda>token.
     cli_then (println (''admin token id: '' @ dec_int (t_id token))) (\<lambda>_.
     case ia_token_out ia of
       Some out \<Rightarrow> write_new (ia_out_fault ia) out (str_bytes secret @ [10])
     | None \<Rightarrow> println secret))))))"

text \<open>
  \<open>serve\<close> up to the point where it listens: the application and the state it starts with
  (\<open>serve_start\<close> opens the store). The handle's database moves into that state.
\<close>

definition serve_run ::
  "environment \<Rightarrow> (path \<Rightarrow> io_error option) \<Rightarrow> io_error option \<Rightarrow> (host, server \<times> app) cli" where
  "serve_run en faults bind_fault =
     cli_then (load_config en) (\<lambda>cfg.
     cli_then (open_db en cfg) (\<lambda>pool.
     cli_then (core_call (on_handle pool (query Ok))) (\<lambda>d. (\<lambda>h.
     let sv = app_state en cfg;
         s = serve_start faults sv \<lparr>sys_db = d, sys_fs = ho_fs h\<rparr>;
         h' = h\<lparr>ho_fs := sys_fs (ap_sys s)\<rparr>
     in case bind_fault of
          Some e \<Rightarrow> (CliErr (CliIo e), h')
        | None \<Rightarrow> (CliOk (sv, s), h')))))"

section \<open>The life of an installation\<close>

definition database_at :: "environment \<Rightarrow> config \<Rightarrow> location" where
  "database_at en cfg = OnDisk (en_path_of en (db_path (cfg_database cfg)))"

definition host_sys :: "environment \<Rightarrow> config \<Rightarrow> host \<Rightarrow> sys" where
  "host_sys en cfg h = \<lparr>sys_db = rows_of (ho_dbs h (database_at en cfg)), sys_fs = ho_fs h\<rparr>"

text \<open>What a server leaves behind when its process ends.\<close>

definition stopped :: "environment \<Rightarrow> app \<Rightarrow> server \<Rightarrow> host \<Rightarrow> host" where
  "stopped en s sv h =
     h\<lparr>ho_dbs := (ho_dbs h)(database_at en (sv_config sv) \<mapsto>
          \<lparr>sf_versions = MIGRATOR, sf_db = sys_db (ap_sys s)\<rparr>),
       ho_fs := sys_fs (ap_sys s)\<rparr>"

inductive lifecycle :: "environment \<Rightarrow> host \<Rightarrow> host \<Rightarrow> bool" for en h where
  life_new: "lifecycle en h h"
| life_init: "lifecycle en h h1 \<Longrightarrow>
    (\<forall>cfg out. config_load (en_is_addr en) (en_toml en) (en_env en) = Ok cfg \<longrightarrow> ia_token_out ia = Some out \<longrightarrow>
       \<not> prefix (storage_path en cfg @ [''blobs'']) out) \<Longrightarrow>
    lifecycle en h (snd (init_run en ia h1))"
| life_failed: "lifecycle en h h1 \<Longrightarrow> serve_run en faults bind_fault h1 = (CliErr e, h2) \<Longrightarrow> lifecycle en h h2"
| life_served: "lifecycle en h h1 \<Longrightarrow> serve_run en faults None h1 = (CliOk (sv, s), h2) \<Longrightarrow>
    (server_step sv)\<^sup>*\<^sup>* s s' \<Longrightarrow> lifecycle en h (stopped en s' sv h2)"

end
