(* ===== verification/Startup_Properties.thy ===== *)
theory Startup_Properties
  imports Startup Cache_Spec
begin

text \<open>
  What holds of an installation from its first command on. \<open>cli_spec\<close> is a triple for commands that may
  stop at any call: \<open>I\<close> holds wherever the command ends, \<open>Q\<close> where it goes on. With it, whatever
  \<open>init\<close>, \<open>serve\<close> and the servers in between do, the machine stays \<open>sound_host\<close>, and every server
  that starts on it is \<open>sound\<close>.
\<close>

section \<open>Commands that may stop\<close>

definition cli_spec :: "('s \<Rightarrow> bool) \<Rightarrow> ('s \<Rightarrow> bool) \<Rightarrow> ('s, 'a) cli \<Rightarrow> ('a \<Rightarrow> 's \<Rightarrow> bool) \<Rightarrow> bool" where
  "cli_spec I P m Q \<longleftrightarrow>
     (\<forall>h r h'. P h \<longrightarrow> m h = (r, h') \<longrightarrow> I h' \<and> (\<forall>a. r = CliOk a \<longrightarrow> Q a h'))"

lemma cli_specI:
  "(\<And>h r h'. P h \<Longrightarrow> m h = (r, h') \<Longrightarrow> I h' \<and> (\<forall>a. r = CliOk a \<longrightarrow> Q a h')) \<Longrightarrow> cli_spec I P m Q"
  by (simp add: cli_spec_def)

lemma cli_specD: "cli_spec I P m Q \<Longrightarrow> P h \<Longrightarrow> I (snd (m h))"
  by (cases "m h") (auto simp: cli_spec_def)

lemma cli_specD_Ok: "cli_spec I P m Q \<Longrightarrow> P h \<Longrightarrow> m h = (CliOk a, h') \<Longrightarrow> Q a h'"
  by (auto simp: cli_spec_def)

lemma cli_then_spec:
  assumes "cli_spec I P m Q" and "\<And>a. cli_spec I (Q a) (f a) R"
  shows "cli_spec I P (cli_then m f) R"
proof (rule cli_specI)
  fix h r h'
  assume P: "P h" and run: "cli_then m f h = (r, h')"
  obtain out h1 where m: "m h = (out, h1)" by fastforce
  have 1: "I h1" "\<forall>a. out = CliOk a \<longrightarrow> Q a h1" using assms(1) P m by (auto simp: cli_spec_def)
  show "I h' \<and> (\<forall>a. r = CliOk a \<longrightarrow> R a h')"
  proof (cases out)
    case (CliOk a)
    then have "Q a h1" "f a h1 = (r, h')" using 1 run m by (simp_all add: cli_then_def)
    then show ?thesis using assms(2) [of a] by (auto simp: cli_spec_def)
  qed (use 1 run m in \<open>auto simp: cli_then_def\<close>)
qed

lemma core_call_spec:
  assumes "\<And>h r h'. P h \<Longrightarrow> m h = (r, h') \<Longrightarrow> I h' \<and> (\<forall>a. r = Ok a \<longrightarrow> Q a h')"
  shows "cli_spec I P (core_call m) Q"
proof (rule cli_specI)
  fix h r h'
  assume P: "P h" and run: "core_call m h = (r, h')"
  obtain out h1 where m: "m h = (out, h1)" by fastforce
  from assms [OF P m] run m show "I h' \<and> (\<forall>a. r = CliOk a \<longrightarrow> Q a h')"
    by (cases out) (auto simp: core_call_def)
qed

lemma cli_then_Ok:
  "cli_then m f h = (CliOk b, h') \<longleftrightarrow> (\<exists>a h1. m h = (CliOk a, h1) \<and> f a h1 = (CliOk b, h'))"
  by (auto simp: cli_then_def split: prod.splits cli_outcome.splits)

lemma core_call_Ok: "core_call m h = (CliOk a, h') \<longleftrightarrow> m h = (Ok a, h')"
  by (auto simp: core_call_def split: prod.splits outcome.splits)

section \<open>Sound machines\<close>

definition sound_host :: "environment \<Rightarrow> config \<Rightarrow> host \<Rightarrow> bool" where
  "sound_host en cfg h \<longleftrightarrow>
     current (ho_dbs h (database_at en cfg)) \<and> wf_db (sys_db (host_sys en cfg h)) \<and>
     blobs_present (storage_path en cfg) (host_sys en cfg h) \<and>
     integral (cr_sha256 (sv_crypto (en_libraries en))) (blob_file (storage_path en cfg)) (ho_fs h)"

text \<open>What the invariant sees of a machine: rows and blob files.\<close>

lemma sound_host_cong:
  assumes "current (ho_dbs h' (database_at en cfg))"
    and "wf_db (rows_of (ho_dbs h' (database_at en cfg)))"
    and "db_entries (rows_of (ho_dbs h' (database_at en cfg))) = db_entries (rows_of (ho_dbs h (database_at en cfg)))"
    and "\<And>x. blob_file (storage_path en cfg) x (ho_fs h') = blob_file (storage_path en cfg) x (ho_fs h)"
    and "sound_host en cfg h"
  shows "sound_host en cfg h'"
  using assms by (simp add: sound_host_def host_sys_def blobs_present_def integral_def)

lemma app_state_simps [simp]:
  "sv_root (app_state en cfg) = storage_path en cfg" "sv_config (app_state en cfg) = cfg"
  "sv_crypto (app_state en cfg) = sv_crypto (en_libraries en)"
  by (simp_all add: app_state_def auth_svc_def)

lemma sound_started: "sound_host en cfg h \<Longrightarrow> sound (app_state en cfg) (serve_start faults (app_state en cfg) (host_sys en cfg h))"
  by (simp add: sound_def sound_host_def serve_start_def store_open_content blobs_present_def integral_def host_sys_def)

lemma stopped_sound:
  assumes "sound (app_state en cfg) s"
  shows "sound_host en cfg (stopped en s (app_state en cfg) h)"
  using assms by (simp add: sound_def sound_host_def stopped_def host_sys_def current_def rows_of_def blobs_present_def)

section \<open>The steps of both commands\<close>

text \<open>Ready: the database was opened and migrated.\<close>

definition ready :: "environment \<Rightarrow> config \<Rightarrow> db_handle \<Rightarrow> host \<Rightarrow> bool" where
  "ready en cfg pool h \<longleftrightarrow> sound_host en cfg h \<and> co_location (dh_options pool) = database_at en cfg \<and>
     (\<exists>d. ho_dbs h (database_at en cfg) = Some \<lparr>sf_versions = MIGRATOR, sf_db = d\<rparr>)"

lemma load_config_eq:
  "load_config en h = (case config_load (en_is_addr en) (en_toml en) (en_env en) of
     Ok cfg \<Rightarrow> (CliOk cfg, h) | Err e \<Rightarrow> (CliErr (CliCore e), h) | Panic \<Rightarrow> (CliPanic, h))"
  by (simp add: load_config_def core_call_def split: outcome.split)

lemma open_store_spec:
  "cli_spec (sound_host en cfg) (sound_host en cfg)
     (core_call (on_files (store_open faults (storage_path en cfg)))) (\<lambda>_. sound_host en cfg)"
proof (rule core_call_spec)
  fix h r h'
  assume I: "sound_host en cfg h" and run: "on_files (store_open faults (storage_path en cfg)) h = (r, h')"
  then have "h' = h\<lparr>ho_fs := snd (store_open faults (storage_path en cfg) (ho_fs h))\<rparr>"
    by (auto simp: on_files_def split: prod.splits)
  then have "sound_host en cfg h'"
    using I by (intro sound_host_cong [OF _ _ _ _ I]) (simp_all add: store_open_content, simp_all add: sound_host_def host_sys_def)
  then show "sound_host en cfg h' \<and> (\<forall>a. r = Ok a \<longrightarrow> sound_host en cfg h')" by simp
qed

lemma open_db_Ok:
  assumes "driver_ok (en_driver en)" and "current (ho_dbs h (database_at en cfg))"
    and "open_db en cfg h = (CliOk pool, h')"
  shows "co_location (dh_options pool) = database_at en cfg \<and>
    h' = h\<lparr>ho_dbs := (ho_dbs h)(database_at en cfg \<mapsto>
      \<lparr>sf_versions = MIGRATOR, sf_db = rows_of (ho_dbs h (database_at en cfg))\<rparr>)\<rparr>"
proof -
  from assms(3) obtain files' where
    c: "db_connect (en_driver en) (en_path_of en) (cfg_database cfg) (ho_dbs h) = (Ok pool, files')"
    and h': "h' = h\<lparr>ho_dbs := files'\<rparr>"
    by (auto simp: open_db_def core_call_Ok on_dbs_def split: prod.splits)
  from db_connect_Ok [OF assms(1) c] assms(2) h' show ?thesis
    by (simp add: database_at_def disk_options_def)
qed

lemma open_db_spec:
  assumes "driver_ok (en_driver en)"
  shows "cli_spec (sound_host en cfg) (sound_host en cfg) (open_db en cfg) (ready en cfg)"
proof (rule cli_specI)
  fix h r h'
  assume I: "sound_host en cfg h" and run: "open_db en cfg h = (r, h')"
  then have cur: "current (ho_dbs h (database_at en cfg))" by (simp add: sound_host_def)
  obtain out files' where
    c: "db_connect (en_driver en) (en_path_of en) (cfg_database cfg) (ho_dbs h) = (out, files')" by fastforce
  then have h': "h' = h\<lparr>ho_dbs := files'\<rparr>"
    using run by (cases out) (simp_all add: open_db_def core_call_def on_dbs_def)
  note kept = db_connect_keeps [OF assms c database_at_def cur]
  have "sound_host en cfg h'"
    using I kept(1,2) h' by (intro sound_host_cong [OF _ _ _ _ I]) (simp_all, simp add: sound_host_def host_sys_def)
  moreover have "ready en cfg pool h'" if "r = CliOk pool" for pool
    using open_db_Ok [OF assms cur run [unfolded that]] \<open>sound_host en cfg h'\<close> by (simp add: ready_def)
  ultimately show "sound_host en cfg h' \<and> (\<forall>a. r = CliOk a \<longrightarrow> ready en cfg a h')" by blast
qed

lemma create_token_spec:
  "cli_spec (sound_host en cfg) (ready en cfg pool)
     (core_call (on_handle pool (admin_tokens_create now lookup phc lab))) (\<lambda>_. sound_host en cfg)"
proof (rule core_call_spec)
  fix h r h'
  assume P: "ready en cfg pool h" and run: "on_handle pool (admin_tokens_create now lookup phc lab) h = (r, h')"
  then obtain d where loc: "co_location (dh_options pool) = database_at en cfg" and I: "sound_host en cfg h"
    and d: "ho_dbs h (database_at en cfg) = Some \<lparr>sf_versions = MIGRATOR, sf_db = d\<rparr>"
    by (auto simp: ready_def)
  define d' where "d' = snd (admin_tokens_create now lookup phc lab d)"
  have h': "h' = h\<lparr>ho_dbs := (ho_dbs h)(database_at en cfg \<mapsto> \<lparr>sf_versions = MIGRATOR, sf_db = d'\<rparr>)\<rparr>"
    using run loc d by (auto simp: on_handle_def d'_def split: prod.splits)
  have wf: "wf_db d" using I d by (simp add: sound_host_def host_sys_def rows_of_def)
  have "wf_db d'" using keepsD [OF keeps_wf_admin_tokens_create wf] by (simp add: d'_def)
  moreover have "db_entries d' = db_entries d" by (simp add: d'_def admin_tokens_create_def Let_def)
  ultimately have "sound_host en cfg h'"
    using d h' by (intro sound_host_cong [OF _ _ _ _ I]) (simp_all add: rows_of_def current_def)
  then show "sound_host en cfg h' \<and> (\<forall>a. r = Ok a \<longrightarrow> sound_host en cfg h')" by simp
qed

lemma println_spec: "cli_spec (sound_host en cfg) (sound_host en cfg) (println l) (\<lambda>_. sound_host en cfg)"
  by (rule cli_specI) (auto simp: println_def sound_host_def host_sys_def)

lemma write_new_spec:
  assumes "\<not> prefix (storage_path en cfg @ [''blobs'']) p"
  shows "cli_spec (sound_host en cfg) (sound_host en cfg) (write_new fault p content) (\<lambda>_. sound_host en cfg)"
proof (rule cli_specI)
  fix h r h'
  assume I: "sound_host en cfg h" and run: "write_new fault p content h = (r, h')"
  have "blob_path (storage_path en cfg) x \<noteq> Some p" for x
    using assms by (auto simp: blob_path_def prefix_def)
  then have blob: "blob_file (storage_path en cfg) x (fs_put p c f) = blob_file (storage_path en cfg) x f" for x c f
    by (simp add: blob_file_def split: option.split)
  have "h' = h \<or> (\<exists>c. h' = h\<lparr>ho_fs := fs_put p c (ho_fs h)\<rparr>)"
    using run by (auto simp: write_new_def split: if_splits option.splits prod.splits)
  then have "sound_host en cfg h'"
    using I by (auto simp: blob sound_host_def host_sys_def blobs_present_def integral_def)
  then show "sound_host en cfg h' \<and> (\<forall>a. r = CliOk a \<longrightarrow> sound_host en cfg h')" by simp
qed

section \<open>Both commands\<close>

lemma init_keeps:
  assumes "driver_ok (en_driver en)" and cfg: "config_load (en_is_addr en) (en_toml en) (en_env en) = Ok cfg"
    and out: "\<And>p. ia_token_out ia = Some p \<Longrightarrow> \<not> prefix (storage_path en cfg @ [''blobs'']) p"
    and I: "sound_host en cfg h"
  shows "sound_host en cfg (snd (init_run en ia h))"
proof -
  let ?I = "sound_host en cfg"
  have silent: "cli_spec ?I (ready en cfg pool) (core_call (query (\<lambda>_. q))) (\<lambda>_. ready en cfg pool)" for pool q
    by (rule core_call_spec) (auto simp: ready_def)
  have deliver: "cli_spec ?I ?I (case ia_token_out ia of Some p \<Rightarrow> write_new (ia_out_fault ia) p (c @ [10])
      | None \<Rightarrow> println l) (\<lambda>_. ?I)" for c l
    using out println_spec write_new_spec by (cases "ia_token_out ia") auto
  have load: "cli_spec ?I ?I (load_config en) (\<lambda>c h. c = cfg \<and> ?I h)"
    by (rule cli_specI) (auto simp: load_config_eq cfg)
  have "cli_spec ?I ?I (init_run en ia) (\<lambda>_. ?I)"
    unfolding init_run_def Let_def
    apply (rule cli_then_spec [OF load])
    subgoal for c
      apply (cases "c = cfg")
       apply simp
       apply (rule cli_then_spec [OF open_store_spec])
       apply (rule cli_then_spec [OF open_db_spec [OF assms(1)]])
       apply (rule cli_then_spec [OF silent])
       apply (rule cli_then_spec [OF create_token_spec])
       apply (rule cli_then_spec [OF println_spec])
       apply (rule deliver)
      apply (simp add: cli_spec_def)
      done
    done
  then show ?thesis using I by (rule cli_specD)
qed

lemma serve_run_loaded:
  assumes "config_load (en_is_addr en) (en_toml en) (en_env en) = Ok cfg"
  shows "serve_run en faults bind_fault h = (case open_db en cfg h of
      (CliOk pool, h1) \<Rightarrow>
        cli_then (core_call (on_handle pool (query Ok))) (\<lambda>d. (\<lambda>h.
          let s = serve_start faults (app_state en cfg) \<lparr>sys_db = d, sys_fs = ho_fs h\<rparr>;
              h' = h\<lparr>ho_fs := sys_fs (ap_sys s)\<rparr>
          in case bind_fault of Some e \<Rightarrow> (CliErr (CliIo e), h') | None \<Rightarrow> (CliOk (app_state en cfg, s), h'))) h1
    | (CliErr e, h1) \<Rightarrow> (CliErr e, h1) | (CliPanic, h1) \<Rightarrow> (CliPanic, h1))"
  by (simp add: serve_run_def cli_then_def [of "load_config en"] cli_then_def [of "open_db en cfg"] load_config_eq assms
      Let_def split: prod.split cli_outcome.split)

text \<open>What \<open>serve\<close> does on a current database, and on a sound machine, whether or not it comes to listen.\<close>

lemma serve_run_Ok:
  assumes ok: "driver_ok (en_driver en)" and cfg: "config_load (en_is_addr en) (en_toml en) (en_env en) = Ok cfg"
    and cur: "current (ho_dbs h (database_at en cfg))" and o: "open_db en cfg h = (CliOk pool, h1)"
  shows "serve_run en faults bind_fault h =
    (let s = serve_start faults (app_state en cfg) (host_sys en cfg h) in
       (case bind_fault of Some e \<Rightarrow> CliErr (CliIo e) | None \<Rightarrow> CliOk (app_state en cfg, s),
        h1\<lparr>ho_fs := sys_fs (ap_sys s)\<rparr>))"
  using open_db_Ok [OF ok cur o] o
  by (simp add: serve_run_loaded [OF cfg] cli_then_def core_call_def on_handle_def host_sys_def Let_def
      split: option.split)

lemma serve_run_cases:
  assumes ok: "driver_ok (en_driver en)" and cfg: "config_load (en_is_addr en) (en_toml en) (en_env en) = Ok cfg"
    and I: "sound_host en cfg h" and run: "serve_run en faults bind_fault h = (r, h')"
  shows "sound_host en cfg h' \<and> (\<forall>sv s. r = CliOk (sv, s) \<longrightarrow>
    sv = app_state en cfg \<and> s = serve_start faults sv (host_sys en cfg h))"
proof -
  obtain out h1 where o: "open_db en cfg h = (out, h1)" by fastforce
  have I1: "sound_host en cfg h1" using cli_specD [OF open_db_spec [OF ok] I] o by simp
  show ?thesis
  proof (cases out)
    case (CliOk pool)
    have cur: "current (ho_dbs h (database_at en cfg))" using I by (simp add: sound_host_def)
    note opened = open_db_Ok [OF ok cur o [unfolded CliOk]]
    let ?s = "serve_start faults (app_state en cfg) (host_sys en cfg h)"
    have "sound_host en cfg (h1\<lparr>ho_fs := sys_fs (ap_sys ?s)\<rparr>)"
      using I1 opened by (intro sound_host_cong [OF _ _ _ _ I1])
        (simp_all add: serve_start_def store_open_content host_sys_def, simp_all add: sound_host_def host_sys_def)
    then show ?thesis
      using serve_run_Ok [OF ok cfg cur o [unfolded CliOk], of faults bind_fault] run
      by (auto simp: Let_def split: option.splits)
  qed (use I1 run o in \<open>auto simp: serve_run_loaded [OF cfg]\<close>)
qed

lemma served_session:
  assumes ok: "driver_ok (en_driver en)" and cfg: "config_load (en_is_addr en) (en_toml en) (en_env en) = Ok cfg"
    and cur: "current (ho_dbs h (database_at en cfg))" and run: "serve_run en faults bind_fault h = (CliOk (sv, s), h')"
  shows "sv = app_state en cfg \<and> s = serve_start faults sv (host_sys en cfg h)"
proof -
  obtain pool h1 where o: "open_db en cfg h = (CliOk pool, h1)"
    using run by (auto simp: serve_run_loaded [OF cfg] split: prod.splits cli_outcome.splits)
  from serve_run_Ok [OF ok cfg cur o, of faults bind_fault] run show ?thesis
    by (auto simp: Let_def split: option.splits)
qed

section \<open>The life of an installation\<close>

text \<open>A machine on which the program never ran.\<close>

definition bare :: "environment \<Rightarrow> host \<Rightarrow> bool" where
  "bare en h \<longleftrightarrow>
     (\<forall>cfg. config_load (en_is_addr en) (en_toml en) (en_env en) = Ok cfg \<longrightarrow>
        ho_dbs h (database_at en cfg) = None \<and> (\<forall>x. blob_file (storage_path en cfg) x (ho_fs h) = None))"

lemma bare_sound:
  "bare en h \<Longrightarrow> config_load (en_is_addr en) (en_toml en) (en_env en) = Ok cfg \<Longrightarrow> sound_host en cfg h"
proof -
  have "db_entries db_empty = []" by (simp add: db_empty_def)
  then show "bare en h \<Longrightarrow> config_load (en_is_addr en) (en_toml en) (en_env en) = Ok cfg \<Longrightarrow> sound_host en cfg h"
    by (simp add: bare_def sound_host_def host_sys_def current_def rows_of_def wf_db_empty blobs_present_def
        integral_def)
qed

lemma lifecycle_sound:
  assumes "lifecycle en h0 h" and ok: "driver_ok (en_driver en)"
    and cfg: "config_load (en_is_addr en) (en_toml en) (en_env en) = Ok cfg" and "sound_host en cfg h0"
  shows "sound_host en cfg h"
  using assms(1)
proof (induction rule: lifecycle.induct)
  case life_new
  then show ?case using assms(4) by simp
next
  case (life_init h1 ia)
  then show ?case using init_keeps [OF ok cfg] cfg by blast
next
  case (life_failed h1 faults bind_fault e h2)
  then show ?case using serve_run_cases [OF ok cfg] by blast
next
  case (life_served h1 faults sv s h2 s')
  from serve_run_cases [OF ok cfg life_served.IH life_served(2)]
  have sv: "sv = app_state en cfg" and s: "s = serve_start faults sv (host_sys en cfg h1)" by simp_all
  have "sound sv s" using sound_started [OF life_served.IH] sv s by simp
  then have "sound sv s'" using sound_steps [OF life_served(3)] by simp
  then show ?case using stopped_sound sv by simp
qed

lemma loaded: "serve_run en faults bind_fault h = (CliOk x, h') \<Longrightarrow>
    \<exists>cfg. config_load (en_is_addr en) (en_toml en) (en_env en) = Ok cfg"
  by (auto simp: serve_run_def cli_then_Ok load_config_eq split: outcome.splits)

text \<open>What a session starts from, on a machine that was bare once.\<close>

lemma session_started:
  assumes "driver_ok (en_driver en)" and "bare en h0" and "lifecycle en h0 h"
    and "serve_run en faults None h = (CliOk (sv, s), h')"
  obtains cfg where "config_load (en_is_addr en) (en_toml en) (en_env en) = Ok cfg" "sv = app_state en cfg"
    "sound_host en cfg h" "sound_host en cfg h'" "s = serve_start faults sv (host_sys en cfg h)" "sound sv s"
proof -
  obtain cfg where cfg: "config_load (en_is_addr en) (en_toml en) (en_env en) = Ok cfg"
    using loaded [OF assms(4)] by blast
  note I = lifecycle_sound [OF assms(3,1) cfg bare_sound [OF assms(2) cfg]]
  note run = serve_run_cases [OF assms(1) cfg I assms(4)]
  then have sv: "sv = app_state en cfg" and s: "s = serve_start faults sv (host_sys en cfg h)"
    and I': "sound_host en cfg h'"
    by auto
  have "sound sv s" unfolding s unfolding sv by (rule sound_started [OF I])
  from that [OF cfg sv I I' s this] show thesis .
qed

section \<open>Samples\<close>

definition sample_driver :: driver where
  "sample_driver =
     \<lparr>dr_create_dir_all = (\<lambda>_. None),
      dr_connect_with = (\<lambda>_ f. Inr (case f of None \<Rightarrow> new_file | Some g \<Rightarrow> g)),
      dr_migrate = (\<lambda>f. (None, f\<lparr>sf_versions := MIGRATOR\<rparr>))\<rparr>"

lemma sample_driver_ok: "driver_ok sample_driver"
  by (auto simp: driver_ok_def sample_driver_def new_file_def)

definition sample_dict :: dict where
  "sample_dict =
     [[''server'', ''listen''] \<mapsto> CfgStr ''127.0.0.1:9090'', [''server'', ''storage_root''] \<mapsto> CfgStr ''srv'',
      [''database'', ''path''] \<mapsto> CfgStr ''db'', [''gc'', ''default_ttl_sstate_days''] \<mapsto> CfgInt 30,
      [''gc'', ''default_ttl_downloads_days''] \<mapsto> CfgInt 90, [''gc'', ''global_quota_bytes''] \<mapsto> CfgInt 1000]"

definition sample_environment :: environment where
  "sample_environment =
     \<lparr>en_toml = Inr sample_dict, en_env = Map.empty, en_is_addr = (\<lambda>_. True), en_path_of = (\<lambda>p. [p]),
      en_driver = sample_driver, en_project_cache = (\<lambda>_ ttl. recall (uint ttl)),
      en_admin_cache = (\<lambda>_ ttl. recall (uint ttl)), en_libraries = sample_server 1000\<rparr>"

definition bare_host :: host where
  "bare_host = \<lparr>ho_dbs = Map.empty, ho_fs = [], ho_stdout = []\<rparr>"

lemma sample_bare: "bare sample_environment bare_host"
  by (simp add: bare_def bare_host_def blob_file_def fs_get_def split: option.split)

lemma sample_loads:
  "\<exists>cfg. config_load (en_is_addr sample_environment) (en_toml sample_environment) (en_env sample_environment) = Ok cfg"
  by (simp add: sample_environment_def config_load_def sample_dict_def extract_config_def extract_server_def
      extract_database_def extract_gc_def extract_auth_def extract_logging_def field_def de_str_def de_u64_def
      de_uint_def)

lemma sample_opens: "\<exists>pool h1. open_db sample_environment cfg h = (CliOk pool, h1)"
  by (simp add: open_db_def core_call_def on_dbs_def db_connect_def create_parent_def parent_def
      from_options_def sample_environment_def sample_driver_def Let_def)

lemma sample_serves:
  assumes "sound_host sample_environment cfg h"
    and "config_load (en_is_addr sample_environment) (en_toml sample_environment) (en_env sample_environment) = Ok cfg"
  shows "\<exists>h'. serve_run sample_environment faults None h =
    (CliOk (app_state sample_environment cfg,
       serve_start faults (app_state sample_environment cfg) (host_sys sample_environment cfg h)), h')"
proof -
  obtain pool h1 where o: "open_db sample_environment cfg h = (CliOk pool, h1)" using sample_opens by blast
  have drv: "driver_ok (en_driver sample_environment)" by (simp add: sample_environment_def sample_driver_ok)
  have cur: "current (ho_dbs h (database_at sample_environment cfg))" using assms(1) by (simp add: sound_host_def)
  from open_db_Ok [OF drv cur o] show ?thesis
    using o by (simp add: serve_run_loaded [OF assms(2)] cli_then_def core_call_def on_handle_def host_sys_def Let_def)
qed

section \<open>Properties of an installation\<close>



text \<open>
  C13 A restart loses nothing (round trip): the server that \<open>serve\<close> starts on what the last one left is the
  same one, over the same rows and the same blobs, so every key is bound to what it was; caches and
  pending tasks are gone.
\<close>

theorem restart_keeps_the_cache:
  assumes "driver_ok (en_driver en)" and "bare en h0" and "lifecycle en h0 h"
    and "serve_run en faults None h = (CliOk (sv, s), h')" and "(server_step sv)\<^sup>*\<^sup>* s s'"
    and "serve_run en faults' None (stopped en s' sv h') = (CliOk (sv2, s2), h2)"
  shows "sv2 = sv \<and> sys_db (ap_sys s2) = sys_db (ap_sys s') \<and>
    (\<forall>x. blob_file (sv_root sv) x (sys_fs (ap_sys s2)) = blob_file (sv_root sv) x (sys_fs (ap_sys s'))) \<and>
    served (sys_db (ap_sys s2)) = served (sys_db (ap_sys s')) \<and>
    ap_project_cache s2 = [] \<and> ap_admin_cache s2 = [] \<and> ap_tasks s2 = []"
proof (rule session_started [OF assms(1-4)])
  fix cfg
  assume cfg: "config_load (en_is_addr en) (en_toml en) (en_env en) = Ok cfg" and sv: "sv = app_state en cfg"
    and "sound sv s"
  then have "sound sv s'" using sound_steps [OF assms(5)] by blast
  then have I: "sound_host en cfg (stopped en s' sv h')" unfolding sv by (rule stopped_sound)
  have sys: "host_sys en cfg (stopped en s' (app_state en cfg) h') = ap_sys s'"
    by (cases "ap_sys s'") (simp add: host_sys_def stopped_def rows_of_def)
  from serve_run_cases [OF assms(1) cfg I assms(6)]
  have sv2: "sv2 = sv" and s2: "s2 = serve_start faults' sv (ap_sys s')" by (auto simp: sv sys)
  show ?thesis unfolding sv2 s2 by (simp add: serve_start_def store_open_content)
qed

theorem restart_keeps_the_cache_witness:
  "\<exists>sv s h' sv2 s2 h2. serve_run sample_environment (\<lambda>_. None) None bare_host = (CliOk (sv, s), h') \<and>
     serve_run sample_environment (\<lambda>_. None) None
       (stopped sample_environment (snd (serve_request sv sample_req sample_upload s)) sv h') = (CliOk (sv2, s2), h2) \<and>
     served (sys_db (ap_sys s2)) = served (sys_db (ap_sys (snd (serve_request sv sample_req sample_upload s))))"
proof -
  have drv: "driver_ok (en_driver sample_environment)" by (simp add: sample_environment_def sample_driver_ok)
  obtain cfg where cfg: "config_load (en_is_addr sample_environment) (en_toml sample_environment)
      (en_env sample_environment) = Ok cfg"
    using sample_loads by blast
  obtain sv s h' where run: "serve_run sample_environment (\<lambda>_. None) None bare_host = (CliOk (sv, s), h')"
    using sample_serves [OF bare_sound [OF sample_bare cfg] cfg, of "\<lambda>_. None"] by blast
  let ?s' = "snd (serve_request sv sample_req sample_upload s)"
  have "lifecycle sample_environment bare_host (stopped sample_environment ?s' sv h')"
    by (rule life_served [OF life_new run request_steps])
  from sample_serves [OF lifecycle_sound [OF this drv cfg bare_sound [OF sample_bare cfg]] cfg, of "\<lambda>_. None"]
  obtain sv2 s2 h2 where again: "serve_run sample_environment (\<lambda>_. None) None
      (stopped sample_environment ?s' sv h') = (CliOk (sv2, s2), h2)" by blast
  from restart_keeps_the_cache [OF drv sample_bare life_new run request_steps again] run again
  show ?thesis by blast
qed

section \<open>The first token\<close>

lemma created_token:
  "admin_tokens_create now l phc lab d = (Ok t, d') \<Longrightarrow> t_token_hash t = phc \<and> t_label t = lab"
  by (auto simp: admin_tokens_create_def Let_def split: if_splits)

text \<open>The secret a run of \<open>init\<close> hands out: the last line it printed, or the file it wrote.\<close>

definition text_of :: "bytes \<Rightarrow> string" where
  "text_of c = map (\<lambda>w. char_of (unat w)) c"

definition handed_out :: "init_args \<Rightarrow> host \<Rightarrow> string option" where
  "handed_out ia h =
     (case ia_token_out ia of
        None \<Rightarrow> Some (last (ho_stdout h))
      | Some out \<Rightarrow> map_option (\<lambda>c. text_of (butlast c)) (fs_get (ho_fs h) out))"

lemma text_of_str_bytes [simp]: "text_of (str_bytes s) = s"
proof -
  have "char_of (unat (word_of_nat (of_char c) :: byte)) = c" for c :: char
    by (simp add: unat_of_nat)
  then show ?thesis by (simp add: text_of_def str_bytes_def map_idI)
qed

lemma init_run_Ok:
  assumes "driver_ok (en_driver en)" and cfg: "config_load (en_is_addr en) (en_toml en) (en_env en) = Ok cfg"
    and "current (ho_dbs h (database_at en cfg))"
    and "init_run en ia h = (CliOk (), h')"
  obtains t phc d where "hash_argon2 (sv_crypto (en_libraries en)) (ia_salt ia)
      (generate_secret (sv_crypto (en_libraries en)) (ia_random ia)) = Ok phc"
    "admin_tokens_create (ia_now ia) (lookup_hash (sv_crypto (en_libraries en))
      (generate_secret (sv_crypto (en_libraries en)) (ia_random ia))) phc (Some ''init'')
      (rows_of (ho_dbs h (database_at en cfg))) = (Ok t, d)"
    "ho_dbs h' (database_at en cfg) = Some \<lparr>sf_versions = MIGRATOR, sf_db = d\<rparr>"
    "handed_out ia h' = Some (generate_secret (sv_crypto (en_libraries en)) (ia_random ia))"
    "''admin token id: '' @ dec_int (t_id t) \<in> set (ho_stdout h')"
proof -
  let ?cr = "sv_crypto (en_libraries en)" and ?loc = "database_at en cfg"
  let ?secret = "generate_secret ?cr (ia_random ia)"
  have load: "load_config en h = (CliOk cfg, h)" by (simp add: load_config_eq cfg)
  from assms(4) load obtain h1 pool h2 phc t h3 where
    h1: "h1 = h\<lparr>ho_fs := snd (store_open (ia_faults ia) (storage_path en cfg) (ho_fs h))\<rparr>"
    and o: "open_db en cfg h1 = (CliOk pool, h2)"
    and phc: "hash_argon2 ?cr (ia_salt ia) ?secret = Ok phc"
    and t: "on_handle pool (admin_tokens_create (ia_now ia) (lookup_hash ?cr ?secret) phc (Some ''init'')) h2 = (Ok t, h3)"
    and fin: "(case ia_token_out ia of Some out \<Rightarrow> write_new (ia_out_fault ia) out (str_bytes ?secret @ [10])
      | None \<Rightarrow> println ?secret) (h3\<lparr>ho_stdout := ho_stdout h3 @ [''admin token id: '' @ dec_int (t_id t)]\<rparr>) = (CliOk (), h')"
    by (auto simp: init_run_def cli_then_Ok core_call_Ok on_files_def println_def Let_def split: prod.splits)
  have "current (ho_dbs h1 ?loc)" using assms(3) h1 by simp
  note opened = open_db_Ok [OF assms(1) this o]
  from t opened obtain d where
    d: "admin_tokens_create (ia_now ia) (lookup_hash ?cr ?secret) phc (Some ''init'') (rows_of (ho_dbs h ?loc)) = (Ok t, d)"
    and h3: "h3 = h2\<lparr>ho_dbs := (ho_dbs h2)(?loc \<mapsto> \<lparr>sf_versions = MIGRATOR, sf_db = d\<rparr>)\<rparr>"
    by (auto simp: on_handle_def h1 Let_def split: prod.splits)
  have "ho_dbs h' = ho_dbs h3 \<and> handed_out ia h' = Some ?secret \<and>
      ''admin token id: '' @ dec_int (t_id t) \<in> set (ho_stdout h')"
    using fin by (auto simp: handed_out_def println_def write_new_def split: option.splits if_splits prod.splits)
  with that [OF phc d] h3 show thesis by simp
qed

lemma init_run_reaches_output:
  assumes "driver_ok (en_driver en)" and cfg: "config_load (en_is_addr en) (en_toml en) (en_env en) = Ok cfg"
    and cur: "current (ho_dbs h (database_at en cfg))"
    and files: "files = snd (store_open (ia_faults ia) (storage_path en cfg) (ho_fs h))"
    and o: "open_db en cfg (h\<lparr>ho_fs := files\<rparr>) = (CliOk pool, h1)"
    and secret: "secret = generate_secret (sv_crypto (en_libraries en)) (ia_random ia)"
    and hash: "hash_argon2 (sv_crypto (en_libraries en)) (ia_salt ia) secret = Ok phc"
    and create: "admin_tokens_create (ia_now ia) (lookup_hash (sv_crypto (en_libraries en)) secret) phc (Some ''init'')
      (rows_of (ho_dbs h (database_at en cfg))) = (Ok t, d)"
  shows "init_run en ia h =
    (case ia_token_out ia of
       Some out \<Rightarrow> write_new (ia_out_fault ia) out (str_bytes secret @ [10])
     | None \<Rightarrow> println secret)
    (h\<lparr>ho_fs := files, ho_dbs := (ho_dbs h)(database_at en cfg \<mapsto> \<lparr>sf_versions = MIGRATOR, sf_db = d\<rparr>),
       ho_stdout := ho_stdout h @ [''admin token id: '' @ dec_int (t_id t)]\<rparr>)"
proof -
  have "current (ho_dbs (h\<lparr>ho_fs := files\<rparr>) (database_at en cfg))" using cur by simp
  note opened = open_db_Ok [OF assms(1) this o]
  have run: "load_config en h = (CliOk cfg, h)"
    "core_call (on_files (store_open (ia_faults ia) (storage_path en cfg))) h = (CliOk (storage_path en cfg), h\<lparr>ho_fs := files\<rparr>)"
    using files by (simp_all add: load_config_eq cfg core_call_def on_files_def store_open_def)
  show ?thesis
    unfolding secret
    using run o opened hash [unfolded secret] create [unfolded secret]
    by (simp add: init_run_def cli_then_def core_call_def on_handle_def println_def Let_def)
qed

text \<open>
  The first token works (round trip): the secret that \<open>init\<close> hands out, printed or in the file it was
  told to write, opens the admin API of a server that \<open>serve\<close> starts on the same machine, as the token
  \<open>init\<close> with the id that was printed.
\<close>

theorem init_opens_admin_api:
  assumes "driver_ok (en_driver en)" and "init_run en ia h = (CliOk (), h1)"
    and "serve_run en faults None h1 = (CliOk (sv, s), h2)"
    and "current (ho_dbs h (database_at en (sv_config sv)))"
    and "argon2_sound (sv_crypto sv)" and "moka_sound ttl (sv_admin_moka sv)"
    and "handed_out ia h1 = parse_bearer headers"
  shows "\<exists>i s1. ''admin token id: '' @ dec_int i \<in> set (ho_stdout h1) \<and>
    admin_accepts sv rq headers s = Some (\<lparr>aa_token_id = i, aa_token_label = Some ''init''\<rparr>, s1)"
proof -
  obtain cfg where cfg: "config_load (en_is_addr en) (en_toml en) (en_env en) = Ok cfg"
    using loaded [OF assms(3)] by blast
  have conf: "sv_config sv = cfg"
    using assms(3) by (auto simp: serve_run_def cli_then_Ok load_config_eq cfg Let_def)
  let ?cr = "sv_crypto (en_libraries en)"
  let ?secret = "generate_secret ?cr (ia_random ia)"
  obtain t phc d where phc: "hash_argon2 ?cr (ia_salt ia) ?secret = Ok phc"
    and create: "admin_tokens_create (ia_now ia) (lookup_hash ?cr ?secret) phc (Some ''init'')
      (rows_of (ho_dbs h (database_at en cfg))) = (Ok t, d)"
    and db: "ho_dbs h1 (database_at en cfg) = Some \<lparr>sf_versions = MIGRATOR, sf_db = d\<rparr>"
    and out: "handed_out ia h1 = Some ?secret" and printed: "''admin token id: '' @ dec_int (t_id t) \<in> set (ho_stdout h1)"
    by (rule init_run_Ok [OF assms(1) cfg assms(4) [unfolded conf] assms(2)])
  have "current (ho_dbs h1 (database_at en cfg))" using db by (simp add: current_def)
  note session = served_session [OF assms(1) cfg this assms(3)]
  then have cr: "sv_crypto sv = ?cr" and rows: "sys_db (ap_sys s) = d"
    using db by (simp_all add: serve_start_def host_sys_def rows_of_def)
  have "verify_argon2 ?cr ?secret phc = Ok True" using assms(5) phc cr by (simp add: argon2_sound_def)
  then have "check_admin ?cr ?secret d = Ok \<lparr>aa_token_id = t_id t, aa_token_label = Some ''init''\<rparr>"
    using admin_token_found_after_create [OF create] created_token [OF create] by (simp add: check_admin_def)
  moreover have "sv_admin_moka sv [] now' key = None" for now' key
    using assms(6) unfolding moka_sound_def by (metis empty_iff list.set(1) not_None_eq)
  moreover have "ap_admin_cache s = []" using session by (simp add: serve_start_def)
  moreover have "parse_bearer headers = Some ?secret" using assms(7) out by simp
  ultimately have "\<exists>s1. admin_accepts sv rq headers s =
      Some (\<lparr>aa_token_id = t_id t, aa_token_label = Some ''init''\<rparr>, s1)"
    by (simp add: cr rows admin_accepts_def authenticate_admin_def get_or_insert_def Let_def)
  with printed show ?thesis by blast
qed

definition sample_init :: init_args where
  "sample_init =
     \<lparr>ia_faults = (\<lambda>_. None), ia_random = [115, 107], ia_salt = [0], ia_now = 5, ia_token_out = None, ia_out_fault = None\<rparr>"

theorem init_opens_admin_api_witness:
  "\<exists>h1 sv s h2 i s1. init_run sample_environment sample_init bare_host = (CliOk (), h1) \<and>
    serve_run sample_environment (\<lambda>_. None) None h1 = (CliOk (sv, s), h2) \<and>
    admin_accepts sv sample_req [(''authorization'', ''Bearer sk'')] s =
      Some (\<lparr>aa_token_id = i, aa_token_label = Some ''init''\<rparr>, s1)"
proof -
  let ?en = sample_environment and ?cr = plain_crypto
  obtain cfg where cfg: "config_load (en_is_addr ?en) (en_toml ?en) (en_env ?en) = Ok cfg" using sample_loads by blast
  have drv: "driver_ok (en_driver ?en)" by (simp add: sample_environment_def sample_driver_ok)
  have cr: "sv_crypto (en_libraries ?en) = ?cr" by (simp add: sample_environment_def sample_server_def)
  have secret: "generate_secret ?cr [115, 107] = ''sk''"
    by (simp add: generate_secret_def plain_crypto_def char_of_def bit_iff_odd)
  have hash: "hash_argon2 ?cr [0] ''sk'' = Ok ''sk''" by (simp add: hash_argon2_def plain_crypto_def)
  have sound: "argon2_sound ?cr"
    by (simp add: argon2_sound_def) (simp add: plain_crypto_def hash_argon2_def verify_argon2_def)
  define files where "files = snd (store_open (ia_faults sample_init) (storage_path ?en cfg) (ho_fs bare_host))"
  obtain pool h1 where o: "open_db ?en cfg (bare_host\<lparr>ho_fs := files\<rparr>) = (CliOk pool, h1)"
    using sample_opens by blast
  have cur: "current (ho_dbs bare_host (database_at ?en cfg))" by (simp add: bare_host_def current_def)
  obtain t d where t: "admin_tokens_create (ia_now sample_init) (lookup_hash ?cr ''sk'') ''sk'' (Some ''init'')
      (rows_of (ho_dbs bare_host (database_at ?en cfg))) = (Ok t, d)"
    by (simp add: bare_host_def rows_of_def db_empty_def admin_tokens_create_def Let_def)
  have init: "init_run ?en sample_init bare_host =
      println ''sk'' (bare_host\<lparr>ho_fs := files,
        ho_dbs := (ho_dbs bare_host)(database_at ?en cfg \<mapsto> \<lparr>sf_versions = MIGRATOR, sf_db = d\<rparr>), ho_stdout := ho_stdout bare_host @ [''admin token id: '' @ dec_int (t_id t)]\<rparr>)"
    using init_run_reaches_output [OF drv cfg cur files_def o refl] secret hash t cr
    by (simp add: sample_init_def)
  then obtain h1 where run: "init_run ?en sample_init bare_host = (CliOk (), h1)"
    and out: "handed_out sample_init h1 = Some ''sk''"
    by (simp add: println_def handed_out_def sample_init_def)
  have "lifecycle ?en bare_host h1"
    using life_init [OF life_new, of ?en sample_init bare_host] run by (simp add: sample_init_def)
  from sample_serves [OF lifecycle_sound [OF this drv cfg bare_sound [OF sample_bare cfg]] cfg, of "\<lambda>_. None"]
  obtain h2 where serve: "serve_run ?en (\<lambda>_. None) None h1 =
      (CliOk (app_state ?en cfg, serve_start (\<lambda>_. None) (app_state ?en cfg) (host_sys ?en cfg h1)), h2)" by blast
  have bearer: "handed_out sample_init h1 = parse_bearer [(''authorization'', ''Bearer sk'')]"
    unfolding out by (simp add: parse_bearer_def authorization_def visible_ascii_def strip_prefix_def)
  have moka: "moka_sound (uint (verify_cache_ttl_secs (cfg_auth cfg))) (sv_admin_moka (app_state ?en cfg))"
    by (simp add: app_state_def auth_svc_def from_config_def sample_environment_def recall_sound)
  have "argon2_sound (sv_crypto (app_state ?en cfg))" using sound cr by simp
  from init_opens_admin_api [OF drv run serve _ this moka bearer, of sample_req] cur run serve
  show ?thesis by simp blast
qed

text \<open>
  An output file that exists already fails the command after the token was committed: the row stays
  active and nobody knows its secret.
\<close>

lemma init_may_lose_the_secret:
  assumes "driver_ok (en_driver en)" and "config_load (en_is_addr en) (en_toml en) (en_env en) = Ok cfg"
    and "current (ho_dbs h (database_at en cfg))"
    and files: "files = snd (store_open (ia_faults ia) (storage_path en cfg) (ho_fs h))"
    and "open_db en cfg (h\<lparr>ho_fs := files\<rparr>) = (CliOk pool, h1)"
    and "secret = generate_secret (sv_crypto (en_libraries en)) (ia_random ia)"
    and "hash_argon2 (sv_crypto (en_libraries en)) (ia_salt ia) secret = Ok phc"
    and fresh: "lookup_hash (sv_crypto (en_libraries en)) secret \<notin>
      t_token_lookup ` set (db_admin_tokens (rows_of (ho_dbs h (database_at en cfg))))"
    and out: "ia_token_out ia = Some p" "fs_get files p \<noteq> None"
  shows "\<exists>e h' d t. init_run en ia h = (CliErr (CliIo e), h') \<and>
    ho_dbs h' (database_at en cfg) = Some \<lparr>sf_versions = MIGRATOR, sf_db = d\<rparr> \<and>
    t \<in> set (db_admin_tokens d) \<and> t_revoked_at t = None \<and>
    t_token_lookup t = lookup_hash (sv_crypto (en_libraries en)) secret \<and> secret \<notin> set (drop (length (ho_stdout h) + 1) (ho_stdout h'))"
proof -
  obtain t d where create: "admin_tokens_create (ia_now ia) (lookup_hash (sv_crypto (en_libraries en)) secret) phc
      (Some ''init'') (rows_of (ho_dbs h (database_at en cfg))) = (Ok t, d)"
    using fresh by (simp add: admin_tokens_create_def Let_def)
  then have "t \<in> set (db_admin_tokens d)" "t_revoked_at t = None"
    "t_token_lookup t = lookup_hash (sv_crypto (en_libraries en)) secret"
    by (auto simp: admin_tokens_create_def Let_def split: if_splits)
  with init_run_reaches_output [OF assms(1-7) create] out show ?thesis
    by (auto simp: write_new_def)
qed

end
