(* ===== verification/Races.thy ===== *)
theory Races
  imports Cache_Spec Gc_Orphans
begin

text \<open>
  Uploads against the orphan scan. \<open>orphan_scan\<close> holds the collector's mutex, but an upload takes no
  part in it: the scan may run between the two halves of an upload, and an upload between the two
  readings of a scan, the walk over the store (\<open>scan_disk\<close>) and the query of the rows (in
  \<open>scan_rest\<close>). Either way an upload that is answered 201 is lost.
\<close>

section \<open>The two readings of a scan\<close>

definition scan_disk :: "gc_env \<Rightarrow> path \<Rightarrow> (sys, string list) op" where
  "scan_disk env root =
     query (\<lambda>s.
       if is_dir (blobs_dir root) (sys_fs s)
       then walk_blobs (ge_walk env) (sys_fs s) (blobs_dir root) []
       else Ok [])"

definition scan_rest :: "gc_env \<Rightarrow> path \<Rightarrow> bool \<Rightarrow> string list \<Rightarrow> (sys, orphan_report) op" where
  "scan_rest env root dry_run on_disk =
     andthen (query (\<lambda>s. Ok (remdups (map b_hash (db_blobs (sys_db s)))))) (\<lambda>db_set.
     andthen
       (foreach (disk_orphan env root dry_run)
          (sort_key (ge_blob_rank env) (filter (\<lambda>h. h \<notin> set db_set) on_disk))
          \<lparr>disk_orphans_removed = 0, db_orphans_removed = 0\<rparr>)
       (foreach (db_orphan dry_run)
          (sort_key (ge_blob_rank env) (filter (\<lambda>h. h \<notin> set on_disk) db_set))))"

lemma orphan_scan_readings: "orphan_scan env root dry_run = andthen (scan_disk env root) (scan_rest env root dry_run)"
proof -
  have "scan_rest env root dry_run = (\<lambda>on_disk. scan_rest env root dry_run on_disk)" by simp
  then show ?thesis unfolding orphan_scan_def scan_disk_def by (simp only: scan_rest_def)
qed

lemma scan_rest_purges:
  assumes "\<And>h. h \<in> set on_disk \<Longrightarrow> 4 \<le> length h"
  shows "sys_db (snd (scan_rest env root False on_disk s)) = purge (row_hashes (sys_db s) - set on_disk) (sys_db s)"
proof -
  let ?rows = "remdups (map b_hash (db_blobs (sys_db s)))"
  let ?disk = "sort_key (ge_blob_rank env) (filter (\<lambda>h. h \<notin> set ?rows) on_disk)"
  let ?miss = "sort_key (ge_blob_rank env) (filter (\<lambda>h. h \<notin> set on_disk) ?rows)"
  have miss: "set ?miss = row_hashes (sys_db s) - set on_disk" by (auto simp: row_hashes_def)
  obtain f' rep where f': "foreach (disk_orphan env root False) ?disk
      \<lparr>disk_orphans_removed = 0, db_orphans_removed = 0\<rparr> s = (Ok rep, s\<lparr>sys_fs := f'\<rparr>)"
    using disk_orphans_Ok [of ?disk env root "\<lparr>disk_orphans_removed = 0, db_orphans_removed = 0\<rparr>" s] assms by auto
  have "sys_db (snd (scan_rest env root False on_disk s)) = purge (set ?miss) (sys_db s)"
    by (simp only: scan_rest_def query_apply andthen_def prod.case outcome.case f' db_orphans_Ok) simp
  then show ?thesis unfolding miss .
qed

text \<open>The walk yields names of blobs only.\<close>

lemma walk_yields_names:
  "walk_blobs faults files dir out = Ok res \<Longrightarrow> list_all is_blob_name out \<Longrightarrow> list_all is_blob_name res"
  "walk_names faults files dir names out = Ok res \<Longrightarrow> list_all is_blob_name out \<Longrightarrow> list_all is_blob_name res"
proof (induction faults files dir out and faults files dir names out arbitrary: res and res
    rule: walk_blobs_walk_names.induct)
  case (1 faults files dir out)
  then show ?case by (simp add: walk_blobs.simps split: option.splits)
next
  case (2 faults files dir out)
  then show ?case by (simp add: walk_names.simps)
next
  case (3 faults files dir name names out)
  note step = 3(4) [unfolded walk_names.simps(2) [of faults files dir name names out]]
  show ?case
  proof (cases "is_dir (dir @ [name]) files")
    case True
    then obtain out' where "walk_blobs faults files (dir @ [name]) out = Ok out'"
      and "walk_names faults files dir names out' = Ok res"
      using step by (auto split: outcome.splits)
    then show ?thesis using 3(1,2) True 3(5) by blast
  next
    case False
    then have "walk_names faults files dir names (if is_blob_name name then List.insert name out else out) = Ok res"
      using step by simp
    moreover have "list_all is_blob_name (if is_blob_name name then List.insert name out else out)"
      using 3(5) by (simp add: list_all_iff)
    ultimately show ?thesis using 3(3) False by blast
  qed
qed

lemma scan_disk_names:
  assumes "scan_disk env root y = (Ok on_disk, y')" and "h \<in> set on_disk"
  shows "4 \<le> length h"
proof -
  have "walk_blobs (ge_walk env) (sys_fs y) (blobs_dir root) [] = Ok on_disk"
    using assms by (auto simp: scan_disk_def split: if_splits)
  from walk_yields_names(1) [OF this] assms(2) show ?thesis by (simp add: list_all_iff is_blob_name_def)
qed

lemma effect_wf: "put_effect sv a k p y y' \<Longrightarrow> wf_db (sys_db y) \<Longrightarrow> wf_db (sys_db y')"
  by (cases rule: put_effect.cases) auto

section \<open>Properties\<close>

text \<open>
  C20 A scan between the halves (safety, interleaving). Whenever an upload has stored content that has no
  row yet and a scan runs before it goes on, the scan takes the file for an orphan; the upload then
  registers its entry and answers 201, and the next \<open>GET\<close> is a miss.
\<close>

theorem scan_removes_blob_of_pending_upload:
  assumes wf: "wf_db (sys_db (ap_sys s))" and store: "put_store sv rq a u body s = (Ok w, s1)"
    and new: "w_hash w \<notin> row_hashes (sys_db (ap_sys s))" and name: "is_blob_name (w_hash w)"
    and shape: "store_shape (sv_root sv) (sys_fs (ap_sys s1))" and faults: "\<forall>p. ge_walk env p = None" "\<forall>h. ge_unlink env h = None"
    and commit: "put_commit sv rq a k p w (snd (on_sys (orphan_scan env (sv_root sv) False) s1)) = (Ok r, s3)"
  shows "rs_status r = 201 \<and> served (sys_db (ap_sys s3)) (pa_project_id a, k, p) = Some (w_hash w) \<and>
    blob_file (sv_root sv) (w_hash w) (sys_fs (ap_sys s1)) \<noteq> None \<and>
    blob_file (sv_root sv) (w_hash w) (sys_fs (ap_sys s3)) = None \<and>
    \<not> (\<exists>r'. fst (get_one sv rq' a k u p False s3) = Ok r')"
proof (cases rule: put_store_cases [of sv rq a u body s])
  case (refused reason)
  then show ?thesis using store by simp
next
  case (stored out f)
  let ?root = "sv_root sv"
  have s1: "s1 = s\<lparr>ap_sys := (ap_sys s)\<lparr>sys_fs := f\<rparr>\<rparr>" and out: "out = Ok w" using stored(1) store by simp_all
  have w: "0 \<le> w_size_bytes w" "blob_file ?root (w_hash w) f \<noteq> None"
    using write_streamed_keeps [OF stored(2)] out by auto
  obtain f' rep where scan: "orphan_scan env ?root False (ap_sys s1) = (Ok rep,
      \<lparr>sys_db = purge (row_hashes (sys_db (ap_sys s1)) - disk_hashes ?root (sys_fs (ap_sys s1))) (sys_db (ap_sys s1)), sys_fs = f'\<rparr>)"
    and f': "files_after env ?root (disk_hashes ?root (sys_fs (ap_sys s1)) - row_hashes (sys_db (ap_sys s1))) (sys_fs (ap_sys s1)) f'"
    using orphan_scan_real [OF shape faults(1)] by blast
  have "w_hash w \<in> disk_hashes ?root (sys_fs (ap_sys s1)) - row_hashes (sys_db (ap_sys s1))"
    using w(2) new name by (simp add: disk_hashes_def s1)
  then have gone: "blob_file ?root (w_hash w) f' = None" using f' faults(2) by (auto simp: files_after_def)
  let ?s2 = "snd (on_sys (orphan_scan env ?root False) s1)"
  have s2: "ap_sys ?s2 = \<lparr>sys_db = purge (row_hashes (sys_db (ap_sys s1)) - disk_hashes ?root (sys_fs (ap_sys s1)))
      (sys_db (ap_sys s1)), sys_fs = f'\<rparr>"
    using scan by (simp add: on_sys_def)
  have wf2: "wf_db (sys_db (ap_sys ?s2))" unfolding s2 using wf by (simp add: s1 wf_purge)
  have proj: "has_project (sys_db (ap_sys ?s2)) (pa_project_id a)"
  proof (rule ccontr)
    assume "\<not> ?thesis"
    then show False using upsert_no_project [OF wf2] commit by (simp add: put_commit_def)
  qed
  have db: "sys_db (ap_sys s3) = registered rq a k p w (sys_db (ap_sys ?s2))" and fs: "sys_fs (ap_sys s3) = f'"
    using put_commit_db [OF wf2 w(1), of sv rq a k p] commit proj by (simp_all add: s2)
  have status: "rs_status r = 201" using commit unfolding put_commit_def by (auto elim!: andthen_OkE split: if_splits)
  obtain e where e: "entry_at (sys_db (ap_sys s3)) (pa_project_id a, k, p) = Some e" "e_blob_hash e = w_hash w"
    using entry_at_registered [OF wf2 proj w(1)] db by simp
  have "\<not> (\<exists>r'. fst (get_one sv rq' a k u p False s3) = Ok r')"
    using get_one_hit [of sv rq' a k u p s3] e gone fs by fastforce
  then show ?thesis using status e gone w(2) fs s1 by (simp add: served_def)
qed

text \<open>The first upload into an empty store, of 64 bytes that are their own digest.\<close>

definition long_body :: bytes where
  "long_body = replicate 64 97"

definition long_hash :: string where
  "long_hash = replicate 64 (CHR ''a'')"

lemma long_hash_facts:
  "cr_sha256 plain_crypto long_body = long_hash" "is_blob_name long_hash" "visible_ascii long_hash"
  "blob_path sample_root long_hash = Some (sample_root @ [''blobs'', ''aa'', ''aa'', long_hash])"
proof -
  have "char_of (unat (97 :: byte)) = CHR ''a''" by (simp add: char_of_def bit_iff_odd)
  then show "cr_sha256 plain_crypto long_body = long_hash"
    by (simp add: long_hash_def long_body_def plain_crypto_def del: unsigned_numeral)
qed (simp_all add: long_hash_def is_blob_name_def is_ascii_hexdigit_def visible_ascii_def blob_path_def
    list_all_iff numeral_2_eq_2)

lemma first_upload_files:
  assumes "blob_path root (sha256 c) = Some dest"
  shows "write_streamed sha256 uuid None root [Inr c] [] =
    (Ok \<lparr>w_hash = sha256 c, w_size_bytes = int (length c)\<rparr>, [(dest, c)])"
  using assms blob_path_not_tmp [OF assms, of uuid]
  by (simp add: write_streamed_def create_file_def append_file_def place_blob_def rename_file_def fs_put_def
      fs_del_def fs_get_def andthen_def Let_def)

lemma one_file_shape: "blob_path root (last dest) = Some dest \<Longrightarrow> store_shape root [(dest, c)]"
  by (simp add: store_shape_def tree_like_def below_def)

theorem scan_removes_blob_of_pending_upload_witness:
  "\<exists>w s1 r s3. put_store (sample_server 1000) sample_req writer ''acme'' [Inr long_body] fresh_app = (Ok w, s1) \<and>
     put_commit (sample_server 1000) sample_req writer Sstate ''e'' w
       (snd (on_sys (orphan_scan sample_env sample_root False) s1)) = (Ok r, s3) \<and>
     rs_status r = 201 \<and> blob_file sample_root (w_hash w) (sys_fs (ap_sys s3)) = None"
proof -
  let ?sv = "sample_server 1000" and ?dest = "sample_root @ [''blobs'', ''aa'', ''aa'', long_hash]"
  let ?w = "\<lparr>w_hash = long_hash, w_size_bytes = 64\<rparr>"
  let ?s1 = "fresh_app\<lparr>ap_sys := (ap_sys fresh_app)\<lparr>sys_fs := [(?dest, long_body)]\<rparr>\<rparr>"
  have len: "length long_body = 64" by (simp add: long_body_def)
  have fs: "sys_fs (ap_sys fresh_app) = []" by (simp add: fresh_app_def)
  have written: "write_streamed (cr_sha256 plain_crypto) (rq_uuid sample_req) None sample_root [Inr long_body] [] =
      (Ok ?w, [(?dest, long_body)])"
    using first_upload_files [of sample_root "cr_sha256 plain_crypto" long_body ?dest] long_hash_facts len by simp
  have store: "put_store ?sv sample_req writer ''acme'' [Inr long_body] fresh_app = (Ok ?w, ?s1)"
    using written by (simp add: put_store_def ensure_project_def on_sys_def on_fs_def fs)
  have shape: "store_shape (sv_root ?sv) (sys_fs (ap_sys ?s1))"
    using one_file_shape [of sample_root ?dest long_body] long_hash_facts(4) by simp
  have faults: "\<forall>p. ge_walk sample_env p = None" "\<forall>h. ge_unlink sample_env h = None" by (simp_all add: sample_env_def)
  have norows: "row_hashes fresh_db = {}" by (simp add: fresh_db_def row_hashes_def)
  have purged: "purge {} d = d" for d :: db by (simp add: purge_def)
  let ?s2 = "snd (on_sys (orphan_scan sample_env sample_root False) ?s1)"
  have db2: "sys_db (ap_sys ?s2) = fresh_db"
    using orphan_scan_real [OF shape faults(1)] norows
    by (auto simp: on_sys_def fresh_db_facts(4) purged)
  have "\<exists>s3. put_commit ?sv sample_req writer Sstate ''e'' ?w ?s2 =
      (Ok \<lparr>rs_status = 201, rs_headers = [(''etag'', quoted long_hash)], rs_body = BEmpty\<rparr>, s3)"
    using put_commit_Ok [of ?s2 writer ?w ?sv sample_req Sstate "''e''"] fresh_db_facts long_hash_facts(3) by (simp add: db2)
  then obtain s3 where commit: "put_commit ?sv sample_req writer Sstate ''e'' ?w ?s2 =
      (Ok \<lparr>rs_status = 201, rs_headers = [(''etag'', quoted long_hash)], rs_body = BEmpty\<rparr>, s3)" by blast
  have wf: "wf_db (sys_db (ap_sys fresh_app))" by (simp add: fresh_db_facts)
  have new: "w_hash ?w \<notin> row_hashes (sys_db (ap_sys fresh_app))" by (simp add: fresh_db_facts norows)
  have name: "is_blob_name (w_hash ?w)" by (simp add: long_hash_facts)
  have commit': "put_commit ?sv sample_req writer Sstate ''e'' ?w
      (snd (on_sys (orphan_scan sample_env (sv_root ?sv) False) ?s1)) =
      (Ok \<lparr>rs_status = 201, rs_headers = [(''etag'', quoted long_hash)], rs_body = BEmpty\<rparr>, s3)"
    using commit by simp
  from scan_removes_blob_of_pending_upload [OF wf store new name shape faults commit', of sample_req] store commit
  show ?thesis by auto
qed



end
