(* ===== verification/Threads.thy ===== *)
theory Threads
  imports Core_Error
begin

text \<open>
  What the asynchronous runtime makes of the code: a task is a sequence of atomic steps, cut at the
  points where it may yield. Here are the steps a task has left (\<open>thread\<close>), the operators the
  handlers are written with, what a task does when it runs alone (\<open>run\<close>), a pool of tasks over
  one state with the collector's mutex (\<open>thread_step\<close>), and rely-guarantee reasoning about it.
\<close>

section \<open>Threads\<close>

text \<open>
  \<open>Atomic\<close> is a step on the shared state that nothing interrupts, \<open>Lock\<close> is
  \<open>self.running.lock().await\<close>, \<open>Unlock\<close> is the drop of the guard it returned.
\<close>

datatype ('s, 'r) thread =
    Return 'r
  | Atomic "'s \<Rightarrow> ('s, 'r) thread \<times> 's"
  | Lock "('s, 'r) thread"
  | Unlock "('s, 'r) thread"

primrec continue :: "('s, 'a) thread \<Rightarrow> ('a \<Rightarrow> ('s, 'b) thread) \<Rightarrow> ('s, 'b) thread" where
  "continue (Return r) f = f r"
| "continue (Atomic k) f = Atomic (\<lambda>s. map_prod (\<lambda>p. continue p f) id (k s))"
| "continue (Lock p) f = Lock (continue p f)"
| "continue (Unlock p) f = Unlock (continue p f)"

text \<open>Structural induction, with the steps that may follow an atomic step written out.\<close>

lemma thread_steps_induct [case_names Return Atomic Lock Unlock]:
  assumes "\<And>r. P (Return r)" and "\<And>k. (\<And>s. P (fst (k s))) \<Longrightarrow> P (Atomic k)"
    and "\<And>p. P p \<Longrightarrow> P (Lock p)" and "\<And>p. P p \<Longrightarrow> P (Unlock p)"
  shows "P p"
proof (induction p)
  case (Atomic k)
  have "P (fst (k s))" for s
    by (rule Atomic [OF rangeI]) (simp add: prod_set_defs)
  then show ?case by (rule assms(2))
qed (rule assms; assumption?)+

text \<open>One operation as one step, and sequencing with \<open>?\<close>.\<close>

definition act :: "('s, 'a) op \<Rightarrow> ('s, 'a outcome) thread" where
  "act m = Atomic (\<lambda>s. let (r, s') = m s in (Return r, s'))"

definition next_ok :: "('a \<Rightarrow> ('s, 'b outcome) thread) \<Rightarrow> 'a outcome \<Rightarrow> ('s, 'b outcome) thread" where
  "next_ok f r = (case r of Ok a \<Rightarrow> f a | Err e \<Rightarrow> Return (Err e) | Panic \<Rightarrow> Return Panic)"

definition seq ::
  "('s, 'a outcome) thread \<Rightarrow> ('a \<Rightarrow> ('s, 'b outcome) thread) \<Rightarrow> ('s, 'b outcome) thread" where
  "seq p f = continue p (next_ok f)"

definition give :: "'a \<Rightarrow> ('s, 'a outcome) thread" where
  "give a = Return (Ok a)"

primrec each :: "('x \<Rightarrow> 'r \<Rightarrow> ('s, 'r outcome) thread) \<Rightarrow> 'x list \<Rightarrow> 'r \<Rightarrow> ('s, 'r outcome) thread" where
  "each f [] r = give r"
| "each f (x # xs) r = seq (f x r) (each f xs)"

text \<open>\<open>let _g = self.running.lock().await;\<close> at the start of a function: the guard lives until it returns.\<close>

definition locked :: "('s, 'r) thread \<Rightarrow> ('s, 'r) thread" where
  "locked p = Lock (continue p (\<lambda>r. Unlock (Return r)))"

section \<open>A thread alone\<close>

primrec run :: "('s, 'r) thread \<Rightarrow> 's \<Rightarrow> 'r \<times> 's" where
  "run (Return r) = (\<lambda>s. (r, s))"
| "run (Atomic k) = (\<lambda>s. case map_prod run id (k s) of (go, s') \<Rightarrow> go s')"
| "run (Lock p) = run p"
| "run (Unlock p) = run p"

named_theorems run_simps \<open>what threads do alone\<close>

lemma run_continue: "run (continue p f) s = (case run p s of (r, s') \<Rightarrow> run (f r) s')"
  by (induction p arbitrary: s rule: thread_steps_induct) (simp_all add: case_prod_beta)

lemma run_act [run_simps]: "run (act m) = m"
  by (rule ext) (simp add: act_def split: prod.split)

lemma run_give [run_simps]: "run (give a) = ret a"
  by (rule ext) (simp add: give_def)

lemma run_seq [run_simps]: "run (seq p f) = andthen (run p) (\<lambda>a. run (f a))"
proof
  fix s
  show "run (seq p f) s = andthen (run p) (\<lambda>a. run (f a)) s"
    by (cases "run p s"; cases "fst (run p s)")
       (simp_all add: seq_def next_ok_def run_continue andthen_def)
qed

lemma run_each [run_simps]: "run (each f xs r) = foreach (\<lambda>x r. run (f x r)) xs r"
proof (induction xs arbitrary: r)
  case Nil
  then show ?case by (simp add: run_give)
next
  case (Cons x xs)
  have "(\<lambda>r. run (each f xs r)) = foreach (\<lambda>x r. run (f x r)) xs" using Cons by (rule ext)
  then show ?case by (simp add: run_seq)
qed

lemma run_locked [run_simps]: "run (locked p) = run p"
  by (rule ext) (simp add: locked_def run_continue split: prod.split)

lemma continue_Return [simp]: "continue p Return = p"
  by (induction p rule: thread_steps_induct) (simp_all add: map_prod_def case_prod_beta)

lemma continue_assoc: "continue (continue p f) g = continue p (\<lambda>r. continue (f r) g)"
  by (induction p rule: thread_steps_induct) (simp_all add: map_prod_def case_prod_beta)

section \<open>Pools\<close>

text \<open>
  Tasks by number, each with the job it was started for; a task that was dropped is \<open>None\<close>, one that has
  returned keeps its result. \<open>po_holder\<close> is the task that holds the mutex.
\<close>

record ('j, 's, 'r) pool =
  po_threads :: "('j \<times> ('s, 'r) thread option) list"
  po_holder :: "nat option"
  po_state :: 's

text \<open>
  One step of task \<open>i\<close>: an atomic step, the mutex is taken where it is free, the guard is dropped, or the
  task itself is dropped at a point where it waits, and its guard with it.
\<close>

inductive thread_step :: "nat \<Rightarrow> ('j, 's, 'r) pool \<Rightarrow> ('j, 's, 'r) pool \<Rightarrow> bool" for i where
  step_atomic: "\<lbrakk>i < length ts; ts ! i = (j, Some (Atomic k)); k s = (p, s')\<rbrakk> \<Longrightarrow>
    thread_step i \<lparr>po_threads = ts, po_holder = h, po_state = s\<rparr>
      \<lparr>po_threads = ts[i := (j, Some p)], po_holder = h, po_state = s'\<rparr>"
| step_lock: "\<lbrakk>i < length ts; ts ! i = (j, Some (Lock p))\<rbrakk> \<Longrightarrow>
    thread_step i \<lparr>po_threads = ts, po_holder = None, po_state = s\<rparr>
      \<lparr>po_threads = ts[i := (j, Some p)], po_holder = Some i, po_state = s\<rparr>"
| step_unlock: "\<lbrakk>i < length ts; ts ! i = (j, Some (Unlock p))\<rbrakk> \<Longrightarrow>
    thread_step i \<lparr>po_threads = ts, po_holder = Some i, po_state = s\<rparr>
      \<lparr>po_threads = ts[i := (j, Some p)], po_holder = None, po_state = s\<rparr>"
| step_drop: "\<lbrakk>i < length ts; ts ! i = (j, Some p)\<rbrakk> \<Longrightarrow>
    thread_step i \<lparr>po_threads = ts, po_holder = h, po_state = s\<rparr>
      \<lparr>po_threads = ts[i := (j, None)], po_holder = (if h = Some i then None else h), po_state = s\<rparr>"

inductive_cases thread_stepE: "thread_step i c c'"

section \<open>Rely and guarantee\<close>

text \<open>
  \<open>safe R G Q p s\<close>: from \<open>s\<close>, with steps of others that satisfy \<open>R\<close> between its own, every step of \<open>p\<close>
  satisfies \<open>G\<close> and what it returns satisfies \<open>Q\<close> in the state it returns in.
\<close>

primrec safe ::
  "('s \<Rightarrow> 's \<Rightarrow> bool) \<Rightarrow> ('s \<Rightarrow> 's \<Rightarrow> bool) \<Rightarrow> ('r \<Rightarrow> 's \<Rightarrow> bool) \<Rightarrow> ('s, 'r) thread \<Rightarrow> 's \<Rightarrow> bool" where
  "safe R G Q (Return r) = Q r"
| "safe R G Q (Atomic k) = (\<lambda>s. case map_prod (safe R G Q) id (k s) of
     (ok, s1) \<Rightarrow> G s s1 \<and> (\<forall>s'. R s1 s' \<longrightarrow> ok s'))"
| "safe R G Q (Lock p) = (\<lambda>s. \<forall>s'. R s s' \<longrightarrow> safe R G Q p s')"
| "safe R G Q (Unlock p) = (\<lambda>s. \<forall>s'. R s s' \<longrightarrow> safe R G Q p s')"

lemma safe_continue:
  assumes "safe R G M p s" and "\<And>r s. M r s \<Longrightarrow> safe R G Q (f r) s"
  shows "safe R G Q (continue p f) s"
  using assms(1)
  by (induction p arbitrary: s rule: thread_steps_induct) (auto simp: assms(2) case_prod_beta)

lemma safe_post:
  assumes "safe R G M p s" and "\<And>r s. M r s \<Longrightarrow> Q r s"
  shows "safe R G Q p s"
  using assms(1)
  by (induction p arbitrary: s rule: thread_steps_induct) (auto simp: assms(2) case_prod_beta)

text \<open>What neither the task nor the others disturb still holds at the end.\<close>

lemma safe_frame:
  assumes "safe R G Q p s" and "X s" and "\<And>s s'. X s \<Longrightarrow> R s s' \<Longrightarrow> X s'" and "\<And>s s'. X s \<Longrightarrow> G s s' \<Longrightarrow> X s'"
  shows "safe R G (\<lambda>r s. Q r s \<and> X s) p s"
  using assms(1,2)
proof (induction p arbitrary: s rule: thread_steps_induct)
  case (Atomic k)
  then have G: "G s (snd (k s))" by (simp add: case_prod_beta)
  from Atomic show ?case
    using assms(3) [OF assms(4) [OF Atomic.prems(2) G]] by (auto simp: case_prod_beta)
qed (use assms(3) in auto)

lemma safe_act:
  assumes "G s (snd (m s))" and "\<And>s'. R (snd (m s)) s' \<Longrightarrow> Q (fst (m s)) s'"
  shows "safe R G Q (act m) s"
  using assms by (simp add: act_def case_prod_beta)

lemma safe_give: "Q (Ok a) s \<Longrightarrow> safe R G Q (give a) s"
  by (simp add: give_def)

lemma safe_seq:
  assumes "safe R G M p s" and "\<And>a s. M (Ok a) s \<Longrightarrow> safe R G Q (f a) s"
    and "\<And>e s. M (Err e) s \<Longrightarrow> Q (Err e) s" and "\<And>s. M Panic s \<Longrightarrow> Q Panic s"
  shows "safe R G Q (seq p f) s"
  unfolding seq_def
  by (rule safe_continue [OF assms(1)]) (auto simp: next_ok_def assms split: outcome.split)

text \<open>A pool in which every task is safe, whatever the others have left to do.\<close>

definition pool_safe ::
  "('j \<Rightarrow> 's \<Rightarrow> 's \<Rightarrow> bool) \<Rightarrow> ('j \<Rightarrow> 's \<Rightarrow> 's \<Rightarrow> bool) \<Rightarrow> ('j \<Rightarrow> 'r \<Rightarrow> 's \<Rightarrow> bool) \<Rightarrow>
   ('j \<Rightarrow> 'j \<Rightarrow> bool) \<Rightarrow> ('j, 's, 'r) pool \<Rightarrow> bool" where
  "pool_safe rely guar post apart c \<longleftrightarrow>
     (\<forall>i j p s. i < length (po_threads c) \<longrightarrow> po_threads c ! i = (j, Some p) \<longrightarrow>
        rely j (po_state c) s \<longrightarrow> safe (rely j) (guar j) (post j) p s) \<and>
     (\<forall>i k. i < length (po_threads c) \<longrightarrow> k < length (po_threads c) \<longrightarrow> i \<noteq> k \<longrightarrow>
        apart (fst (po_threads c ! i)) (fst (po_threads c ! k)))"

locale interference =
  fixes rely guar :: "'j \<Rightarrow> 's \<Rightarrow> 's \<Rightarrow> bool" and apart :: "'j \<Rightarrow> 'j \<Rightarrow> bool"
  assumes rely_refl: "rely j s s"
    and rely_trans: "rely j s s1 \<Longrightarrow> rely j s1 s2 \<Longrightarrow> rely j s s2"
    and guar_refl: "guar j s s"
    and guar_rely: "apart j j' \<Longrightarrow> guar j s s' \<Longrightarrow> rely j' s s'"
begin

lemma pool_safeD:
  "pool_safe rely guar post apart c \<Longrightarrow> i < length (po_threads c) \<Longrightarrow> po_threads c ! i = (j, Some p) \<Longrightarrow>
   rely j (po_state c) s \<Longrightarrow> safe (rely j) (guar j) (post j) p s"
  by (simp add: pool_safe_def)

text \<open>The task that moved is safe in what it left, the others are by its guarantee.\<close>

lemma pool_safe_update:
  assumes safe: "pool_safe rely guar post apart c" and i: "i < length (po_threads c)"
    and job: "fst (po_threads c ! i) = j" and guar: "guar j (po_state c) s'"
    and moved: "case p of None \<Rightarrow> True | Some q \<Rightarrow> \<forall>s. rely j s' s \<longrightarrow> safe (rely j) (guar j) (post j) q s"
  shows "pool_safe rely guar post apart \<lparr>po_threads = (po_threads c)[i := (j, p)], po_holder = h, po_state = s'\<rparr>"
proof -
  have jobs: "fst ((po_threads c)[i := (j, p)] ! k) = fst (po_threads c ! k)" if "k < length (po_threads c)" for k
    using job i that by (cases "k = i") simp_all
  have "safe (rely j') (guar j') (post j') q s"
    if k: "k < length (po_threads c)" "(po_threads c)[i := (j, p)] ! k = (j', Some q)" and s: "rely j' s' s" for k j' q s
  proof (cases "k = i")
    case True
    then show ?thesis using k s moved i by auto
  next
    case False
    then have th: "po_threads c ! k = (j', Some q)" using k by simp
    have "apart (fst (po_threads c ! i)) (fst (po_threads c ! k))"
      using safe i k(1) False unfolding pool_safe_def by blast
    then have "apart j j'" using job th by simp
    then have "rely j' (po_state c) s" using guar_rely [OF _ guar] s rely_trans by blast
    then show ?thesis by (rule pool_safeD [OF safe k(1) th])
  qed
  moreover have "apart (fst ((po_threads c)[i := (j, p)] ! a)) (fst ((po_threads c)[i := (j, p)] ! b))"
    if "a < length (po_threads c)" "b < length (po_threads c)" "a \<noteq> b" for a b
    using safe that unfolding pool_safe_def jobs [OF that(1)] jobs [OF that(2)] by blast
  ultimately show ?thesis unfolding pool_safe_def by simp
qed

lemma step_safe:
  assumes "thread_step i c c'" and "pool_safe rely guar post apart c"
  shows "pool_safe rely guar post apart c' \<and> guar (fst (po_threads c ! i)) (po_state c) (po_state c')"
  using assms
proof (cases rule: thread_step.cases)
  case (step_atomic ts j k s p s' h)
  have "safe (rely j) (guar j) (post j) (Atomic k) s"
    using pool_safeD [OF assms(2), of i j "Atomic k" s] step_atomic rely_refl [of j s] by simp
  then have "guar j s s' \<and> (\<forall>t. rely j s' t \<longrightarrow> safe (rely j) (guar j) (post j) p t)"
    using step_atomic by simp
  then show ?thesis
    using pool_safe_update [OF assms(2), of i j s' "Some p" h] step_atomic by simp
next
  case (step_lock ts j p s)
  have "safe (rely j) (guar j) (post j) p t" if "rely j s t" for t
    using pool_safeD [OF assms(2), of i j "Lock p" s] step_lock rely_refl [of j s] that by simp
  then show ?thesis
    using pool_safe_update [OF assms(2), of i j s "Some p" "Some i"] step_lock guar_refl by simp
next
  case (step_unlock ts j p s)
  have "safe (rely j) (guar j) (post j) p t" if "rely j s t" for t
    using pool_safeD [OF assms(2), of i j "Unlock p" s] step_unlock rely_refl [of j s] that by simp
  then show ?thesis
    using pool_safe_update [OF assms(2), of i j s "Some p" None] step_unlock guar_refl by simp
next
  case (step_drop ts j p h s)
  then show ?thesis
    using pool_safe_update [OF assms(2), of i j s None "if h = Some i then None else h"] guar_refl by simp
qed

text \<open>A new task, apart from those there, which starts from any state the others may leave.\<close>

lemma arrive_safe:
  assumes safe: "pool_safe rely guar post apart c"
    and new: "\<And>s. rely j (po_state c) s \<Longrightarrow> safe (rely j) (guar j) (post j) p s"
    and apart: "\<And>k. k < length (po_threads c) \<Longrightarrow>
      apart (fst (po_threads c ! k)) j \<and> apart j (fst (po_threads c ! k))"
  shows "pool_safe rely guar post apart (c\<lparr>po_threads := po_threads c @ [(j, Some p)]\<rparr>)"
  using assms unfolding pool_safe_def by (auto simp: nth_append less_Suc_eq)

lemma empty_safe: "pool_safe rely guar post apart \<lparr>po_threads = [], po_holder = None, po_state = s\<rparr>"
  by (simp add: pool_safe_def)

end

section \<open>What every step keeps\<close>

text \<open>
  \<open>stepwise I Q p\<close>: every step of \<open>p\<close> keeps \<open>I\<close>, from any state, and what it returns satisfies \<open>Q\<close>. For an
  invariant that no other task can break either, this is all there is to prove.
\<close>

primrec stepwise :: "('s \<Rightarrow> bool) \<Rightarrow> ('r \<Rightarrow> bool) \<Rightarrow> ('s, 'r) thread \<Rightarrow> bool" where
  "stepwise I Q (Return r) = Q r"
| "stepwise I Q (Atomic k) = (\<forall>s. case map_prod (stepwise I Q) id (k s) of (ok, s') \<Rightarrow> (I s \<longrightarrow> I s') \<and> ok)"
| "stepwise I Q (Lock p) = stepwise I Q p"
| "stepwise I Q (Unlock p) = stepwise I Q p"

abbreviation steps_keep :: "('s \<Rightarrow> bool) \<Rightarrow> ('s, 'r) thread \<Rightarrow> bool" where
  "steps_keep I \<equiv> stepwise I (\<lambda>_. True)"

named_theorems stepwise_intros

lemma stepwise_continue:
  "stepwise I M p \<Longrightarrow> (\<And>r. M r \<Longrightarrow> stepwise I Q (f r)) \<Longrightarrow> stepwise I Q (continue p f)"
  by (induction p rule: thread_steps_induct) (auto simp: case_prod_beta)

lemma stepwise_post: "stepwise I M p \<Longrightarrow> (\<And>r. M r \<Longrightarrow> Q r) \<Longrightarrow> stepwise I Q p"
  by (induction p rule: thread_steps_induct) (auto simp: case_prod_beta)

lemma steps_keep_continue: "steps_keep I p \<Longrightarrow> (\<And>r. stepwise I Q (f r)) \<Longrightarrow> stepwise I Q (continue p f)"
  by (rule stepwise_continue)

lemma stepwise_act: "keeps I m \<Longrightarrow> (\<And>s. Q (fst (m s))) \<Longrightarrow> stepwise I Q (act m)"
  by (auto simp: act_def case_prod_beta keeps_def)

lemma stepwise_seq:
  assumes "stepwise I M p" and "\<And>a. M (Ok a) \<Longrightarrow> stepwise I Q (f a)"
    and "\<And>e. M (Err e) \<Longrightarrow> Q (Err e)" and "M Panic \<Longrightarrow> Q Panic"
  shows "stepwise I Q (seq p f)"
  unfolding seq_def
  by (rule stepwise_continue [OF assms(1)]) (auto simp: next_ok_def assms split: outcome.split)

lemma steps_keep_basic [stepwise_intros]: "steps_keep I (Return r)" "steps_keep I (give a)"
  by (simp_all add: give_def)

lemma steps_keep_seq [stepwise_intros]: "steps_keep I p \<Longrightarrow> (\<And>a. steps_keep I (f a)) \<Longrightarrow> steps_keep I (seq p f)"
  by (rule stepwise_seq) simp_all

lemma steps_keep_each [stepwise_intros]:
  "(\<And>x r. x \<in> set xs \<Longrightarrow> steps_keep I (f x r)) \<Longrightarrow> steps_keep I (each f xs r)"
  by (induction xs arbitrary: r) (auto intro: stepwise_intros)

lemma steps_keep_locked [stepwise_intros]: "steps_keep I p \<Longrightarrow> steps_keep I (locked p)"
  unfolding locked_def by (auto intro: stepwise_continue)

definition pool_keeps :: "('s \<Rightarrow> bool) \<Rightarrow> ('j, 's, 'r) pool \<Rightarrow> bool" where
  "pool_keeps I c \<longleftrightarrow> I (po_state c) \<and> (\<forall>j p. (j, Some p) \<in> set (po_threads c) \<longrightarrow> steps_keep I p)"

lemma step_pool_keeps:
  assumes "thread_step i c c'" and "pool_keeps I c"
  shows "pool_keeps I c'"
proof -
  have moved: "pool_keeps I \<lparr>po_threads = (po_threads c)[i := (j, p)], po_holder = h, po_state = s\<rparr>"
    if "I s" "case p of None \<Rightarrow> True | Some q \<Rightarrow> steps_keep I q" for j p h s
    using assms(2) that set_update_subset_insert [of "po_threads c" i "(j, p)"]
    by (auto simp: pool_keeps_def)
  have at: "steps_keep I p" if "i < length (po_threads c)" "po_threads c ! i = (j, Some p)" for j p
    using assms(2) that nth_mem [of i "po_threads c"] by (auto simp: pool_keeps_def)
  have here: "I (po_state c)" using assms(2) by (simp add: pool_keeps_def)
  from assms(1) show ?thesis
  proof (cases rule: thread_step.cases)
    case (step_atomic ts j k s p s' h)
    have "steps_keep I (Atomic k)" using at [of j "Atomic k"] step_atomic by simp
    then have "(I s \<longrightarrow> I s') \<and> steps_keep I p" using step_atomic(5) by (auto dest: spec [of _ s])
    then show ?thesis using moved [of s' "Some p" j h] step_atomic here by simp
  next
    case (step_lock ts j p s)
    then show ?thesis using moved [of s "Some p" j "Some i"] at [of j "Lock p"] here by simp
  next
    case (step_unlock ts j p s)
    then show ?thesis using moved [of s "Some p" j None] at [of j "Unlock p"] here by simp
  next
    case (step_drop ts j p h s)
    then show ?thesis using moved [of s None j "if h = Some i then None else h"] here by simp
  qed
qed

section \<open>Discipline of the mutex\<close>

text \<open>
  \<open>disciplined quiet e p h\<close>: \<open>p\<close>, started with the mutex held or not (\<open>h\<close>), takes it only when it does
  not hold it, releases it only when it does, returns as \<open>e\<close> says, and its steps without the mutex
  satisfy \<open>quiet\<close>.
\<close>

primrec disciplined :: "('s \<Rightarrow> 's \<Rightarrow> bool) \<Rightarrow> bool \<Rightarrow> ('s, 'r) thread \<Rightarrow> bool \<Rightarrow> bool" where
  "disciplined quiet e (Return r) = (\<lambda>h. h = e)"
| "disciplined quiet e (Atomic k) = (\<lambda>h. \<forall>s. case map_prod (disciplined quiet e) id (k s) of
     (ok, s') \<Rightarrow> (h \<or> quiet s s') \<and> ok h)"
| "disciplined quiet e (Lock p) = (\<lambda>h. \<not> h \<and> disciplined quiet e p True)"
| "disciplined quiet e (Unlock p) = (\<lambda>h. h \<and> disciplined quiet e p False)"

named_theorems disciplined_intros

lemma disciplined_continue:
  assumes "disciplined quiet e p h" and "\<And>r. disciplined quiet e' (f r) e"
  shows "disciplined quiet e' (continue p f) h"
  using assms(1)
  by (induction p arbitrary: h rule: thread_steps_induct) (auto simp: assms(2) case_prod_beta)

lemma disciplined_Return [disciplined_intros]: "disciplined quiet h (Return r) h"
  by simp

lemma disciplined_give [disciplined_intros]: "disciplined quiet h (give a) h"
  by (simp add: give_def)

lemma disciplined_seq [disciplined_intros]:
  "disciplined quiet h p h \<Longrightarrow> (\<And>a. disciplined quiet h (f a) h) \<Longrightarrow> disciplined quiet h (seq p f) h"
  unfolding seq_def by (rule disciplined_continue) (auto simp: next_ok_def split: outcome.split)

lemma disciplined_each [disciplined_intros]:
  "(\<And>x r. x \<in> set xs \<Longrightarrow> disciplined quiet h (f x r) h) \<Longrightarrow> disciplined quiet h (each f xs r) h"
  by (induction xs arbitrary: r) (auto intro: disciplined_intros)

lemma disciplined_act: "(\<And>s. h \<or> quiet s (snd (m s))) \<Longrightarrow> disciplined quiet h (act m) h"
  by (auto simp: act_def case_prod_beta)

lemma disciplined_act_held [disciplined_intros]: "disciplined quiet True (act m) True"
  by (simp add: disciplined_act)

lemma disciplined_locked [disciplined_intros]:
  "disciplined quiet True p True \<Longrightarrow> disciplined quiet False (locked p) False"
  by (auto simp: locked_def intro: disciplined_continue)

text \<open>In a pool of such tasks the one that holds the mutex is the holder.\<close>

definition pool_disciplined :: "('s \<Rightarrow> 's \<Rightarrow> bool) \<Rightarrow> ('j, 's, 'r) pool \<Rightarrow> bool" where
  "pool_disciplined quiet c \<longleftrightarrow>
     (\<forall>i j p. i < length (po_threads c) \<longrightarrow> po_threads c ! i = (j, Some p) \<longrightarrow>
        disciplined quiet False p (po_holder c = Some i)) \<and>
     (\<forall>i. po_holder c = Some i \<longrightarrow> i < length (po_threads c))"

lemma pool_disciplined_update:
  assumes "pool_disciplined quiet c" and "i < length (po_threads c)"
    and "case p of None \<Rightarrow> h \<noteq> Some i | Some q \<Rightarrow> disciplined quiet False q (h = Some i)"
    and "h = po_holder c \<or> (h = None \<and> po_holder c = Some i) \<or> (h = Some i \<and> po_holder c = None)"
  shows "pool_disciplined quiet \<lparr>po_threads = (po_threads c)[i := (j, p)], po_holder = h, po_state = s\<rparr>"
proof -
  have "disciplined quiet False q (h = Some k)"
    if k: "k < length (po_threads c)" "(po_threads c)[i := (j, p)] ! k = (j', Some q)" for k j' q
  proof (cases "k = i")
    case True
    then show ?thesis using k assms(2,3) by auto
  next
    case False
    then have "disciplined quiet False q (po_holder c = Some k)"
      using assms(1) k unfolding pool_disciplined_def by auto
    moreover have "(h = Some k) = (po_holder c = Some k)" using assms(4) False by auto
    ultimately show ?thesis by simp
  qed
  then show ?thesis using assms(1,2,4) unfolding pool_disciplined_def by auto
qed

lemma step_disciplined:
  assumes "thread_step i c c'" and disc: "pool_disciplined quiet c"
  shows "pool_disciplined quiet c' \<and> (quiet (po_state c) (po_state c') \<or> po_state c' = po_state c \<or> po_holder c = Some i)"
proof -
  have at: "disciplined quiet False p (po_holder c = Some i)"
    if "i < length (po_threads c)" "po_threads c ! i = (j, Some p)" for j p
    using disc that unfolding pool_disciplined_def by blast
  from assms(1) show ?thesis
  proof (cases rule: thread_step.cases)
    case (step_atomic ts j k s p s' h)
    have "disciplined quiet False (Atomic k) (h = Some i)"
      using at [of j "Atomic k"] step_atomic(1,3,4) by simp
    then have "(h = Some i \<or> quiet s s') \<and> disciplined quiet False p (h = Some i)"
      using step_atomic(5) by (auto dest: spec [of _ s])
    then show ?thesis
      using pool_disciplined_update [OF disc, where i = i and p = "Some p" and h = h and j = j and s = s'] step_atomic(1-3) by auto
  next
    case (step_lock ts j p s)
    then show ?thesis
      using pool_disciplined_update [OF disc, where i = i and p = "Some p" and h = "Some i" and j = j and s = s] at [of j "Lock p"] by simp
  next
    case (step_unlock ts j p s)
    then show ?thesis
      using pool_disciplined_update [OF disc, where i = i and p = "Some p" and h = None and j = j and s = s] at [of j "Unlock p"] by simp
  next
    case (step_drop ts j p h s)
    then show ?thesis
      using pool_disciplined_update [OF disc, where i = i and p = None and h = "if h = Some i then None else h" and j = j and s = s] by auto
  qed
qed

lemma arrive_disciplined:
  "pool_disciplined quiet c \<Longrightarrow> disciplined quiet False p False \<Longrightarrow>
   pool_disciplined quiet (c\<lparr>po_threads := po_threads c @ [(j, Some p)]\<rparr>)"
  unfolding pool_disciplined_def by (force simp: nth_append less_Suc_eq)

section \<open>A task that is scheduled alone\<close>

text \<open>\<open>lock_free p\<close>: no step of \<open>p\<close> concerns the mutex.\<close>

primrec lock_free :: "('s, 'r) thread \<Rightarrow> bool" where
  "lock_free (Return r) = True"
| "lock_free (Atomic k) = (\<forall>s. fst (map_prod lock_free id (k s)))"
| "lock_free (Lock p) = False"
| "lock_free (Unlock p) = False"

named_theorems lock_free_intros

lemma lock_free_continue: "lock_free p \<Longrightarrow> (\<And>r. lock_free (f r)) \<Longrightarrow> lock_free (continue p f)"
  by (induction p rule: thread_steps_induct) (auto simp: case_prod_beta)

lemma lock_free_act [lock_free_intros]: "lock_free (act m)"
  by (simp add: act_def case_prod_beta)

lemma lock_free_simple [lock_free_intros]: "lock_free (Return r)" "lock_free (give a)"
  by (simp_all add: give_def)

lemma lock_free_seq [lock_free_intros]: "lock_free p \<Longrightarrow> (\<And>a. lock_free (f a)) \<Longrightarrow> lock_free (seq p f)"
  unfolding seq_def by (rule lock_free_continue) (auto simp: next_ok_def split: outcome.split)

lemma lock_free_each [lock_free_intros]:
  "(\<And>x r. x \<in> set xs \<Longrightarrow> lock_free (f x r)) \<Longrightarrow> lock_free (each f xs r)"
  by (induction xs arbitrary: r) (auto intro: lock_free_intros)

lemma lock_free_disciplined: "lock_free p \<Longrightarrow> disciplined quiet True p True"
  by (induction p rule: thread_steps_induct) (auto simp: case_prod_beta)

text \<open>From any point on, the scheduler may let one task do a lock-free part of its work undisturbed.\<close>

lemma scheduled_alone:
  assumes "lock_free p" and "i < length ts"
  shows "(thread_step i)\<^sup>*\<^sup>*
      \<lparr>po_threads = ts[i := (j, Some (continue p f))], po_holder = h, po_state = s\<rparr>
      \<lparr>po_threads = ts[i := (j, Some (f (fst (run p s))))], po_holder = h, po_state = snd (run p s)\<rparr>"
  using assms(1)
proof (induction p arbitrary: s rule: thread_steps_induct)
  case (Atomic k)
  obtain q s1 where k: "k s = (q, s1)" by fastforce
  have "thread_step i \<lparr>po_threads = ts[i := (j, Some (continue (Atomic k) f))], po_holder = h, po_state = s\<rparr>
      \<lparr>po_threads = (ts[i := (j, Some (continue (Atomic k) f))])[i := (j, Some (continue q f))], po_holder = h, po_state = s1\<rparr>"
    using step_atomic [of i "ts[i := (j, Some (continue (Atomic k) f))]" j _ s "continue q f" s1 h] assms(2) k
    by simp
  moreover have "(thread_step i)\<^sup>*\<^sup>*
      \<lparr>po_threads = ts[i := (j, Some (continue q f))], po_holder = h, po_state = s1\<rparr>
      \<lparr>po_threads = ts[i := (j, Some (f (fst (run q s1))))], po_holder = h, po_state = snd (run q s1)\<rparr>"
    using Atomic.IH [of s s1] Atomic.prems k by (auto dest: spec [of _ s])
  ultimately show ?case
    using k by (auto intro: converse_rtranclp_into_rtranclp)
qed simp_all

text \<open>The whole of its work, if the mutex is free when it starts.\<close>

lemma scheduled_to_end:
  assumes "disciplined quiet e p held" and "i < length ts"
  shows "(thread_step i)\<^sup>*\<^sup>*
      \<lparr>po_threads = ts[i := (j, Some p)], po_holder = (if held then Some i else None), po_state = s\<rparr>
      \<lparr>po_threads = ts[i := (j, Some (Return (fst (run p s))))], po_holder = (if e then Some i else None),
       po_state = snd (run p s)\<rparr>"
  using assms(1)
proof (induction p arbitrary: s held rule: thread_steps_induct)
  case (Atomic k)
  obtain q s1 where k: "k s = (q, s1)" by fastforce
  have "thread_step i \<lparr>po_threads = ts[i := (j, Some (Atomic k))], po_holder = (if held then Some i else None), po_state = s\<rparr>
      \<lparr>po_threads = ts[i := (j, Some q)], po_holder = (if held then Some i else None), po_state = s1\<rparr>"
    using step_atomic [of i "ts[i := (j, Some (Atomic k))]" j k s q s1 "if held then Some i else None"] assms(2) k
    by simp
  moreover have "disciplined quiet e q held" using Atomic.prems k by (auto dest: spec [of _ s])
  ultimately show ?case
    using Atomic.IH [of s held s1] k by (auto intro: converse_rtranclp_into_rtranclp)
next
  case (Lock p)
  have "thread_step i \<lparr>po_threads = ts[i := (j, Some (Lock p))], po_holder = None, po_state = s\<rparr>
      \<lparr>po_threads = ts[i := (j, Some p)], po_holder = Some i, po_state = s\<rparr>"
    using step_lock [of i "ts[i := (j, Some (Lock p))]" j p s] assms(2) by simp
  then show ?case
    using Lock.IH [of True s] Lock.prems by (auto intro: converse_rtranclp_into_rtranclp)
next
  case (Unlock p)
  have "thread_step i \<lparr>po_threads = ts[i := (j, Some (Unlock p))], po_holder = Some i, po_state = s\<rparr>
      \<lparr>po_threads = ts[i := (j, Some p)], po_holder = None, po_state = s\<rparr>"
    using step_unlock [of i "ts[i := (j, Some (Unlock p))]" j p s] assms(2) by simp
  then show ?case
    using Unlock.IH [of False s] Unlock.prems by (auto intro: converse_rtranclp_into_rtranclp)
qed simp

end
