(* ===== verification/Server_Threads.thy ===== *)
theory Server_Threads
  imports Server Threads
begin

text \<open>
  The handlers and background tasks of the server as threads: the same code as in \<open>Storage\<close>, \<open>Auth\<close>,
  \<open>Yocto_Routes\<close>, \<open>Admin_Routes\<close>, \<open>Gc\<close> and \<open>Gc_Orphans\<close>, cut at every statement on the database and at
  every call on the file system, so that other tasks may run in between. A statement or a
  transaction is one step, since SQLite's transactions are serializable; so is a call on the file system.
\<close>

section \<open>Steps on the parts of the state\<close>

abbreviation db_act :: "(db, 'a) op \<Rightarrow> (app, 'a outcome) thread" where
  "db_act m \<equiv> act (on_app_db m)"

abbreviation sys_act :: "(sys, 'a) op \<Rightarrow> (app, 'a outcome) thread" where
  "sys_act m \<equiv> act (on_sys m)"

abbreviation fs_act :: "(fs, 'a) op \<Rightarrow> (app, 'a outcome) thread" where
  "fs_act m \<equiv> act (on_sys (on_fs m))"

section \<open>The blob store\<close>

fun stream_body_t ::
  "path \<Rightarrow> (io_error + bytes) list \<Rightarrow> bytes \<Rightarrow> int \<Rightarrow> (app, (bytes \<times> int) outcome) thread" where
  "stream_body_t tmp [] hasher running = give (hasher, running)"
| "stream_body_t tmp (Inl e # body) hasher running = Return (Err (Io e))"
| "stream_body_t tmp (Inr chunk # body) hasher running =
     seq (fs_act (append_file tmp chunk))
       (\<lambda>_. stream_body_t tmp body (hasher @ chunk) (running + int (length chunk)))"

text \<open>\<open>dest.exists()\<close> is a call of its own: what it saw may have changed when the next one runs.\<close>

definition rename_step :: "io_error option \<Rightarrow> path \<Rightarrow> path \<Rightarrow> (fs, unit) op" where
  "rename_step rename_fault tmp dest = (\<lambda>files.
     case rename_fault of
       Some e \<Rightarrow>
         (Err (Io (IoError (io_error_kind e)
            (''rename to '' @ display_path dest @ '': '' @ io_error_msg e))), files)
     | None \<Rightarrow> (Ok (), rename_file tmp dest files))"

definition place_blob_t :: "io_error option \<Rightarrow> path \<Rightarrow> path \<Rightarrow> (app, unit outcome) thread" where
  "place_blob_t rename_fault tmp dest =
     seq (fs_act (query (\<lambda>files. Ok (fs_get files dest \<noteq> None)))) (\<lambda>exists.
     if exists then fs_act (\<lambda>files. (Ok (), fs_del tmp files))
     else fs_act (rename_step rename_fault tmp dest))"

definition write_streamed_t ::
  "(bytes \<Rightarrow> string) \<Rightarrow> string \<Rightarrow> io_error option \<Rightarrow> path \<Rightarrow> (io_error + bytes) list \<Rightarrow>
   (app, written outcome) thread" where
  "write_streamed_t sha256 uuid rename_fault root body =
     (let tmp = tmp_path root uuid in
      seq (fs_act (create_file tmp)) (\<lambda>_.
      seq (stream_body_t tmp body [] 0) (\<lambda>(hasher, running).
      let hash = sha256 hasher in
      case blob_path root hash of
        None \<Rightarrow> Return Panic
      | Some dest \<Rightarrow>
          seq (place_blob_t rename_fault tmp dest) (\<lambda>_.
          give \<lparr>w_hash = hash, w_size_bytes = running\<rparr>))))"

section \<open>The collector\<close>

definition gc_delete_t :: "bool \<Rightarrow> int \<Rightarrow> int \<Rightarrow> (app, unit outcome) thread" where
  "gc_delete_t dry_run project_id i =
     (if dry_run then give () else db_act (entries_delete project_id i))"

definition evict_row_t ::
  "bool \<Rightarrow> int \<times> int \<times> int \<Rightarrow> gc_report \<Rightarrow> (app, gc_report outcome) thread" where
  "evict_row_t dry_run = (\<lambda>(i, project_id, size_bytes) rep.
     seq (gc_delete_t dry_run project_id i) (\<lambda>_. give (count_evicted size_bytes rep)))"

definition ttl_kind_t ::
  "gc_env \<Rightarrow> gc_config \<Rightarrow> bool \<Rightarrow> kind \<Rightarrow> gc_report \<Rightarrow> (app, gc_report outcome) thread" where
  "ttl_kind_t env cfg dry_run kind rep =
     (let cutoff_default = wrap_i64 (ge_now env - default_secs cfg kind) in
      seq (sys_act (query (\<lambda>s. Ok (map candidate
             (ttl_rows (ge_entry_rank env) (ge_now env) cutoff_default kind (sys_db s))))))
        (\<lambda>candidates. each (evict_row_t dry_run) candidates rep))"

definition ttl_phase_t ::
  "gc_env \<Rightarrow> gc_config \<Rightarrow> bool \<Rightarrow> gc_report \<Rightarrow> (app, gc_report outcome) thread" where
  "ttl_phase_t env cfg dry_run = each (ttl_kind_t env cfg dry_run) [Sstate, Downloads]"

fun evict_until_t ::
  "bool \<Rightarrow> int \<Rightarrow> (int \<times> int \<times> int) list \<Rightarrow> int \<Rightarrow> gc_report \<Rightarrow> (app, gc_report outcome) thread" where
  "evict_until_t dry_run quota [] usage rep = give rep"
| "evict_until_t dry_run quota ((i, project_id, size_bytes) # rows) usage rep =
     (if usage \<le> quota then give rep
      else
        seq (gc_delete_t dry_run project_id i) (\<lambda>_.
        evict_until_t dry_run quota rows (wrap_i64 (usage - size_bytes))
          (count_evicted size_bytes rep)))"

definition quota_project_t :: "bool \<Rightarrow> project \<Rightarrow> gc_report \<Rightarrow> (app, gc_report outcome) thread" where
  "quota_project_t dry_run p rep =
     (case p_quota_bytes p of
        None \<Rightarrow> give rep
      | Some quota \<Rightarrow>
          seq (db_act (project_usage (p_id p))) (\<lambda>usage.
          if usage \<le> quota then give rep
          else
            seq (sys_act (query (\<lambda>s. Ok (map candidate (lru_order
                   (filter (\<lambda>e. e_project_id e = p_id p \<and> \<not> e_pinned e) (db_entries (sys_db s))))))))
              (\<lambda>to_evict. evict_until_t dry_run quota to_evict usage rep)))"

definition quota_phase_t :: "bool \<Rightarrow> gc_report \<Rightarrow> (app, gc_report outcome) thread" where
  "quota_phase_t dry_run rep =
     seq (db_act projects_list) (\<lambda>projects. each (quota_project_t dry_run) projects rep)"

definition global_phase_t :: "gc_config \<Rightarrow> bool \<Rightarrow> gc_report \<Rightarrow> (app, gc_report outcome) thread" where
  "global_phase_t cfg dry_run rep =
     seq (db_act total_size) (\<lambda>usage.
     let quota = as_i64 (global_quota_bytes cfg) in
     if usage \<le> quota then give rep
     else
       seq (sys_act (query (\<lambda>s. Ok (map candidate (lru_order
              (filter (\<lambda>e. \<not> e_pinned e) (db_entries (sys_db s))))))))
         (\<lambda>candidates. evict_until_t dry_run quota candidates usage rep))"

definition free_blob_t ::
  "gc_env \<Rightarrow> path \<Rightarrow> bool \<Rightarrow> string \<Rightarrow> gc_report \<Rightarrow> (app, gc_report outcome) thread" where
  "free_blob_t env root dry_run hash rep =
     seq (if dry_run then give ()
          else seq (sys_act (unlink_logged env root hash)) (\<lambda>_. db_act (blobs_delete hash)))
       (\<lambda>_. give (rep\<lparr>freed_blobs := freed_blobs rep + 1\<rparr>))"

text \<open>
  While others upload, the loop may find new rows in every round; \<open>n\<close> bounds the rounds that are
  modelled, and any finite schedule is one of some bound. It panics where the bound is met.
\<close>

primrec cleanup_blobs_t ::
  "nat \<Rightarrow> gc_env \<Rightarrow> path \<Rightarrow> bool \<Rightarrow> gc_report \<Rightarrow> (app, gc_report outcome) thread" where
  "cleanup_blobs_t 0 env root dry_run rep = Return Panic"
| "cleanup_blobs_t (Suc n) env root dry_run rep =
     seq (db_act (zero_refcount (ge_blob_rank env) BATCH)) (\<lambda>batch.
     if batch = [] then give rep
     else
       seq (each (free_blob_t env root dry_run) batch rep) (\<lambda>rep.
       if dry_run then give rep else cleanup_blobs_t n env root dry_run rep))"

definition gc_run_t ::
  "nat \<Rightarrow> gc_env \<Rightarrow> gc_config \<Rightarrow> path \<Rightarrow> bool \<Rightarrow> (app, gc_report outcome) thread" where
  "gc_run_t n env cfg root dry_run = locked
     (seq (ttl_phase_t env cfg dry_run gc_report_default) (\<lambda>rep.
      seq (quota_phase_t dry_run rep) (\<lambda>rep.
      seq (global_phase_t cfg dry_run rep) (\<lambda>rep.
      seq (cleanup_blobs_t n env root dry_run rep) (\<lambda>rep.
      seq (db_act total_size) (\<lambda>usage.
      give (rep\<lparr>usage_global_bytes := usage\<rparr>)))))))"

definition disk_orphan_t ::
  "gc_env \<Rightarrow> path \<Rightarrow> bool \<Rightarrow> string \<Rightarrow> orphan_report \<Rightarrow> (app, orphan_report outcome) thread" where
  "disk_orphan_t env root dry_run h rep =
     seq (if dry_run then give () else sys_act (unlink_logged env root h))
       (\<lambda>_. give (rep\<lparr>disk_orphans_removed := disk_orphans_removed rep + 1\<rparr>))"

definition db_orphan_t :: "bool \<Rightarrow> string \<Rightarrow> orphan_report \<Rightarrow> (app, orphan_report outcome) thread" where
  "db_orphan_t dry_run h rep =
     seq (if dry_run then give () else db_act (purge_row h))
       (\<lambda>_. give (rep\<lparr>db_orphans_removed := db_orphans_removed rep + 1\<rparr>))"

text \<open>
  The walk: a directory is listed at once, every entry of it is looked at when its turn comes. \<open>n\<close> bounds the
  depth, and any tree that a finite schedule builds is within some bound.
\<close>

primrec walk_blobs_t ::
  "nat \<Rightarrow> (path \<Rightarrow> io_error option) \<Rightarrow> path \<Rightarrow> string list \<Rightarrow> (app, string list outcome) thread" where
  "walk_blobs_t 0 faults dir out = Return Panic"
| "walk_blobs_t (Suc n) faults dir out =
     seq (fs_act (query (\<lambda>files.
            case faults dir of Some e \<Rightarrow> Err (Io e) | None \<Rightarrow> Ok (read_dir dir files)))) (\<lambda>names.
     each (\<lambda>name out.
         seq (fs_act (query (\<lambda>files. Ok (is_dir (dir @ [name]) files)))) (\<lambda>is_directory.
         if is_directory then walk_blobs_t n faults (dir @ [name]) out
         else give (if is_blob_name name then List.insert name out else out)))
       names out)"

definition orphan_scan_t ::
  "nat \<Rightarrow> gc_env \<Rightarrow> path \<Rightarrow> bool \<Rightarrow> (app, orphan_report outcome) thread" where
  "orphan_scan_t n env root dry_run = locked
     (seq (fs_act (query (\<lambda>files. Ok (is_dir (blobs_dir root) files)))) (\<lambda>exists.
      seq (if exists then walk_blobs_t n (ge_walk env) (blobs_dir root) [] else give []) (\<lambda>on_disk.
      seq (sys_act (query (\<lambda>s. Ok (remdups (map b_hash (db_blobs (sys_db s))))))) (\<lambda>db_set.
      seq (each (disk_orphan_t env root dry_run)
             (sort_key (ge_blob_rank env) (filter (\<lambda>h. h \<notin> set db_set) on_disk))
             \<lparr>disk_orphans_removed = 0, db_orphans_removed = 0\<rparr>)
        (each (db_orphan_t dry_run)
             (sort_key (ge_blob_rank env) (filter (\<lambda>h. h \<notin> set on_disk) db_set)))))))"

section \<open>Authentication\<close>

text \<open>
  The verification runs on a thread of its own, on values only; it always returns, so there is no panic
  for the join to report.
\<close>

definition verify_argon2_async :: "crypto \<Rightarrow> string \<Rightarrow> string \<Rightarrow> (app, bool outcome) thread" where
  "verify_argon2_async cr secret phc = act (query (\<lambda>_. verify_argon2 cr secret phc))"

text \<open>The cache is a field of the state, given by its selector and its update.\<close>

definition get_or_insert_t ::
  "(app \<Rightarrow> 'v cache) \<Rightarrow> (('v cache \<Rightarrow> 'v cache) \<Rightarrow> app \<Rightarrow> app) \<Rightarrow> 'v moka \<Rightarrow> int \<Rightarrow> string \<Rightarrow> string \<Rightarrow>
   (app, 'v outcome) thread \<Rightarrow> (app, 'v outcome) thread" where
  "get_or_insert_t sel upd moka now scope lookup f =
     (let key = (scope, lookup) in
      seq (act (\<lambda>s. (Ok (moka (sel s) now key), upd (\<lambda>c. c @ [CacheGet now key]) s))) (\<lambda>hit.
      case hit of
        Some v \<Rightarrow> give v
      | None \<Rightarrow>
          seq f (\<lambda>v.
          seq (act (\<lambda>s. (Ok (), upd (\<lambda>c. c @ [CacheInsert now key v]) s))) (\<lambda>_.
          give v))))"

definition check_project_t :: "crypto \<Rightarrow> string \<Rightarrow> string \<Rightarrow> (app, project_auth outcome) thread" where
  "check_project_t cr project_name api_key =
     seq (db_act (query (\<lambda>d. case fst (projects_get_by_name project_name d) of
            Err _ \<Rightarrow> Err Unauthorized | r \<Rightarrow> r))) (\<lambda>p.
     seq (db_act (api_keys_find_active (p_id p) (lookup_hash cr api_key))) (\<lambda>row.
     case row of
       None \<Rightarrow> Return (Err Unauthorized)
     | Some k \<Rightarrow>
         seq (verify_argon2_async cr api_key (k_key_hash k)) (\<lambda>ok.
         if \<not> ok then Return (Err Unauthorized)
         else give \<lparr>pa_project_id = p_id p, pa_project_name = p_name p,
                    pa_api_key_id = k_id k, pa_role = k_role k\<rparr>)))"

definition check_admin_t :: "crypto \<Rightarrow> string \<Rightarrow> (app, admin_auth outcome) thread" where
  "check_admin_t cr token =
     seq (db_act (admin_tokens_find_active (lookup_hash cr token))) (\<lambda>row.
     case row of
       None \<Rightarrow> Return (Err Unauthorized)
     | Some t \<Rightarrow>
         seq (verify_argon2_async cr token (t_token_hash t)) (\<lambda>ok.
         if \<not> ok then Return (Err Unauthorized)
         else give \<lparr>aa_token_id = t_id t, aa_token_label = t_label t\<rparr>))"

definition project_middleware_t ::
  "server \<Rightarrow> req_env \<Rightarrow> (string \<times> string) list \<Rightarrow> (project_auth \<Rightarrow> (app, response option) thread) \<Rightarrow>
   (app, response option) thread" where
  "project_middleware_t sv rq headers handler =
     (case parse_basic sv headers of
        None \<Rightarrow> Return (Some basic_challenge)
      | Some creds \<Rightarrow>
          continue
            (get_or_insert_t ap_project_cache ap_project_cache_update (sv_project_moka sv) (rq_now rq 0)
               (project_scope (ba_user creds)) (lookup_hash (sv_crypto sv) (ba_pass creds))
               (check_project_t (sv_crypto sv) (ba_user creds) (ba_pass creds)))
            (\<lambda>r. case r of
               Ok a \<Rightarrow> handler a
             | Err e \<Rightarrow> Return (Some (if e = Unauthorized then basic_challenge else into_response sv e))
             | Panic \<Rightarrow> Return None))"

definition admin_middleware_t ::
  "server \<Rightarrow> req_env \<Rightarrow> (string \<times> string) list \<Rightarrow> (admin_auth \<Rightarrow> (app, response option) thread) \<Rightarrow>
   (app, response option) thread" where
  "admin_middleware_t sv rq headers handler =
     (case parse_bearer headers of
        None \<Rightarrow> Return (Some bearer_unauthorized)
      | Some token \<Rightarrow>
          continue
            (get_or_insert_t ap_admin_cache ap_admin_cache_update (sv_admin_moka sv) (rq_now rq 0)
               ''admin'' (lookup_hash (sv_crypto sv) token) (check_admin_t (sv_crypto sv) token))
            (\<lambda>r. case r of
               Ok a \<Rightarrow> handler a
             | Err e \<Rightarrow> Return (Some (if e = Unauthorized then bearer_unauthorized else into_response sv e))
             | Panic \<Rightarrow> Return None))"

section \<open>Cache routes\<close>

definition render_t ::
  "server \<Rightarrow> (app, response outcome) thread \<Rightarrow> (app, response option) thread" where
  "render_t sv p = continue p (\<lambda>r. Return
     (case r of Ok r \<Rightarrow> Some r | Err e \<Rightarrow> Some (into_response sv e) | Panic \<Rightarrow> None))"

definition get_one_t ::
  "server \<Rightarrow> req_env \<Rightarrow> project_auth \<Rightarrow> kind \<Rightarrow> string \<Rightarrow> string \<Rightarrow> bool \<Rightarrow> (app, response outcome) thread"
  where
  "get_one_t sv rq auth kind project_in_url path head_only =
     seq (act (ensure_project auth project_in_url)) (\<lambda>_.
     if \<not> allows_read (pa_role auth) then Return (Err (Forbidden ''read''))
     else
       seq (db_act (entries_find (pa_project_id auth) kind path)) (\<lambda>found.
       case found of
         None \<Rightarrow> Return (Err (NotFound (kind_as_str kind @ '' '' @ path)))
       | Some entry \<Rightarrow>
           seq (act (expect_header (dec_int (e_size_bytes entry)))) (\<lambda>content_length.
           seq (act (expect_header (quoted (e_blob_hash entry)))) (\<lambda>etag.
           let headers = [(''content-length'', content_length), (''etag'', etag),
                          (''cache-control'', immutable_header)]
           in if head_only then give \<lparr>rs_status = 200, rs_headers = headers, rs_body = BEmpty\<rparr>
              else
                seq (fs_act (read_blob (rq_open_fault rq) (sv_root sv) (e_blob_hash entry))) (\<lambda>content.
                seq (act (spawn (TouchTask (e_id entry)))) (\<lambda>_.
                seq (act (count_metric CACHE_HITS [kind_as_str kind, pa_project_name auth])) (\<lambda>_.
                give \<lparr>rs_status = 200, rs_headers = headers, rs_body = BBytes content\<rparr>)))))))"

definition read_handler_t ::
  "server \<Rightarrow> req_env \<Rightarrow> kind \<Rightarrow> bool \<Rightarrow> project_auth \<Rightarrow> string \<Rightarrow> string \<Rightarrow> (app, response option) thread"
  where
  "read_handler_t sv rq kind head_only auth project path =
     continue (get_one_t sv rq auth kind project path head_only) (\<lambda>r.
     case r of
       Ok r \<Rightarrow> Return (Some r)
     | Err (NotFound _) \<Rightarrow> render_t sv (act (miss_response auth kind))
     | Err e \<Rightarrow> Return (Some (into_response sv e))
     | Panic \<Rightarrow> Return None)"

definition put_store_t ::
  "server \<Rightarrow> req_env \<Rightarrow> project_auth \<Rightarrow> string \<Rightarrow> (io_error + bytes) list \<Rightarrow> (app, written outcome) thread"
  where
  "put_store_t sv rq auth project_in_url body =
     seq (act (ensure_project auth project_in_url)) (\<lambda>_.
     if \<not> allows_write (pa_role auth) then Return (Err (Forbidden ''write''))
     else write_streamed_t (cr_sha256 (sv_crypto sv)) (rq_uuid rq) (rq_rename_fault rq) (sv_root sv) body)"

definition soft_trigger_t :: "server \<Rightarrow> (app, unit outcome) thread" where
  "soft_trigger_t sv =
     seq (db_act total_size) (\<lambda>total.
     let usage = (if total < 0 then 0 else as_u64 total) in
     if trigger_threshold (cfg_gc (sv_config sv)) < usage then act (spawn GcTask) else give ())"

definition put_commit_t ::
  "server \<Rightarrow> req_env \<Rightarrow> project_auth \<Rightarrow> kind \<Rightarrow> string \<Rightarrow> written \<Rightarrow> (app, response outcome) thread" where
  "put_commit_t sv rq auth kind path w =
     seq (db_act (upsert (rq_now rq 1) (rq_now rq 2) (pa_project_id auth) kind path
            (w_hash w) (w_size_bytes w))) (\<lambda>_.
     seq (db_act (bump (rq_now rq 3) (Some (pa_project_id auth)) ''put'' 1 (w_size_bytes w))) (\<lambda>_.
     seq (soft_trigger_t sv) (\<lambda>_.
     seq (act (expect_header (quoted (w_hash w)))) (\<lambda>etag.
     give \<lparr>rs_status = 201, rs_headers = [(''etag'', etag)], rs_body = BEmpty\<rparr>))))"

definition do_put_t ::
  "server \<Rightarrow> req_env \<Rightarrow> project_auth \<Rightarrow> kind \<Rightarrow> string \<Rightarrow> string \<Rightarrow> (io_error + bytes) list \<Rightarrow>
   (app, response outcome) thread" where
  "do_put_t sv rq auth kind project_in_url path body =
     seq (put_store_t sv rq auth project_in_url body) (put_commit_t sv rq auth kind path)"

definition yocto_handler_t ::
  "server \<Rightarrow> req_env \<Rightarrow> http_method \<Rightarrow> target \<Rightarrow> project_auth \<Rightarrow> (app, response option) thread" where
  "yocto_handler_t sv rq m t auth =
     (case t of
        SstateUrl project path \<Rightarrow>
          (case m of
             GET \<Rightarrow> read_handler_t sv rq Sstate False auth project path
           | HEAD \<Rightarrow> read_handler_t sv rq Sstate True auth project path
           | PUT body \<Rightarrow> render_t sv (do_put_t sv rq auth Sstate project path body))
      | DownloadsUrl project filename \<Rightarrow>
          (case m of
             GET \<Rightarrow> read_handler_t sv rq Downloads False auth project filename
           | HEAD \<Rightarrow> read_handler_t sv rq Downloads True auth project filename
           | PUT body \<Rightarrow> render_t sv (do_put_t sv rq auth Downloads project filename body)))"

section \<open>Admin routes\<close>

definition project_create_t ::
  "server \<Rightarrow> req_env \<Rightarrow> admin_auth \<Rightarrow> string \<Rightarrow> int option \<Rightarrow> int option \<Rightarrow> (app, response outcome) thread" where
  "project_create_t sv rq auth name quota_bytes ttl_seconds =
     seq (db_act (projects_create (rq_now rq 1) name quota_bytes ttl_seconds)) (\<lambda>p.
     seq (act (audit_call sv (rq_now rq 2) auth ''project.create'' (Some (dec_int (p_id p)))
                (Some (VObj [(''name'', VStr (p_name p))])))) (\<lambda>_.
     give (json_response 201 (project_view p))))"

definition project_list_t :: "(app, response outcome) thread" where
  "project_list_t = seq (db_act projects_list) (\<lambda>ps. give (json_response 200 (VArr (map project_view ps))))"

definition project_get_t :: "int \<Rightarrow> (app, response outcome) thread" where
  "project_get_t i = seq (db_act (projects_get i)) (\<lambda>p. give (json_response 200 (project_view p)))"

text \<open>The transaction of \<open>projects().update\<close>; the row is read back by a statement of its own.\<close>

definition update_columns :: "int \<Rightarrow> string option \<Rightarrow> int option option \<Rightarrow> int option option \<Rightarrow> (db, unit) op" where
  "update_columns i new_name quota_bytes ttl_seconds =
     transaction
       (andthen (case new_name of None \<Rightarrow> ret () | Some name \<Rightarrow> rename_project i name) (\<lambda>_.
        andthen
          (case quota_bytes of None \<Rightarrow> ret ()
           | Some q \<Rightarrow> (\<lambda>d. (Ok (), d\<lparr>db_projects :=
               sql_update (\<lambda>p. p_id p = i) (\<lambda>p. p\<lparr>p_quota_bytes := q\<rparr>) (db_projects d)\<rparr>))) (\<lambda>_.
        case ttl_seconds of None \<Rightarrow> ret ()
           | Some t \<Rightarrow> (\<lambda>d. (Ok (), d\<lparr>db_projects :=
               sql_update (\<lambda>p. p_id p = i) (\<lambda>p. p\<lparr>p_ttl_seconds := t\<rparr>) (db_projects d)\<rparr>)))))"

definition project_update_t ::
  "server \<Rightarrow> req_env \<Rightarrow> admin_auth \<Rightarrow> int \<Rightarrow> string option \<Rightarrow> int option option \<Rightarrow> int option option \<Rightarrow>
   (app, response outcome) thread" where
  "project_update_t sv rq auth i name quota_bytes ttl_seconds =
     seq (db_act (update_columns i name quota_bytes ttl_seconds)) (\<lambda>_.
     seq (db_act (projects_get i)) (\<lambda>p.
     seq (act (audit_call sv (rq_now rq 1) auth ''project.update'' (Some (dec_int i)) None)) (\<lambda>_.
     give (json_response 200 (project_view p)))))"

definition project_delete_t :: "server \<Rightarrow> req_env \<Rightarrow> admin_auth \<Rightarrow> int \<Rightarrow> (app, response outcome) thread" where
  "project_delete_t sv rq auth i =
     seq (db_act (projects_delete i)) (\<lambda>_.
     seq (act (audit_call sv (rq_now rq 1) auth ''project.delete'' (Some (dec_int i)) None)) (\<lambda>_.
     give no_content))"

text \<open>A secret is hashed in the task itself, without an \<open>await\<close>.\<close>

definition key_create_t ::
  "server \<Rightarrow> req_env \<Rightarrow> admin_auth \<Rightarrow> int \<Rightarrow> role \<Rightarrow> string option \<Rightarrow> (app, response outcome) thread" where
  "key_create_t sv rq auth i r label =
     seq (db_act (projects_get i)) (\<lambda>_.
     let secret = generate_secret (sv_crypto sv) (rq_random rq);
         lookup = lookup_hash (sv_crypto sv) secret in
     seq (act (query (\<lambda>_. hash_argon2 (sv_crypto sv) (rq_salt rq) secret))) (\<lambda>phc.
     seq (db_act (api_keys_create (rq_now rq 1) i lookup phc r label)) (\<lambda>k.
     seq (act (audit_call sv (rq_now rq 2) auth ''key.create'' (Some (dec_int (k_id k)))
                (Some (VObj [(''role'', role_jv r)])))) (\<lambda>_.
     give (json_response 201 (api_key_created k secret))))))"

definition key_list_t :: "int \<Rightarrow> (app, response outcome) thread" where
  "key_list_t i = seq (db_act (api_keys_list i)) (\<lambda>ks. give (json_response 200 (VArr (map api_key_view ks))))"

definition key_revoke_t :: "server \<Rightarrow> req_env \<Rightarrow> admin_auth \<Rightarrow> int \<Rightarrow> int \<Rightarrow> (app, response outcome) thread" where
  "key_revoke_t sv rq auth i kid =
     seq (db_act (api_keys_revoke (rq_now rq 1) i kid)) (\<lambda>_.
     seq (act (audit_call sv (rq_now rq 2) auth ''key.revoke'' (Some (dec_int kid)) None)) (\<lambda>_.
     give no_content))"

definition token_create_t ::
  "server \<Rightarrow> req_env \<Rightarrow> admin_auth \<Rightarrow> string option \<Rightarrow> (app, response outcome) thread" where
  "token_create_t sv rq auth label =
     (let secret = generate_secret (sv_crypto sv) (rq_random rq);
          lookup = lookup_hash (sv_crypto sv) secret in
     seq (act (query (\<lambda>_. hash_argon2 (sv_crypto sv) (rq_salt rq) secret))) (\<lambda>phc.
     seq (db_act (admin_tokens_create (rq_now rq 1) lookup phc label)) (\<lambda>t.
     seq (act (audit_call sv (rq_now rq 2) auth ''token.create'' (Some (dec_int (t_id t)))
                (Some (VObj [(''label'', opt_jv VStr (t_label t))])))) (\<lambda>_.
     give (json_response 201 (admin_token_created t secret))))))"

definition token_list_t :: "(app, response outcome) thread" where
  "token_list_t = seq (db_act admin_tokens_list) (\<lambda>ts.
     give (json_response 200 (VArr (map admin_token_view ts))))"

definition token_revoke_t :: "server \<Rightarrow> req_env \<Rightarrow> admin_auth \<Rightarrow> int \<Rightarrow> (app, response outcome) thread" where
  "token_revoke_t sv rq auth i =
     seq (db_act (admin_tokens_revoke (rq_now rq 1) i)) (\<lambda>_.
     seq (act (audit_call sv (rq_now rq 2) auth ''token.revoke'' (Some (dec_int i)) None)) (\<lambda>_.
     give no_content))"

definition entry_list_t :: "server \<Rightarrow> int \<Rightarrow> list_query \<Rightarrow> (app, response outcome) thread" where
  "entry_list_t sv i q =
     seq (db_act (projects_get i)) (\<lambda>_.
     seq (act (parse_opt kind_from_str (lq_kind q))) (\<lambda>kind.
     seq (act (parse_opt parse_sort (lq_sort q))) (\<lambda>srt.
     seq (act (parse_opt parse_order (lq_order q))) (\<lambda>order.
     seq (db_act (entries_list (sv_codec sv) (sv_mixed sv) i
       \<lparr>lf_kind = kind, lf_pinned = lq_pinned q, lf_path_prefix = lq_path_prefix q, lf_sort = srt,
        lf_order = order, lf_limit = lq_limit q, lf_cursor = lq_cursor q\<rparr>)) (\<lambda>pg.
     let fields = [(''entries'', VArr (map entry_to_json (pg_entries pg))),
                   (''has_more'', VBool (pg_has_more pg)),
                   (''next_cursor'', opt_jv VStr (pg_next_cursor pg))] in
     if lq_count q = Some True then
       seq (db_act (query (\<lambda>d. Ok (sql_count (\<lambda>e. e_project_id e = i) (db_entries d))))) (\<lambda>n.
       give (json_response 200 (VObj (fields @ [(''total'', VInt (int n))]))))
     else give (json_response 200 (VObj fields)))))))"

definition entry_get_t :: "int \<Rightarrow> int \<Rightarrow> (app, response outcome) thread" where
  "entry_get_t i eid =
     seq (db_act (query (\<lambda>d.
        case find (\<lambda>e. e_project_id e = i \<and> e_id e = eid) (db_entries d) of
          None \<Rightarrow> Err (NotFound (''entry '' @ dec_int eid))
        | Some e \<Rightarrow> Ok e)))
     (\<lambda>e. give (json_response 200 (entry_to_json e)))"

definition entry_delete_t :: "server \<Rightarrow> req_env \<Rightarrow> admin_auth \<Rightarrow> int \<Rightarrow> int \<Rightarrow> (app, response outcome) thread" where
  "entry_delete_t sv rq auth i eid =
     seq (db_act (entries_delete i eid)) (\<lambda>_.
     seq (act (audit_call sv (rq_now rq 1) auth ''entry.delete'' (Some (dec_int eid)) None)) (\<lambda>_.
     give no_content))"

text \<open>\<open>entries.rs\<close> has one handler each for pinning and unpinning.\<close>

definition entry_pin_t :: "server \<Rightarrow> req_env \<Rightarrow> admin_auth \<Rightarrow> int \<Rightarrow> int \<Rightarrow> (app, response outcome) thread" where
  "entry_pin_t sv rq auth i eid =
     seq (db_act (set_pinned i eid True)) (\<lambda>_.
     seq (act (audit_call sv (rq_now rq 1) auth ''entry.pin'' (Some (dec_int eid)) None)) (\<lambda>_.
     give no_content))"

definition entry_unpin_t :: "server \<Rightarrow> req_env \<Rightarrow> admin_auth \<Rightarrow> int \<Rightarrow> int \<Rightarrow> (app, response outcome) thread" where
  "entry_unpin_t sv rq auth i eid =
     seq (db_act (set_pinned i eid False)) (\<lambda>_.
     seq (act (audit_call sv (rq_now rq 1) auth ''entry.unpin'' (Some (dec_int eid)) None)) (\<lambda>_.
     give no_content))"

definition gc_run_now_t ::
  "nat \<Rightarrow> server \<Rightarrow> req_env \<Rightarrow> admin_auth \<Rightarrow> bool \<Rightarrow> (app, response outcome) thread" where
  "gc_run_now_t n sv rq auth dry_run =
     seq (gc_run_t n (rq_gc rq) (cfg_gc (sv_config sv)) (sv_root sv) dry_run) (\<lambda>r.
     seq (act (audit_call sv (rq_now rq 1) auth ''gc.run'' None
                (Some (VObj [(''dry_run'', VBool dry_run)])))) (\<lambda>_.
     seq (act (count_metric GC_RUNS [if dry_run then ''true'' else ''false''])) (\<lambda>_.
     give (json_response 200 (VObj
       [(''dry_run'', VBool dry_run), (''evicted_entries'', u64_jv (evicted_entries r)),
        (''evicted_bytes'', u64_jv (evicted_bytes r)), (''freed_blobs'', u64_jv (freed_blobs r)),
        (''usage_global_bytes'', VInt (usage_global_bytes r))])))))"

definition gc_orphan_scan_t ::
  "nat \<Rightarrow> server \<Rightarrow> req_env \<Rightarrow> admin_auth \<Rightarrow> bool \<Rightarrow> (app, response outcome) thread" where
  "gc_orphan_scan_t n sv rq auth dry_run =
     seq (orphan_scan_t n (rq_gc rq) (sv_root sv) dry_run) (\<lambda>r.
     seq (act (audit_call sv (rq_now rq 1) auth ''gc.orphan_scan'' None
                (Some (VObj [(''dry_run'', VBool dry_run)])))) (\<lambda>_.
     give (json_response 200 (VObj
       [(''dry_run'', VBool dry_run), (''disk_orphans_removed'', u64_jv (disk_orphans_removed r)),
        (''db_orphans_removed'', u64_jv (db_orphans_removed r))]))))"

definition global_stats_t :: "(app, response outcome) thread" where
  "global_stats_t =
     seq (db_act total_size) (\<lambda>total.
     seq (db_act projects_list) (\<lambda>projects.
     give (json_response 200 (VObj
       [(''global_bytes'', VInt total), (''projects'', VInt (int (length projects)))]))))"

definition project_stats_t :: "int \<Rightarrow> (app, response outcome) thread" where
  "project_stats_t i =
     seq (db_act (projects_get i)) (\<lambda>p.
     seq (db_act (project_usage i)) (\<lambda>usage.
     seq (db_act (stats_sum (Some i) ''hit'' 0)) (\<lambda>(hits, hits_b).
     seq (db_act (stats_sum (Some i) ''put'' 0)) (\<lambda>(puts, puts_b).
     give (json_response 200 (VObj
       [(''project'', VObj [(''id'', VInt (p_id p)), (''name'', VStr (p_name p)),
                           (''quota_bytes'', opt_jv VInt (p_quota_bytes p))]),
        (''usage_bytes'', VInt usage), (''hits'', VInt hits), (''hits_bytes'', VInt hits_b),
        (''puts'', VInt puts), (''puts_bytes'', VInt puts_b)]))))))"

definition audit_read_t :: "server \<Rightarrow> int option \<Rightarrow> int option \<Rightarrow> (app, response outcome) thread" where
  "audit_read_t sv since limit =
     seq (db_act (audit_since (sv_audit_rank sv) (case since of None \<Rightarrow> 0 | Some t \<Rightarrow> t)
            (max 1 (min 1000 (case limit of None \<Rightarrow> 100 | Some n \<Rightarrow> n))))) (\<lambda>rows.
     give (json_response 200 (VObj [(''entries'', VArr (map (audit_row_json sv) rows))])))"

fun admin_op_t ::
  "nat \<Rightarrow> server \<Rightarrow> req_env \<Rightarrow> admin_auth \<Rightarrow> admin_request \<Rightarrow> (app, response outcome) thread" where
  "admin_op_t n sv rq a (CreateProject name q t) = project_create_t sv rq a name q t"
| "admin_op_t n sv rq a ListProjects = project_list_t"
| "admin_op_t n sv rq a (GetProject i) = project_get_t i"
| "admin_op_t n sv rq a (UpdateProject i name q t) = project_update_t sv rq a i name q t"
| "admin_op_t n sv rq a (DeleteProject i) = project_delete_t sv rq a i"
| "admin_op_t n sv rq a (CreateKey i r label) = key_create_t sv rq a i r label"
| "admin_op_t n sv rq a (ListKeys i) = key_list_t i"
| "admin_op_t n sv rq a (RevokeKey i kid) = key_revoke_t sv rq a i kid"
| "admin_op_t n sv rq a (CreateToken label) = token_create_t sv rq a label"
| "admin_op_t n sv rq a ListTokens = token_list_t"
| "admin_op_t n sv rq a (RevokeToken i) = token_revoke_t sv rq a i"
| "admin_op_t n sv rq a (ListEntries i q) = entry_list_t sv i q"
| "admin_op_t n sv rq a (GetEntry i eid) = entry_get_t i eid"
| "admin_op_t n sv rq a (DeleteEntry i eid) = entry_delete_t sv rq a i eid"
| "admin_op_t n sv rq a (PinEntry i eid) = entry_pin_t sv rq a i eid"
| "admin_op_t n sv rq a (UnpinEntry i eid) = entry_unpin_t sv rq a i eid"
| "admin_op_t n sv rq a (RunGc dry_run) = gc_run_now_t n sv rq a dry_run"
| "admin_op_t n sv rq a (OrphanScan dry_run) = gc_orphan_scan_t n sv rq a dry_run"
| "admin_op_t n sv rq a GlobalStats = global_stats_t"
| "admin_op_t n sv rq a (ProjectStats i) = project_stats_t i"
| "admin_op_t n sv rq a (ReadAudit since limit) = audit_read_t sv since limit"

section \<open>Requests and background tasks\<close>

definition readyz_t :: "server \<Rightarrow> probe_env \<Rightarrow> (app, response option) thread" where
  "readyz_t sv pe =
     (let probe = tmp_path (sv_root sv) ''.readyz''; answer = (\<lambda>n t. Return (Some (text_response n t))) in
      continue (act (query (\<lambda>_. Ok (pr_db_up pe)))) (\<lambda>up.
      if up \<noteq> Ok True then answer 503 ''db_unavailable''
      else
        continue
          (fs_act (\<lambda>files.
             (case pr_write_fault pe of
                Some (e, None) \<Rightarrow> (Err (Io e), files)
              | Some (e, Some left) \<Rightarrow> (Err (Io e), fs_put probe left files)
              | None \<Rightarrow> (Ok (), fs_put probe [114] files))))
          (\<lambda>written.
           if written \<noteq> Ok () then answer 503 ''storage_unwritable''
           else
             continue
               (fs_act (\<lambda>files. (Ok (), snd (remove_file (pr_remove_fault pe) probe files))))
               (\<lambda>_. answer 200 ''ready''))))"

definition request_t :: "nat \<Rightarrow> server \<Rightarrow> req_env \<Rightarrow> request \<Rightarrow> (app, response option) thread" where
  "request_t n sv rq req =
     (case req of
        Healthz \<Rightarrow> Return (Some healthz)
      | Readyz pe \<Rightarrow> readyz_t sv pe
      | Scrape \<Rightarrow> render_t sv (act (query (\<lambda>s. Ok (metrics_page sv s))))
      | Cache m t headers \<Rightarrow> project_middleware_t sv rq headers (yocto_handler_t sv rq m t)
      | Admin areq headers \<Rightarrow>
          admin_middleware_t sv rq headers (\<lambda>a. render_t sv (admin_op_t n sv rq a areq)))"

text \<open>A request, a task that a handler spawned, a tick of the ticker; errors of the last two are logged.\<close>

datatype job = Request req_env request | Background gc_env task | Tick gc_env

definition job_thread :: "nat \<Rightarrow> server \<Rightarrow> job \<Rightarrow> (app, response option) thread" where
  "job_thread n sv j =
     (let sweep = (\<lambda>env. continue (gc_run_t n env (cfg_gc (sv_config sv)) (sv_root sv) False) (\<lambda>_. Return None)) in
      case j of
        Request rq req \<Rightarrow> request_t n sv rq req
      | Background env (TouchTask i) \<Rightarrow> continue (db_act (touch (ge_now env) i)) (\<lambda>_. Return None)
      | Background env GcTask \<Rightarrow> sweep env
      | Tick env \<Rightarrow> sweep env)"

end
