(* ===== verification/Thread_Equivalence.thy ===== *)
theory Thread_Equivalence
  imports Server_Threads
begin

text \<open>
  A task that is not interrupted does what the model of its handler does in one step: every thread of
  \<open>Server_Threads\<close>, run alone, is the operation it was cut from.
\<close>

section \<open>Operations on parts of the state\<close>

named_theorems lift_simps \<open>operations on a part of the state, pushed to the statements\<close>

lemma on_db_andthen [lift_simps]: "on_db (andthen m f) = andthen (on_db m) (\<lambda>a. on_db (f a))"
  by (rule ext) (auto simp: on_db_def andthen_def split: prod.split outcome.split)

lemma on_fs_andthen [lift_simps]: "on_fs (andthen m f) = andthen (on_fs m) (\<lambda>a. on_fs (f a))"
  by (rule ext) (auto simp: on_fs_def andthen_def split: prod.split outcome.split)

lemma on_sys_andthen [lift_simps]: "on_sys (andthen m f) = andthen (on_sys m) (\<lambda>a. on_sys (f a))"
  by (rule ext) (auto simp: on_sys_def andthen_def split: prod.split outcome.split)

lemma on_sys_constant [lift_simps]:
  "on_sys (\<lambda>s. (r, s)) = (\<lambda>s. (r, s))" "on_fs (\<lambda>s. (r, s)) = (\<lambda>s. (r, s))" "on_db (\<lambda>s. (r, s)) = (\<lambda>s. (r, s))"
  by (rule ext, simp add: on_sys_def on_fs_def on_db_def)+

lemma on_sys_on_db [lift_simps]: "on_sys (on_db m) = on_app_db m"
  by (simp add: on_app_db_def)

lemma on_sys_foreach [lift_simps]: "on_sys (foreach f xs r) = foreach (\<lambda>x r. on_sys (f x r)) xs r"
proof (induction xs arbitrary: r)
  case Nil
  then show ?case by (simp add: ret_def lift_simps)
next
  case (Cons x xs)
  have "(\<lambda>r. on_sys (foreach f xs r)) = foreach (\<lambda>x r. on_sys (f x r)) xs" using Cons by (rule ext)
  then show ?case by (simp add: lift_simps)
qed

lemma on_sys_cases [lift_simps]:
  "on_sys (if b then m else m') = (if b then on_sys m else on_sys m')"
  "on_sys (case x of None \<Rightarrow> m | Some y \<Rightarrow> f y) = (case x of None \<Rightarrow> on_sys m | Some y \<Rightarrow> on_sys (f y))"
  "on_fs (case x of None \<Rightarrow> k | Some y \<Rightarrow> g y) = (case x of None \<Rightarrow> on_fs k | Some y \<Rightarrow> on_fs (g y))"
  by (simp_all split: option.split)

lemma run_cases [run_simps]:
  "run (if b then p else q) = (if b then run p else run q)"
  "run (case x of None \<Rightarrow> p | Some y \<Rightarrow> f y) = (case x of None \<Rightarrow> run p | Some y \<Rightarrow> run (f y))"
  "run (case z of (a, c) \<Rightarrow> g a c) = (case z of (a, c) \<Rightarrow> run (g a c))"
  by (simp_all split: option.split prod.split)

lemma andthen_cong_at:
  assumes "\<And>a s'. m s = (Ok a, s') \<Longrightarrow> f a s' = g a s'"
  shows "andthen m f s = andthen m g s"
  using assms by (auto simp: andthen_def split: prod.split outcome.split)

lemmas plain = ret_def fail_def Let_def

section \<open>The collector\<close>

lemma run_gc_delete [run_simps]: "run (gc_delete_t dry_run pid i) = on_sys (gc_delete dry_run pid i)"
  by (simp add: gc_delete_t_def gc_delete_def run_simps lift_simps plain cong: if_cong option.case_cong)

lemma run_evict_row [run_simps]: "run (evict_row_t dry_run row rep) = on_sys (evict_row dry_run row rep)"
  by (cases row) (simp add: evict_row_t_def evict_row_def run_simps lift_simps plain cong: if_cong option.case_cong)

lemma run_ttl_kind [run_simps]: "run (ttl_kind_t env cfg dry_run kind rep) = on_sys (ttl_kind env cfg dry_run kind rep)"
  by (simp add: ttl_kind_t_def ttl_kind_def run_simps lift_simps plain cong: if_cong option.case_cong)

lemma run_ttl_phase [run_simps]: "run (ttl_phase_t env cfg dry_run rep) = on_sys (ttl_phase env cfg dry_run rep)"
  by (simp add: ttl_phase_t_def ttl_phase_def run_simps lift_simps plain del: each.simps foreach.simps)

lemma run_evict_until [run_simps]:
  "run (evict_until_t dry_run quota rows usage rep) = on_sys (evict_until dry_run quota rows usage rep)"
  by (induction dry_run quota rows usage rep rule: evict_until.induct) (simp_all add: run_simps lift_simps plain cong: if_cong option.case_cong)

lemma run_quota_project [run_simps]: "run (quota_project_t dry_run p rep) = on_sys (quota_project dry_run p rep)"
  by (simp add: quota_project_t_def quota_project_def run_simps lift_simps plain cong: if_cong option.case_cong)

lemma run_quota_phase [run_simps]: "run (quota_phase_t dry_run rep) = on_sys (quota_phase dry_run rep)"
  by (simp add: quota_phase_t_def quota_phase_def run_simps lift_simps plain cong: if_cong option.case_cong)

lemma run_global_phase [run_simps]: "run (global_phase_t cfg dry_run rep) = on_sys (global_phase cfg dry_run rep)"
  by (simp add: global_phase_t_def global_phase_def run_simps lift_simps plain cong: if_cong option.case_cong)

lemma run_free_blob [run_simps]: "run (free_blob_t env root dry_run h rep) = on_sys (free_blob env root dry_run h rep)"
  by (simp add: free_blob_t_def free_blob_def run_simps lift_simps plain cong: if_cong option.case_cong)

text \<open>The loop: every round that finds rows removes them, so more rounds than rows are enough.\<close>

lemma run_cleanup:
  assumes "length (db_blobs (sys_db (ap_sys s))) < n"
  shows "run (cleanup_blobs_t n env root dry_run rep) s = on_sys (cleanup_blobs env root dry_run rep) s"
  using assms
proof (induction n arbitrary: rep s)
  case 0
  then show ?case by simp
next
  case (Suc n)
  let ?y = "ap_sys s"
  obtain batch where rows: "zero_refcount (ge_blob_rank env) BATCH (sys_db ?y) = (Ok batch, sys_db ?y)"
    by (simp add: zero_refcount_def)
  have fetch: "on_app_db (zero_refcount (ge_blob_rank env) BATCH) s = (Ok batch, s)"
    "on_db (zero_refcount (ge_blob_rank env) BATCH) ?y = (Ok batch, ?y)"
    using rows by simp_all
  obtain r y2 where loop: "foreach (free_blob env root dry_run) batch rep ?y = (r, y2)" by fastforce
  have each: "foreach (\<lambda>x r. on_sys (free_blob env root dry_run x r)) batch rep s = (r, s\<lparr>ap_sys := y2\<rparr>)"
    unfolding on_sys_foreach [symmetric] using loop by simp
  have again: "run (cleanup_blobs_t n env root dry_run rep') (s\<lparr>ap_sys := y2\<rparr>) =
      on_sys (cleanup_blobs env root dry_run rep') (s\<lparr>ap_sys := y2\<rparr>)"
    if r: "r = Ok rep'" and real: "\<not> dry_run" and some: "batch \<noteq> []" for rep'
  proof -
    have "db_blobs (sys_db y2) = filter (\<lambda>b. b_hash b \<notin> set batch) (db_blobs (sys_db ?y))"
      using free_blobs_rows [of env root batch rep ?y rep' y2] loop r real by simp
    moreover have "set batch \<subseteq> b_hash ` {b \<in> set (db_blobs (sys_db ?y)). b_refcount b = 0}"
      by (rule zero_refcount_rows [where rank = "ge_blob_rank env" and limit = BATCH]) (simp add: rows)
    moreover obtain h where "h \<in> set batch" using some by (cases batch) auto
    ultimately obtain b where "b \<in> set (db_blobs (sys_db ?y))" "b_hash b \<in> set batch"
      "db_blobs (sys_db y2) = filter (\<lambda>b. b_hash b \<notin> set batch) (db_blobs (sys_db ?y))"
      by auto
    then have "length (db_blobs (sys_db y2)) < length (db_blobs (sys_db ?y))"
      using length_filter_less [of b "db_blobs (sys_db ?y)" "\<lambda>b. b_hash b \<notin> set batch"] by simp
    then show ?thesis using Suc.prems by (intro Suc.IH) simp
  qed
  show ?case
  proof (cases "batch = []")
    case True
    then show ?thesis using fetch
      by (subst cleanup_blobs.simps [abs_def]) (simp add: run_simps plain on_sys_def)
  next
    case False
    have "run (cleanup_blobs_t (Suc n) env root dry_run rep) s =
        andthen (\<lambda>s. (r, s\<lparr>ap_sys := y2\<rparr>)) (\<lambda>rep s. if dry_run then (Ok rep, s) else run (cleanup_blobs_t n env root dry_run rep) s) s"
      using False fetch each
      by (cases r; cases dry_run) (simp_all add: run_simps plain andthen_def)
    moreover have "on_sys (cleanup_blobs env root dry_run rep) s =
        andthen (\<lambda>s. (r, s\<lparr>ap_sys := y2\<rparr>)) (\<lambda>rep s. if dry_run then (Ok rep, s) else on_sys (cleanup_blobs env root dry_run rep) s) s"
      using False fetch loop
      by (subst cleanup_blobs.simps [abs_def]) (auto simp: on_sys_def andthen_def split: outcome.split)
    ultimately show ?thesis using again False by (cases r) (simp_all add: andthen_def)
  qed
qed

lemma keeps_rows_delete: "keeps (\<lambda>d. length (db_blobs d) = l) (entries_delete pid i)"
  unfolding entries_delete_def
  by (intro keeps_transaction keeps_andthen keeps_query keeps_ret)
     (auto simp: decr_def split: option.split intro!: keepsI)

lemma keeps_rows_evict: "keeps (\<lambda>y. length (db_blobs (sys_db y)) = l) (gc_delete dry_run pid i)"
  by (simp add: gc_delete_def keeps_ret keeps_on_db [OF keeps_rows_delete])

lemma keeps_Pair: "keeps I (Pair r)"
  by (simp add: keeps_def)

lemma keeps_rows_evict_until:
  "keeps (\<lambda>y. length (db_blobs (sys_db y)) = l) (evict_until dry_run quota rows usage rep)"
  by (induction dry_run quota rows usage rep rule: evict_until.induct)
     (auto intro!: keeps_ret keeps_Pair keeps_andthen keeps_rows_evict)

lemma keeps_rows_phases:
  "keeps (\<lambda>y. length (db_blobs (sys_db y)) = l) (ttl_phase env cfg dry_run rep)"
  "keeps (\<lambda>y. length (db_blobs (sys_db y)) = l) (quota_phase dry_run rep)"
  "keeps (\<lambda>y. length (db_blobs (sys_db y)) = l) (global_phase cfg dry_run rep)"
proof -
  have query: "keeps (\<lambda>y. length (db_blobs (sys_db y)) = l) (on_db (query q))" for q :: "db \<Rightarrow> 'x outcome"
    by (rule keepsI) simp
  note rules = keeps_andthen keeps_foreach keeps_query keeps_ret query keeps_rows_evict keeps_rows_evict_until
  show "keeps (\<lambda>y. length (db_blobs (sys_db y)) = l) (ttl_phase env cfg dry_run rep)"
    by (auto simp: ttl_phase_def ttl_kind_def evict_row_def Let_def simp del: foreach.simps intro!: rules)
  show "keeps (\<lambda>y. length (db_blobs (sys_db y)) = l) (quota_phase dry_run rep)"
    unfolding quota_phase_def quota_project_def projects_list_def project_usage_def
    by (auto split: option.split intro!: rules)
  show "keeps (\<lambda>y. length (db_blobs (sys_db y)) = l) (global_phase cfg dry_run rep)"
    unfolding global_phase_def total_size_def Let_def by (auto intro!: rules)
qed

lemma run_gc_run:
  assumes "length (db_blobs (sys_db (ap_sys s))) < n"
  shows "run (gc_run_t n env cfg root dry_run) s = on_sys (gc_run env cfg root dry_run) s"
proof -
  let ?I = "\<lambda>s. length (db_blobs (sys_db (ap_sys s))) < n"
  have step: "?I s'" if "on_sys m s = (r, s')" "?I s" "\<And>l. keeps (\<lambda>y. length (db_blobs (sys_db y)) = l) m"
    for m :: "(sys, gc_report) op" and s s' r
  proof -
    have "ap_sys s' = snd (m (ap_sys s))" using that(1) by (cases "m (ap_sys s)") auto
    then show ?thesis using that(2) keepsD [OF that(3) refl, of "ap_sys s"] by simp
  qed
  show ?thesis
    unfolding gc_run_t_def gc_run_def run_locked run_seq on_sys_andthen run_ttl_phase run_quota_phase
      run_global_phase run_act on_sys_on_db run_give
  proof (rule andthen_cong_at, rule andthen_cong_at, rule andthen_cong_at)
    fix rep1 s1 rep2 s2 rep3 s3
    assume 1: "on_sys (ttl_phase env cfg dry_run gc_report_default) s = (Ok rep1, s1)"
      and 2: "on_sys (quota_phase dry_run rep1) s1 = (Ok rep2, s2)"
      and 3: "on_sys (global_phase cfg dry_run rep2) s2 = (Ok rep3, s3)"
    have "?I s1" by (rule step [OF 1 assms keeps_rows_phases(1)])
    then have "?I s2" by (rule step [OF 2 _ keeps_rows_phases(2)])
    then have "?I s3" by (rule step [OF 3 _ keeps_rows_phases(3)])
    then show "andthen (run (cleanup_blobs_t n env root dry_run rep3))
        (\<lambda>rep. andthen (on_app_db total_size) (\<lambda>usage. ret (rep\<lparr>usage_global_bytes := usage\<rparr>))) s3 =
      andthen (on_sys (cleanup_blobs env root dry_run rep3))
        (\<lambda>rep. andthen (on_app_db total_size) (\<lambda>usage. on_sys (ret (rep\<lparr>usage_global_bytes := usage\<rparr>)))) s3"
      by (simp add: andthen_def run_cleanup ret_def lift_simps)
  qed
qed

lemma run_disk_orphan [run_simps]: "run (disk_orphan_t env root dry_run h rep) = on_sys (disk_orphan env root dry_run h rep)"
  by (simp add: disk_orphan_t_def disk_orphan_def run_simps lift_simps plain cong: if_cong)

lemma run_db_orphan [run_simps]: "run (db_orphan_t dry_run h rep) = on_sys (db_orphan dry_run h rep)"
  by (simp add: db_orphan_t_def db_orphan_def run_simps lift_simps plain cong: if_cong)

text \<open>The walk: where nothing changes, a bound on the length of the paths bounds the depth.\<close>

lemma is_dir_bound: "is_dir p files \<Longrightarrow> length p < path_bound files"
  using path_bound_ge by (fastforce simp: is_dir_def below_def)

lemma run_walk_blobs:
  assumes "path_bound (sys_fs (ap_sys s)) < n + length dir" and "0 < n"
  shows "run (walk_blobs_t n faults dir out) s = (walk_blobs faults (sys_fs (ap_sys s)) dir out, s)"
  using assms
proof (induction n arbitrary: dir out)
  case 0
  then show ?case by simp
next
  case (Suc n)
  let ?f = "sys_fs (ap_sys s)"
  define look where "look = (\<lambda>name out. seq (fs_act (query (\<lambda>files. Ok (is_dir (dir @ [name]) files)))) (\<lambda>is_directory.
      if is_directory then walk_blobs_t n faults (dir @ [name]) out
      else give (if is_blob_name name then List.insert name out else out)))"
  have run_look: "run (look name out) s =
      (if is_dir (dir @ [name]) ?f then (walk_blobs faults ?f (dir @ [name]) out, s)
       else (Ok (if is_blob_name name then List.insert name out else out), s))" for name out
  proof (cases "is_dir (dir @ [name]) ?f")
    case True
    then have "0 < n" using is_dir_bound Suc.prems by fastforce
    then show ?thesis
      using Suc.IH [of "dir @ [name]" out] Suc.prems True
      by (simp add: look_def run_simps plain andthen_def on_sys_def on_fs_def)
  next
    case False
    then show ?thesis by (simp add: look_def run_simps plain andthen_def on_sys_def on_fs_def)
  qed
  have names: "run (each look names out) s = (walk_names faults ?f dir names out, s)" for names out
    by (induction names arbitrary: out)
       (auto simp: give_def walk_names.simps run_seq andthen_def run_look split: outcome.split)
  have "walk_blobs_t (Suc n) faults dir out =
      seq (fs_act (query (\<lambda>files. case faults dir of Some e \<Rightarrow> Err (Io e) | None \<Rightarrow> Ok (read_dir dir files))))
        (\<lambda>names. each look names out)"
    by (simp add: look_def)
  then show ?case
    using names by (simp add: run_seq run_act andthen_def on_sys_def on_fs_def query_def walk_blobs.simps
        del: walk_blobs_t.simps split: option.split)
qed

lemma run_orphan_scan:
  assumes "path_bound (sys_fs (ap_sys s)) < n"
  shows "run (orphan_scan_t n env root dry_run) s = on_sys (orphan_scan env root dry_run) s"
proof -
  let ?rest = "\<lambda>on_disk. on_sys
     (andthen (query (\<lambda>s. Ok (remdups (map b_hash (db_blobs (sys_db s)))))) (\<lambda>db_set.
      andthen
       (foreach (disk_orphan env root dry_run)
          (sort_key (ge_blob_rank env) (filter (\<lambda>h. h \<notin> set db_set) on_disk))
          \<lparr>disk_orphans_removed = 0, db_orphans_removed = 0\<rparr>)
       (foreach (db_orphan dry_run)
          (sort_key (ge_blob_rank env) (filter (\<lambda>h. h \<notin> set on_disk) db_set)))))"
  have "run (seq (sys_act (query (\<lambda>s. Ok (remdups (map b_hash (db_blobs (sys_db s))))))) (\<lambda>db_set.
      seq (each (disk_orphan_t env root dry_run)
             (sort_key (ge_blob_rank env) (filter (\<lambda>h. h \<notin> set db_set) on_disk))
             \<lparr>disk_orphans_removed = 0, db_orphans_removed = 0\<rparr>)
        (each (db_orphan_t dry_run)
             (sort_key (ge_blob_rank env) (filter (\<lambda>h. h \<notin> set on_disk) db_set))))) = ?rest on_disk" for on_disk
    by (simp only: run_simps lift_simps)
  then show ?thesis
    unfolding orphan_scan_t_def orphan_scan_def run_locked on_sys_andthen
    using run_walk_blobs [of s n "blobs_dir root" "ge_walk env" "[]"] assms
    by (simp add: run_seq run_cases run_act andthen_def on_sys_def on_fs_def query_def run_give plain)
qed

section \<open>The blob store\<close>

lemma run_stream_body [run_simps]:
  "run (stream_body_t tmp body hasher running) = on_sys (on_fs (stream_body tmp body hasher running))"
  by (induction tmp body hasher running rule: stream_body.induct) (simp_all add: run_simps lift_simps plain)

lemma run_place_blob [run_simps]: "run (place_blob_t fault tmp dest) = on_sys (on_fs (place_blob fault tmp dest))"
  by (rule ext)
     (auto simp: place_blob_t_def place_blob_def rename_step_def run_simps plain andthen_def on_sys_def on_fs_def
       query_def split: option.split)

lemma run_write_streamed [run_simps]:
  "run (write_streamed_t sha256 uuid fault root body) = on_sys (on_fs (write_streamed sha256 uuid fault root body))"
  unfolding write_streamed_t_def write_streamed_def Let_def
  by (simp add: run_simps lift_simps plain cong: option.case_cong) (simp add: case_prod_beta run_simps lift_simps plain cong: option.case_cong)

section \<open>Authentication\<close>

lemma run_verify [run_simps]: "run (verify_argon2_async cr secret phc) = query (\<lambda>_. verify_argon2 cr secret phc)"
  by (rule ext) (simp add: verify_argon2_async_def run_act verify_argon2_def split: sum.split)

lemma run_check_project: "run (check_project_t cr name key) s = (check_project cr name key (sys_db (ap_sys s)), s)"
  by (simp add: check_project_t_def run_simps andthen_def on_app_db_def on_sys_def on_db_def check_project_def
      projects_get_by_name_def api_keys_find_active_def plain split: option.split outcome.split)

lemma run_check_admin: "run (check_admin_t cr token) s = (check_admin cr token (sys_db (ap_sys s)), s)"
  by (simp add: check_admin_t_def run_simps andthen_def on_app_db_def on_sys_def on_db_def check_admin_def
      admin_tokens_find_active_def plain split: option.split outcome.split)

lemma run_get_or_insert:
  assumes "\<And>s. run f s = (v (ap_sys s), s)" and "\<And>g s. ap_sys (upd g s) = ap_sys s"
    and "\<And>g s. sel (upd g s) = g (sel s)" and "\<And>g h s. upd g (upd h s) = upd (\<lambda>c. g (h c)) s"
    and "\<And>g s. upd g s = upd (\<lambda>_. g (sel s)) s"
  shows "run (get_or_insert_t sel upd moka now scope lookup f) s =
    (case get_or_insert moka now scope lookup (v (ap_sys s)) (sel s) of (r, c) \<Rightarrow> (r, upd (\<lambda>_. c) s))"
proof -
  have upd: "upd (\<lambda>_. g (sel s)) s = upd g s" for g by (rule assms(5) [symmetric])
  show ?thesis
  proof (cases "moka (sel s) now (scope, lookup)")
    case None
    then show ?thesis
      by (cases "v (ap_sys s)")
         (simp_all add: get_or_insert_t_def get_or_insert_def run_simps plain andthen_def assms(1-4) upd
           upd [of "\<lambda>c. c @ [CacheGet now (scope, lookup)]"]
           upd [of "\<lambda>c. c @ [CacheGet now (scope, lookup), x]" for x])
  next
    case (Some a)
    then show ?thesis
      by (simp add: get_or_insert_t_def get_or_insert_def run_simps plain andthen_def
          upd [of "\<lambda>c. c @ [CacheGet now (scope, lookup)]"])
  qed
qed

lemma run_project_middleware:
  assumes "\<And>a. run (h a) = h' a"
  shows "run (project_middleware_t sv rq headers h) s = project_middleware sv rq headers h' s"
proof (cases "parse_basic sv headers")
  case None
  then show ?thesis by (simp add: project_middleware_t_def project_middleware_def)
next
  case (Some creds)
  have "run (get_or_insert_t ap_project_cache ap_project_cache_update (sv_project_moka sv) (rq_now rq 0)
        (project_scope (ba_user creds)) (lookup_hash (sv_crypto sv) (ba_pass creds))
        (check_project_t (sv_crypto sv) (ba_user creds) (ba_pass creds))) s =
      (case authenticate_project (sv_crypto sv) (sv_project_moka sv) (rq_now rq 0)
          (ba_user creds) (ba_pass creds) (sys_db (ap_sys s)) (ap_project_cache s) of
        (r, c) \<Rightarrow> (r, s\<lparr>ap_project_cache := c\<rparr>))"
    unfolding authenticate_project_def
    by (rule run_get_or_insert [where v = "\<lambda>y. check_project (sv_crypto sv) (ba_user creds) (ba_pass creds) (sys_db y)"])
       (simp_all add: run_check_project)
  then show ?thesis
    using Some assms
    by (simp add: project_middleware_t_def project_middleware_def run_continue
        split: prod.split outcome.split)
qed

lemma run_admin_login:
  "run (get_or_insert_t ap_admin_cache ap_admin_cache_update (sv_admin_moka sv) (rq_now rq 0)
      ''admin'' (lookup_hash (sv_crypto sv) token) (check_admin_t (sv_crypto sv) token)) s =
    (case authenticate_admin (sv_crypto sv) (sv_admin_moka sv) (rq_now rq 0)
        token (sys_db (ap_sys s)) (ap_admin_cache s) of
      (r, c) \<Rightarrow> (r, s\<lparr>ap_admin_cache := c\<rparr>))"
  unfolding authenticate_admin_def
  by (rule run_get_or_insert [where v = "\<lambda>y. check_admin (sv_crypto sv) token (sys_db y)"])
     (simp_all add: run_check_admin)

lemma run_admin_middleware:
  assumes "\<And>a s'. ap_sys s' = ap_sys s \<Longrightarrow> run (h a) s' = h' a s'"
  shows "run (admin_middleware_t sv rq headers h) s = admin_middleware sv rq headers h' s"
proof (cases "parse_bearer headers")
  case None
  then show ?thesis by (simp add: admin_middleware_t_def admin_middleware_def)
next
  case (Some token)
  note login = run_admin_login [of sv rq token s]
  show ?thesis
    using Some assms login
    by (simp add: admin_middleware_t_def admin_middleware_def run_continue
        split: prod.split outcome.split)
qed

section \<open>Handlers\<close>

lemma run_render: "run (render_t sv p) s = render sv (run p) s"
  by (simp add: render_t_def render_def run_continue split: prod.split outcome.split)

lemma run_get_one [run_simps]:
  "run (get_one_t sv rq a k u p head_only) = get_one sv rq a k u p head_only"
  unfolding get_one_t_def get_one_def Let_def
  by (simp add: run_simps lift_simps plain cong: if_cong option.case_cong)

lemma run_read_handler: "run (read_handler_t sv rq k head_only a u p) s = read_handler sv rq k head_only a u p s"
proof -
  have "run (read_handler_t sv rq k head_only a u p) s =
      (case get_one sv rq a k u p head_only s of (r, s') \<Rightarrow>
        run (case r of Ok r \<Rightarrow> Return (Some r) | Err (NotFound _) \<Rightarrow> render_t sv (act (miss_response a k))
          | Err e \<Rightarrow> Return (Some (into_response sv e)) | Panic \<Rightarrow> Return None) s')"
    by (simp add: read_handler_t_def run_continue run_get_one)
  also have "\<dots> = read_handler sv rq k head_only a u p s"
    by (auto simp: read_handler_def run_render run_act split: prod.split outcome.split core_error.split)
  finally show ?thesis .
qed

lemma run_put_store [run_simps]: "run (put_store_t sv rq a u body) = put_store sv rq a u body"
  unfolding put_store_t_def put_store_def
  by (simp add: run_simps lift_simps plain cong: if_cong)

lemma run_soft_trigger [run_simps]: "run (soft_trigger_t sv) = soft_trigger sv"
  unfolding soft_trigger_t_def soft_trigger_def Let_def
  by (simp add: run_simps lift_simps plain cong: if_cong)

lemma run_put_commit [run_simps]: "run (put_commit_t sv rq a k p w) = put_commit sv rq a k p w"
  unfolding put_commit_t_def put_commit_def
  by (simp add: run_simps lift_simps plain)

lemma run_do_put [run_simps]: "run (do_put_t sv rq a k u p body) = do_put sv rq a k u p body"
  unfolding do_put_t_def do_put_def by (simp only: run_simps)

lemma run_yocto_handler: "run (yocto_handler_t sv rq m t a) s = yocto_handler sv rq m t a s"
  by (simp add: yocto_handler_t_def yocto_handler_def run_read_handler run_render run_do_put
      get_sstate_def head_sstate_def get_downloads_def head_downloads_def put_sstate_def put_downloads_def
      split: target.split http_method.split)

lemma projects_update_steps:
  "on_app_db (projects_update i nm q t) = andthen (on_app_db (update_columns i nm q t)) (\<lambda>_. on_app_db (projects_get i))"
  unfolding projects_update_def update_columns_def on_app_db_def by (simp only: lift_simps)

lemma andthen_assoc: "andthen (andthen m f) g = andthen m (\<lambda>a. andthen (f a) g)"
  by (rule ext) (auto simp: andthen_def split: prod.split outcome.split)

text \<open>All handlers of the admin API but the two that collect.\<close>

lemma run_admin_plain:
  assumes "\<forall>d. req \<noteq> RunGc d \<and> req \<noteq> OrphanScan d"
  shows "run (admin_op_t n sv rq a req) = admin_op sv rq a req"
proof (cases req)
  case (ListEntries i q)
  then show ?thesis
    by (simp add: entry_list_t_def entry_list_all_def run_simps plain cong: if_cong)
qed (use assms in \<open>simp_all add: run_simps plain project_create_t_def project_create_one_def project_list_t_def
    project_list_all_def project_get_t_def project_get_one_def project_update_t_def project_update_one_def
    projects_update_steps andthen_assoc project_delete_t_def project_delete_one_def key_create_t_def
    key_create_one_def key_list_t_def key_list_all_def key_revoke_t_def key_revoke_one_def token_create_t_def
    token_create_one_def token_list_t_def token_list_all_def token_revoke_t_def token_revoke_one_def
    entry_get_t_def entry_get_one_def entry_delete_t_def entry_delete_one_def entry_pin_t_def entry_pin_def
    entry_unpin_t_def entry_unpin_def global_stats_t_def global_stats_def project_stats_t_def project_stats_def
    audit_read_t_def audit_read_def\<close>)

text \<open>The bound \<open>n\<close> of a job is enough for it if nobody else changes anything.\<close>

definition rounds_enough :: "nat \<Rightarrow> app \<Rightarrow> bool" where
  "rounds_enough n s \<longleftrightarrow> length (db_blobs (sys_db (ap_sys s))) < n \<and> path_bound (sys_fs (ap_sys s)) < n"

lemma run_collections:
  assumes "rounds_enough n s"
  shows "run (gc_run_t n env cfg root dry_run) s = on_sys (gc_run env cfg root dry_run) s"
    and "run (orphan_scan_t n env root dry_run) s = on_sys (orphan_scan env root dry_run) s"
  using assms run_gc_run run_orphan_scan by (simp_all add: rounds_enough_def)

lemma run_admin_op:
  assumes "rounds_enough n s"
  shows "run (admin_op_t n sv rq a req) s = admin_op sv rq a req s"
proof (cases "\<forall>d. req \<noteq> RunGc d \<and> req \<noteq> OrphanScan d")
  case True
  then show ?thesis by (simp add: run_admin_plain)
next
  case False
  then obtain d where "req = RunGc d \<or> req = OrphanScan d" by blast
  then show ?thesis
  proof
    assume "req = RunGc d"
    then show ?thesis
      by (simp add: gc_run_now_t_def gc_run_now_def run_seq andthen_def run_collections [OF assms] run_simps plain)
  next
    assume "req = OrphanScan d"
    then show ?thesis
      by (simp add: gc_orphan_scan_t_def gc_orphan_scan_def run_seq andthen_def run_collections [OF assms] run_simps plain)
  qed
qed

lemma run_readyz: "run (readyz_t sv pe) s = (case readyz sv pe s of (r, s') \<Rightarrow> (Some r, s'))"
  by (auto simp: readyz_t_def readyz_def Let_def run_continue run_act on_sys_def on_fs_def split: option.split)

lemma run_request:
  assumes "rounds_enough n s"
  shows "run (request_t n sv rq req) s = serve_request sv rq req s"
proof (cases req)
  case (Cache m t headers)
  then show ?thesis
    using run_project_middleware [of "yocto_handler_t sv rq m t" "yocto_handler sv rq m t" sv rq headers s]
    by (simp add: request_t_def serve_request_def yocto_router_def run_yocto_handler fun_eq_iff)
next
  case (Admin areq headers)
  have "run (render_t sv (admin_op_t n sv rq a areq)) s' = render sv (admin_op sv rq a areq) s'"
    if "ap_sys s' = ap_sys s" for a s'
    using that assms by (simp add: run_render render_def run_admin_op rounds_enough_def)
  then show ?thesis
    using run_admin_middleware [of s "\<lambda>a. render_t sv (admin_op_t n sv rq a areq)" "\<lambda>a. render sv (admin_op sv rq a areq)"
      sv rq headers] Admin
    by (simp add: request_t_def serve_request_def admin_router_def)
qed (simp_all add: request_t_def serve_request_def run_readyz run_render run_act render_def case_prod_beta)

text \<open>What a job does in one step.\<close>

definition job_step :: "server \<Rightarrow> job \<Rightarrow> app \<Rightarrow> response option \<times> app" where
  "job_step sv j s =
     (case j of
        Request rq req \<Rightarrow> serve_request sv rq req s
      | Background env t \<Rightarrow> (None, run_task sv env t s)
      | Tick env \<Rightarrow> (None, gc_tick sv env s))"

lemma run_job:
  assumes "rounds_enough n s"
  shows "run (job_thread n sv j) s = job_step sv j s"
proof (cases j)
  case (Request rq req)
  then show ?thesis using run_request [OF assms] by (simp add: job_thread_def job_step_def)
next
  case (Background env t)
  then show ?thesis
    by (cases t) (simp_all add: job_thread_def job_step_def run_task_def Let_def run_continue run_act
      run_collections [OF assms] case_prod_beta)
next
  case (Tick env)
  then show ?thesis
    by (simp add: job_thread_def job_step_def gc_tick_def Let_def run_continue run_collections [OF assms] case_prod_beta)
qed

end
