(* ===== verification/Interleaving.thy ===== *)
theory Interleaving
  imports Thread_Equivalence Cache_Spec
begin

text \<open>
  The server with all its tasks at once. \<open>concurrent_step\<close> interleaves the threads of any number of
  requests, background tasks and sweeps, statement by statement, and drops them at any point. The
  contract every task keeps towards the others (\<open>interf\<close>) is proved handler by handler, once for all
  jobs and once, with more to promise, for those that reclaim and delete nothing (\<open>calm\<close>).
\<close>

section \<open>The concurrent server\<close>

text \<open>
  The names under \<open>tmp/\<close> a job writes to, and those it relies on to be its own. \<open>Uuid::new_v4\<close> gives
  every upload a name that no other task uses.
\<close>

fun tmp_writes :: "job \<Rightarrow> string set" where
  "tmp_writes (Request rq (Cache (PUT body) t headers)) = {rq_uuid rq}"
| "tmp_writes (Request rq (Readyz pe)) = {''.readyz''}"
| "tmp_writes _ = {}"

fun tmp_owns :: "job \<Rightarrow> string set" where
  "tmp_owns (Request rq (Cache (PUT body) t headers)) = {rq_uuid rq}"
| "tmp_owns _ = {}"

definition apart :: "job \<Rightarrow> job \<Rightarrow> bool" where
  "apart j j' \<longleftrightarrow> tmp_writes j \<inter> tmp_owns j' = {} \<and> tmp_owns j \<inter> tmp_writes j' = {}"

type_synonym tasks = "(job, app, response option) pool"

text \<open>
  A request or a tick arrives, a task that was spawned is started, a task makes a step or is dropped,
  or the process is restarted. \<open>jobs\<close> are those that may arrive.
\<close>

inductive concurrent_step :: "server \<Rightarrow> (job \<Rightarrow> bool) \<Rightarrow> tasks \<Rightarrow> tasks \<Rightarrow> bool" for sv jobs where
  conc_arrive: "\<lbrakk>jobs j; \<nexists>env t. j = Background env t; \<And>x. x \<in> set (po_threads c) \<Longrightarrow> apart (fst x) j\<rbrakk> \<Longrightarrow>
    concurrent_step sv jobs c (c\<lparr>po_threads := po_threads c @ [(j, Some (job_thread n sv j))]\<rparr>)"
| conc_task: "\<lbrakk>i < length (ap_tasks (po_state c)); j = Background env (ap_tasks (po_state c) ! i); jobs j\<rbrakk> \<Longrightarrow>
    concurrent_step sv jobs c (c\<lparr>po_threads := po_threads c @ [(j, Some (job_thread n sv j))],
      po_state := take_task i (po_state c)\<rparr>)"
| conc_step: "thread_step i c c' \<Longrightarrow> concurrent_step sv jobs c c'"
| conc_restart: "concurrent_step sv jobs c
    \<lparr>po_threads = [], po_holder = None, po_state = serve_start faults sv (ap_sys (po_state c))\<rparr>"

definition idle :: "app \<Rightarrow> tasks" where
  "idle s = \<lparr>po_threads = [], po_holder = None, po_state = s\<rparr>"

section \<open>The contract\<close>

definition steady :: "bool \<Rightarrow> server \<Rightarrow> sys \<Rightarrow> bool" where
  "steady calm sv y \<longleftrightarrow> wf_db (sys_db y) \<and>
     integral (cr_sha256 (sv_crypto sv)) (blob_file (sv_root sv)) (sys_fs y) \<and>
     (calm \<longrightarrow> blobs_present (sv_root sv) y)"

text \<open>No blob and no key is lost.\<close>

definition grows :: "server \<Rightarrow> sys \<Rightarrow> sys \<Rightarrow> bool" where
  "grows sv y y' \<longleftrightarrow>
     (\<forall>h. blob_file (sv_root sv) h (sys_fs y) \<noteq> None \<longrightarrow> blob_file (sv_root sv) h (sys_fs y') \<noteq> None) \<and>
     (\<forall>key. served (sys_db y) key \<noteq> None \<longrightarrow> served (sys_db y') key \<noteq> None)"

definition interf :: "bool \<Rightarrow> server \<Rightarrow> string set \<Rightarrow> sys \<Rightarrow> sys \<Rightarrow> bool" where
  "interf calm sv us y y' \<longleftrightarrow> (steady calm sv y \<longrightarrow>
     steady calm sv y' \<and>
     (\<forall>u\<in>us. fs_get (sys_fs y') (tmp_path (sv_root sv) u) = fs_get (sys_fs y) (tmp_path (sv_root sv) u)) \<and>
     (calm \<longrightarrow> grows sv y y'))"

abbreviation rely_of :: "bool \<Rightarrow> server \<Rightarrow> job \<Rightarrow> app \<Rightarrow> app \<Rightarrow> bool" where
  "rely_of calm sv j s s' \<equiv> interf calm sv (tmp_owns j) (ap_sys s) (ap_sys s')"

abbreviation guar_of :: "bool \<Rightarrow> server \<Rightarrow> job \<Rightarrow> app \<Rightarrow> app \<Rightarrow> bool" where
  "guar_of calm sv j s s' \<equiv> interf calm sv (- tmp_writes j) (ap_sys s) (ap_sys s')"

lemma grows_trans: "grows sv y y1 \<Longrightarrow> grows sv y1 y2 \<Longrightarrow> grows sv y y2"
  by (simp add: grows_def)

lemma interf_refl [simp]: "interf calm sv us y y"
  by (simp add: interf_def grows_def)

lemma interf_trans: "interf calm sv us y y1 \<Longrightarrow> interf calm sv us y1 y2 \<Longrightarrow> interf calm sv us y y2"
  unfolding interf_def using grows_trans by fastforce

lemma interf_steady: "interf calm sv us y y' \<Longrightarrow> steady calm sv y \<Longrightarrow> steady calm sv y'"
  by (simp add: interf_def)

lemma interf_tmp:
  "interf calm sv us y y' \<Longrightarrow> steady calm sv y \<Longrightarrow> u \<in> us \<Longrightarrow>
   fs_get (sys_fs y') (tmp_path (sv_root sv) u) = fs_get (sys_fs y) (tmp_path (sv_root sv) u)"
  by (simp add: interf_def)

lemma interf_grows: "interf True sv us y y' \<Longrightarrow> steady True sv y \<Longrightarrow> grows sv y y'"
  by (simp add: interf_def)

interpretation tasks: interference "rely_of calm sv" "guar_of calm sv" apart for calm sv
proof (unfold_locales, goal_cases)
  case (2 j s s1 s2)
  then show ?case by (rule interf_trans)
next
  case (4 j j' s s')
  then have "tmp_owns j' \<subseteq> - tmp_writes j" by (auto simp: apart_def)
  then show ?case using 4(2) by (auto simp: interf_def)
qed simp_all

section \<open>Threads that keep the contract\<close>

definition kept :: "bool \<Rightarrow> server \<Rightarrow> job \<Rightarrow> (app, 'r) thread \<Rightarrow> bool" where
  "kept calm sv j p \<longleftrightarrow> (\<forall>s. steady calm sv (ap_sys s) \<longrightarrow>
     safe (rely_of calm sv j) (guar_of calm sv j) (\<lambda>_ s. steady calm sv (ap_sys s)) p s)"

named_theorems kept_intros

lemma kept_Return [kept_intros]: "kept calm sv j (Return r)"
  by (simp add: kept_def)

lemma kept_give [kept_intros]: "kept calm sv j (give a)"
  by (simp add: kept_def give_def)

lemma kept_continue: "kept calm sv j p \<Longrightarrow> (\<And>r. kept calm sv j (f r)) \<Longrightarrow> kept calm sv j (continue p f)"
  unfolding kept_def by (blast intro: safe_continue)

lemma kept_seq [kept_intros]: "kept calm sv j p \<Longrightarrow> (\<And>a. kept calm sv j (f a)) \<Longrightarrow> kept calm sv j (seq p f)"
  unfolding seq_def by (rule kept_continue) (auto simp: next_ok_def kept_Return split: outcome.split)

lemma kept_each [kept_intros]:
  "(\<And>x r. x \<in> set xs \<Longrightarrow> kept calm sv j (f x r)) \<Longrightarrow> kept calm sv j (each f xs r)"
  by (induction xs arbitrary: r) (auto intro: kept_intros)

lemma kept_locked [kept_intros]:
  assumes "kept calm sv j p"
  shows "kept calm sv j (locked p)"
proof -
  have "kept calm sv j (continue p (\<lambda>r. Unlock (Return r)))"
    by (rule kept_continue [OF assms]) (auto simp: kept_def dest: interf_steady)
  then show ?thesis unfolding kept_def locked_def by (auto dest: interf_steady)
qed

lemma kept_act:
  assumes "\<And>s. steady calm sv (ap_sys s) \<Longrightarrow> guar_of calm sv j s (snd (m s))"
  shows "kept calm sv j (act m)"
  unfolding kept_def
proof (intro allI impI safe_act)
  fix s :: app
  assume s: "steady calm sv (ap_sys s)"
  then show "guar_of calm sv j s (snd (m s))" by (rule assms)
  then have "steady calm sv (ap_sys (snd (m s)))" using s by (rule interf_steady)
  then show "steady calm sv (ap_sys s')" if "rely_of calm sv j (snd (m s)) s'" for s'
    using interf_steady [OF that] by blast
qed

text \<open>Steps that do not touch database or files.\<close>

lemma kept_quiet: "(\<And>s. ap_sys (snd (m s)) = ap_sys s) \<Longrightarrow> kept calm sv j (act m)"
  by (rule kept_act) simp

lemma kept_bookkeeping [kept_intros]:
  "kept calm sv j (act (ensure_project a u))" "kept calm sv j (act (expect_header v))"
  "kept calm sv j (act (spawn t))" "kept calm sv j (act (count_metric m labels))"
  "kept calm sv j (act (query q))" "kept calm sv j (act (parse_opt f x))"
  "kept calm sv j (act (miss_response a k))" "kept calm sv j (db_act (query r))"
  "kept calm sv j (sys_act (query t'))" "kept calm sv j (fs_act (query g))"
  by (rule kept_quiet; simp add: ensure_project_def expect_header_def parse_opt_def on_sys_def on_fs_def
      fail_def ret_def andthen_def split: option.split outcome.split)+

section \<open>Statements on the database\<close>

text \<open>
  What a statement has to keep: the constraints and, in a calm pool, the keys; it may not point an entry
  to a blob that none pointed to.
\<close>

definition fine :: "bool \<Rightarrow> (db, 'a) op \<Rightarrow> bool" where
  "fine calm m \<longleftrightarrow> (\<forall>d. wf_db d \<longrightarrow> wf_db (snd (m d)) \<and>
     (calm \<longrightarrow> e_blob_hash ` set (db_entries (snd (m d))) \<subseteq> e_blob_hash ` set (db_entries d) \<and>
        entry_key ` set (db_entries d) \<subseteq> entry_key ` set (db_entries (snd (m d)))))"

lemma served_None: "served d key = None \<longleftrightarrow> key \<notin> entry_key ` set (db_entries d)"
  by (simp add: served_def entry_at_None)

lemma interf_db:
  assumes "wf_db (sys_db y) \<Longrightarrow> wf_db d'"
    and "calm \<Longrightarrow> wf_db (sys_db y) \<Longrightarrow> entry_key ` set (db_entries (sys_db y)) \<subseteq> entry_key ` set (db_entries d')"
    and "\<And>e. calm \<Longrightarrow> steady calm sv y \<Longrightarrow> e \<in> set (db_entries d') \<Longrightarrow>
      blob_file (sv_root sv) (e_blob_hash e) (sys_fs y) \<noteq> None"
  shows "interf calm sv us y (y\<lparr>sys_db := d'\<rparr>)"
  using assms unfolding interf_def steady_def grows_def blobs_present_def served_None by auto

lemma kept_db:
  assumes "fine calm m"
  shows "kept calm sv j (db_act m)"
proof (rule kept_act)
  fix s :: app
  assume s: "steady calm sv (ap_sys s)"
  obtain r d' where m: "m (sys_db (ap_sys s)) = (r, d')" by fastforce
  have fine: "wf_db d'" "calm \<Longrightarrow> e_blob_hash ` set (db_entries d') \<subseteq> e_blob_hash ` set (db_entries (sys_db (ap_sys s)))"
    "calm \<Longrightarrow> entry_key ` set (db_entries (sys_db (ap_sys s))) \<subseteq> entry_key ` set (db_entries d')"
    using assms s m unfolding fine_def steady_def by (metis snd_conv)+
  have "blob_file (sv_root sv) (e_blob_hash e) (sys_fs (ap_sys s)) \<noteq> None" if calm: calm and e: "e \<in> set (db_entries d')" for e
  proof -
    obtain e' where "e' \<in> set (db_entries (sys_db (ap_sys s)))" "e_blob_hash e = e_blob_hash e'"
      using fine(2) [OF calm] e by blast
    then show ?thesis using s calm by (auto simp: steady_def blobs_present_def)
  qed
  then have "interf calm sv (- tmp_writes j) (ap_sys s) ((ap_sys s)\<lparr>sys_db := d'\<rparr>)"
    using fine by (intro interf_db) auto
  then show "guar_of calm sv j s (snd (on_app_db m s))" using m by simp
qed

text \<open>Statements that leave the entries as they are, and those that change entries in place.\<close>

lemma fine_same: "keeps wf_db m \<Longrightarrow> (\<And>d. db_entries (snd (m d)) = db_entries d) \<Longrightarrow> fine calm m"
  by (simp add: fine_def keeps_def)

lemma fine_wf: "keeps wf_db m \<Longrightarrow> fine False m"
  by (simp add: fine_def keeps_def)

named_theorems fine_intros

lemma update_columns_state: "snd (update_columns i nm q t d) = snd (projects_update i nm q t d)"
  by (simp add: update_columns_def projects_update_def projects_get_def andthen_def
      split: prod.split outcome.split)

lemma fine_statements [fine_intros]:
  "fine calm (projects_create now name q t)" "fine calm (update_columns i nm q' t')"
  "fine calm (api_keys_create now pid l h r lab)" "fine calm (api_keys_revoke now pid i)"
  "fine calm (admin_tokens_create now l h lab)" "fine calm (admin_tokens_revoke now i)"
  "fine calm (bump now pid' kd c by)" "fine calm (audit now act' a tgt dt)"
proof -
  have "keeps wf_db (update_columns i nm q' t')"
    using keeps_wf_projects_update [of i nm q' t'] by (simp add: keeps_def update_columns_state)
  moreover have "db_entries (snd (update_columns i nm q' t' d)) = db_entries d" for d
    using keepsD [OF keeps_rows_update [where es = "db_entries d" and bs = "db_blobs d"], of d i nm q' t']
    by (simp add: update_columns_state)
  ultimately show "fine calm (update_columns i nm q' t')" by (rule fine_same)
qed (rule fine_same, rule keeps_intros,
    simp add: projects_create_def api_keys_create_def api_keys_revoke_def admin_tokens_create_def
      admin_tokens_revoke_def bump_def audit_def Let_def)+

lemma fine_in_place [fine_intros]: "fine calm (touch now i)" "fine calm (set_pinned pid i pin)"
proof -
  have "map e_blob_hash (sql_update c f es) = map e_blob_hash es"
    "map entry_key (sql_update c f es) = map entry_key es"
    if "\<And>e. e_blob_hash (f e) = e_blob_hash e \<and> entry_key (f e) = entry_key e" for c f es
    using that by (simp_all add: map_sql_update)
  then have same: "e_blob_hash ` set (sql_update c f es) = e_blob_hash ` set es"
    "entry_key ` set (sql_update c f es) = entry_key ` set es"
    if "\<And>e. e_blob_hash (f e) = e_blob_hash e \<and> entry_key (f e) = entry_key e" for c f es
    using that by (metis list.set_map)+
  have keys: "entry_key (e\<lparr>e_last_accessed := now\<rparr>) = entry_key e" "entry_key (e\<lparr>e_pinned := pin\<rparr>) = entry_key e"
    for e :: entry
    by (simp_all add: entry_key_def)
  show "fine calm (touch now i)" "fine calm (set_pinned pid i pin)"
    using keeps_wf_touch [of now i] keeps_wf_set_pinned [of pid i pin]
    by (auto simp: fine_def keeps_def touch_def set_pinned_def Let_def same keys simp del: set_sql_update)
qed

lemma fine_removals [fine_intros]:
  "fine False (projects_delete i)" "fine False (entries_delete pid i)" "fine False (blobs_delete h)"
  "fine False (purge_row h)"
  by (rule fine_wf, rule keeps_intros keeps_wf_purge_row)+

lemma kept_reads [kept_intros]:
  "kept calm sv j (db_act (projects_get i))" "kept calm sv j (db_act projects_list)"
  "kept calm sv j (db_act (api_keys_find_active pid l))" "kept calm sv j (db_act (admin_tokens_find_active l))"
  "kept calm sv j (db_act (api_keys_list i))" "kept calm sv j (db_act admin_tokens_list)"
  "kept calm sv j (db_act total_size)" "kept calm sv j (db_act (project_usage i))"
  "kept calm sv j (db_act (entries_find pid k p))" "kept calm sv j (db_act (stats_sum pid' c b))"
  "kept calm sv j (db_act (audit_since rank s n))" "kept calm sv j (db_act (zero_refcount rank' m))"
  "kept calm sv j (db_act (entries_list codec mixed i f))"
proof -
  have "snd (entries_list codec mixed i f d) = d" for d
    by (auto simp: entries_list_def Let_def andthen_def split: option.split prod.split outcome.split)
  then show "kept calm sv j (db_act (entries_list codec mixed i f))" by (intro kept_quiet) (rule on_app_db_same)
qed (unfold projects_get_def projects_list_def api_keys_find_active_def admin_tokens_find_active_def
    api_keys_list_def admin_tokens_list_def total_size_def project_usage_def entries_find_def stats_sum_def
    audit_since_def zero_refcount_def, (rule kept_intros)+)

lemma kept_audit [kept_intros]: "kept calm sv j (act (audit_call sv' now auth action target detail))"
  unfolding audit_call_def by (intro kept_db fine_intros)

section \<open>The collector\<close>

text \<open>A sweep that is no dry run does not keep the contract of a calm pool.\<close>

lemma kept_unlink: "kept False sv j (sys_act (unlink_logged env (sv_root sv) h))"
proof (rule kept_act)
  fix s :: app
  assume s: "steady False sv (ap_sys s)"
  let ?y = "ap_sys s"
  let ?y' = "snd (unlink_logged env (sv_root sv) h ?y)"
  have "integral (cr_sha256 (sv_crypto sv)) (blob_file (sv_root sv)) (sys_fs ?y')"
    using s keepsD [OF keeps_intact_unlink] unfolding steady_def by blast
  moreover have "wf_db (sys_db ?y')"
    using s keepsD [OF keeps_unlink_logged [of wf_db]] unfolding steady_def by blast
  moreover have "fs_get (sys_fs ?y') (tmp_path (sv_root sv) u) = fs_get (sys_fs ?y) (tmp_path (sv_root sv) u)" for u
    by (auto simp: unlink_logged_def delete_blob_def remove_file_def split: option.splits outcome.splits prod.splits
        dest: blob_path_not_tmp)
  moreover have "ap_sys (snd (on_sys (unlink_logged env (sv_root sv) h) s)) = ?y'"
    by (cases "unlink_logged env (sv_root sv) h ?y") simp
  ultimately show "guar_of False sv j s (snd (on_sys (unlink_logged env (sv_root sv) h) s))"
    using s by (simp add: interf_def steady_def)
qed

lemma kept_gc_delete: "(calm \<Longrightarrow> dry_run) \<Longrightarrow> kept calm sv j (gc_delete_t dry_run pid i)"
  by (cases calm) (auto simp: gc_delete_t_def intro: kept_intros kept_db fine_intros)

lemma kept_evict_row: "(calm \<Longrightarrow> dry_run) \<Longrightarrow> kept calm sv j (evict_row_t dry_run row rep)"
  by (cases row) (auto simp: evict_row_t_def intro!: kept_intros kept_gc_delete)

lemma kept_evict_until: "(calm \<Longrightarrow> dry_run) \<Longrightarrow> kept calm sv j (evict_until_t dry_run quota rows usage rep)"
  by (induction dry_run quota rows usage rep rule: evict_until_t.induct)
     (auto intro!: kept_intros kept_gc_delete)

lemma kept_free_blob: "(calm \<Longrightarrow> dry_run) \<Longrightarrow> kept calm sv j (free_blob_t env (sv_root sv) dry_run h rep)"
  by (cases calm) (auto simp: free_blob_t_def intro!: kept_intros kept_unlink intro: kept_db fine_intros)

lemma kept_cleanup: "(calm \<Longrightarrow> dry_run) \<Longrightarrow> kept calm sv j (cleanup_blobs_t n env (sv_root sv) dry_run rep)"
  by (induction n arbitrary: rep) (auto intro!: kept_intros kept_free_blob)

lemma kept_gc_run:
  assumes "calm \<Longrightarrow> dry_run"
  shows "kept calm sv j (gc_run_t n env cfg (sv_root sv) dry_run)"
  unfolding gc_run_t_def ttl_phase_t_def ttl_kind_t_def quota_phase_t_def quota_project_t_def global_phase_t_def Let_def
  by (intro kept_locked kept_seq kept_each kept_reads kept_bookkeeping kept_give kept_cleanup)
     (auto split: option.split intro!: kept_intros kept_evict_row kept_evict_until simp: assms)

lemma kept_walk: "kept calm sv j (walk_blobs_t n faults dir out)"
proof (induction n arbitrary: dir out)
  case (Suc n)
  then show ?case by (auto intro!: kept_intros)
qed (simp add: kept_Return)

lemma kept_orphan_scan:
  assumes "calm \<Longrightarrow> dry_run"
  shows "kept calm sv j (orphan_scan_t n env (sv_root sv) dry_run)"
  unfolding orphan_scan_t_def disk_orphan_t_def db_orphan_t_def
  by (intro kept_locked kept_seq kept_each kept_bookkeeping kept_give)
     (cases calm; use assms in \<open>auto intro!: kept_walk kept_intros kept_unlink intro: kept_db fine_intros\<close>)+

section \<open>Authentication\<close>

lemma kept_get_or_insert:
  assumes "kept calm sv j f" and "\<And>g s. ap_sys (upd g s) = ap_sys s"
  shows "kept calm sv j (get_or_insert_t sel upd moka now scope lookup f)"
  unfolding get_or_insert_t_def Let_def
  by (intro kept_seq kept_quiet)
     (auto simp: assms(2) split: option.split intro!: kept_intros kept_quiet assms(1))

lemma kept_checks: "kept calm sv j (check_project_t cr name key)" "kept calm sv j (check_admin_t cr token)"
  unfolding check_project_t_def check_admin_t_def verify_argon2_async_def
  by (auto intro!: kept_intros split: option.split)

lemma kept_login:
  "kept calm sv j (get_or_insert_t ap_project_cache ap_project_cache_update mk now scope lookup (check_project_t cr name key))"
  "kept calm sv j (get_or_insert_t ap_admin_cache ap_admin_cache_update mk' now scope lookup (check_admin_t cr token))"
  by (rule kept_get_or_insert [OF kept_checks(1)], simp, rule kept_get_or_insert [OF kept_checks(2)], simp)

section \<open>Uploads\<close>

text \<open>Steps on the own temporary file.\<close>

lemma tmp_path_inj [simp]: "tmp_path root u = tmp_path root v \<longleftrightarrow> u = v"
  by (simp add: tmp_path_def)

lemma interf_tmp_file:
  assumes "\<And>q. q \<noteq> tmp_path (sv_root sv) u \<Longrightarrow> fs_get f q = fs_get (sys_fs y) q"
  shows "interf calm sv (- {u}) y (y\<lparr>sys_fs := f\<rparr>)"
proof -
  have "blob_file (sv_root sv) h f = blob_file (sv_root sv) h (sys_fs y)" for h
    by (rule blob_file_cong [OF assms])
  then show ?thesis
    using assms by (auto simp: interf_def steady_def grows_def integral_def blobs_present_def)
qed

lemma on_fs_step: "ap_sys (snd (on_sys (on_fs m) s)) = (ap_sys s)\<lparr>sys_fs := snd (m (sys_fs (ap_sys s)))\<rparr>"
  by (simp add: on_sys_def on_fs_def split: prod.split)

lemma fst_on_fs_step [simp]: "fst (on_sys (on_fs m) s) = fst (m (sys_fs (ap_sys s)))"
  by (simp add: on_sys_def on_fs_def split: prod.split)

text \<open>The temporary file holds what was hashed so far.\<close>

definition holds_tmp :: "bool \<Rightarrow> server \<Rightarrow> string \<Rightarrow> bytes \<Rightarrow> app \<Rightarrow> bool" where
  "holds_tmp calm sv u c s \<longleftrightarrow> steady calm sv (ap_sys s) \<and>
     fs_get (sys_fs (ap_sys s)) (tmp_path (sv_root sv) u) = Some c"

lemma holds_tmp_rely:
  "holds_tmp calm sv u c s \<Longrightarrow> interf calm sv {u} (ap_sys s) (ap_sys s') \<Longrightarrow> holds_tmp calm sv u c s'"
  unfolding holds_tmp_def using interf_tmp [of calm sv "{u}"] interf_steady by fastforce

abbreviation upload_safe ::
  "bool \<Rightarrow> server \<Rightarrow> string \<Rightarrow> ('r \<Rightarrow> app \<Rightarrow> bool) \<Rightarrow> (app, 'r) thread \<Rightarrow> app \<Rightarrow> bool" where
  "upload_safe calm sv u \<equiv> safe (\<lambda>s s'. interf calm sv {u} (ap_sys s) (ap_sys s'))
     (\<lambda>s s'. interf calm sv (- {u}) (ap_sys s) (ap_sys s'))"

lemma safe_tmp_step:
  assumes "steady calm sv (ap_sys s)"
    and "\<And>q. q \<noteq> tmp_path (sv_root sv) u \<Longrightarrow> fs_get (snd (m (sys_fs (ap_sys s)))) q = fs_get (sys_fs (ap_sys s)) q"
    and "\<And>s'. steady calm sv (ap_sys s') \<Longrightarrow>
      fs_get (sys_fs (ap_sys s')) (tmp_path (sv_root sv) u) = fs_get (snd (m (sys_fs (ap_sys s)))) (tmp_path (sv_root sv) u) \<Longrightarrow>
      Q (fst (m (sys_fs (ap_sys s)))) s'"
  shows "upload_safe calm sv u Q (fs_act m) s"
proof (rule safe_act)
  show own: "interf calm sv (- {u}) (ap_sys s) (ap_sys (snd (on_sys (on_fs m) s)))"
    unfolding on_fs_step by (rule interf_tmp_file [OF assms(2)])
  fix s' :: app
  assume rely: "interf calm sv {u} (ap_sys (snd (on_sys (on_fs m) s))) (ap_sys s')"
  have st: "steady calm sv (ap_sys (snd (on_sys (on_fs m) s)))" by (rule interf_steady [OF own assms(1)])
  show "Q (fst (on_sys (on_fs m) s)) s'"
    unfolding fst_on_fs_step
    by (rule assms(3) [OF interf_steady [OF rely st]]) (use interf_tmp [OF rely st] in \<open>simp add: on_fs_step\<close>)
qed

lemma safe_stream:
  assumes "holds_tmp calm sv u hasher s" and "0 \<le> running"
  shows "upload_safe calm sv u
    (\<lambda>r s. steady calm sv (ap_sys s) \<and> (\<forall>hs n. r = Ok (hs, n) \<longrightarrow>
       0 \<le> n \<and> stream_ok body \<and> hs = hasher @ stream_bytes body \<and> holds_tmp calm sv u hs s))
    (stream_body_t (tmp_path (sv_root sv) u) body hasher running) s"
  using assms
proof (induction body arbitrary: hasher running s)
  case Nil
  then show ?case by (simp add: give_def stream_ok_def) (simp add: holds_tmp_def)
next
  case (Cons c cs)
  show ?case
  proof (cases c)
    case (Inl e)
    then show ?thesis using Cons.prems by (simp add: holds_tmp_def)
  next
    case (Inr b)
    have "upload_safe calm sv u
        (\<lambda>r s. r = Ok () \<and> holds_tmp calm sv u (hasher @ b) s)
        (fs_act (append_file (tmp_path (sv_root sv) u) b)) s"
      using Cons.prems(1) by (intro safe_tmp_step) (simp_all add: holds_tmp_def append_file_def)
    moreover have "upload_safe calm sv u
        (\<lambda>r s. steady calm sv (ap_sys s) \<and> (\<forall>hs n. r = Ok (hs, n) \<longrightarrow>
           0 \<le> n \<and> stream_ok (c # cs) \<and> hs = hasher @ stream_bytes (c # cs) \<and> holds_tmp calm sv u hs s))
        (stream_body_t (tmp_path (sv_root sv) u) cs (hasher @ b) (running + int (length b))) s"
      if "holds_tmp calm sv u (hasher @ b) s" for s
      using that Inr Cons.prems(2)
      by (intro safe_post [OF Cons.IH [of "hasher @ b" s "running + int (length b)"]]) (auto simp: stream_ok_def)
    ultimately show ?thesis unfolding Inr stream_body_t.simps by (rule safe_seq) (simp_all add: Inr)
  qed
qed

text \<open>The blob is in place, unless it is reclaimed.\<close>

definition stored :: "bool \<Rightarrow> server \<Rightarrow> string \<Rightarrow> app \<Rightarrow> bool" where
  "stored calm sv h s \<longleftrightarrow> steady calm sv (ap_sys s) \<and>
     (calm \<longrightarrow> blob_file (sv_root sv) h (sys_fs (ap_sys s)) \<noteq> None)"

lemma stored_interf: "stored calm sv h s \<Longrightarrow> interf calm sv us (ap_sys s) (ap_sys s') \<Longrightarrow> stored calm sv h s'"
  by (cases calm) (auto simp: stored_def interf_def grows_def)

lemma safe_rename:
  assumes tmp: "holds_tmp calm sv u hs s" and dest: "blob_path (sv_root sv) (cr_sha256 (sv_crypto sv) hs) = Some dest"
  shows "upload_safe calm sv u
    (\<lambda>r s. steady calm sv (ap_sys s) \<and> (r = Ok () \<longrightarrow> stored calm sv (cr_sha256 (sv_crypto sv) hs) s))
    (fs_act (rename_step fault (tmp_path (sv_root sv) u) dest)) s"
proof (cases fault)
  case (Some e)
  then show ?thesis
    using tmp by (intro safe_tmp_step) (simp_all add: holds_tmp_def rename_step_def)
next
  case None
  let ?h = "cr_sha256 (sv_crypto sv) hs" and ?y = "ap_sys s" and ?tmp = "tmp_path (sv_root sv) u"
  let ?f = "rename_file ?tmp dest (sys_fs ?y)"
  have ne: "?tmp \<noteq> dest" using blob_path_not_tmp [OF dest] by metis
  have get: "fs_get ?f q = (if q = dest then Some hs else if q = ?tmp then None else fs_get (sys_fs ?y) q)" for q
    using tmp ne by (simp add: holds_tmp_def fs_get_rename)
  have blob: "blob_file (sv_root sv) h ?f = (if h = ?h then Some hs else blob_file (sv_root sv) h (sys_fs ?y))" for h
  proof (cases "blob_path (sv_root sv) h")
    case None
    then show ?thesis using dest by (auto simp: blob_file_def)
  next
    case (Some p)
    then have "p \<noteq> ?tmp" by (rule blob_path_not_tmp)
    moreover have "p = dest \<longleftrightarrow> h = ?h" using Some dest blob_path_inj by (metis option.inject)
    ultimately show ?thesis using Some by (simp add: blob_file_def get)
  qed
  have "steady calm sv (?y\<lparr>sys_fs := ?f\<rparr>)"
    using tmp by (simp add: holds_tmp_def steady_def blobs_present_def integral_def blob)
  moreover have "fs_get ?f (tmp_path (sv_root sv) v) = fs_get (sys_fs ?y) (tmp_path (sv_root sv) v)" if "v \<noteq> u" for v
    using blob_path_not_tmp [OF dest, of v] that by (simp add: get)
  moreover have "grows sv ?y (?y\<lparr>sys_fs := ?f\<rparr>)" by (simp add: grows_def blob)
  ultimately have own: "interf calm sv (- {u}) ?y (?y\<lparr>sys_fs := ?f\<rparr>)" by (simp add: interf_def)
  have st: "stored calm sv ?h s'" if "interf calm sv {u} (?y\<lparr>sys_fs := ?f\<rparr>) (ap_sys s')" for s'
  proof -
    have "steady calm sv (?y\<lparr>sys_fs := ?f\<rparr>)" using interf_steady [OF own] tmp by (simp add: holds_tmp_def)
    then have "stored calm sv ?h (s\<lparr>ap_sys := ?y\<lparr>sys_fs := ?f\<rparr>\<rparr>)" by (simp add: stored_def blob)
    then show ?thesis by (rule stored_interf) (use that in simp)
  qed
  show ?thesis
    by (rule safe_act) (use own st None in \<open>auto simp: on_fs_step rename_step_def stored_def\<close>)
qed

lemma safe_place_blob:
  assumes tmp: "holds_tmp calm sv u hs s" and dest: "blob_path (sv_root sv) (cr_sha256 (sv_crypto sv) hs) = Some dest"
  shows "upload_safe calm sv u
    (\<lambda>r s. steady calm sv (ap_sys s) \<and> (r = Ok () \<longrightarrow> stored calm sv (cr_sha256 (sv_crypto sv) hs) s))
    (place_blob_t fault (tmp_path (sv_root sv) u) dest) s"
proof -
  let ?h = "cr_sha256 (sv_crypto sv) hs" and ?tmp = "tmp_path (sv_root sv) u"
  let ?there = "\<lambda>s. stored calm sv ?h s"
  have at_dest: "blob_file (sv_root sv) ?h f = fs_get f dest" for f using dest by (simp add: blob_file_def)
  have look: "upload_safe calm sv u (\<lambda>r s. holds_tmp calm sv u hs s \<and> (r = Ok True \<longrightarrow> ?there s) \<and> (\<exists>b. r = Ok b))
      (fs_act (query (\<lambda>files. Ok (fs_get files dest \<noteq> None)))) s"
  proof (rule safe_act)
    fix s' :: app
    assume rely: "interf calm sv {u} (ap_sys (snd (on_sys (on_fs (query (\<lambda>files. Ok (fs_get files dest \<noteq> None)))) s))) (ap_sys s')"
    then have rely: "interf calm sv {u} (ap_sys s) (ap_sys s')" by (simp add: on_fs_step)
    have "?there s'" if "fs_get (sys_fs (ap_sys s)) dest \<noteq> None"
      by (rule stored_interf [OF _ rely]) (use that tmp in \<open>simp add: stored_def holds_tmp_def at_dest\<close>)
    then show "holds_tmp calm sv u hs s' \<and>
        (fst (on_sys (on_fs (query (\<lambda>files. Ok (fs_get files dest \<noteq> None)))) s) = Ok True \<longrightarrow> ?there s') \<and>
        (\<exists>b. fst (on_sys (on_fs (query (\<lambda>files. Ok (fs_get files dest \<noteq> None)))) s) = Ok b)"
      using holds_tmp_rely [OF tmp rely] by simp
  qed (simp add: on_fs_step)
  have discard: "upload_safe calm sv u (\<lambda>r s. steady calm sv (ap_sys s) \<and> (r = Ok () \<longrightarrow> ?there s))
      (fs_act (\<lambda>files. (Ok (), fs_del ?tmp files))) s" if "?there s" for s
  proof -
    have "upload_safe calm sv u (\<lambda>r s. steady calm sv (ap_sys s) \<and> ?there s) (fs_act (\<lambda>files. (Ok (), fs_del ?tmp files))) s"
      by (rule safe_frame [OF safe_tmp_step]) (use that in \<open>auto simp: stored_def [of calm sv ?h s] intro: stored_interf\<close>)
    then show ?thesis by (rule safe_post) simp
  qed
  show ?thesis
    unfolding place_blob_t_def
    by (rule safe_seq [OF look]) (auto simp: discard safe_rename dest)
qed

text \<open>What \<open>write_streamed\<close> hands on.\<close>

definition uploaded ::
  "bool \<Rightarrow> server \<Rightarrow> (io_error + bytes) list \<Rightarrow> written outcome \<Rightarrow> app \<Rightarrow> bool" where
  "uploaded calm sv body r s \<longleftrightarrow> steady calm sv (ap_sys s) \<and>
     (\<forall>w. r = Ok w \<longrightarrow> 0 \<le> w_size_bytes w \<and> stream_ok body \<and>
        w_hash w = cr_sha256 (sv_crypto sv) (stream_bytes body) \<and> stored calm sv (w_hash w) s)"

lemma safe_write_streamed:
  assumes "steady calm sv (ap_sys s)"
  shows "upload_safe calm sv u (uploaded calm sv body) (write_streamed_t (cr_sha256 (sv_crypto sv)) u fault (sv_root sv) body) s"
proof -
  let ?tmp = "tmp_path (sv_root sv) u"
  have create: "upload_safe calm sv u (\<lambda>r s. r = Ok () \<and> holds_tmp calm sv u [] s) (fs_act (create_file ?tmp)) s"
    using assms by (intro safe_tmp_step) (simp_all add: holds_tmp_def create_file_def)
  have finish: "upload_safe calm sv u (uploaded calm sv body)
      (let hash = cr_sha256 (sv_crypto sv) hs in
        case blob_path (sv_root sv) hash of
          None \<Rightarrow> Return Panic
        | Some dest \<Rightarrow> seq (place_blob_t fault ?tmp dest) (\<lambda>_. give \<lparr>w_hash = hash, w_size_bytes = n\<rparr>)) s"
    if "0 \<le> n" "stream_ok body" "hs = stream_bytes body" "holds_tmp calm sv u hs s" for hs n s
  proof (cases "blob_path (sv_root sv) (cr_sha256 (sv_crypto sv) hs)")
    case None
    then show ?thesis using that(4) by (simp add: uploaded_def holds_tmp_def)
  next
    case (Some dest)
    show ?thesis
      using Some that(1-3) unfolding Let_def option.case
      by (auto intro!: safe_seq [OF safe_place_blob [OF that(4) Some]] simp: uploaded_def give_def)
  qed
  show ?thesis
    unfolding write_streamed_t_def Let_def [of ?tmp]
    by (rule safe_seq [OF create], rule safe_seq [OF safe_stream [where u = u]])
       (auto simp: uploaded_def finish)
qed

text \<open>Registration: the entry refers to a blob that is there.\<close>

lemma interf_upsert:
  assumes up: "uploaded calm sv body (Ok w) s"
  shows "interf calm sv us (ap_sys s) (ap_sys (snd (on_app_db (upsert n1 n2 pid k p (w_hash w) (w_size_bytes w)) s)))"
    and "fst (on_app_db (upsert n1 n2 pid k p (w_hash w) (w_size_bytes w)) s) = Ok e \<Longrightarrow>
      served (sys_db (ap_sys (snd (on_app_db (upsert n1 n2 pid k p (w_hash w) (w_size_bytes w)) s)))) (pid, k, p) \<noteq> None"
proof -
  let ?d = "sys_db (ap_sys s)" and ?m = "upsert n1 n2 pid k p (w_hash w) (w_size_bytes w)"
  have wf: "wf_db ?d" and sz: "0 \<le> w_size_bytes w" using up by (simp_all add: uploaded_def steady_def)
  have "interf calm sv us (ap_sys s) (ap_sys (snd (on_app_db ?m s))) \<and>
    (fst (on_app_db ?m s) = Ok e \<longrightarrow> served (sys_db (ap_sys (snd (on_app_db ?m s)))) (pid, k, p) \<noteq> None)"
  proof (cases "has_project ?d pid")
    case False
    then show ?thesis using upsert_no_project [OF wf] by simp
  next
    case True
    let ?d' = "upsert_state n1 n2 pid k p (w_hash w) (w_size_bytes w) ?d"
    let ?r = "row_after n2 pid k p (w_hash w) (w_size_bytes w) ?d"
    have set: "set (db_entries ?d') = insert ?r {e \<in> set (db_entries ?d). entry_key e \<noteq> (pid, k, p)}"
      by (rule set_entries_upsert_state [OF wf])
    have key: "entry_key ?r = (pid, k, p)" and hash: "e_blob_hash ?r = w_hash w"
      by simp_all
    have "interf calm sv us (ap_sys s) ((ap_sys s)\<lparr>sys_db := ?d'\<rparr>)"
    proof (rule interf_db)
      show "wf_db ?d'" by (rule wf_upsert_state [OF wf True sz])
      show "entry_key ` set (db_entries ?d) \<subseteq> entry_key ` set (db_entries ?d')" unfolding set using key by auto
      fix e
      assume calm: calm and st: "steady calm sv (ap_sys s)" and e: "e \<in> set (db_entries ?d')"
      show "blob_file (sv_root sv) (e_blob_hash e) (sys_fs (ap_sys s)) \<noteq> None"
      proof (cases "e = ?r")
        case True
        then show ?thesis using up calm hash by (auto simp: uploaded_def stored_def)
      next
        case False
        then have "e \<in> set (db_entries ?d)" using e set by blast
        then show ?thesis using st calm by (simp add: steady_def blobs_present_def)
      qed
    qed
    moreover have "served ?d' (pid, k, p) \<noteq> None" unfolding served_None set using key by auto
    ultimately show ?thesis using upsert_Ok [OF wf True] by simp
  qed
  then show "interf calm sv us (ap_sys s) (ap_sys (snd (on_app_db ?m s)))"
    and "fst (on_app_db ?m s) = Ok e \<Longrightarrow> served (sys_db (ap_sys (snd (on_app_db ?m s)))) (pid, k, p) \<noteq> None"
    by blast+
qed

definition bound :: "bool \<Rightarrow> server \<Rightarrow> cache_index \<Rightarrow> string \<Rightarrow> app \<Rightarrow> bool" where
  "bound calm sv key h s \<longleftrightarrow> stored calm sv h s \<and> (calm \<longrightarrow> served (sys_db (ap_sys s)) key \<noteq> None)"

lemma bound_steady: "bound calm sv key h s \<Longrightarrow> steady calm sv (ap_sys s)"
  by (simp add: bound_def stored_def)

lemma bound_interf:
  assumes "bound calm sv key h s" and "interf calm sv us (ap_sys s) (ap_sys s')"
  shows "bound calm sv key h s'"
proof -
  have "stored calm sv h s'" using assms stored_interf by (auto simp: bound_def)
  then show ?thesis
    using assms by (cases calm) (auto simp: bound_def stored_def interf_def grows_def simp del: split_paired_All)
qed

lemma kept_safe:
  "kept calm sv j p \<Longrightarrow> steady calm sv (ap_sys s) \<Longrightarrow>
   safe (rely_of calm sv j) (guar_of calm sv j) (\<lambda>_ s. steady calm sv (ap_sys s)) p s"
  by (simp add: kept_def)

lemma kept_soft_trigger: "kept calm sv j (soft_trigger_t sv)"
  unfolding soft_trigger_t_def Let_def by (auto intro!: kept_intros)

text \<open>The answer is the one the code writes, whatever happens meanwhile.\<close>

lemma safe_answer:
  assumes "safe R G Q p s" and "safe (\<lambda>_ _. True) (\<lambda>_ _. True) (\<lambda>r _. P r) p s"
  shows "safe R G (\<lambda>r s. Q r s \<and> P r) p s"
  using assms by (induction p arbitrary: s rule: thread_steps_induct) (auto simp: case_prod_beta)

lemma answer_seq:
  "(\<And>a s. safe (\<lambda>_ _. True) (\<lambda>_ _. True) (\<lambda>r _. \<forall>x. r = Ok x \<longrightarrow> P x) (f a) s) \<Longrightarrow>
   safe (\<lambda>_ _. True) (\<lambda>_ _. True) (\<lambda>_ _. True) p s \<Longrightarrow>
   safe (\<lambda>_ _. True) (\<lambda>_ _. True) (\<lambda>r _. \<forall>x. r = Ok x \<longrightarrow> P x) (seq p f) s"
  by (rule safe_seq) auto

lemma safe_anything: "safe (\<lambda>_ _. True) (\<lambda>_ _. True) (\<lambda>_ _. True) p s"
  by (induction p arbitrary: s rule: thread_steps_induct) (auto simp: case_prod_beta)

lemma safe_commit:
  assumes j: "j = Request rq (Cache (PUT body) t headers)" and up: "uploaded calm sv body' (Ok w) s"
  shows "safe (rely_of calm sv j) (guar_of calm sv j)
    (\<lambda>r s. steady calm sv (ap_sys s) \<and> (\<forall>x. r = Ok x \<longrightarrow>
       rs_headers x = [(''etag'', quoted (w_hash w))] \<and> bound calm sv (pa_project_id a, k, p) (w_hash w) s))
    (put_commit_t sv rq' a k p w) s"
proof -
  let ?key = "(pa_project_id a, k, p)" and ?bound = "bound calm sv (pa_project_id a, k, p) (w_hash w)"
  let ?m = "upsert (rq_now rq' 1) (rq_now rq' 2) (pa_project_id a) k p (w_hash w) (w_size_bytes w)"
  let ?answer = "\<lambda>x. rs_headers x = [(''etag'', quoted (w_hash w))]"
  have st: "steady calm sv (ap_sys s)" using up by (simp add: uploaded_def)
  have reg: "safe (rely_of calm sv j) (guar_of calm sv j)
      (\<lambda>r s. steady calm sv (ap_sys s) \<and> (\<forall>e. r = Ok e \<longrightarrow> ?bound s)) (db_act ?m) s"
  proof (rule safe_act)
    show own: "guar_of calm sv j s (snd (on_app_db ?m s))" by (rule interf_upsert(1) [OF up])
    fix s' :: app
    assume rely: "rely_of calm sv j (snd (on_app_db ?m s)) s'"
    have st1: "steady calm sv (ap_sys (snd (on_app_db ?m s)))" using interf_steady [OF own st] .
    have "stored calm sv (w_hash w) (snd (on_app_db ?m s))"
      by (rule stored_interf [OF _ own]) (use up in \<open>auto simp: uploaded_def\<close>)
    then have "?bound s'" if "fst (on_app_db ?m s) = Ok e" for e
      by (intro bound_interf [OF _ rely]) (use interf_upsert(2) [OF up that] in \<open>simp add: bound_def\<close>)
    then show "steady calm sv (ap_sys s') \<and> (\<forall>e. fst (on_app_db ?m s) = Ok e \<longrightarrow> ?bound s')"
      using interf_steady [OF rely st1] by blast
  qed
  let ?rest = "seq (db_act (bump (rq_now rq' 3) (Some (pa_project_id a)) ''put'' 1 (w_size_bytes w))) (\<lambda>_.
     seq (soft_trigger_t sv) (\<lambda>_.
     seq (act (expect_header (quoted (w_hash w)))) (\<lambda>etag.
     give \<lparr>rs_status = 201, rs_headers = [(''etag'', etag)], rs_body = BEmpty\<rparr>)))"
  have "kept calm sv j ?rest"
    by (intro kept_seq kept_db fine_intros kept_soft_trigger kept_bookkeeping kept_give)
  then have frame: "safe (rely_of calm sv j) (guar_of calm sv j)
      (\<lambda>r s. steady calm sv (ap_sys s) \<and> ?bound s) ?rest s" if "?bound s" for s
    using that bound_steady [OF that] by (intro safe_frame [OF kept_safe]) (auto intro: bound_interf)
  have "safe (\<lambda>_ _. True) (\<lambda>_ _. True) (\<lambda>r _. \<forall>x. r = Ok x \<longrightarrow> ?answer x)
      (seq (act (expect_header (quoted (w_hash w)))) (\<lambda>etag.
       give \<lparr>rs_status = 201, rs_headers = [(''etag'', etag)], rs_body = BEmpty\<rparr>)) s" for s
    by (rule safe_seq [where M = "\<lambda>r _. \<forall>v. r = Ok v \<longrightarrow> v = quoted (w_hash w)"], rule safe_act)
       (auto simp: expect_header_def give_def split: if_splits)
  then have "safe (\<lambda>_ _. True) (\<lambda>_ _. True) (\<lambda>r _. \<forall>x. r = Ok x \<longrightarrow> ?answer x) ?rest s" for s
    by (rule answer_seq [OF answer_seq [OF _ safe_anything] safe_anything])
  then have rest: "safe (rely_of calm sv j) (guar_of calm sv j)
      (\<lambda>r s. (steady calm sv (ap_sys s) \<and> ?bound s) \<and> (\<forall>x. r = Ok x \<longrightarrow> ?answer x)) ?rest s" if "?bound s" for s
    using frame [OF that] by (intro safe_answer)
  show ?thesis
    unfolding put_commit_t_def
    by (rule safe_seq [OF reg]) (auto intro!: safe_post [OF rest])
qed

lemma safe_do_put:
  assumes j: "j = Request rq (Cache (PUT body) t headers)" and st: "steady calm sv (ap_sys s)"
  shows "safe (rely_of calm sv j) (guar_of calm sv j)
    (\<lambda>r s. steady calm sv (ap_sys s) \<and> (\<forall>x. r = Ok x \<longrightarrow> pa_project_name a = u \<and> pa_role a = Write \<and>
       stream_ok body' \<and> rs_headers x = [(''etag'', quoted (cr_sha256 (sv_crypto sv) (stream_bytes body')))] \<and>
       bound calm sv (pa_project_id a, k, p) (cr_sha256 (sv_crypto sv) (stream_bytes body')) s))
    (do_put_t sv rq a k u p body') s"
proof -
  let ?mine = "pa_project_name a = u \<and> pa_role a = Write"
  have own: "tmp_owns j = {rq_uuid rq}" "tmp_writes j = {rq_uuid rq}" using j by simp_all
  have check: "safe (rely_of calm sv j) (guar_of calm sv j)
      (\<lambda>r s. steady calm sv (ap_sys s) \<and> (\<forall>x. r = Ok x \<longrightarrow> pa_project_name a = u)) (act (ensure_project a u)) s"
    using st by (intro safe_act) (auto simp: ensure_project_def fail_def ret_def dest: interf_steady)
  have store: "safe (rely_of calm sv j) (guar_of calm sv j)
      (\<lambda>r s. uploaded calm sv body' r s \<and> (\<forall>w. r = Ok w \<longrightarrow> ?mine)) (put_store_t sv rq a u body') s"
    unfolding put_store_t_def
  proof (rule safe_seq [OF check])
    fix x :: unit and s :: app
    assume ok: "steady calm sv (ap_sys s) \<and> (\<forall>x'. Ok x = Ok x' \<longrightarrow> pa_project_name a = u)"
    show "safe (rely_of calm sv j) (guar_of calm sv j) (\<lambda>r s. uploaded calm sv body' r s \<and> (\<forall>w. r = Ok w \<longrightarrow> ?mine))
      (if \<not> allows_write (pa_role a) then Return (Err (Forbidden ''write''))
       else write_streamed_t (cr_sha256 (sv_crypto sv)) (rq_uuid rq) (rq_rename_fault rq) (sv_root sv) body') s"
    proof (cases "pa_role a = Write")
      case True
      then show ?thesis
        using ok unfolding own by (auto intro!: safe_post [OF safe_write_streamed])
    next
      case False
      then show ?thesis using ok by (cases "pa_role a") (simp_all add: uploaded_def)
    qed
  qed (simp_all add: uploaded_def)
  show ?thesis
    unfolding do_put_t_def
    by (rule safe_seq [OF store]) (auto simp: uploaded_def intro!: safe_post [OF safe_commit [OF j]])
qed

section \<open>Downloads\<close>

lemma safe_quiet:
  "steady calm sv (ap_sys s) \<Longrightarrow> ap_sys (snd (m s)) = ap_sys s \<Longrightarrow>
   safe (rely_of calm sv j) (guar_of calm sv j) (\<lambda>r s'. steady calm sv (ap_sys s') \<and> r = fst (m s)) (act m) s"
  by (rule safe_act) (auto dest: interf_steady)

definition labelled :: "server \<Rightarrow> response \<Rightarrow> bool" where
  "labelled sv r \<longleftrightarrow> (\<forall>c. rs_body r = BBytes c \<longrightarrow>
     (''etag'', quoted (cr_sha256 (sv_crypto sv) c)) \<in> set (rs_headers r))"

lemma safe_get_one:
  assumes st: "steady calm sv (ap_sys s)"
  shows "safe (rely_of calm sv j) (guar_of calm sv j)
    (\<lambda>r s. steady calm sv (ap_sys s) \<and> (\<forall>x. r = Ok x \<longrightarrow> labelled sv x))
    (get_one_t sv rq a k u p head_only) s"
proof -
  let ?Q = "\<lambda>r s. steady calm sv (ap_sys s) \<and> (\<forall>x. r = Ok x \<longrightarrow> labelled sv x)"
  let ?safe = "safe (rely_of calm sv j) (guar_of calm sv j) ?Q"
  have etag: "fst (expect_header v s) = Ok x \<Longrightarrow> x = v" and quiet: "ap_sys (snd (expect_header v s)) = ap_sys s" for v x s
    by (auto simp: expect_header_def split: if_splits)
  have read: "safe (rely_of calm sv j) (guar_of calm sv j)
      (\<lambda>r s. steady calm sv (ap_sys s) \<and> (\<forall>c. r = Ok c \<longrightarrow> cr_sha256 (sv_crypto sv) c = h))
      (fs_act (read_blob fault (sv_root sv) h)) s"
    if "steady calm sv (ap_sys s)" for fault h s
  proof (rule safe_act)
    have same: "ap_sys (snd (on_sys (on_fs (read_blob fault (sv_root sv) h)) s)) = ap_sys s"
      by (simp add: on_fs_step read_blob_def)
    then show "guar_of calm sv j s (snd (on_sys (on_fs (read_blob fault (sv_root sv) h)) s))" by simp
    fix s' :: app
    assume "rely_of calm sv j (snd (on_sys (on_fs (read_blob fault (sv_root sv) h)) s)) s'"
    then have "steady calm sv (ap_sys s')" using that same by (auto dest: interf_steady)
    moreover have "cr_sha256 (sv_crypto sv) c = h" if "fst (read_blob fault (sv_root sv) h (sys_fs (ap_sys s))) = Ok c" for c
    proof -
      have "blob_file (sv_root sv) h (sys_fs (ap_sys s)) = Some c"
        using that by (auto simp: read_blob_def blob_file_def open_file_def split: option.splits io_kind.splits)
      then show ?thesis using \<open>steady calm sv (ap_sys s)\<close> by (simp add: steady_def integral_def)
    qed
    ultimately show "steady calm sv (ap_sys s') \<and>
        (\<forall>c. fst (on_sys (on_fs (read_blob fault (sv_root sv) h)) s) = Ok c \<longrightarrow> cr_sha256 (sv_crypto sv) c = h)"
      by simp
  qed
  have labels: "labelled sv \<lparr>rs_status = 200, rs_headers = [(''content-length'', n),
        (''etag'', quoted (cr_sha256 (sv_crypto sv) c)), (''cache-control'', i)], rs_body = BBytes c\<rparr>"
    "labelled sv \<lparr>rs_status = 200, rs_headers = hs, rs_body = BEmpty\<rparr>" for n c i hs
    by (simp_all add: labelled_def)
  have last: "?safe (seq (act (spawn t)) (\<lambda>_. seq (act (count_metric m ls)) (\<lambda>_. give r))) s"
    if "steady calm sv (ap_sys s)" "labelled sv r" for t m ls r s
    using that
    by (intro safe_seq [OF safe_quiet] safe_seq [OF safe_quiet [where m = "count_metric m ls"]]) (auto simp: give_def)
  have body: "?safe (seq (fs_act (read_blob fault (sv_root sv) h)) (\<lambda>content.
      seq (act (spawn t)) (\<lambda>_. seq (act (count_metric m ls)) (\<lambda>_.
      give \<lparr>rs_status = 200, rs_headers = [(''content-length'', n), (''etag'', quoted h), (''cache-control'', i)],
        rs_body = BBytes content\<rparr>)))) s"
    if "steady calm sv (ap_sys s)" for fault h t m ls n i s
    by (rule safe_seq, rule read [OF that]) (auto intro!: last labels)
  have header: "?safe (seq (act (expect_header v)) f) s"
    if "steady calm sv (ap_sys s)" "\<And>s. steady calm sv (ap_sys s) \<Longrightarrow> ?safe (f v) s" for v f s
    by (rule safe_seq, rule safe_quiet [OF that(1)], rule quiet) (auto simp: that(2) split: if_splits)
  show ?thesis
    unfolding get_one_t_def Let_def
  proof (rule safe_seq, rule safe_quiet [OF st])
    show "ap_sys (snd (ensure_project a u s)) = ap_sys s" by (simp add: ensure_project_def)
  qed (auto simp: labels split: option.split
      intro!: safe_give header body safe_seq [OF kept_safe [OF kept_reads(9)]])
qed

section \<open>Every job keeps its promise\<close>

text \<open>What a \<open>PUT\<close> that was answered 201 and a \<open>GET\<close> that was answered 200 promise.\<close>

definition acknowledged ::
  "bool \<Rightarrow> server \<Rightarrow> target \<Rightarrow> (io_error + bytes) list \<Rightarrow> response \<Rightarrow> app \<Rightarrow> bool" where
  "acknowledged calm sv t body r s \<longleftrightarrow>
     stream_ok body \<and> rs_headers r = [(''etag'', quoted (cr_sha256 (sv_crypto sv) (stream_bytes body)))] \<and>
     (\<exists>a :: project_auth. pa_project_name a = target_project t \<and> pa_role a = Write \<and>
        bound calm sv (pa_project_id a, target_kind t, target_path t) (cr_sha256 (sv_crypto sv) (stream_bytes body)) s)"

fun promised :: "bool \<Rightarrow> server \<Rightarrow> job \<Rightarrow> response option \<Rightarrow> app \<Rightarrow> bool" where
  "promised calm sv (Request rq (Cache (PUT body) t headers)) (Some r) s =
     (rs_status r = 201 \<longrightarrow> acknowledged calm sv t body r s)"
| "promised calm sv (Request rq (Cache GET t headers)) (Some r) s = (rs_status r = 200 \<longrightarrow> labelled sv r)"
| "promised _ _ _ _ _ = True"

definition keeps_promise :: "bool \<Rightarrow> server \<Rightarrow> job \<Rightarrow> response option \<Rightarrow> app \<Rightarrow> bool" where
  "keeps_promise calm sv j r s \<longleftrightarrow> steady calm sv (ap_sys s) \<and> promised calm sv j r s"

text \<open>A calm job reclaims no blob and removes no entry.\<close>

fun calm_job :: "job \<Rightarrow> bool" where
  "calm_job (Request rq (Admin (RunGc dry_run) headers)) = dry_run"
| "calm_job (Request rq (Admin (OrphanScan dry_run) headers)) = dry_run"
| "calm_job (Request rq (Admin (DeleteEntry i eid) headers)) = False"
| "calm_job (Request rq (Admin (DeleteProject i) headers)) = False"
| "calm_job (Background env GcTask) = False"
| "calm_job (Tick env) = False"
| "calm_job _ = True"

lemma into_response_plain: "rs_status (into_response sv e) \<noteq> 200" "rs_status (into_response sv e) \<noteq> 201"
  by (cases e; simp add: into_response_def status_and_title_def)+

lemma challenges_plain: "rs_status basic_challenge = 401" "rs_status not_found_text = 404"
  by (simp_all add: basic_challenge_def text_response_def not_found_text_def)

lemma kept_admin_op:
  assumes "calm \<Longrightarrow> calm_job (Request rq (Admin req headers))"
  shows "kept calm sv j (admin_op_t n sv rq' a req)"
proof (cases req)
  case (DeleteProject i)
  then show ?thesis using assms by (cases calm) (auto simp: project_delete_t_def intro!: kept_intros kept_db fine_intros)
next
  case (DeleteEntry i eid)
  then show ?thesis using assms by (cases calm) (auto simp: entry_delete_t_def intro!: kept_intros kept_db fine_intros)
next
  case (RunGc dry_run)
  then show ?thesis using assms by (auto simp: gc_run_now_t_def intro!: kept_intros kept_gc_run)
next
  case (OrphanScan dry_run)
  then show ?thesis using assms by (auto simp: gc_orphan_scan_t_def intro!: kept_intros kept_orphan_scan)
qed (auto simp: project_create_t_def project_list_t_def project_get_t_def project_update_t_def key_create_t_def
    key_list_t_def key_revoke_t_def token_create_t_def token_list_t_def token_revoke_t_def entry_list_t_def
    entry_get_t_def entry_pin_t_def entry_unpin_t_def global_stats_t_def project_stats_t_def audit_read_t_def
    Let_def intro!: kept_intros intro: kept_db fine_intros)

lemma kept_readyz: "kept calm sv (Request rq (Readyz pe)) (readyz_t sv pe)"
proof -
  have step: "kept calm sv (Request rq (Readyz pe)) (fs_act m)"
    if "\<And>files q. q \<noteq> tmp_path (sv_root sv) ''.readyz'' \<Longrightarrow> fs_get (snd (m files)) q = fs_get files q" for m :: "(fs, unit) op"
    by (rule kept_act) (use that in \<open>simp add: on_fs_step interf_tmp_file\<close>)
  show ?thesis
    unfolding readyz_t_def Let_def
    by (intro kept_continue)
       (auto intro!: kept_intros kept_continue step simp: remove_file_def split: option.split)
qed

lemma promised_other [simp]:
  "promised calm sv j None s" "promised calm sv (Request rq Healthz) r s" "promised calm sv (Request rq (Readyz pe)) r s"
  "promised calm sv (Request rq Scrape) r s" "promised calm sv (Request rq (Admin req headers)) r s"
  "promised calm sv (Request rq (Cache HEAD t headers)) r s" "promised calm sv (Background env task) r s"
  "promised calm sv (Tick env) r s"
proof -
  show "promised calm sv j None s"
  proof (cases j)
    case (Request rq req)
    then show ?thesis
    proof (cases req)
      case (Cache m t headers)
      then show ?thesis using Request by (cases m) simp_all
    qed simp_all
  qed simp_all
qed (cases r; simp)+

lemma kept_promise:
  assumes "kept calm sv j p" and "steady calm sv (ap_sys s)" and "\<And>r s. promised calm sv j r s"
  shows "safe (rely_of calm sv j) (guar_of calm sv j) (keeps_promise calm sv j) p s"
  by (rule safe_post [OF kept_safe [OF assms(1,2)]]) (simp add: keeps_promise_def assms(3))

lemma safe_render:
  assumes "safe R G M p s" and "\<And>r s. M (Ok r) s \<Longrightarrow> Q (Some r) s"
    and "\<And>e s. M (Err e) s \<Longrightarrow> Q (Some (into_response sv e)) s" and "\<And>s. M Panic s \<Longrightarrow> Q None s"
  shows "safe R G Q (render_t sv p) s"
  unfolding render_t_def by (rule safe_continue [OF assms(1)]) (auto split: outcome.split simp: assms)

lemma kept_render: "kept calm sv j p \<Longrightarrow> kept calm sv j (render_t sv p)"
  unfolding render_t_def by (intro kept_continue kept_Return)

lemma safe_project_middleware:
  assumes "steady calm sv (ap_sys s)"
    and "\<And>a s. steady calm sv (ap_sys s) \<Longrightarrow> safe (rely_of calm sv j) (guar_of calm sv j) Q (h a) s"
    and "\<And>s. steady calm sv (ap_sys s) \<Longrightarrow> Q None s \<and> Q (Some basic_challenge) s"
    and "\<And>e s. steady calm sv (ap_sys s) \<Longrightarrow> Q (Some (into_response sv e)) s"
  shows "safe (rely_of calm sv j) (guar_of calm sv j) Q (project_middleware_t sv rq headers h) s"
  unfolding project_middleware_t_def
  by (cases "parse_basic sv headers")
     (auto simp: assms intro!: safe_continue [OF kept_safe [OF kept_login(1)]] split: outcome.split)

lemma kept_admin_middleware:
  "(\<And>a. kept calm sv j (h a)) \<Longrightarrow> kept calm sv j (admin_middleware_t sv rq headers h)"
  unfolding admin_middleware_t_def
  by (auto intro!: kept_Return kept_continue [OF kept_login(2)] split: option.split outcome.split)

lemma safe_read_handler:
  assumes "steady calm sv (ap_sys s)"
  shows "safe (rely_of calm sv j) (guar_of calm sv j)
    (\<lambda>r s. steady calm sv (ap_sys s) \<and> (\<forall>x. r = Some x \<longrightarrow> rs_status x = 200 \<longrightarrow> labelled sv x))
    (read_handler_t sv rq k head_only a u p) s"
proof -
  have miss: "safe (rely_of calm sv j) (guar_of calm sv j)
      (\<lambda>r s. steady calm sv (ap_sys s) \<and> (\<forall>x. r = Some x \<longrightarrow> rs_status x = 200 \<longrightarrow> labelled sv x))
      (render_t sv (act (miss_response a k))) s" if "steady calm sv (ap_sys s)" for s
    by (rule safe_render, rule safe_quiet [OF that]) (auto simp: challenges_plain)
  show ?thesis
    unfolding read_handler_t_def
    by (rule safe_continue [OF safe_get_one [OF assms]])
       (auto simp: into_response_plain miss split: outcome.split core_error.split)
qed

lemma safe_handler:
  assumes j: "j = Request rq (Cache m t headers)" and st: "steady calm sv (ap_sys s)"
  shows "safe (rely_of calm sv j) (guar_of calm sv j) (keeps_promise calm sv j) (yocto_handler_t sv rq m t a) s"
proof (cases m)
  case (PUT body)
  have "safe (rely_of calm sv j) (guar_of calm sv j) (keeps_promise calm sv j)
      (render_t sv (do_put_t sv rq a (target_kind t) (target_project t) (target_path t) body)) s"
    using PUT j
    by (intro safe_render [OF safe_do_put [OF j [unfolded PUT] st]])
       (auto simp: keeps_promise_def acknowledged_def into_response_plain)
  then show ?thesis using PUT by (cases t) (simp_all add: yocto_handler_t_def)
next
  case GET
  then have "safe (rely_of calm sv j) (guar_of calm sv j) (keeps_promise calm sv j)
      (read_handler_t sv rq k False a u p) s" for k u p
    by (intro safe_post [OF safe_read_handler [OF st]], case_tac r) (auto simp: keeps_promise_def j)
  then show ?thesis using GET by (cases t) (simp_all add: yocto_handler_t_def)
next
  case HEAD
  then have "safe (rely_of calm sv j) (guar_of calm sv j) (keeps_promise calm sv j)
      (read_handler_t sv rq k True a u p) s" for k u p
    by (intro safe_post [OF safe_read_handler [OF st]]) (auto simp: keeps_promise_def j)
  then show ?thesis using HEAD by (cases t) (simp_all add: yocto_handler_t_def)
qed

lemma job_safe:
  assumes "calm \<Longrightarrow> calm_job j" and st: "steady calm sv (ap_sys s)"
  shows "safe (rely_of calm sv j) (guar_of calm sv j) (keeps_promise calm sv j) (job_thread n sv j) s"
proof (cases j)
  case (Request rq req)
  show ?thesis
  proof (cases req)
    case (Cache m t headers)
    have j: "j = Request rq (Cache m t headers)" using Request Cache by simp
    have "safe (rely_of calm sv j) (guar_of calm sv j) (keeps_promise calm sv j)
        (project_middleware_t sv rq headers (yocto_handler_t sv rq m t)) s"
      by (rule safe_project_middleware [OF st safe_handler [OF j]])
         (cases m; auto simp: keeps_promise_def j challenges_plain into_response_plain)+
    then show ?thesis by (simp add: j job_thread_def request_t_def)
  next
    case (Admin areq headers)
    have "kept calm sv j (admin_middleware_t sv rq headers (\<lambda>a. render_t sv (admin_op_t n sv rq a areq)))"
      using assms(1) Request Admin by (intro kept_admin_middleware kept_render kept_admin_op) auto
    from kept_promise [OF this st] show ?thesis
      using Request Admin by (simp add: job_thread_def request_t_def)
  next
    case (Readyz pe)
    show ?thesis
      using kept_promise [OF kept_readyz st] Request Readyz by (simp add: job_thread_def request_t_def)
  next
    case Healthz
    then show ?thesis using Request st by (simp add: job_thread_def request_t_def keeps_promise_def)
  next
    case Scrape
    have "kept calm sv j (render_t sv (act (query (\<lambda>s. Ok (metrics_page sv s)))))"
      by (intro kept_render kept_intros)
    from kept_promise [OF this st] show ?thesis
      using Request Scrape by (simp add: job_thread_def request_t_def)
  qed
next
  case (Background env task)
  have "kept calm sv j (continue (gc_run_t n env (cfg_gc (sv_config sv)) (sv_root sv) False) (\<lambda>_. Return None))"
    if "task = GcTask"
    using that assms(1) Background by (intro kept_continue kept_gc_run kept_Return) auto
  moreover have "kept calm sv j (continue (db_act (touch (ge_now env) i)) (\<lambda>_. Return None))" for i
    by (intro kept_continue kept_db fine_intros kept_Return)
  ultimately have "kept calm sv j (job_thread n sv j)"
    using Background by (cases task) (simp_all add: job_thread_def)
  then show ?thesis using st Background by (intro kept_promise) simp_all
next
  case (Tick env)
  then have "kept calm sv j (job_thread n sv j)"
    using assms(1) by (auto simp: job_thread_def Let_def intro!: kept_continue kept_gc_run kept_Return)
  then show ?thesis using st Tick by (intro kept_promise) simp_all
qed

end
