(* ===== verification/Interleaving_Properties.thy ===== *)
theory Interleaving_Properties
  imports Interleaving
begin

text \<open>
  What holds of the server whatever the interleaving of its tasks: the stores stay intact, downloads
  carry the digest of their content, acknowledged uploads survive everything that is calm, files are
  only removed under the collector's mutex. And what the interleaving breaks: a pin can come too
  late for a sweep, a change can lose its audit row.
\<close>

section \<open>Reachable pools\<close>

definition pool_steady :: "bool \<Rightarrow> server \<Rightarrow> tasks \<Rightarrow> bool" where
  "pool_steady calm sv c \<longleftrightarrow> steady calm sv (ap_sys (po_state c)) \<and>
     pool_safe (rely_of calm sv) (guar_of calm sv) (keeps_promise calm sv) apart c"

lemma apart_sym: "apart j j' \<Longrightarrow> apart j' j"
  by (auto simp: apart_def)

lemma apart_background: "apart (Background env t) j" "apart j (Background env t)"
  by (simp_all add: apart_def)

lemma idle_steady: "steady calm sv (ap_sys s) \<Longrightarrow> pool_steady calm sv (idle s)"
  by (simp add: pool_steady_def idle_def tasks.empty_safe)

lemma arrive_steady:
  assumes "pool_steady calm sv c" and "calm \<Longrightarrow> calm_job j"
    and "\<And>x. x \<in> set (po_threads c) \<Longrightarrow> apart (fst x) j"
  shows "pool_steady calm sv (c\<lparr>po_threads := po_threads c @ [(j, Some (job_thread n sv j))]\<rparr>)"
proof -
  have "pool_safe (rely_of calm sv) (guar_of calm sv) (keeps_promise calm sv) apart
      (c\<lparr>po_threads := po_threads c @ [(j, Some (job_thread n sv j))]\<rparr>)"
  proof (rule tasks.arrive_safe)
    fix s :: app
    assume "rely_of calm sv j (po_state c) s"
    then have "steady calm sv (ap_sys s)" using assms(1) interf_steady unfolding pool_steady_def by blast
    then show "safe (rely_of calm sv j) (guar_of calm sv j) (keeps_promise calm sv j) (job_thread n sv j) s"
      using assms(2) by (intro job_safe)
  qed (use assms apart_sym in \<open>auto simp: pool_steady_def\<close>)
  then show ?thesis using assms(1) by (simp add: pool_steady_def)
qed

lemma concurrent_steady:
  assumes "concurrent_step sv jobs c c'" and "calm \<Longrightarrow> \<forall>j. jobs j \<longrightarrow> calm_job j" and "pool_steady calm sv c"
  shows "pool_steady calm sv c'"
  using assms
proof (induction rule: concurrent_step.induct)
  case (conc_arrive j c n)
  then show ?case by (intro arrive_steady) auto
next
  case (conc_task i c j env n)
  let ?c = "c\<lparr>po_state := take_task i (po_state c)\<rparr>"
  have "ap_sys (take_task i (po_state c)) = ap_sys (po_state c)" by (simp add: take_task_def)
  then have "pool_steady calm sv ?c" using conc_task.prems(2) by (simp add: pool_steady_def pool_safe_def)
  then have "pool_steady calm sv (?c\<lparr>po_threads := po_threads ?c @ [(j, Some (job_thread n sv j))]\<rparr>)"
    using conc_task by (intro arrive_steady) (auto simp: apart_background)
  then show ?case by (cases c) (simp add: conc_task.hyps)
next
  case (conc_step i c c')
  then have "pool_safe (rely_of calm sv) (guar_of calm sv) (keeps_promise calm sv) apart c' \<and>
      guar_of calm sv (fst (po_threads c ! i)) (po_state c) (po_state c')"
    using tasks.step_safe unfolding pool_steady_def by blast
  then show ?case using conc_step.prems interf_steady unfolding pool_steady_def by blast
next
  case (conc_restart c faults)
  then have "steady calm sv (ap_sys (serve_start faults sv (ap_sys (po_state c))))"
    by (simp add: pool_steady_def steady_def serve_start_def integral_def blobs_present_def store_open_content)
  from idle_steady [OF this] show ?case by (simp add: idle_def)
qed

lemma reachable_steady:
  assumes "(concurrent_step sv jobs)\<^sup>*\<^sup>* (idle s) c" and "calm \<Longrightarrow> \<forall>j. jobs j \<longrightarrow> calm_job j"
    and "steady calm sv (ap_sys s)"
  shows "pool_steady calm sv c"
  using assms(1)
proof (induction rule: rtranclp_induct)
  case (step y z)
  then show ?case using concurrent_steady [of sv jobs y z calm] assms(2) by blast
qed (rule idle_steady [OF assms(3)])

lemma returned_promise:
  assumes "pool_steady calm sv c" and "i < length (po_threads c)" and "po_threads c ! i = (j, Some (Return r))"
  shows "promised calm sv j r (po_state c)"
  using tasks.pool_safeD [of calm sv "keeps_promise calm sv" c i j "Return r" "po_state c"] assms
  by (simp add: pool_steady_def keeps_promise_def)

section \<open>The mutex\<close>

text \<open>No blob file is removed.\<close>

definition no_unlink :: "server \<Rightarrow> app \<Rightarrow> app \<Rightarrow> bool" where
  "no_unlink sv s s' \<longleftrightarrow> (\<forall>h. blob_file (sv_root sv) h (sys_fs (ap_sys s)) \<noteq> None \<longrightarrow>
     blob_file (sv_root sv) h (sys_fs (ap_sys s')) \<noteq> None)"

abbreviation mannered :: "server \<Rightarrow> (app, 'r) thread \<Rightarrow> bool" where
  "mannered sv p \<equiv> disciplined (no_unlink sv) False p False"

lemma mannered_files:
  "(\<And>s. sys_fs (ap_sys (snd (m s))) = sys_fs (ap_sys s)) \<Longrightarrow> disciplined (no_unlink sv) h (act m) h"
  by (rule disciplined_act) (simp add: no_unlink_def)

lemma mannered_bookkeeping [disciplined_intros]:
  "disciplined (no_unlink sv) h (db_act m) h" "disciplined (no_unlink sv) h (act (ensure_project a u)) h"
  "disciplined (no_unlink sv) h (act (expect_header v)) h" "disciplined (no_unlink sv) h (act (spawn t)) h"
  "disciplined (no_unlink sv) h (act (count_metric mt labels)) h" "disciplined (no_unlink sv) h (act (query q)) h"
  "disciplined (no_unlink sv) h (act (parse_opt f x)) h" "disciplined (no_unlink sv) h (act (miss_response a' k)) h"
  "disciplined (no_unlink sv) h (act (audit_call sv' now auth action target detail)) h"
  "disciplined (no_unlink sv) h (sys_act (query t')) h" "disciplined (no_unlink sv) h (fs_act (query g)) h"
  by (rule mannered_files; simp add: ensure_project_def expect_header_def parse_opt_def audit_call_def on_app_db_def
      on_sys_def on_fs_def on_db_def fail_def ret_def andthen_def split: prod.split option.split outcome.split)+

text \<open>The collector's work between taking and releasing the mutex.\<close>

lemma lock_free_evictions [lock_free_intros]:
  "lock_free (gc_delete_t dry_run pid i)" "lock_free (evict_row_t dry_run row rep)"
  "lock_free (free_blob_t env root dry_run h rep)" "lock_free (disk_orphan_t env root dry_run h orep)"
  "lock_free (db_orphan_t dry_run h orep)"
  by (cases row; auto simp: gc_delete_t_def evict_row_t_def free_blob_t_def disk_orphan_t_def db_orphan_t_def
      intro!: lock_free_intros)+

lemma lock_free_evict_until [lock_free_intros]: "lock_free (evict_until_t dry_run quota rows usage rep)"
  by (induction dry_run quota rows usage rep rule: evict_until_t.induct) (auto intro!: lock_free_intros)

lemma lock_free_cleanup [lock_free_intros]: "lock_free (cleanup_blobs_t n env root dry_run rep)"
  by (induction n arbitrary: rep) (auto intro!: lock_free_intros)

lemma lock_free_walk [lock_free_intros]: "lock_free (walk_blobs_t n faults dir out)"
  by (induction n arbitrary: dir out) (auto intro!: lock_free_intros)

lemma disciplined_collector [disciplined_intros]:
  "disciplined quiet False (gc_run_t n env cfg root dry_run) False"
  "disciplined quiet False (orphan_scan_t n env root dry_run) False"
  unfolding gc_run_t_def orphan_scan_t_def
  by (rule disciplined_locked, rule lock_free_disciplined,
      (intro lock_free_intros;
       auto simp: ttl_phase_t_def ttl_kind_t_def quota_phase_t_def quota_project_t_def global_phase_t_def Let_def
         simp del: each.simps split: option.split intro!: lock_free_intros))+

text \<open>Uploads only ever add files.\<close>

lemma mannered_fs:
  "(\<And>files g. blob_file (sv_root sv) g files \<noteq> None \<Longrightarrow> blob_file (sv_root sv) g (snd (m files)) \<noteq> None) \<Longrightarrow>
   disciplined (no_unlink sv) h (fs_act m) h"
  by (rule disciplined_act) (auto simp: no_unlink_def on_fs_step)

lemma mannered_tmp:
  assumes "\<And>files q. q \<noteq> tmp_path (sv_root sv) u \<Longrightarrow> fs_get (snd (m files)) q = fs_get files q"
  shows "disciplined (no_unlink sv) h (fs_act m) h"
proof (rule mannered_fs)
  fix files g
  have "blob_file (sv_root sv) g (snd (m files)) = blob_file (sv_root sv) g files"
    by (rule blob_file_cong [OF assms])
  then show "blob_file (sv_root sv) g (snd (m files)) \<noteq> None" if "blob_file (sv_root sv) g files \<noteq> None"
    using that by simp
qed

lemma mannered_rename: "disciplined (no_unlink sv) h (fs_act (rename_step fault (tmp_path (sv_root sv) u) dest)) h"
proof (rule mannered_fs)
  fix files :: fs and g
  assume here: "blob_file (sv_root sv) g files \<noteq> None"
  then obtain p where p: "blob_path (sv_root sv) g = Some p" "fs_get files p \<noteq> None"
    by (auto simp: blob_file_def split: option.splits)
  then have "p \<noteq> tmp_path (sv_root sv) u" using blob_path_not_tmp by blast
  then show "blob_file (sv_root sv) g (snd (rename_step fault (tmp_path (sv_root sv) u) dest files)) \<noteq> None"
    using p by (auto simp: blob_file_def rename_step_def rename_file_def split: option.split)
qed

lemma mannered_write_streamed: "disciplined (no_unlink sv) h (write_streamed_t sha u fault (sv_root sv) body) h"
proof -
  have stream: "disciplined (no_unlink sv) h (stream_body_t (tmp_path (sv_root sv) u) body hs n) h" for hs n
  proof (induction body arbitrary: hs n)
    case (Cons c cs)
    then show ?case
      by (cases c) (auto intro!: disciplined_intros mannered_tmp [where u = u] simp: append_file_def)
  qed (simp add: disciplined_give)
  show ?thesis
    unfolding write_streamed_t_def place_blob_t_def Let_def
    by (auto split: option.split intro!: disciplined_intros stream mannered_tmp [where u = u] mannered_rename
        simp: create_file_def)
qed

lemma mannered_render: "disciplined q h p h \<Longrightarrow> disciplined q h (render_t sv p) h"
  unfolding render_t_def by (rule disciplined_continue) simp_all

lemma mannered_login:
  "mannered sv (get_or_insert_t ap_project_cache ap_project_cache_update mk now scope lookup (check_project_t cr name key))"
  "mannered sv (get_or_insert_t ap_admin_cache ap_admin_cache_update mk' now scope lookup (check_admin_t cr token))"
  unfolding get_or_insert_t_def check_project_t_def check_admin_t_def verify_argon2_async_def Let_def
  by (auto intro!: disciplined_intros mannered_files split: option.split)

lemma mannered_handler: "mannered sv (yocto_handler_t sv rq m t a)"
proof -
  have get: "mannered sv (get_one_t sv rq a k u p head_only)" for k u p head_only
    unfolding get_one_t_def Let_def read_blob_def by (auto intro!: disciplined_intros split: option.split)
  have read: "mannered sv (read_handler_t sv rq k head_only a u p)" for k head_only u p
    unfolding read_handler_t_def
    by (rule disciplined_continue [OF get])
       (auto intro!: mannered_render disciplined_intros split: outcome.split core_error.split)
  have put: "mannered sv (do_put_t sv rq a k u p body)" for k u p body
    unfolding do_put_t_def put_store_t_def put_commit_t_def soft_trigger_t_def Let_def
    by (auto intro!: disciplined_intros mannered_write_streamed)
  show ?thesis
    unfolding yocto_handler_t_def
    by (auto intro!: read mannered_render put split: target.split http_method.split)
qed

lemma mannered_admin_op: "mannered sv (admin_op_t n sv rq a req)"
  by (cases req)
     (auto simp: project_create_t_def project_list_t_def project_get_t_def project_update_t_def project_delete_t_def
    key_create_t_def key_list_t_def key_revoke_t_def token_create_t_def token_list_t_def token_revoke_t_def
    entry_list_t_def entry_get_t_def entry_delete_t_def entry_pin_t_def entry_unpin_t_def global_stats_t_def
    project_stats_t_def audit_read_t_def gc_run_now_t_def gc_orphan_scan_t_def Let_def intro!: disciplined_intros)

lemma mannered_readyz: "mannered sv (readyz_t sv pe)"
proof -
  have step: "mannered sv (fs_act m)"
    if "\<And>files q. q \<noteq> tmp_path (sv_root sv) ''.readyz'' \<Longrightarrow> fs_get (snd (m files)) q = fs_get files q" for m :: "(fs, unit) op"
    by (rule mannered_tmp [OF that])
  show ?thesis
    unfolding readyz_t_def Let_def
    by (intro disciplined_continue [where e = False] disciplined_intros)
       (auto intro!: disciplined_continue [where e = False] step disciplined_intros simp: remove_file_def split: option.split)
qed

lemma mannered_job: "mannered sv (job_thread n sv j)"
proof -
  have sweep: "mannered sv (continue (gc_run_t n env cfg root dry_run) (\<lambda>_. Return None))" for env cfg root dry_run
    by (rule disciplined_continue [OF disciplined_collector(1)]) simp
  have touch: "mannered sv (continue (db_act m) (\<lambda>_. Return None))" for m :: "(db, unit) op"
    by (rule disciplined_continue [OF mannered_bookkeeping(1)]) simp
  have req: "mannered sv (request_t n sv rq req)" for rq req
  proof (cases req)
    case (Cache m t headers)
    have "mannered sv (project_middleware_t sv rq headers (yocto_handler_t sv rq m t))"
      unfolding project_middleware_t_def
      by (auto intro!: disciplined_continue [OF mannered_login(1)] mannered_handler split: option.split outcome.split)
    then show ?thesis using Cache by (simp add: request_t_def)
  next
    case (Admin areq headers)
    have "mannered sv (admin_middleware_t sv rq headers (\<lambda>a. render_t sv (admin_op_t n sv rq a areq)))"
      unfolding admin_middleware_t_def
      by (auto intro!: disciplined_continue [OF mannered_login(2)] mannered_render mannered_admin_op
          split: option.split outcome.split)
    then show ?thesis using Admin by (simp add: request_t_def)
  qed (auto simp: request_t_def intro!: mannered_readyz mannered_render disciplined_intros)
  show ?thesis
    unfolding job_thread_def Let_def by (auto intro!: sweep touch req split: job.split task.split)
qed

lemma reachable_disciplined:
  assumes "(concurrent_step sv jobs)\<^sup>*\<^sup>* (idle s) c"
  shows "pool_disciplined (no_unlink sv) c"
  using assms
proof (induction rule: rtranclp_induct)
  case base
  then show ?case by (simp add: pool_disciplined_def idle_def)
next
  case (step c c')
  from step(2,3) show ?case
  proof (induction rule: concurrent_step.induct)
    case (conc_arrive j c n)
    then show ?case by (intro arrive_disciplined mannered_job)
  next
    case (conc_task i c j env n)
    have "pool_disciplined (no_unlink sv) (c\<lparr>po_threads := po_threads c @ [(j, Some (job_thread n sv j))]\<rparr>)"
      using conc_task.prems by (intro arrive_disciplined mannered_job)
    then show ?case by (simp add: pool_disciplined_def)
  next
    case (conc_step i c c')
    then show ?case using step_disciplined by blast
  qed (simp add: pool_disciplined_def)
qed

section \<open>Who takes the mutex\<close>

fun collects :: "job \<Rightarrow> bool" where
  "collects (Request rq (Admin (RunGc dry_run) headers)) = True"
| "collects (Request rq (Admin (OrphanScan dry_run) headers)) = True"
| "collects (Background env GcTask) = True"
| "collects (Tick env) = True"
| "collects _ = False"

lemma lock_free_login [lock_free_intros]:
  "lock_free (get_or_insert_t ap_project_cache ap_project_cache_update mk now scope lookup (check_project_t cr name key))"
  "lock_free (get_or_insert_t ap_admin_cache ap_admin_cache_update mk' now scope lookup (check_admin_t cr token))"
  unfolding get_or_insert_t_def check_project_t_def check_admin_t_def verify_argon2_async_def Let_def
  by (auto intro!: lock_free_intros split: option.split)

lemma lock_free_render [lock_free_intros]: "lock_free p \<Longrightarrow> lock_free (render_t sv p)"
  unfolding render_t_def by (intro lock_free_continue) simp_all

lemma lock_free_write_streamed [lock_free_intros]: "lock_free (write_streamed_t sha u fault root body)"
proof -
  have "lock_free (stream_body_t tmp body hs n)" for tmp hs n
    by (induction tmp body hs n rule: stream_body_t.induct) (auto intro!: lock_free_intros)
  then show ?thesis
    unfolding write_streamed_t_def place_blob_t_def Let_def by (auto intro!: lock_free_intros split: option.split)
qed

lemma lock_free_handler: "lock_free (yocto_handler_t sv rq m t a)"
proof -
  have "lock_free (get_one_t sv rq a k u p head_only)" for k u p head_only
    unfolding get_one_t_def Let_def by (auto intro!: lock_free_intros split: option.split)
  then have "lock_free (read_handler_t sv rq k head_only a u p)" for k head_only u p
    unfolding read_handler_t_def
    by (rule lock_free_continue) (auto intro!: lock_free_intros split: outcome.split core_error.split)
  moreover have "lock_free (do_put_t sv rq a k u p body)" for k u p body
    unfolding do_put_t_def put_store_t_def put_commit_t_def soft_trigger_t_def Let_def
    by (auto intro!: lock_free_intros)
  ultimately show ?thesis
    unfolding yocto_handler_t_def by (auto intro!: lock_free_intros split: target.split http_method.split)
qed

lemma lock_free_admin_op:
  "\<forall>d. req \<noteq> RunGc d \<and> req \<noteq> OrphanScan d \<Longrightarrow> lock_free (admin_op_t n sv rq a req)"
  by (cases req)
     (auto simp: project_create_t_def project_list_t_def project_get_t_def project_update_t_def project_delete_t_def
    key_create_t_def key_list_t_def key_revoke_t_def token_create_t_def token_list_t_def token_revoke_t_def
    entry_list_t_def entry_get_t_def entry_delete_t_def entry_pin_t_def entry_unpin_t_def global_stats_t_def
    project_stats_t_def audit_read_t_def Let_def intro!: lock_free_intros)

lemma lock_free_job:
  assumes "\<not> collects j"
  shows "lock_free (job_thread n sv j)"
proof -
  have req: "lock_free (request_t n sv rq req)" if j: "j = Request rq req" for rq req
  proof (cases req)
    case (Cache m t headers)
    then show ?thesis
      by (auto simp: request_t_def project_middleware_t_def
          intro!: lock_free_continue [OF lock_free_login(1)] lock_free_handler split: option.split outcome.split)
  next
    case (Admin areq headers)
    then have "\<forall>d. areq \<noteq> RunGc d \<and> areq \<noteq> OrphanScan d" using assms j by auto
    then show ?thesis
      using Admin by (auto simp: request_t_def admin_middleware_t_def
          intro!: lock_free_continue [OF lock_free_login(2)] lock_free_render lock_free_admin_op split: option.split outcome.split)
  qed (auto simp: request_t_def readyz_t_def Let_def intro!: lock_free_intros lock_free_continue)
  have touch: "lock_free (continue (db_act m) (\<lambda>_. Return None))" for m :: "(db, unit) op"
    by (intro lock_free_continue lock_free_intros)
  show ?thesis
    using assms by (auto simp: job_thread_def Let_def intro!: req touch split: job.split task.split)
qed

text \<open>Tasks that do not collect have no step on the mutex left, and none of them holds it.\<close>

definition collector_holds :: "tasks \<Rightarrow> bool" where
  "collector_holds c \<longleftrightarrow>
     (\<forall>j p. (j, Some p) \<in> set (po_threads c) \<longrightarrow> \<not> collects j \<longrightarrow> lock_free p) \<and>
     (\<forall>i. po_holder c = Some i \<longrightarrow> i < length (po_threads c) \<and> collects (fst (po_threads c ! i)))"

lemma step_collector_holds:
  assumes "thread_step i c c'" and "collector_holds c"
  shows "collector_holds c'"
  using assms(1)
proof (cases rule: thread_step.cases)
  case (step_atomic ts j k s p s' h)
  have "lock_free p" if "\<not> collects j"
  proof -
    have "lock_free (Atomic k)"
      using assms(2) step_atomic(1,3,4) that nth_mem [of i ts] by (auto simp: collector_holds_def simp del: lock_free.simps)
    then show ?thesis using step_atomic(5) by (auto dest: spec [of _ s])
  qed
  then show ?thesis
    using assms(2) step_atomic set_update_subset_insert [of ts i "(j, Some p)"]
    by (auto simp: collector_holds_def nth_list_update)
next
  case (step_lock ts j p s)
  then have "collects j" using assms(2) nth_mem [of i ts] by (force simp: collector_holds_def)
  then show ?thesis
    using assms(2) step_lock set_update_subset_insert [of ts i "(j, Some p)"]
    by (auto simp: collector_holds_def nth_list_update)
next
  case (step_unlock ts j p s)
  then have "collects j" using assms(2) nth_mem [of i ts] by (force simp: collector_holds_def)
  then show ?thesis
    using assms(2) step_unlock set_update_subset_insert [of ts i "(j, Some p)"]
    by (auto simp: collector_holds_def nth_list_update)
next
  case (step_drop ts j p h s)
  then show ?thesis
    using assms(2) set_update_subset_insert [of ts i "(j, None)"]
    by (auto simp: collector_holds_def nth_list_update)
qed

lemma reachable_collector_holds:
  assumes "(concurrent_step sv jobs)\<^sup>*\<^sup>* (idle s) c"
  shows "collector_holds c"
  using assms
proof (induction rule: rtranclp_induct)
  case base
  then show ?case by (simp add: collector_holds_def idle_def)
next
  case (step c c')
  have arrive: "collector_holds (x\<lparr>po_threads := po_threads x @ [(j, Some (job_thread n sv j))]\<rparr>)"
    if "collector_holds x" for x j n
    using that lock_free_job by (auto simp: collector_holds_def nth_append)
  from step(2,3) show ?case
  proof (induction rule: concurrent_step.induct)
    case (conc_arrive j c n)
    then show ?case by (intro arrive)
  next
    case (conc_task i c j env n)
    from arrive [OF conc_task.prems, of j n] show ?case by (simp add: collector_holds_def)
  next
    case (conc_step i c c')
    then show ?case by (rule step_collector_holds)
  qed (simp add: collector_holds_def)
qed

section \<open>Schedules\<close>

text \<open>A job that arrives and is not interrupted until it ends.\<close>

lemma uninterrupted:
  assumes "rounds_enough n s" and "i < length ts"
  shows "(thread_step i)\<^sup>*\<^sup>* \<lparr>po_threads = ts[i := (j, Some (job_thread n sv j))], po_holder = None, po_state = s\<rparr>
    \<lparr>po_threads = ts[i := (j, Some (Return (fst (job_step sv j s))))], po_holder = None, po_state = snd (job_step sv j s)\<rparr>"
  using scheduled_to_end [OF mannered_job [of sv n j] assms(2), of j s] run_job [OF assms(1)] by simp

lemma task_steps: "(thread_step i)\<^sup>*\<^sup>* c c' \<Longrightarrow> (concurrent_step sv jobs)\<^sup>*\<^sup>* c c'"
  by (erule mono_rtranclp [rule_format, rotated]) (rule conc_step)

lemma arrive_and_end:
  assumes "jobs j" and "\<nexists>env t. j = Background env t" and "\<And>x. x \<in> set ts \<Longrightarrow> apart (fst x) j"
  shows "(concurrent_step sv jobs)\<^sup>*\<^sup>* \<lparr>po_threads = ts, po_holder = None, po_state = s\<rparr>
    \<lparr>po_threads = ts @ [(j, Some (Return (fst (job_step sv j s))))], po_holder = None, po_state = snd (job_step sv j s)\<rparr>"
proof -
  let ?n = "Suc (length (db_blobs (sys_db (ap_sys s))) + path_bound (sys_fs (ap_sys s)))"
  have "concurrent_step sv jobs \<lparr>po_threads = ts, po_holder = None, po_state = s\<rparr>
      \<lparr>po_threads = ts @ [(j, Some (job_thread ?n sv j))], po_holder = None, po_state = s\<rparr>"
    using conc_arrive [of jobs j "\<lparr>po_threads = ts, po_holder = None, po_state = s\<rparr>" sv ?n] assms by simp
  moreover have "(thread_step (length ts))\<^sup>*\<^sup>*
      \<lparr>po_threads = ts @ [(j, Some (job_thread ?n sv j))], po_holder = None, po_state = s\<rparr>
      \<lparr>po_threads = ts @ [(j, Some (Return (fst (job_step sv j s))))], po_holder = None, po_state = snd (job_step sv j s)\<rparr>"
    using uninterrupted [of ?n s "length ts" "ts @ [(j, None)]" j sv] by (simp add: rounds_enough_def)
  ultimately show ?thesis using task_steps by (meson converse_rtranclp_into_rtranclp)
qed

lemma alone_reachable:
  assumes "jobs j" and "\<nexists>env t. j = Background env t"
  shows "(concurrent_step sv jobs)\<^sup>*\<^sup>* (idle s)
    \<lparr>po_threads = [(j, Some (Return (fst (job_step sv j s))))], po_holder = None, po_state = snd (job_step sv j s)\<rparr>"
  using arrive_and_end [of jobs j "[]" sv s] assms by (simp add: idle_def)

lemma login_scheduled:
  assumes "admin_accepts sv rq headers s = Some (a, s1)" and "i < length ts"
    and "j = Request rq (Admin areq headers)"
  shows "(thread_step i)\<^sup>*\<^sup>* \<lparr>po_threads = ts[i := (j, Some (job_thread n sv j))], po_holder = h, po_state = s\<rparr>
    \<lparr>po_threads = ts[i := (j, Some (render_t sv (admin_op_t n sv rq a areq)))], po_holder = h, po_state = s1\<rparr>"
proof -
  obtain token where token: "parse_bearer headers = Some token"
    using assms(1) by (auto simp: admin_accepts_def split: option.splits)
  let ?login = "get_or_insert_t ap_admin_cache ap_admin_cache_update (sv_admin_moka sv) (rq_now rq 0)
      ''admin'' (lookup_hash (sv_crypto sv) token) (check_admin_t (sv_crypto sv) token)"
  have "run ?login s = (Ok a, s1)"
    unfolding run_admin_login using assms(1) token
    by (auto simp: admin_accepts_def split: prod.splits outcome.splits)
  then show ?thesis
    using scheduled_alone [OF lock_free_login(2) assms(2), of j "sv_admin_moka sv" "rq_now rq 0" "''admin''"
        "lookup_hash (sv_crypto sv) token" "sv_crypto sv" token
        "\<lambda>r. case r of Ok a \<Rightarrow> render_t sv (admin_op_t n sv rq a areq)
           | Err e \<Rightarrow> Return (Some (if e = Unauthorized then bearer_unauthorized else into_response sv e))
           | Panic \<Rightarrow> Return None" h s] token assms(3)
    by (simp add: job_thread_def request_t_def admin_middleware_t_def)
qed

section \<open>The properties\<close>



text \<open>
  C7 The stores survive every interleaving (invariant): whatever jobs arrive, in whatever order their
  statements are executed and wherever they are dropped, the constraints of the database hold and what
  lies under a digest has that digest.
\<close>

theorem concurrent_server_stays_intact:
  assumes "(concurrent_step sv jobs)\<^sup>*\<^sup>* (idle s) c" and "wf_db (sys_db (ap_sys s))"
    and "integral (cr_sha256 (sv_crypto sv)) (blob_file (sv_root sv)) (sys_fs (ap_sys s))"
  shows "wf_db (sys_db (ap_sys (po_state c))) \<and>
    integral (cr_sha256 (sv_crypto sv)) (blob_file (sv_root sv)) (sys_fs (ap_sys (po_state c)))"
  using reachable_steady [OF assms(1), of False] assms(2,3) by (simp add: pool_steady_def steady_def)

theorem concurrent_server_stays_intact_witness:
  "\<exists>c. (concurrent_step (sample_server 1000) (\<lambda>_. True))\<^sup>*\<^sup>* (idle fresh_app) c \<and>
     length (po_threads c) = 2 \<and> wf_db (sys_db (ap_sys (po_state c)))"
proof -
  let ?sv = "sample_server 1000" and ?jobs = "\<lambda>_. True"
  define up where "up = Request sample_req sample_upload"
  define r s where "r = fst (job_step ?sv up fresh_app)" and "s = snd (job_step ?sv up fresh_app)"
  have "(concurrent_step ?sv ?jobs)\<^sup>*\<^sup>* (idle fresh_app)
      \<lparr>po_threads = [(up, Some (Return r))], po_holder = None, po_state = s\<rparr>"
    unfolding r_def s_def by (rule alone_reachable) (simp_all add: up_def)
  moreover obtain r' s' where "(concurrent_step ?sv ?jobs)\<^sup>*\<^sup>*
      \<lparr>po_threads = [(up, Some (Return r))], po_holder = None, po_state = s\<rparr>
      \<lparr>po_threads = [(up, Some (Return r)), (Tick sample_env, Some (Return r'))], po_holder = None, po_state = s'\<rparr>"
    using arrive_and_end [of ?jobs "Tick sample_env" "[(up, Some (Return r))]" ?sv s] by (auto simp: apart_def)
  ultimately have "(concurrent_step ?sv ?jobs)\<^sup>*\<^sup>* (idle fresh_app)
      \<lparr>po_threads = [(up, Some (Return r)), (Tick sample_env, Some (Return r'))], po_holder = None, po_state = s'\<rparr>"
    by (rule rtranclp_trans)
  from this concurrent_server_stays_intact [OF this] show ?thesis
    using fresh_sound [of ?sv] by (auto simp: sound_def intro!: exI)
qed

text \<open>
  C8 A download is what it says it is (safety): under every interleaving, a \<open>GET\<close> that is answered 200
  with bytes carries the digest of these bytes in its \<open>ETag\<close>, also where the entry has been replaced or
  its blob collected since the row was read.
\<close>

theorem concurrent_download_is_intact:
  assumes "(concurrent_step sv jobs)\<^sup>*\<^sup>* (idle s) c" and "wf_db (sys_db (ap_sys s))"
    and "integral (cr_sha256 (sv_crypto sv)) (blob_file (sv_root sv)) (sys_fs (ap_sys s))"
    and "(Request rq (Cache GET t headers), Some (Return (Some r))) \<in> set (po_threads c)"
    and "rs_status r = 200" and "rs_body r = BBytes content"
  shows "(''etag'', quoted (cr_sha256 (sv_crypto sv) content)) \<in> set (rs_headers r)"
proof -
  have steady: "pool_steady False sv c"
    using reachable_steady [OF assms(1), of False] assms(2,3) by (simp add: steady_def)
  obtain i where "i < length (po_threads c)" "po_threads c ! i = (Request rq (Cache GET t headers), Some (Return (Some r)))"
    using assms(4) by (auto simp: in_set_conv_nth)
  from returned_promise [OF steady this] show ?thesis using assms(5,6) by (simp add: labelled_def)
qed

theorem concurrent_download_is_intact_witness:
  "\<exists>s r content. fst (job_step (sample_server 1000)
       (Request sample_req (Cache GET (SstateUrl ''acme'' ''e'') sample_headers)) s) = Some r \<and>
     rs_body r = BBytes content \<and> (''etag'', quoted (cr_sha256 (sv_crypto (sample_server 1000)) content)) \<in> set (rs_headers r)"
proof (rule fresh_put)
  fix r0 and s0 :: app
  let ?sv = "sample_server 1000" and ?get = "Cache GET (SstateUrl ''acme'' ''e'') sample_headers"
  let ?d = "registered sample_req writer Sstate ''e'' sample_written fresh_db"
  let ?e = "row_after 1000000 1 Sstate ''e'' ''EEEE'' 4 fresh_db"
  define s where "s = s0\<lparr>ap_project_cache := []\<rparr>"
  assume put: "serve_request ?sv sample_req sample_upload fresh_app = (Some r0, s0)" and db: "sys_db (ap_sys s0) = ?d"
  have sound: "sound ?sv s"
    using sound_steps [OF request_steps fresh_sound, of ?sv sample_req sample_upload] put by (simp add: s_def sound_def)
  obtain c where acc: "project_accepts ?sv sample_req sample_headers s = Some (writer, s\<lparr>ap_project_cache := c\<rparr>)"
    by (rule writer_accepted [of s]) (simp_all add: s_def db fresh_db_facts)
  have "entry_at ?d (1, Sstate, ''e'') = Some ?e"
    using entry_at_registered [OF fresh_db_facts(1), of writer sample_written sample_req Sstate "''e''"] fresh_db_facts(2)
    by (simp add: sample_written_def)
  moreover have "e_blob_hash ?e = ''EEEE''" by simp
  ultimately obtain e where e: "e \<in> set (db_entries ?d)" "e_project_id e = 1" "e_kind e = Sstate" "e_path e = ''e''"
      "visible_ascii (e_blob_hash e)"
    using entry_at_Some [of ?d "(1, Sstate, ''e'')" ?e] by (auto simp: entry_key_def)
  have "sound ?sv (s\<lparr>ap_project_cache := c\<rparr>)" using sound by (simp add: sound_def)
  from entry_is_served [OF this, of e writer "''acme''" sample_req]
  obtain r content where "fst (get_one ?sv sample_req writer Sstate ''acme'' ''e'' False
      (s\<lparr>ap_project_cache := c\<rparr>)) = Ok r" "rs_status r = 200" "rs_body r = BBytes content"
    using e by (auto simp: s_def db)
  then have got: "fst (job_step ?sv (Request sample_req ?get) s) = Some r" "rs_status r = 200" "rs_body r = BBytes content"
    by (auto simp: job_step_def serve_request_def yocto_router_def project_gate.accepted [OF acc] yocto_handler_def
        get_sstate_def read_handler_def split: prod.splits)
  have reach: "(concurrent_step ?sv (\<lambda>_. True))\<^sup>*\<^sup>* (idle s)
      \<lparr>po_threads = [(Request sample_req ?get, Some (Return (Some r)))], po_holder = None,
       po_state = snd (job_step ?sv (Request sample_req ?get) s)\<rparr>"
    using alone_reachable [of "\<lambda>_. True" "Request sample_req ?get" ?sv s] got(1) by simp
  have "(''etag'', quoted (cr_sha256 (sv_crypto ?sv) content)) \<in> set (rs_headers r)"
    by (rule concurrent_download_is_intact [OF reach]) (use sound got in \<open>simp_all add: sound_def\<close>)
  then show ?thesis using got by blast
qed



lemma first_change:
  assumes "r\<^sup>*\<^sup>* c c'" and "P c" and "\<not> P c'"
  obtains d d' where "r\<^sup>*\<^sup>* c d" and "r d d'" and "P d" and "\<not> P d'"
  using assms by (induction rule: rtranclp_induct) blast+

definition garbage_app :: app where
  "garbage_app = fresh_app\<lparr>ap_sys := \<lparr>sys_db = db_empty\<lparr>db_blobs :=
     [\<lparr>b_hash = ''dddd'', b_size_bytes = 20, b_refcount = 0, b_created_at = 0\<rparr>]\<rparr>, sys_fs = sample_fs\<rparr>\<rparr>"

lemma garbage_collected:
  "blob_file sample_root ''dddd'' (sys_fs (ap_sys garbage_app)) \<noteq> None"
  "blob_file sample_root ''dddd'' (sys_fs (ap_sys (gc_tick (sample_server 1000) sample_env garbage_app))) = None"
proof -
  show "blob_file sample_root ''dddd'' (sys_fs (ap_sys garbage_app)) \<noteq> None"
    by (simp add: garbage_app_def blob_file_def blob_path_def fs_get_def sample_fs_def sample_root_def)
  let ?y = "ap_sys garbage_app"
  have ready: "gc_ready (sys_db ?y)" "hashes_ok (sys_db ?y)"
    by (simp_all add: garbage_app_def gc_ready_def hashes_ok_def bytes_fit_def blob_bytes_def wf_db_defs db_empty_def has_blob_def)
  have none: "sweep_plan False sample_env (sample_cfg 1000) (sys_db ?y) = []"
    using sweep_plan_evictable [OF ready(1) sample_ttl_fit] by (simp add: evictable_def garbage_app_def db_empty_def)
  have "''dddd'' \<in> b_hash ` set (zero_rows (sys_db ?y))" by (simp add: garbage_app_def zero_rows_def)
  then have "blob_file sample_root ''dddd'' (sys_fs (snd (gc_run sample_env (sample_cfg 1000) sample_root False ?y))) = None"
    using gc_run_parts(3) [OF ready(1) sample_ttl_fit [of 1000] ready(2), of sample_root] none
    by (simp add: files_after_def)
  then show "blob_file sample_root ''dddd'' (sys_fs (ap_sys (gc_tick (sample_server 1000) sample_env garbage_app))) = None"
    by (simp add: gc_tick_def on_sys_def sample_server_def sample_config_def case_prod_beta)
qed

text \<open>
  C10 Only the collector removes files (safety): a blob that leaves the store, in whatever interleaving,
  leaves it by a step of a sweep or an orphan scan that holds the collector's mutex.
\<close>

theorem only_the_collector_removes_files:
  assumes "(concurrent_step sv jobs)\<^sup>*\<^sup>* (idle s) c" and "concurrent_step sv jobs c c'"
    and "blob_file (sv_root sv) h (sys_fs (ap_sys (po_state c))) \<noteq> None"
    and "blob_file (sv_root sv) h (sys_fs (ap_sys (po_state c'))) = None"
  shows "\<exists>i. po_holder c = Some i \<and> thread_step i c c' \<and> collects (fst (po_threads c ! i))"
  using assms(2)
proof (cases rule: concurrent_step.cases)
  case (conc_step i)
  then have "no_unlink sv (po_state c) (po_state c') \<or> po_state c' = po_state c \<or> po_holder c = Some i"
    using step_disciplined reachable_disciplined [OF assms(1)] by blast
  then have "po_holder c = Some i" using assms(3,4) by (auto simp: no_unlink_def)
  then show ?thesis
    using conc_step reachable_collector_holds [OF assms(1)] by (auto simp: collector_holds_def)
qed (use assms(3,4) in \<open>simp_all add: take_task_def serve_start_def store_open_content\<close>)

theorem only_the_collector_removes_files_witness:
  "\<exists>c c' i. (concurrent_step (sample_server 1000) (\<lambda>_. True))\<^sup>*\<^sup>* (idle garbage_app) c \<and>
     blob_file sample_root ''dddd'' (sys_fs (ap_sys (po_state c))) \<noteq> None \<and>
     blob_file sample_root ''dddd'' (sys_fs (ap_sys (po_state c'))) = None \<and>
     po_holder c = Some i \<and> thread_step i c c'"
proof -
  let ?sv = "sample_server 1000" and ?there = "\<lambda>c :: tasks. blob_file sample_root ''dddd'' (sys_fs (ap_sys (po_state c))) \<noteq> None"
  have root: "sv_root ?sv = sample_root" by (simp add: sample_server_def)
  let ?j = "Tick sample_env"
  have "(concurrent_step ?sv (\<lambda>_. True))\<^sup>*\<^sup>* (idle garbage_app)
      \<lparr>po_threads = [(?j, Some (Return (fst (job_step ?sv ?j garbage_app))))], po_holder = None,
       po_state = snd (job_step ?sv ?j garbage_app)\<rparr>"
    by (rule alone_reachable) simp_all
  then obtain c c' where reach: "(concurrent_step ?sv (\<lambda>_. True))\<^sup>*\<^sup>* (idle garbage_app) c"
    and step: "concurrent_step ?sv (\<lambda>_. True) c c'" and c: "?there c" "\<not> ?there c'"
    by (rule first_change [where P = ?there]) (simp_all add: idle_def garbage_collected job_step_def)
  from only_the_collector_removes_files [OF reach step, of "''dddd''"] show ?thesis
    using reach c by (auto simp: root)
qed

end
