(* ===== verification/Interleaving_Races.thy ===== *)
theory Interleaving_Races
  imports Interleaving_Properties Gc_Phases
begin

text \<open>
  Two schedules that lose something. \<open>gc_run\<close> lists the entries it is going to evict and deletes
  them by id afterwards, so an entry that is pinned in between, with an answer that says so, is evicted
  all the same. And a handler of the admin API that is dropped between its change and its audit row leaves the
  change without the row.
\<close>

section \<open>Threads cut after their first statement\<close>

lemma render_seq:
  "render_t sv (seq p f) = continue p (\<lambda>r. render_t sv (next_ok f r))"
  by (simp add: render_t_def seq_def continue_assoc)

text \<open>A sweep: the mutex, the list of the expired sstate entries, their deletions, and the rest.\<close>

lemma sweep_thread:
  obtains rest where "job_thread n sv (Tick env) = Lock (continue
    (sys_act (query (\<lambda>y. Ok (map candidate (ttl_rows (ge_entry_rank env) (ge_now env)
       (wrap_i64 (ge_now env - default_secs (cfg_gc (sv_config sv)) Sstate)) Sstate (sys_db y))))))
    (\<lambda>r. continue (next_ok (\<lambda>rows. each (evict_row_t False) rows gc_report_default) r) rest))"
proof
  show "job_thread n sv (Tick env) = Lock (continue
    (sys_act (query (\<lambda>y. Ok (map candidate (ttl_rows (ge_entry_rank env) (ge_now env)
       (wrap_i64 (ge_now env - default_secs (cfg_gc (sv_config sv)) Sstate)) Sstate (sys_db y))))))
    (\<lambda>r. continue (next_ok (\<lambda>rows. each (evict_row_t False) rows gc_report_default) r)
      (\<lambda>r. continue (continue (continue (next_ok (each (ttl_kind_t env (cfg_gc (sv_config sv)) False) [Downloads]) r)
        (next_ok (\<lambda>rep.
      seq (quota_phase_t False rep) (\<lambda>rep.
      seq (global_phase_t (cfg_gc (sv_config sv)) False rep) (\<lambda>rep.
      seq (cleanup_blobs_t n env (sv_root sv) False rep) (\<lambda>rep.
      seq (db_act total_size) (\<lambda>usage.
      give (rep\<lparr>usage_global_bytes := usage\<rparr>))))))))
        (\<lambda>r. Unlock (Return r))) (\<lambda>_. Return None))))"
    unfolding job_thread_def Let_def job.case gc_run_t_def locked_def ttl_phase_t_def
    by (simp add: ttl_kind_t_def seq_def continue_assoc)
qed

section \<open>A pin that comes too late\<close>

text \<open>The rows a sweep has listed can still be evicted when one of them has been pinned.\<close>

lemma pinned_evictable:
  assumes "evictable es d" and wf: "wf_db d'"
    and rows: "db_entries d' = sql_update hit (\<lambda>r. r\<lparr>e_pinned := True\<rparr>) (db_entries d)"
  obtains es' where "evictable es' d'" and "map candidate es' = map candidate es" and "map e_id es' = map e_id es"
proof -
  let ?pin = "\<lambda>r. if hit r then r\<lparr>e_pinned := True\<rparr> else r"
  have ids: "e_id (?pin r) = e_id r" "candidate (?pin r) = candidate r" for r
    by (simp_all add: candidate_def)
  have "distinct (map e_id es)"
    using assms(1) wf_entry_ids [of d] by (auto simp: evictable_def distinct_map inj_on_def)
  then have "distinct (map e_id (map ?pin es))" by (simp add: ids comp_def)
  then have "distinct (map ?pin es)" by (rule distinct_map [THEN iffD1, THEN conjunct1])
  then have "evictable (map ?pin es) d'" using assms(1) wf by (auto simp: evictable_def rows)
  moreover have "map candidate (map ?pin es) = map candidate es" "map e_id (map ?pin es) = map e_id es"
    by (simp_all add: ids comp_def)
  ultimately show ?thesis using that by blast
qed

lemma pin_scheduled:
  assumes acc: "admin_accepts sv rq headers s = Some (a, s1)" and "1 < length ts"
    and j: "j = Request rq (Admin (PinEntry pid eid) headers)"
    and hit: "\<exists>e\<in>set (db_entries (sys_db (ap_sys s))). e_project_id e = pid \<and> e_id e = eid"
  obtains s2 where "(thread_step 1)\<^sup>*\<^sup>* \<lparr>po_threads = ts[1 := (j, Some (job_thread n sv j))], po_holder = h, po_state = s\<rparr>
      \<lparr>po_threads = ts[1 := (j, Some (Return (Some no_content)))], po_holder = h, po_state = s2\<rparr>"
    and "wf_db (sys_db (ap_sys s)) \<Longrightarrow> wf_db (sys_db (ap_sys s2))"
    and "db_entries (sys_db (ap_sys s2)) =
      sql_update (\<lambda>e. e_project_id e = pid \<and> e_id e = eid) (\<lambda>r. r\<lparr>e_pinned := True\<rparr>) (db_entries (sys_db (ap_sys s)))"
proof -
  have same: "ap_sys s1 = ap_sys s"
    using acc by (auto simp: admin_accepts_def split: option.splits prod.splits outcome.splits)
  let ?d = "sys_db (ap_sys s)"
  obtain d1 where pin: "set_pinned pid eid True ?d = (Ok (), d1)" and d1: "d1 = ?d\<lparr>db_entries :=
      sql_update (\<lambda>e. e_project_id e = pid \<and> e_id e = eid) (\<lambda>r. r\<lparr>e_pinned := True\<rparr>) (db_entries ?d)\<rparr>"
    using hit by (auto simp: set_pinned_def Let_def sql_count_zero)
  let ?s2 = "s1\<lparr>ap_sys := (ap_sys s1)\<lparr>sys_db :=
    snd (audit (rq_now rq 1) (aa_token_label a) ''entry.pin'' (Some (dec_int eid)) None d1)\<rparr>\<rparr>"
  have "run (render_t sv (entry_pin_t sv rq a pid eid)) s1 = (Some no_content, ?s2)"
    using entry_pin_Ok [of pid eid s1 d1 sv rq a] pin run_admin_plain [of "PinEntry pid eid" n sv rq a]
    by (simp add: run_render render_def same)
  moreover have "lock_free (render_t sv (entry_pin_t sv rq a pid eid))"
    unfolding render_t_def entry_pin_t_def by (intro lock_free_continue lock_free_intros)
  ultimately have "(thread_step 1)\<^sup>*\<^sup>*
      \<lparr>po_threads = ts[1 := (j, Some (render_t sv (entry_pin_t sv rq a pid eid)))], po_holder = h, po_state = s1\<rparr>
      \<lparr>po_threads = ts[1 := (j, Some (Return (Some no_content)))], po_holder = h, po_state = ?s2\<rparr>"
    using scheduled_alone [where f = Return and i = 1 and ts = ts and s = s1] assms(2) by fastforce
  with login_scheduled [OF acc assms(2) j, of n h]
  have "(thread_step 1)\<^sup>*\<^sup>* \<lparr>po_threads = ts[1 := (j, Some (job_thread n sv j))], po_holder = h, po_state = s\<rparr>
      \<lparr>po_threads = ts[1 := (j, Some (Return (Some no_content)))], po_holder = h, po_state = ?s2\<rparr>"
    by simp
  moreover have "wf_db (sys_db (ap_sys ?s2))" if "wf_db ?d"
    using keepsD [OF keeps_wf_set_pinned that, of pid eid True] pin
    by (simp add: keepsD [OF keeps_wf_audit])
  moreover have "db_entries (sys_db (ap_sys ?s2)) = db_entries d1" by (simp add: audit_def)
  ultimately show ?thesis using that d1 by simp
qed

lemma late_pin:
  assumes wf: "wf_db (sys_db (ap_sys s))" and fit: "ttl_days_fit (ge_now env) (cfg_gc (sv_config sv))"
    and e: "e \<in> set (db_entries (sys_db (ap_sys s)))" "e_kind e = Sstate"
      "expired (ge_now env) (cfg_gc (sv_config sv)) (sys_db (ap_sys s)) e"
    and acc: "admin_accepts sv rq headers s = Some (a, s1)"
    and j: "j = Request rq (Admin (PinEntry (e_project_id e) (e_id e)) headers)"
  obtains c1 c2 where "(\<lambda>c c'. \<exists>i. thread_step i c c')\<^sup>*\<^sup>*
      \<lparr>po_threads = [(Tick env, Some (job_thread n sv (Tick env))), (j, Some (job_thread n sv j))],
       po_holder = None, po_state = s\<rparr> c1"
    and "po_threads c1 ! 1 = (j, Some (Return (Some no_content)))"
    and "\<exists>r\<in>set (db_entries (sys_db (ap_sys (po_state c1)))). e_id r = e_id e \<and> e_pinned r"
    and "(thread_step 0)\<^sup>*\<^sup>* c1 c2"
    and "\<forall>r\<in>set (db_entries (sys_db (ap_sys (po_state c2)))). e_id r \<noteq> e_id e"
proof -
  let ?d = "sys_db (ap_sys s)" and ?t = "Tick env" and ?pin = "job_thread n sv j"
  let ?rows = "ttl_plan env (cfg_gc (sv_config sv)) Sstate ?d"
  let ?evict = "each (evict_row_t False) (map candidate ?rows) gc_report_default"
  let ?any = "\<lambda>c c'. \<exists>i. thread_step i c (c' :: tasks)"
  have any: "?any\<^sup>*\<^sup>* c c'" if "(thread_step i)\<^sup>*\<^sup>* c c'" for i c c'
    using that by (rule mono_rtranclp [rule_format, rotated]) blast
  let ?list = "query (\<lambda>y. Ok (map candidate (ttl_rows (ge_entry_rank env) (ge_now env)
       (wrap_i64 (ge_now env - default_secs (cfg_gc (sv_config sv)) Sstate)) Sstate (sys_db y))))"
  obtain rest where sweep: "job_thread n sv ?t = Lock (continue (sys_act ?list)
      (\<lambda>r. continue (next_ok (\<lambda>rows. each (evict_row_t False) rows gc_report_default) r) rest))"
    by (rule sweep_thread)
  have "thread_step 0 \<lparr>po_threads = [(?t, Some (job_thread n sv ?t)), (j, Some ?pin)], po_holder = None, po_state = s\<rparr>
      \<lparr>po_threads = [(?t, Some (continue (sys_act ?list)
        (\<lambda>r. continue (next_ok (\<lambda>rows. each (evict_row_t False) rows gc_report_default) r) rest))), (j, Some ?pin)],
       po_holder = Some 0, po_state = s\<rparr>"
    using step_lock [of 0 "[(?t, Some (job_thread n sv ?t)), (j, Some ?pin)]" ?t] sweep by simp
  moreover have "run (sys_act ?list) s = (Ok (map candidate ?rows), s)"
    by (simp add: run_act on_sys_def ttl_rows_plan [OF wf fit])
  from scheduled_alone [OF lock_free_act, of 0 "[(?t, None), (j, Some ?pin)]" ?t "on_sys ?list"
      "\<lambda>r. continue (next_ok (\<lambda>rows. each (evict_row_t False) rows gc_report_default) r) rest" "Some 0" s] this
  have "(thread_step 0)\<^sup>*\<^sup>*
      \<lparr>po_threads = [(?t, Some (continue (sys_act ?list)
        (\<lambda>r. continue (next_ok (\<lambda>rows. each (evict_row_t False) rows gc_report_default) r) rest))), (j, Some ?pin)],
       po_holder = Some 0, po_state = s\<rparr>
      \<lparr>po_threads = [(?t, Some (continue ?evict rest)), (j, Some ?pin)], po_holder = Some 0, po_state = s\<rparr>"
    by (simp add: next_ok_def)
  ultimately have listed: "(thread_step 0)\<^sup>*\<^sup>*
      \<lparr>po_threads = [(?t, Some (job_thread n sv ?t)), (j, Some ?pin)], po_holder = None, po_state = s\<rparr>
      \<lparr>po_threads = [(?t, Some (continue ?evict rest)), (j, Some ?pin)], po_holder = Some 0, po_state = s\<rparr>"
    by (rule converse_rtranclp_into_rtranclp)
  obtain s2 where pin: "(thread_step 1)\<^sup>*\<^sup>*
      \<lparr>po_threads = [(?t, Some (continue ?evict rest)), (j, Some ?pin)], po_holder = Some 0, po_state = s\<rparr>
      \<lparr>po_threads = [(?t, Some (continue ?evict rest)), (j, Some (Return (Some no_content)))], po_holder = Some 0, po_state = s2\<rparr>"
    and wf2: "wf_db (sys_db (ap_sys s2))" and rows2: "db_entries (sys_db (ap_sys s2)) = sql_update
      (\<lambda>r. e_project_id r = e_project_id e \<and> e_id r = e_id e) (\<lambda>r. r\<lparr>e_pinned := True\<rparr>) (db_entries ?d)"
    using pin_scheduled [OF acc _ j, of "[(?t, Some (continue ?evict rest)), (j, None)]" n "Some 0"] wf e(1) by auto
  obtain es' where es': "evictable es' (sys_db (ap_sys s2))" "map candidate es' = map candidate ?rows"
    "map e_id es' = map e_id ?rows"
    by (rule pinned_evictable [OF ttl_plan_evictable [OF wf] wf2 rows2])
  let ?s3 = "s2\<lparr>ap_sys := evicted False es' (ap_sys s2)\<rparr>"
  have "run ?evict = on_sys (foreach (evict_row False) (map candidate es') gc_report_default)"
    by (simp only: run_each run_evict_row on_sys_foreach es'(2))
  then have "run ?evict s2 = (Ok (count_all es' gc_report_default), ?s3)"
    using foreach_evict_row [OF es'(1), of False gc_report_default] by (simp add: on_sys_def)
  moreover have "lock_free ?evict" by (intro lock_free_intros)
  ultimately have swept: "(thread_step 0)\<^sup>*\<^sup>*
      \<lparr>po_threads = [(?t, Some (continue ?evict rest)), (j, Some (Return (Some no_content)))], po_holder = Some 0, po_state = s2\<rparr>
      \<lparr>po_threads = [(?t, Some (rest (Ok (count_all es' gc_report_default)))), (j, Some (Return (Some no_content)))],
       po_holder = Some 0, po_state = ?s3\<rparr>"
    using scheduled_alone [of ?evict 0 "[(?t, None), (j, Some (Return (Some no_content)))]" ?t rest "Some 0" s2] by simp
  have "e \<in> set ?rows" using e by (simp add: ttl_plan_def)
  then have "e_id e \<in> set (map e_id es')" by (simp add: es'(3))
  then obtain e' where e': "e' \<in> set es'" "e_id e' = e_id e" by auto
  have gone: "e_id r \<noteq> e_id e" if "r \<in> set (db_entries (sys_db (ap_sys ?s3)))" for r
    using that e' es'(1) set_evict_all [OF es'(1)] wf_entry_ids [OF wf2, of r e'] by (auto simp: evictable_def)
  have pinned: "\<exists>r\<in>set (db_entries (sys_db (ap_sys s2))). e_id r = e_id e \<and> e_pinned r"
    using e(1) by (intro bexI [of _ "e\<lparr>e_pinned := True\<rparr>"]) (auto simp: rows2)
  show ?thesis
    using rtranclp_trans [OF any [OF listed] any [OF pin]] swept gone pinned that by fastforce
qed

section \<open>A change without its audit row\<close>

lemma dropped_deletion:
  assumes acc: "admin_accepts sv rq headers s = Some (a, s1)" and here: "has_project (sys_db (ap_sys s)) i"
    and j: "j = Request rq (Admin (DeleteProject i) headers)"
  obtains c where "(thread_step 0)\<^sup>*\<^sup>* \<lparr>po_threads = [(j, Some (job_thread n sv j))], po_holder = None, po_state = s\<rparr> c"
    and "po_threads c = [(j, None)]" and "\<not> has_project (sys_db (ap_sys (po_state c))) i"
    and "app_log (po_state c) = app_log s"
proof -
  have same: "ap_sys s1 = ap_sys s"
    using acc by (auto simp: admin_accepts_def split: option.splits prod.splits outcome.splits)
  have "sql_count (\<lambda>p. p_id p = i) (db_projects (sys_db (ap_sys s))) \<noteq> 0"
    using here by (auto simp: sql_count_zero has_project_def)
  then obtain d where del: "projects_delete i (sys_db (ap_sys s1)) = (Ok (), d)" and gone: "\<not> has_project d i"
      "db_audit_log d = app_log s"
    by (auto simp: projects_delete_def has_project_def same)
  obtain g where "render_t sv (project_delete_t sv rq a i) = continue (db_act (projects_delete i)) g"
    unfolding project_delete_t_def render_seq by blast
  then have "(thread_step 0)\<^sup>*\<^sup>* \<lparr>po_threads = [(j, Some (job_thread n sv j))], po_holder = None, po_state = s\<rparr>
      \<lparr>po_threads = [(j, Some (g (Ok ())))], po_holder = None, po_state = s1\<lparr>ap_sys := (ap_sys s1)\<lparr>sys_db := d\<rparr>\<rparr>\<rparr>"
    using login_scheduled [OF acc _ j, of 0 "[(j, None)]" n None]
      scheduled_alone [OF lock_free_act, of 0 "[(j, None)]" j "on_app_db (projects_delete i)" g None s1] del
    by (simp add: run_act)
  moreover have "thread_step 0
      \<lparr>po_threads = [(j, Some (g (Ok ())))], po_holder = None, po_state = s1\<lparr>ap_sys := (ap_sys s1)\<lparr>sys_db := d\<rparr>\<rparr>\<rparr>
      \<lparr>po_threads = [(j, None)], po_holder = None, po_state = s1\<lparr>ap_sys := (ap_sys s1)\<lparr>sys_db := d\<rparr>\<rparr>\<rparr>"
    using step_drop [of 0 "[(j, Some (g (Ok ())))]" j _ None] by simp
  ultimately have "(thread_step 0)\<^sup>*\<^sup>* \<lparr>po_threads = [(j, Some (job_thread n sv j))], po_holder = None, po_state = s\<rparr>
      \<lparr>po_threads = [(j, None)], po_holder = None, po_state = s1\<lparr>ap_sys := (ap_sys s1)\<lparr>sys_db := d\<rparr>\<rparr>\<rparr>"
    by (rule rtranclp.rtrancl_into_rtrancl)
  from that [OF this] gone show ?thesis by simp
qed

section \<open>The properties\<close>

text \<open>
  C22 A sweep evicts what was pinned meanwhile (safety, a defect): from any state with an expired
  sstate entry, a schedule of one sweep and one request to pin that entry exists in which the request is
  answered 204 with the entry pinned in the database, and the sweep evicts it afterwards. The
  deletion by id does not look at \<open>pinned\<close> again.
\<close>

theorem sweep_evicts_entry_pinned_meanwhile:
  assumes "wf_db (sys_db (ap_sys s))" and "ttl_days_fit (ge_now env) (cfg_gc (sv_config sv))"
    and "e \<in> set (db_entries (sys_db (ap_sys s)))" and "e_kind e = Sstate"
    and "expired (ge_now env) (cfg_gc (sv_config sv)) (sys_db (ap_sys s)) e"
    and "admin_accepts sv rq headers s = Some (a, s1)"
    and "j = Request rq (Admin (PinEntry (e_project_id e) (e_id e)) headers)"
  shows "\<exists>c1 c2. (\<lambda>c c'. \<exists>i. thread_step i c c')\<^sup>*\<^sup>*
      \<lparr>po_threads = [(Tick env, Some (job_thread n sv (Tick env))), (j, Some (job_thread n sv j))],
       po_holder = None, po_state = s\<rparr> c1 \<and>
    po_threads c1 ! 1 = (j, Some (Return (Some no_content))) \<and>
    (\<exists>r\<in>set (db_entries (sys_db (ap_sys (po_state c1)))). e_id r = e_id e \<and> e_pinned r) \<and>
    (thread_step 0)\<^sup>*\<^sup>* c1 c2 \<and>
    (\<forall>r\<in>set (db_entries (sys_db (ap_sys (po_state c2)))). e_id r \<noteq> e_id e)"
  by (rule late_pin [OF assms]) blast

theorem sweep_evicts_entry_pinned_meanwhile_witness:
  "\<exists>env j c1 c2. (\<lambda>c c'. \<exists>i. thread_step i c c')\<^sup>*\<^sup>*
      \<lparr>po_threads = [(Tick env, Some (job_thread 1 (sample_server 1000) (Tick env))),
         (j, Some (job_thread 1 (sample_server 1000) j))],
       po_holder = None, po_state = admin_app\<rparr> c1 \<and>
    (\<exists>r\<in>set (db_entries (sys_db (ap_sys (po_state c1)))). e_id r = 1 \<and> e_pinned r) \<and>
    (thread_step 0)\<^sup>*\<^sup>* c1 c2 \<and>
    (\<forall>r\<in>set (db_entries (sys_db (ap_sys (po_state c2)))). e_id r \<noteq> 1)"
proof -
  let ?sv = "sample_server 1000" and ?env = "sample_env\<lparr>ge_now := 2000000\<rparr>" and ?d = "sys_db (ap_sys admin_app)"
  obtain c where acc: "admin_accepts ?sv sample_req admin_headers admin_app = Some (ops, admin_app\<lparr>ap_admin_cache := c\<rparr>)"
    by (rule admin_login)
  have e: "entry_a \<in> set (db_entries ?d)" "e_kind entry_a = Sstate"
    by (simp_all add: admin_app_def keyed_db_def sample_tables)
  have cfg: "cfg_gc (sv_config ?sv) = sample_cfg 1000" by (simp add: sample_server_def sample_config_def)
  have fit: "ttl_days_fit (ge_now ?env) (cfg_gc (sv_config ?sv))"
    unfolding cfg by (simp add: ttl_days_fit_def sample_cfg_def)
  have "effective_ttl (sample_cfg 1000) ?d entry_a = default_secs (sample_cfg 1000) (e_kind entry_a)"
    by (rule default_effective_ttl) (simp add: admin_app_def keyed_db_def sample_tables acme_def beta_def)
  then have "expired (ge_now ?env) (cfg_gc (sv_config ?sv)) ?d entry_a" unfolding cfg by (simp add: expired_def)
  from sweep_evicts_entry_pinned_meanwhile [OF admin_app_wf fit e this acc refl, of 1] show ?thesis
    by (fastforce simp: e)
qed

text \<open>
  C23 A change without its audit row (safety, a defect): a request to delete a project that is dropped
  after the statement that deletes it, as the request timeout or a client that goes away does, leaves the
  project deleted and the audit log as it was.
\<close>

theorem dropped_change_is_unaudited:
  assumes "admin_accepts sv rq headers s = Some (a, s1)" and "has_project (sys_db (ap_sys s)) i"
    and "j = Request rq (Admin (DeleteProject i) headers)"
  shows "\<exists>c. (thread_step 0)\<^sup>*\<^sup>* \<lparr>po_threads = [(j, Some (job_thread n sv j))], po_holder = None, po_state = s\<rparr> c \<and>
    po_threads c = [(j, None)] \<and> \<not> has_project (sys_db (ap_sys (po_state c))) i \<and>
    app_log (po_state c) = app_log s"
  by (rule dropped_deletion [OF assms]) blast

theorem dropped_change_is_unaudited_witness:
  "\<exists>j c. (thread_step 0)\<^sup>*\<^sup>*
      \<lparr>po_threads = [(j, Some (job_thread 1 (sample_server 1000) j))], po_holder = None, po_state = admin_app\<rparr> c \<and>
    has_project (sys_db (ap_sys admin_app)) 1 \<and> \<not> has_project (sys_db (ap_sys (po_state c))) 1 \<and>
    app_log (po_state c) = app_log admin_app"
proof -
  obtain c where acc: "admin_accepts (sample_server 1000) sample_req admin_headers admin_app =
      Some (ops, admin_app\<lparr>ap_admin_cache := c\<rparr>)"
    by (rule admin_login)
  have here: "has_project (sys_db (ap_sys admin_app)) 1"
    by (simp add: admin_app_def keyed_db_def has_project_def sample_tables)
  from dropped_change_is_unaudited [OF acc here refl, of 1] here show ?thesis by blast
qed

end
