(* ===== verification/Push_Threads.thy ===== *)
theory Push_Threads
  imports Push_Properties Threads
begin

text \<open>
  The tasks of \<open>marmotte push\<close> at once: \<open>run\<close> takes a permit of the semaphore for every file, spawns a
  task that holds it, and collects the results when all are spawned. Here are \<open>push_one\<close> as a thread, the
  pool of the tasks (\<open>push_step\<close>), how long it may run, what it reports, and what a semaphore of one
  permit and of none makes of it.
\<close>

section \<open>One file as a thread\<close>

definition once :: "('w \<Rightarrow> 'r \<times> 'w) \<Rightarrow> ('w, 'r) thread" where
  "once m = Atomic (\<lambda>w. let (r, w') = m w in (Return r, w'))"

lemma continue_cong [fundef_cong]: "p = q \<Longrightarrow> (\<And>r. f r = g r) \<Longrightarrow> continue p f = continue q g"
  by (metis ext)

function put_loop_t ::
  "(nat \<Rightarrow> string) \<Rightarrow> 'w net \<Rightarrow> string \<Rightarrow> path \<Rightarrow> string \<Rightarrow> nat \<Rightarrow> ('w, cli_error + push_outcome) thread" where
  "put_loop_t status_text net url p auth attempt =
     continue (once (nt_read net p)) (\<lambda>r. case r of
       Inl e \<Rightarrow> Return (Inl (CliIo e))
     | Inr body \<Rightarrow>
         continue (once (nt_send net (PutRequest url auth body))) (\<lambda>r. case r of
           Inl e \<Rightarrow> Return (Inl (CliHttp e))
         | Inr resp \<Rightarrow>
             if is_success (cp_status resp) then Return (Inr Pushed)
             else if cp_status resp \<in> set RETRYABLE_STATUSES \<and> attempt + 1 < MAX_RETRIES then
               continue (once (\<lambda>w. ((), nt_sleep net (INITIAL_BACKOFF_MS * 2 ^ (attempt + 1)) w)))
                 (\<lambda>_. put_loop_t status_text net url p auth (attempt + 1))
             else Return (Inl (CliOther (''PUT '' @ url @ '': '' @ status_text (cp_status resp))))))"
  by pat_completeness auto

termination
  by (relation "measure (\<lambda>(_, _, _, _, _, attempt). MAX_RETRIES - attempt)") auto

declare put_loop_t.simps [simp del]

definition push_one_t ::
  "(nat \<Rightarrow> string) \<Rightarrow> (bytes \<Rightarrow> string) \<Rightarrow> 'w net \<Rightarrow> string \<Rightarrow> path \<Rightarrow> string \<Rightarrow> bool \<Rightarrow>
   ('w, cli_error + push_outcome) thread" where
  "push_one_t status_text sha256 net url p auth dry_run =
     continue (once (sha256_file sha256 net p)) (\<lambda>r. case r of
       Inl e \<Rightarrow> Return (Inl e)
     | Inr sha \<Rightarrow>
         (let etag = quoted sha in
          continue (once (nt_send net (HeadRequest url auth etag))) (\<lambda>r. case r of
            Inl e \<Rightarrow> Return (Inl (CliHttp e))
          | Inr resp \<Rightarrow>
              (case head_decision status_text etag resp of
                 Inl e \<Rightarrow> Return (Inl e)
               | Inr True \<Rightarrow> Return (Inr Skipped)
               | Inr False \<Rightarrow>
                   if dry_run then Return (Inr Pushed)
                   else put_loop_t status_text net url p auth 0))))"

text \<open>Alone, it is \<open>push_one\<close>.\<close>

lemma run_once: "run (once m) = m"
  by (rule ext) (simp add: once_def split: prod.split)

lemma run_put_loop: "run (put_loop_t status_text net url p auth attempt) w = put_loop status_text net url p auth attempt w"
proof (induction status_text net url p auth attempt w rule: put_loop.induct)
  case (1 status_text net url p auth attempt w)
  then show ?case
    by (subst put_loop.simps, subst put_loop_t.simps)
       (auto simp: run_continue run_once split: prod.split sum.split)
qed

lemma run_push_one: "run (push_one_t status_text sha256 net url p auth dry_run) w = push_one status_text sha256 net url p auth dry_run w"
  by (auto simp: push_one_t_def push_one_def Let_def run_continue run_once run_put_loop
      split: prod.split sum.split bool.split)

text \<open>\<open>within p n\<close>: \<open>p\<close> has at most \<open>n\<close> steps left, whatever the others do.\<close>

primrec within :: "('w, 'r) thread \<Rightarrow> nat \<Rightarrow> bool" where
  "within (Return r) = (\<lambda>n. True)"
| "within (Atomic k) = (\<lambda>n. 0 < n \<and> (\<forall>s. fst (map_prod within id (k s)) (n - 1)))"
| "within (Lock p) = (\<lambda>n. 0 < n \<and> within p (n - 1))"
| "within (Unlock p) = (\<lambda>n. 0 < n \<and> within p (n - 1))"

lemma within_mono: "within p m \<Longrightarrow> m \<le> n \<Longrightarrow> within p n"
proof (induction p arbitrary: m n rule: thread_steps_induct)
  case (Atomic k)
  have "within (fst (k s)) (n - 1)" for s
    by (rule Atomic.IH [of s "m - 1"]) (use Atomic.prems in auto)
  then show ?case using Atomic.prems by simp
qed auto

lemma within_continue: "within p m \<Longrightarrow> (\<And>r. within (f r) n) \<Longrightarrow> within (continue p f) (m + n)"
proof (induction p arbitrary: m rule: thread_steps_induct)
  case (Return r)
  then show ?case using within_mono [of "f r" n "m + n"] by simp
next
  case (Atomic k)
  have "within (continue (fst (k s)) f) (m - 1 + n)" for s
    by (rule Atomic.IH) (use Atomic.prems in auto)
  then show ?case using Atomic.prems by simp
next
  case (Lock p)
  then show ?case using Lock.IH [of "m - 1"] by simp
next
  case (Unlock p)
  then show ?case using Unlock.IH [of "m - 1"] by simp
qed

lemma within_once: "(\<And>r. within (f r) n) \<Longrightarrow> within (continue (once m) f) (Suc n)"
  using within_continue [of "once m" 1 f n] by (simp add: once_def case_prod_beta)

lemma within_put_loop:
  "attempt < MAX_RETRIES \<Longrightarrow> within (put_loop_t status_text net url p auth attempt) (3 * (MAX_RETRIES - attempt) - 1)"
proof (induction "MAX_RETRIES - attempt" arbitrary: attempt rule: less_induct)
  case less
  let ?n = "3 * (MAX_RETRIES - attempt) - 3"
  have again: "within (continue (once (\<lambda>w. ((), nt_sleep net t w))) (\<lambda>_. put_loop_t status_text net url p auth (Suc attempt))) ?n"
    if "Suc attempt < MAX_RETRIES" for t
  proof -
    have "within (put_loop_t status_text net url p auth (Suc attempt)) (3 * (MAX_RETRIES - (Suc attempt)) - 1)"
      using less.prems that by (intro less.hyps) auto
    then have "within (continue (once (\<lambda>w. ((), nt_sleep net t w))) (\<lambda>_. put_loop_t status_text net url p auth (Suc attempt)))
        (Suc (3 * (MAX_RETRIES - (Suc attempt)) - 1))"
      by (rule within_once)
    moreover have "Suc (3 * (MAX_RETRIES - (Suc attempt)) - 1) = ?n" using that by simp
    ultimately show ?thesis by (rule back_subst)
  qed
  let ?put = "\<lambda>r. case r of
      Inl e \<Rightarrow> Return (Inl (CliHttp e))
    | Inr resp \<Rightarrow>
        if is_success (cp_status resp) then Return (Inr Pushed)
        else if cp_status resp \<in> set RETRYABLE_STATUSES \<and> attempt + 1 < MAX_RETRIES then
          continue (once (\<lambda>w. ((), nt_sleep net (INITIAL_BACKOFF_MS * 2 ^ (attempt + 1)) w)))
            (\<lambda>_. put_loop_t status_text net url p auth (attempt + 1))
        else Return (Inl (CliOther (''PUT '' @ url @ '': '' @ status_text (cp_status resp))))"
  have "within (?put r) ?n" for r by (cases r) (simp_all add: again)
  then have "within (continue (once (nt_send net (PutRequest url auth body))) ?put) (Suc ?n)" for body
    by (rule within_once)
  then have "within (case r of Inl e \<Rightarrow> Return (Inl (CliIo e))
      | Inr body \<Rightarrow> continue (once (nt_send net (PutRequest url auth body))) ?put) (Suc ?n)" for r
    by (cases r) simp_all
  then have "within (put_loop_t status_text net url p auth attempt) (Suc (Suc ?n))"
    by (subst put_loop_t.simps) (rule within_once)
  moreover have "Suc (Suc ?n) = 3 * (MAX_RETRIES - attempt) - 1" using less.prems by simp
  ultimately show ?case by simp
qed

lemma within_push_one: "within (push_one_t status_text sha256 net url p auth dry_run) 16"
proof -
  have loop: "within (put_loop_t status_text net url p auth 0) 14"
    using within_put_loop [of 0 status_text net url p auth] by (simp add: MAX_RETRIES_def)
  let ?decide = "\<lambda>sha r. case r of
      Inl e \<Rightarrow> Return (Inl (CliHttp e))
    | Inr resp \<Rightarrow> (case head_decision status_text (quoted sha) resp of
        Inl e \<Rightarrow> Return (Inl e)
      | Inr True \<Rightarrow> Return (Inr Skipped)
      | Inr False \<Rightarrow> if dry_run then Return (Inr Pushed) else put_loop_t status_text net url p auth 0)"
  have "within (?decide sha r) 14" for sha r using loop by (auto split: sum.split bool.split)
  then have "within (continue (once (nt_send net (HeadRequest url auth (quoted sha)))) (?decide sha)) (Suc 14)" for sha
    by (rule within_once)
  then have "within (case r of Inl e \<Rightarrow> Return (Inl e)
      | Inr sha \<Rightarrow> continue (once (nt_send net (HeadRequest url auth (quoted sha)))) (?decide sha)) (Suc 14)" for r
    by (cases r) simp_all
  then have "within (push_one_t status_text sha256 net url p auth dry_run) (Suc (Suc 14))"
    unfolding push_one_t_def Let_def by (rule within_once)
  then show ?thesis by (simp add: eval_nat_numeral)
qed

section \<open>The pool\<close>

text \<open>
  \<open>run\<close> with its tasks: the files for which no task was spawned yet, the permits that are left, the tasks, the
  results of those that are done in the order in which they ended, and the error \<open>run\<close> returned with if the URL of a file
  could not be built, which ends the process and every task with it.
\<close>

record 'w push_pool =
  pp_files :: "path list"
  pp_permits :: nat
  pp_tasks :: "('w, cli_error + push_outcome) thread list"
  pp_results :: "(cli_error + push_outcome) list"
  pp_error :: "cli_error option"
  pp_world :: 'w

text \<open>
  \<open>acquire_owned().await\<close> waits for a permit, then the URL is joined and the task spawned; a task makes a step;
  a task that returns drops its permit.
\<close>

inductive push_step ::
  "(path \<Rightarrow> string + string) \<Rightarrow> (string \<Rightarrow> path \<Rightarrow> ('w, cli_error + push_outcome) thread) \<Rightarrow>
   'w push_pool \<Rightarrow> 'w push_pool \<Rightarrow> bool" for url_of push where
  push_spawn: "\<lbrakk>pp_error c = None; pp_files c = rel # rels; 0 < pp_permits c; url_of rel = Inr url\<rbrakk> \<Longrightarrow>
    push_step url_of push c
      (c\<lparr>pp_files := rels, pp_permits := pp_permits c - 1, pp_tasks := pp_tasks c @ [push url rel]\<rparr>)"
| push_no_url: "\<lbrakk>pp_error c = None; pp_files c = rel # rels; 0 < pp_permits c; url_of rel = Inl e\<rbrakk> \<Longrightarrow>
    push_step url_of push c (c\<lparr>pp_error := Some (CliUrlParse e)\<rparr>)"
| push_atomic: "\<lbrakk>pp_error c = None; i < length (pp_tasks c); pp_tasks c ! i = Atomic k; k (pp_world c) = (p, w)\<rbrakk> \<Longrightarrow>
    push_step url_of push c (c\<lparr>pp_tasks := (pp_tasks c)[i := p], pp_world := w\<rparr>)"
| push_return: "\<lbrakk>pp_error c = None; i < length (pp_tasks c); pp_tasks c ! i = Return r\<rbrakk> \<Longrightarrow>
    push_step url_of push c
      (c\<lparr>pp_permits := pp_permits c + 1, pp_tasks := take i (pp_tasks c) @ drop (Suc i) (pp_tasks c),
         pp_results := pp_results c @ [r]\<rparr>)"

inductive_cases push_stepE: "push_step url_of push c c'"

definition push_start :: "nat \<Rightarrow> path list \<Rightarrow> 'w \<Rightarrow> 'w push_pool" where
  "push_start concurrency files w =
     \<lparr>pp_files = files, pp_permits = concurrency, pp_tasks = [], pp_results = [], pp_error = None, pp_world = w\<rparr>"

definition push_over :: "'w push_pool \<Rightarrow> bool" where
  "push_over c \<longleftrightarrow> pp_error c \<noteq> None \<or> (pp_files c = [] \<and> pp_tasks c = [])"

text \<open>The tasks of a run.\<close>

abbreviation push_task ::
  "(nat \<Rightarrow> string) \<Rightarrow> (bytes \<Rightarrow> string) \<Rightarrow> 'w net \<Rightarrow> path \<Rightarrow> string \<Rightarrow> bool \<Rightarrow> string \<Rightarrow> path \<Rightarrow>
   ('w, cli_error + push_outcome) thread" where
  "push_task status_text sha256 net dir auth dry_run \<equiv>
     (\<lambda>url rel. push_one_t status_text sha256 net url (dir @ rel) auth dry_run)"

section \<open>Permits, files and tasks\<close>

definition push_books :: "nat \<Rightarrow> nat \<Rightarrow> 'w push_pool \<Rightarrow> bool" where
  "push_books concurrency n c \<longleftrightarrow> pp_permits c + length (pp_tasks c) = concurrency \<and>
     length (pp_files c) + length (pp_tasks c) + length (pp_results c) = n"

lemma push_books_step: "push_step url_of push c c' \<Longrightarrow> push_books m n c \<Longrightarrow> push_books m n c'"
  by (induction rule: push_step.induct) (auto simp: push_books_def)

lemma push_books_start: "push_books m (length files) (push_start m files w)"
  by (simp add: push_books_def push_start_def)

text \<open>No task of a run waits for a mutex.\<close>

lemma lock_free_once: "(\<And>r. lock_free (f r)) \<Longrightarrow> lock_free (continue (once m) f)"
  by (rule lock_free_continue) (auto simp: once_def case_prod_beta)

lemma lock_free_put_loop: "lock_free (put_loop_t status_text net url p auth attempt)"
proof (induction "MAX_RETRIES - attempt" arbitrary: attempt rule: less_induct)
  case less
  show ?case
    by (subst put_loop_t.simps) (auto intro!: lock_free_once less.hyps diff_less_mono2 split: sum.split)
qed

lemma lock_free_push_one: "lock_free (push_one_t status_text sha256 net url p auth dry_run)"
  unfolding push_one_t_def Let_def
  by (auto intro!: lock_free_once lock_free_put_loop split: sum.split bool.split)

lemma lock_free_tasks:
  assumes "push_step url_of push c c'" and "\<forall>p\<in>set (pp_tasks c). lock_free p" and "\<And>url rel. lock_free (push url rel)"
  shows "\<forall>p\<in>set (pp_tasks c'). lock_free p"
  using assms(1,2)
proof (induction rule: push_step.induct)
  case (push_atomic c i k p w)
  then have "lock_free (Atomic k)" using nth_mem by metis
  then have "lock_free p" using push_atomic.hyps(4) by (auto dest: spec [of _ "pp_world c"])
  then show ?case using push_atomic.prems set_update_subset_insert [of "pp_tasks c" i p] by auto
next
  case (push_return c i r)
  then show ?case by (auto dest: in_set_takeD in_set_dropD)
qed (simp_all add: assms(3))

text \<open>As long as there are permits, something can be done until the run is over.\<close>

lemma push_progress:
  assumes "push_books m n c" and "0 < m" and "\<forall>p\<in>set (pp_tasks c). lock_free p" and "\<not> push_over c"
  shows "\<exists>c'. push_step url_of push c c'"
proof (cases "pp_tasks c")
  case Nil
  then obtain rel rels where files: "pp_files c = rel # rels" "pp_error c = None"
    using assms(4) by (auto simp: push_over_def neq_Nil_conv)
  moreover have "0 < pp_permits c" using assms(1,2) Nil by (simp add: push_books_def)
  ultimately show ?thesis by (cases "url_of rel") (blast intro: push_step.intros)+
next
  case (Cons p ps)
  have "pp_error c = None" using assms(4) by (simp add: push_over_def)
  moreover have "lock_free p" using assms(3) Cons by simp
  ultimately show ?thesis
    using push_atomic [of c 0] push_return [of c 0] Cons by (cases p) (auto, metis surj_pair)
qed

section \<open>The length of a run\<close>

text \<open>Tasks with the steps they have left, one more for the return, and for every file without a task \<open>b + 2\<close>.\<close>

definition push_budget :: "nat \<Rightarrow> nat \<Rightarrow> 'w push_pool \<Rightarrow> bool" where
  "push_budget b n c \<longleftrightarrow> (\<exists>ns. list_all2 within (pp_tasks c) ns \<and>
     (if pp_error c = None then 1 else 0) + sum_list (map Suc ns) + length (pp_files c) * (b + 2) = n)"

lemma push_budget_step:
  assumes "push_step url_of push c c'" and "push_budget b n c" and new: "\<And>url rel. within (push url rel) b"
  obtains m where "m < n" and "push_budget b m c'"
  using assms(1,2)
proof (induction rule: push_step.induct)
  case (push_spawn c rel rels url)
  then obtain ns where ns: "list_all2 within (pp_tasks c) ns"
    "1 + sum_list (map Suc ns) + length (pp_files c) * (b + 2) = n"
    by (auto simp: push_budget_def)
  have "list_all2 within (pp_tasks c @ [push url rel]) (ns @ [b])" using ns(1) new by (simp add: list_all2_appendI)
  then have "push_budget b (1 + sum_list (map Suc (ns @ [b])) + length rels * (b + 2))
      (c\<lparr>pp_files := rels, pp_permits := pp_permits c - 1, pp_tasks := pp_tasks c @ [push url rel]\<rparr>)"
    using push_spawn.hyps(1) unfolding push_budget_def by (intro exI [of _ "ns @ [b]"]) simp
  moreover have "1 + sum_list (map Suc (ns @ [b])) + length rels * (b + 2) < n"
    using ns(2) push_spawn.hyps(2) by simp
  ultimately show ?case using push_spawn.prems(1) by blast
next
  case (push_no_url c rel rels e)
  then obtain ns where ns: "list_all2 within (pp_tasks c) ns"
    "1 + sum_list (map Suc ns) + length (pp_files c) * (b + 2) = n"
    by (auto simp: push_budget_def)
  then have "push_budget b (n - 1) (c\<lparr>pp_error := Some (CliUrlParse e)\<rparr>)" by (auto simp: push_budget_def)
  then show ?case using push_no_url.prems(1) [of "n - 1"] ns(2) by simp
next
  case (push_atomic c i k p w)
  then obtain ns where ns: "list_all2 within (pp_tasks c) ns"
    "1 + sum_list (map Suc ns) + length (pp_files c) * (b + 2) = n"
    by (auto simp: push_budget_def)
  have i: "i < length ns" using ns(1) push_atomic.hyps(2) by (simp add: list_all2_lengthD [symmetric])
  have "within (Atomic k) (ns ! i)" using list_all2_nthD [OF ns(1) push_atomic.hyps(2)] push_atomic.hyps(3) by simp
  then have p: "within p (ns ! i - 1)" "0 < ns ! i"
    using push_atomic.hyps(4) by (auto dest: spec [of _ "pp_world c"])
  have "list_all2 within ((pp_tasks c)[i := p]) (ns[i := ns ! i - 1])"
    by (rule list_all2_update_cong [OF ns(1) p(1)])
  moreover have "sum_list (map Suc (ns[i := ns ! i - 1])) = sum_list (map Suc ns) - 1"
    using i p(2) sum_list_update [of i "map Suc ns" "ns ! i"] by (simp add: map_update)
  moreover have "0 < sum_list (map Suc ns)" using i by (cases ns) simp_all
  ultimately have "push_budget b (n - 1) (c\<lparr>pp_tasks := (pp_tasks c)[i := p], pp_world := w\<rparr>)"
    using ns(2) push_atomic.hyps(1) unfolding push_budget_def by (intro exI [of _ "ns[i := ns ! i - 1]"]) simp
  then show ?case using push_atomic.prems(1) [of "n - 1"] ns(2) by simp
next
  case (push_return c i r)
  then obtain ns where ns: "list_all2 within (pp_tasks c) ns"
    "1 + sum_list (map Suc ns) + length (pp_files c) * (b + 2) = n"
    by (auto simp: push_budget_def)
  have i: "i < length ns" using ns(1) push_return.hyps(2) by (simp add: list_all2_lengthD [symmetric])
  let ?ns = "take i ns @ drop (Suc i) ns"
  have "list_all2 within (take i (pp_tasks c) @ drop (Suc i) (pp_tasks c)) ?ns"
    using ns(1) by (intro list_all2_appendI list_all2_takeI list_all2_dropI)
  moreover have "sum_list (map Suc ns) = sum_list (map Suc ?ns) + Suc (ns ! i)"
    using arg_cong [OF id_take_nth_drop [OF i], of "\<lambda>xs. sum_list (map Suc xs)"] by simp
  ultimately have "push_budget b (n - Suc (ns ! i)) (c\<lparr>pp_permits := pp_permits c + 1,
      pp_tasks := take i (pp_tasks c) @ drop (Suc i) (pp_tasks c), pp_results := pp_results c @ [r]\<rparr>)"
    using ns(2) push_return.hyps(1) unfolding push_budget_def by (intro exI [of _ ?ns]) simp
  then show ?case using push_return.prems(1) [of "n - Suc (ns ! i)"] ns(2) by simp
qed

lemma push_steps_bounded:
  assumes "(push_step url_of push ^^ k) c c'" and "push_budget b n c" and "\<And>url rel. within (push url rel) b"
  shows "k \<le> n"
  using assms(1,2)
proof (induction k arbitrary: c n)
  case (Suc k)
  then obtain c1 where step: "push_step url_of push c c1" "(push_step url_of push ^^ k) c1 c'"
    using relpowp_Suc_D2 [OF Suc.prems(1)] by blast
  obtain m where "m < n" "push_budget b m c1" by (rule push_budget_step [OF step(1) Suc.prems(2) assms(3)])
  then show ?case using Suc.IH [OF step(2)] by fastforce
qed simp

text \<open>So every run with a permit can be continued to its end.\<close>

lemma push_can_end:
  assumes "push_budget b n c" and "\<And>url rel. within (push url rel) b" and "push_books m l c" and "0 < m"
    and "\<forall>p\<in>set (pp_tasks c). lock_free p" and "\<And>url rel. lock_free (push url rel)"
  shows "\<exists>c'. (push_step url_of push)\<^sup>*\<^sup>* c c' \<and> push_over c'"
  using assms(1,3,5)
proof (induction n arbitrary: c rule: less_induct)
  case (less n)
  show ?case
  proof (cases "push_over c")
    case False
    then obtain c1 where step: "push_step url_of push c c1" using push_progress less.prems(2,3) assms(4) by blast
    obtain k where "k < n" "push_budget b k c1" by (rule push_budget_step [OF step less.prems(1) assms(2)])
    then obtain c' where "(push_step url_of push)\<^sup>*\<^sup>* c1 c'" "push_over c'"
      using less.IH push_books_step [OF step less.prems(2)] lock_free_tasks [OF step less.prems(3) assms(6)] by blast
    then show ?thesis using converse_rtranclp_into_rtranclp [of "push_step url_of push", OF step] by blast
  qed blast
qed

section \<open>One permit\<close>

text \<open>What is left of a run in sequence, after the results \<open>rs\<close>.\<close>

definition after_results :: "'r list \<Rightarrow> ('e + 'r list) \<times> 'w \<Rightarrow> ('e + 'r list) \<times> 'w" where
  "after_results rs = (\<lambda>(r, w). (case r of Inl e \<Rightarrow> Inl e | Inr rs' \<Rightarrow> Inr (rs @ rs'), w))"

lemma after_results_simps [simp]:
  "after_results [] x = x" "after_results rs (after_results rs' x) = after_results (rs @ rs') x"
  by (auto simp: after_results_def split: prod.split sum.split)

lemma push_files_Cons: "url_of rel = Inr url \<Longrightarrow> push_files url_of push (rel # rels) w =
    (case push url rel w of (r, w1) \<Rightarrow> after_results [r] (push_files url_of push rels w1))"
  by (auto simp: after_results_def split: prod.split sum.split)

definition in_sequence ::
  "(path \<Rightarrow> string + string) \<Rightarrow> (string \<Rightarrow> path \<Rightarrow> ('w, cli_error + push_outcome) thread) \<Rightarrow> path list \<Rightarrow> 'w \<Rightarrow>
   'w push_pool \<Rightarrow> bool" where
  "in_sequence url_of push files w c \<longleftrightarrow>
     pp_permits c + length (pp_tasks c) = 1 \<and> (\<forall>p\<in>set (pp_tasks c). lock_free p) \<and>
     push_files url_of (\<lambda>url rel. run (push url rel)) files w =
       (case pp_error c of
          Some e \<Rightarrow> (Inl e, pp_world c)
        | None \<Rightarrow> after_results (pp_results c)
            (case pp_tasks c of
               [] \<Rightarrow> push_files url_of (\<lambda>url rel. run (push url rel)) (pp_files c) (pp_world c)
             | p # ps \<Rightarrow> (case run p (pp_world c) of (r, w1) \<Rightarrow>
                 after_results [r] (push_files url_of (\<lambda>url rel. run (push url rel)) (pp_files c) w1))))"

lemma in_sequence_step:
  assumes "push_step url_of push c c'" and "in_sequence url_of push files w c" and "\<And>url rel. lock_free (push url rel)"
  shows "in_sequence url_of push files w c'"
proof -
  have lock_free: "\<forall>p\<in>set (pp_tasks c'). lock_free p"
    using lock_free_tasks [OF assms(1) _ assms(3)] assms(2) by (simp add: in_sequence_def)
  show ?thesis
    using assms(1,2) lock_free
  proof (induction rule: push_step.induct)
    case (push_spawn c rel rels url)
    then have "pp_tasks c = []" by (cases "pp_tasks c") (simp_all add: in_sequence_def)
    then show ?case using push_spawn by (simp add: in_sequence_def push_files_Cons del: push_files.simps)
  next
    case (push_no_url c rel rels e)
    then have "pp_tasks c = []" by (cases "pp_tasks c") (simp_all add: in_sequence_def)
    then show ?case using push_no_url by (simp add: in_sequence_def after_results_def)
  next
    case (push_atomic c i k p w1)
    then obtain q where "pp_tasks c = [q]" "i = 0"
      by (cases "pp_tasks c") (auto simp: in_sequence_def)
    then show ?case using push_atomic by (simp add: in_sequence_def)
  next
    case (push_return c i r)
    then obtain q where "pp_tasks c = [q]" "i = 0"
      by (cases "pp_tasks c") (auto simp: in_sequence_def)
    then show ?case using push_return by (simp add: in_sequence_def)
  qed
qed

lemma in_sequence_steps:
  assumes "(push_step url_of push)\<^sup>*\<^sup>* (push_start 1 files w) c" and "\<And>url rel. lock_free (push url rel)"
  shows "in_sequence url_of push files w c"
  using assms(1)
proof (induction rule: rtranclp_induct)
  case base
  then show ?case by (simp add: in_sequence_def push_start_def)
next
  case (step c c')
  show ?case by (rule in_sequence_step [OF step(2) step.IH assms(2)])
qed

section \<open>The properties\<close>

text \<open>What \<open>run\<close> reports when the last task has ended.\<close>

definition push_report :: "nat \<Rightarrow> 'w push_pool \<Rightarrow> cli_error + push_summary" where
  "push_report n c = (case pp_error c of Some e \<Rightarrow> Inl e | None \<Rightarrow> Inr (summary n (pp_results c)))"

text \<open>
  C35 (liveness). With at least one permit every run of \<open>push\<close> ends, whatever the interleaving of its tasks: after at most
  18 steps per file and one more nothing is left to do, before that there always is a next step, no more
  tasks than permits exist at any time, and the summary of a run that ends without an error counts every
  file exactly once.
\<close>

theorem concurrent_push_finishes:
  assumes "0 < concurrency" and "length files < 2 ^ 64"
    and "(push_step url_of (push_task status_text sha256 net dir auth dry_run) ^^ k) (push_start concurrency files w) c"
  shows "k \<le> 18 * length files + 1 \<and> length (pp_tasks c) \<le> concurrency \<and>
    (push_over c \<or> (\<exists>c'. push_step url_of (push_task status_text sha256 net dir auth dry_run) c c')) \<and>
    (\<forall>s. push_over c \<longrightarrow> push_report (length files) c = Inr s \<longrightarrow>
       unat (ps_pushed s) + unat (ps_skipped s) + unat (ps_failed s) = length files)"
proof -
  let ?push = "push_task status_text sha256 net dir auth dry_run"
  have reach: "(push_step url_of ?push)\<^sup>*\<^sup>* (push_start concurrency files w) c"
    using assms(3) by (rule relpowp_imp_rtranclp)
  have books: "push_books concurrency (length files) c"
    using reach by (induction rule: rtranclp_induct) (simp_all add: push_books_start push_books_step)
  have free: "\<forall>p\<in>set (pp_tasks c). lock_free p"
    using reach
  proof (induction rule: rtranclp_induct)
    case (step y z)
    then show ?case using lock_free_tasks [OF step(2)] lock_free_push_one by blast
  qed (simp add: push_start_def)
  have "push_budget 16 (1 + length files * 18) (push_start concurrency files w)"
    by (simp add: push_budget_def push_start_def)
  from push_steps_bounded [OF assms(3) this within_push_one] have "k \<le> 18 * length files + 1" by simp
  moreover have "unat (ps_pushed s) + unat (ps_skipped s) + unat (ps_failed s) = length files"
    if over: "push_over c" and s: "push_report (length files) c = Inr s" for s
  proof -
    have "pp_error c = None" "s = summary (length files) (pp_results c)"
      using s by (auto simp: push_report_def split: option.splits)
    moreover have "length (pp_results c) = length files"
      using over books calculation(1) by (simp add: push_over_def push_books_def)
    ultimately show ?thesis
      using summary_counts_every_file [of "pp_results c" "length files"] assms(2) by simp
  qed
  ultimately show ?thesis
    using push_progress [OF books assms(1) free] books by (auto simp: push_books_def)
qed

text \<open>A net without a server, on which every request fails.\<close>

definition dead_net :: "unit net" where
  "dead_net = \<lparr>nt_send = (\<lambda>_ w. (Inl ''refused'', w)), nt_read = (\<lambda>_ w. (Inr [], w)), nt_sleep = (\<lambda>_ w. w)\<rparr>"

abbreviation dead_push :: "string \<Rightarrow> path \<Rightarrow> (unit, cli_error + push_outcome) thread" where
  "dead_push \<equiv> push_task (\<lambda>_. []) (\<lambda>_. ''0'') dead_net [] ''Basic'' False"

theorem concurrent_push_finishes_witness:
  "\<exists>c. (push_step (\<lambda>_. Inr ''url'') dead_push ^^ 2) (push_start 2 [[''a''], [''b'']] ()) c \<and>
     length (pp_tasks c) = 2 \<and> (\<exists>c'. push_step (\<lambda>_. Inr ''url'') dead_push c c')"
proof -
  let ?url = "\<lambda>_. Inr ''url''" and ?task = "\<lambda>rel. dead_push ''url'' rel"
  let ?c0 = "push_start 2 [[''a''], [''b'']] ()"
  let ?c1 = "?c0\<lparr>pp_files := [[''b'']], pp_permits := 1, pp_tasks := [?task [''a'']]\<rparr>"
  let ?c2 = "?c0\<lparr>pp_files := [], pp_permits := 0, pp_tasks := [?task [''a''], ?task [''b'']]\<rparr>"
  have "push_step ?url dead_push ?c0 ?c1"
    using push_spawn [of ?c0 "[''a'']" "[[''b'']]" ?url "''url''" dead_push] by (simp add: push_start_def)
  moreover have "push_step ?url dead_push ?c1 ?c2"
    using push_spawn [of ?c1 "[''b'']" "[]" ?url "''url''" dead_push] by (simp add: push_start_def)
  ultimately have two: "(push_step ?url dead_push ^^ 2) ?c0 ?c2" by (auto simp: numeral_2_eq_2)
  have "\<not> push_over ?c2" by (simp add: push_over_def push_start_def)
  then have "\<exists>c'. push_step ?url dead_push ?c2 c'"
    using concurrent_push_finishes [OF _ _ two] by simp
  then show ?thesis using two by (intro exI [of _ ?c2]) simp
qed

text \<open>
  (equivalence). With \<open>--concurrency 1\<close> the tasks run one after the other: a run that is over has the
  results, the error and the world of the loop that pushes the files in order.
\<close>

theorem one_permit_is_sequential:
  assumes "(push_step url_of (push_task status_text sha256 net dir auth dry_run))\<^sup>*\<^sup>* (push_start 1 files w) c"
    and "push_over c"
  shows "push_files url_of (\<lambda>url rel. push_one status_text sha256 net url (dir @ rel) auth dry_run) files w =
    (case pp_error c of Some e \<Rightarrow> Inl e | None \<Rightarrow> Inr (pp_results c), pp_world c)"
proof -
  have "run (push_task status_text sha256 net dir auth dry_run url rel) =
      push_one status_text sha256 net url (dir @ rel) auth dry_run" for url rel
    by (rule ext) (rule run_push_one)
  then show ?thesis
    using in_sequence_steps [OF assms(1) lock_free_push_one] assms(2)
    by (auto simp: in_sequence_def push_over_def after_results_def split: option.splits)
qed

text \<open>
  (liveness, a defect). With \<open>--concurrency 0\<close>, which the command line accepts, a run with a file to push never ends:
  no step is possible, neither a task nor an error.
\<close>

theorem no_permit_hangs:
  assumes "files \<noteq> []" and "(push_step url_of push)\<^sup>*\<^sup>* (push_start 0 files w) c"
  shows "c = push_start 0 files w \<and> \<not> push_over c \<and> (\<nexists>c'. push_step url_of push c c')"
proof -
  have stuck: "\<nexists>c'. push_step url_of push (push_start 0 files w) c'"
    by (auto simp: push_start_def elim!: push_stepE)
  then have "c = push_start 0 files w" using assms(2) by (blast elim: converse_rtranclpE)
  then show ?thesis using stuck assms(1) by (simp add: push_over_def push_start_def)
qed

end
