(* ===== verification/Command_Line.thy ===== *)
theory Command_Line
  imports Startup_Properties Push_Threads
begin

text \<open>
  The program \<open>marmotte\<close> (\<open>main.rs\<close>, \<open>cli.rs\<close>): what the attributes in \<open>cli.rs\<close> make of a command line,
  the dispatch to the three commands and the exit code. Splitting the command line into
  subcommand and values is clap, a parameter.
\<close>

section \<open>The command line\<close>

datatype cmd =
    CmdServe string
  | CmdInit string "string option"
  | CmdPush string string string string nat bool string

text \<open>
  What the process finds and the libraries it is built with: clap (an exit code where it answers by
  itself, otherwise the subcommand and the text given for each of its arguments), the parsers of URLs and
  of \<open>usize\<close>, the environment with the configuration file at a path, paths, directories, and what \<open>init\<close>,
  \<open>serve\<close> and \<open>push\<close> meet.
\<close>

record 'w shell =
  sh_clap :: "string list \<Rightarrow> nat + string \<times> (string \<Rightarrow> string option)"
  sh_url :: "string \<Rightarrow> string option"
  sh_usize :: "string \<Rightarrow> nat option"
  sh_env :: "string \<Rightarrow> environment"
  sh_path :: "string \<Rightarrow> path"
  sh_tree :: "string \<Rightarrow> node"
  sh_join :: "string \<Rightarrow> string \<Rightarrow> string + string"
  sh_encode :: "string \<Rightarrow> string"
  sh_status_text :: "nat \<Rightarrow> string"
  sh_sha256 :: "bytes \<Rightarrow> string"
  sh_net :: "'w net"
  sh_init :: init_args
  sh_faults :: "path \<Rightarrow> io_error option"
  sh_bind_fault :: "io_error option"

text \<open>\<open>default_value\<close>, \<open>default_value_t\<close>, \<open>value_parser\<close> and the types of the arguments.\<close>

definition config_arg :: "(string \<Rightarrow> string option) \<Rightarrow> string" where
  "config_arg v = (case v ''config'' of None \<Rightarrow> ''/etc/marmotte/config.toml'' | Some c \<Rightarrow> c)"

definition push_args :: "'w shell \<Rightarrow> (string \<Rightarrow> string option) \<Rightarrow> cmd option" where
  "push_args sh v =
     Option.bind (v ''project'') (\<lambda>project.
     Option.bind (v ''kind'') (\<lambda>kind.
     if kind \<notin> {''sstate'', ''downloads''} then None
     else
       Option.bind (Option.bind (v ''base-url'') (sh_url sh)) (\<lambda>base_url.
       Option.bind (v ''api-key'') (\<lambda>api_key.
       Option.bind (case v ''concurrency'' of None \<Rightarrow> Some 8 | Some t \<Rightarrow> sh_usize sh t) (\<lambda>concurrency.
       Option.bind (v ''dir'') (\<lambda>dir.
       Some (CmdPush project kind base_url api_key concurrency (v ''dry-run'' \<noteq> None) dir)))))))"

definition cmd_of :: "'w shell \<Rightarrow> string \<times> (string \<Rightarrow> string option) \<Rightarrow> cmd option" where
  "cmd_of sh = (\<lambda>(name, v).
     if name = ''serve'' then Some (CmdServe (config_arg v))
     else if name = ''init'' then Some (CmdInit (config_arg v) (v ''admin-token-out''))
     else if name = ''push'' then push_args sh v
     else None)"

text \<open>\<open>Cli::parse\<close>; a value that is missing or refused ends the process with the code 2.\<close>

definition cli_parse :: "'w shell \<Rightarrow> string list \<Rightarrow> nat + cmd" where
  "cli_parse sh argv =
     (case sh_clap sh argv of
        Inl code \<Rightarrow> Inl code
      | Inr m \<Rightarrow> (case cmd_of sh m of None \<Rightarrow> Inl 2 | Some cmd \<Rightarrow> Inr cmd))"

section \<open>The process\<close>

text \<open>\<open>push::run\<close> with its tasks interleaved: the answers it may end with.\<close>

inductive push_ends ::
  "'w shell \<Rightarrow> string \<Rightarrow> string \<Rightarrow> string \<Rightarrow> string \<Rightarrow> nat \<Rightarrow> bool \<Rightarrow> string \<Rightarrow>
   'w \<Rightarrow> cli_error + push_summary \<Rightarrow> 'w \<Rightarrow> bool"
  for sh project kind base_url api_key concurrency dry_run dir where
  ends_walk: "walk [] (sh_tree sh dir) [] = Inl e \<Longrightarrow>
    push_ends sh project kind base_url api_key concurrency dry_run dir w (Inl e) w"
| ends_push: "\<lbrakk>walk [] (sh_tree sh dir) [] = Inr files;
     (push_step (\<lambda>rel. sh_join sh base_url (file_url kind project rel))
        (push_task (sh_status_text sh) (sh_sha256 sh) (sh_net sh) (sh_path sh dir)
           (auth_header (sh_encode sh) project api_key) dry_run))\<^sup>*\<^sup>* (push_start concurrency files w) c;
     push_over c\<rbrakk> \<Longrightarrow>
    push_ends sh project kind base_url api_key concurrency dry_run dir w (push_report (length files) c) (pp_world c)"

inductive_cases push_endsE: "push_ends sh project kind base_url api_key concurrency dry_run dir w r w'"

text \<open>An error of \<open>main\<close> is exit code 1, a panic 101; \<open>push\<close> exits with 1 itself when a file failed.\<close>

fun exit_code :: "'a cli_outcome \<Rightarrow> nat" where
  "exit_code (CliOk a) = 0"
| "exit_code (CliErr e) = 1"
| "exit_code CliPanic = 101"

fun push_exit_code :: "cli_error + push_summary \<Rightarrow> nat" where
  "push_exit_code (Inl e) = 1"
| "push_exit_code (Inr s) = ps_exit s"

definition init_with :: "'w shell \<Rightarrow> string option \<Rightarrow> init_args" where
  "init_with sh token_out = (sh_init sh)\<lparr>ia_token_out := map_option (sh_path sh) token_out\<rparr>"

text \<open>
  The exit codes \<open>main\<close> may end with, and the machine and the world it leaves. A server that has started meets anything
  until a signal ends it.
\<close>

inductive main_ends :: "'w shell \<Rightarrow> string list \<Rightarrow> host \<times> 'w \<Rightarrow> nat \<Rightarrow> host \<times> 'w \<Rightarrow> bool" for sh argv where
  main_refused: "cli_parse sh argv = Inl code \<Longrightarrow> main_ends sh argv (h, w) code (h, w)"
| main_not_served: "\<lbrakk>cli_parse sh argv = Inr (CmdServe config);
     serve_run (sh_env sh config) (sh_faults sh) (sh_bind_fault sh) h = (r, h'); \<forall>s. r \<noteq> CliOk s\<rbrakk> \<Longrightarrow>
    main_ends sh argv (h, w) (exit_code r) (h', w)"
| main_served: "\<lbrakk>cli_parse sh argv = Inr (CmdServe config);
     serve_run (sh_env sh config) (sh_faults sh) (sh_bind_fault sh) h = (CliOk (sv, s), h');
     (server_step sv)\<^sup>*\<^sup>* s s'\<rbrakk> \<Longrightarrow>
    main_ends sh argv (h, w) 0 (stopped (sh_env sh config) s' sv h', w)"
| main_init: "\<lbrakk>cli_parse sh argv = Inr (CmdInit config token_out);
     init_run (sh_env sh config) (init_with sh token_out) h = (r, h')\<rbrakk> \<Longrightarrow>
    main_ends sh argv (h, w) (exit_code r) (h', w)"
| main_push: "\<lbrakk>cli_parse sh argv = Inr (CmdPush project kind base_url api_key concurrency dry_run dir);
     push_ends sh project kind base_url api_key concurrency dry_run dir w r w'\<rbrakk> \<Longrightarrow>
    main_ends sh argv (h, w) (push_exit_code r) (h, w')"

inductive_cases main_endsE: "main_ends sh argv hw code hw'"

section \<open>When the program ends\<close>

lemma main_ends_push:
  assumes "cli_parse sh argv = Inr (CmdPush project kind base_url api_key concurrency dry_run dir)"
  shows "main_ends sh argv (h, w) code (h', w') \<longleftrightarrow> h' = h \<and>
    (\<exists>r. code = push_exit_code r \<and> push_ends sh project kind base_url api_key concurrency dry_run dir w r w')"
  using assms by (auto elim!: main_endsE intro: main_push)

lemma push_ends_permits:
  assumes "walk [] (sh_tree sh dir) [] = Inr files"
  shows "(\<exists>r w'. push_ends sh project kind base_url api_key concurrency dry_run dir w r w') \<longleftrightarrow> 0 < concurrency \<or> files = []"
proof -
  let ?push = "push_task (sh_status_text sh) (sh_sha256 sh) (sh_net sh) (sh_path sh dir)
      (auth_header (sh_encode sh) project api_key) dry_run"
  let ?url = "\<lambda>rel. sh_join sh base_url (file_url kind project rel)"
  have iff: "(\<exists>r w'. push_ends sh project kind base_url api_key concurrency dry_run dir w r w') \<longleftrightarrow>
      (\<exists>c. (push_step ?url ?push)\<^sup>*\<^sup>* (push_start concurrency files w) c \<and> push_over c)"
    using assms by (auto elim!: push_endsE intro: ends_push)
  show ?thesis
  proof (cases "0 < concurrency")
    case True
    have "push_budget 16 (1 + length files * 18) (push_start concurrency files w)"
      by (simp add: push_budget_def push_start_def)
    then have "\<exists>c. (push_step ?url ?push)\<^sup>*\<^sup>* (push_start concurrency files w) c \<and> push_over c"
      by (rule push_can_end [OF _ within_push_one push_books_start True _ lock_free_push_one]) (simp add: push_start_def)
    then show ?thesis using iff True by blast
  next
    case False
    show ?thesis
    proof (cases "files = []")
      case True
      then have "push_over (push_start concurrency files w)" by (simp add: push_over_def push_start_def)
      then show ?thesis using iff True by blast
    next
      case False
      then have "\<not> push_over c" if "(push_step ?url ?push)\<^sup>*\<^sup>* (push_start 0 files w) c" for c
        using no_permit_hangs [OF False that] by blast
      then show ?thesis using iff False \<open>\<not> 0 < concurrency\<close> by auto
    qed
  qed
qed


definition idle_shell :: "unit shell" where
  "idle_shell =
     \<lparr>sh_clap = (\<lambda>argv. Inr (''push'', map_of
        [(''project'', ''acme''), (''kind'', ''sstate''), (''base-url'', ''http://h/''), (''api-key'', ''k''),
         (''concurrency'', ''0''), (''dir'', ''d'')])),
      sh_url = Some, sh_usize = (\<lambda>t. if t = ''0'' then Some 0 else None), sh_env = (\<lambda>_. sample_environment), sh_path = (\<lambda>p. [p]),
      sh_tree = (\<lambda>_. DirNode None [(''f'', FileNode)] None), sh_join = (\<lambda>_. Inr), sh_encode = id,
      sh_status_text = (\<lambda>_. []), sh_sha256 = (\<lambda>_. ''0''), sh_net = dead_net, sh_init = sample_init,
      sh_faults = (\<lambda>_. None), sh_bind_fault = None\<rparr>"

lemma idle_parse:
  "cli_parse idle_shell argv = Inr (CmdPush ''acme'' ''sstate'' ''http://h/'' ''k'' 0 False ''d'')"
  by (simp add: cli_parse_def idle_shell_def cmd_of_def push_args_def)


text \<open>
  (functional). The exit code of a push is 0 exactly if every file in the directory was uploaded or was there already.
\<close>

theorem push_exit_code_tells_failures:
  assumes "cli_parse sh argv = Inr (CmdPush project kind base_url api_key concurrency dry_run dir)"
    and "main_ends sh argv hw 0 hw'" and "\<forall>files. walk [] (sh_tree sh dir) [] = Inr files \<longrightarrow> length files < 2 ^ 64"
  shows "\<exists>files c. walk [] (sh_tree sh dir) [] = Inr files \<and>
    (push_step (\<lambda>rel. sh_join sh base_url (file_url kind project rel))
      (push_task (sh_status_text sh) (sh_sha256 sh) (sh_net sh) (sh_path sh dir)
         (auth_header (sh_encode sh) project api_key) dry_run))\<^sup>*\<^sup>* (push_start concurrency files (snd hw)) c \<and>
    length (pp_results c) = length files \<and> (\<forall>r\<in>set (pp_results c). r = Inr Pushed \<or> r = Inr Skipped)"
proof -
  let ?push = "push_task (sh_status_text sh) (sh_sha256 sh) (sh_net sh) (sh_path sh dir)
      (auth_header (sh_encode sh) project api_key) dry_run"
  let ?url = "\<lambda>rel. sh_join sh base_url (file_url kind project rel)"
  obtain h w h' w' where hw: "hw = (h, w)" "hw' = (h', w')" by fastforce
  obtain r where r: "push_exit_code r = 0" "push_ends sh project kind base_url api_key concurrency dry_run dir w r w'"
    using assms(2) unfolding hw main_ends_push [OF assms(1)] by auto
  from r(2) obtain files c where run: "walk [] (sh_tree sh dir) [] = Inr files"
      "(push_step ?url ?push)\<^sup>*\<^sup>* (push_start concurrency files w) c" "push_over c" "r = push_report (length files) c"
    by (cases rule: push_endsE) (use r(1) in auto)
  have books: "push_books concurrency (length files) c"
    using run(2) by (induction rule: rtranclp_induct) (simp_all add: push_books_start push_books_step)
  have ok: "pp_error c = None" "ps_exit (summary (length files) (pp_results c)) = 0"
    using r(1) unfolding run(4) push_report_def by (cases "pp_error c"; simp)+
  have len: "length (pp_results c) = length files"
    using books run(3) ok(1) by (simp add: push_books_def push_over_def)
  then have "\<not> (\<exists>r\<in>set (pp_results c). isl r)"
    using summary_counts_every_file [of "pp_results c" "length files"] assms(3) run(1) ok(2) by auto
  then have "\<forall>r\<in>set (pp_results c). r = Inr Pushed \<or> r = Inr Skipped"
    by (metis isl_def obj_sumE push_outcome.exhaust)
  then show ?thesis using run(1,2) len hw by auto
qed

text \<open>A kind that the command line accepts is one the server has.\<close>

lemma pushed_kind:
  assumes "cli_parse sh argv = Inr (CmdPush project kind base_url api_key concurrency dry_run dir)"
  obtains k where "kind_from_str kind = Ok k"
  using assms that
  by (auto simp: cli_parse_def cmd_of_def push_args_def kind_from_str_def bind_eq_Some_conv
      split: sum.splits option.splits if_splits)

end
